(* ===== verification/Smtdv_Prelude.thy ===== *)
theory Smtdv_Prelude
  imports Main "HOL-Library.Word" "HOL-Library.Char_ord" "HOL-Library.List_Lexorder"
begin

text \<open>
  Shared vocabulary of the development: the ways a C++ operation can fail, the result
  type that carries them, the ordered association list that models \<open>std::map\<close>, and
  the conversion of a \<open>size_t\<close> to \<open>int\<close>. Everything here is used by several
  components; nothing here models one of them.
\<close>

section \<open>Failures as values\<close>

text \<open>
  \<open>Exit_Failure\<close> is a call of \<open>exit(-1)\<close>, \<open>Assert_Failure\<close> a failed
  \<open>assert\<close>. The others are the undefined behaviours the modelled code can run into:
  reading through a null or a dangling pointer, reading an object that was never
  initialised, leaving a value-returning function without a \<open>return\<close>, moving or
  comparing an iterator outside its range, indexing a vector outside its size, a C++ throw
  that no one catches, a number too large for \<open>atoi\<close>.
\<close>

datatype cpp_error =
    Exit_Failure
  | Assert_Failure
  | Null_Deref
  | Dangling_Ptr
  | Uninit_Read
  | Missing_Return
  | Bad_Iterator
  | Bad_Index
  | Cpp_Throw
  | Int_Overflow

type_synonym 'a res = "cpp_error + 'a"

fun bind_res :: "'a res \<Rightarrow> ('a \<Rightarrow> 'b res) \<Rightarrow> 'b res" where
  "bind_res (Inl e) f = Inl e"
| "bind_res (Inr x) f = f x"

lemma bind_res_cong [fundef_cong]:
  assumes "m = m'" and "\<And>x. m' = Inr x \<Longrightarrow> f x = f' x"
  shows "bind_res m f = bind_res m' f'"
  using assms by (cases m') auto

lemma bind_res_Inr_iff:
  "bind_res m f = Inr y \<longleftrightarrow> (\<exists>x. m = Inr x \<and> f x = Inr y)"
  by (cases m) auto

lemma bind_res_InrE:
  assumes "bind_res m f = Inr y"
  obtains x where "m = Inr x" and "f x = Inr y"
  using assms by (auto simp: bind_res_Inr_iff)

lemma bind_res_assoc: "bind_res (bind_res m f) g = bind_res m (\<lambda>x. bind_res (f x) g)"
  by (cases m) auto

lemma bind_res_Inr_right [simp]: "bind_res m Inr = m"
  by (cases m) auto

text \<open>\<open>assert(b)\<close>.\<close>

definition assert_res :: "bool \<Rightarrow> unit res" where
  "assert_res b = (if b then Inr () else Inl Assert_Failure)"

lemma assert_res_simps [simp]:
  "assert_res True = Inr ()"
  "assert_res False = Inl Assert_Failure"
  "assert_res b = Inr u \<longleftrightarrow> b"
  by (simp_all add: assert_res_def)

text \<open>A loop over a list that threads a state and stops at the first failure.\<close>

fun fold_res :: "('a \<Rightarrow> 's \<Rightarrow> 's res) \<Rightarrow> 'a list \<Rightarrow> 's \<Rightarrow> 's res" where
  "fold_res f [] s = Inr s"
| "fold_res f (x # xs) s = bind_res (f x s) (fold_res f xs)"

lemma fold_res_append: "fold_res f (xs @ ys) s = bind_res (fold_res f xs s) (fold_res f ys)"
proof (induction xs arbitrary: s)
  case (Cons x xs)
  then show ?case by (cases "f x s") simp_all
qed simp

lemma fold_res_invariant:
  assumes "fold_res f xs s = Inr s'" and "I s"
    and "\<And>x s s'. x \<in> set xs \<Longrightarrow> I s \<Longrightarrow> f x s = Inr s' \<Longrightarrow> I s'"
  shows "I s'"
  using assms by (induction xs arbitrary: s) (auto simp: bind_res_Inr_iff)

lemma fold_res_InrD:
  "fold_res f xs s = Inr s' \<Longrightarrow> x \<in> set xs \<Longrightarrow> \<exists>t t'. f x t = Inr t'"
  by (induction xs arbitrary: s) (auto simp: bind_res_Inr_iff)

text \<open>A loop that collects results.\<close>

fun map_res :: "('a \<Rightarrow> 'b res) \<Rightarrow> 'a list \<Rightarrow> 'b list res" where
  "map_res f [] = Inr []"
| "map_res f (x # xs) = bind_res (f x) (\<lambda>y. bind_res (map_res f xs) (\<lambda>ys. Inr (y # ys)))"

lemma map_res_ok:
  assumes "\<And>x. x \<in> set xs \<Longrightarrow> f x = Inr (g x)"
  shows "map_res f xs = Inr (map g xs)"
  using assms by (induction xs) auto

section \<open>Addresses\<close>

text \<open>A pointer is an address; the null pointer is address 0, which no allocation returns.\<close>

type_synonym addr = nat

abbreviation (input) null :: addr where "null \<equiv> 0"

text \<open>Reading through a pointer into a typed region of the heap.\<close>

definition deref :: "(addr \<rightharpoonup> 'a) \<Rightarrow> addr \<Rightarrow> 'a res" where
  "deref h p =
     (if p = null then Inl Null_Deref
      else case h p of None \<Rightarrow> Inl Dangling_Ptr | Some x \<Rightarrow> Inr x)"

lemma deref_Inr_iff: "deref h p = Inr x \<longleftrightarrow> p \<noteq> null \<and> h p = Some x"
  by (auto simp: deref_def split: option.splits)

lemma deref_Some [simp]: "p \<noteq> null \<Longrightarrow> h p = Some x \<Longrightarrow> deref h p = Inr x"
  by (simp add: deref_def)

lemma deref_None [simp]: "p \<noteq> null \<Longrightarrow> h p = None \<Longrightarrow> deref h p = Inl Dangling_Ptr"
  by (simp add: deref_def)

lemma deref_null [simp]: "deref h 0 = Inl Null_Deref"
  by (simp add: deref_def)

text \<open>\<open>delete\<close> of every object of a list of pointers.\<close>

definition free_all :: "(addr \<rightharpoonup> 'a) \<Rightarrow> addr list \<Rightarrow> (addr \<rightharpoonup> 'a)" where
  "free_all h ps = (\<lambda>a. if a \<in> set ps then None else h a)"

lemma free_all_apply: "free_all h ps a = (if a \<in> set ps then None else h a)"
  by (simp add: free_all_def)

lemma free_all_Nil [simp]: "free_all h [] = h"
  by (simp add: free_all_def)

lemma dom_free_all: "dom (free_all h ps) = dom h - set ps"
  by (auto simp: free_all_def dom_def split: if_splits)

section \<open>\<open>size_t\<close> returned as \<open>int\<close>\<close>

definition size_to_int :: "nat \<Rightarrow> int" where
  "size_to_int n = sint (word_of_nat n :: 32 word)"

lemma size_to_int_small: "n < 2147483648 \<Longrightarrow> size_to_int n = int n"
  by (simp add: size_to_int_def signed_of_nat signed_take_bit_int_eq_self)

section \<open>Ordered maps\<close>

text \<open>
  The interface the components use of \<open>std::map\<close>: \<open>find\<close>, the assignment
  \<open>m[k] = v\<close>, \<open>erase\<close>, and iteration in key order (\<open>keys\<close>).
\<close>

locale ordered_store =
  fixes find :: "'m \<Rightarrow> 'k::linorder \<Rightarrow> 'v option"
    and put :: "'k \<Rightarrow> 'v \<Rightarrow> 'm \<Rightarrow> 'm"
    and erase :: "'k \<Rightarrow> 'm \<Rightarrow> 'm"
    and keys :: "'m \<Rightarrow> 'k list"
    and ok :: "'m \<Rightarrow> bool"
  assumes find_put: "find (put k v m) = (find m)(k \<mapsto> v)"
    and find_erase: "find (erase k m) = (find m)(k := None)"
    and ok_put: "ok m \<Longrightarrow> ok (put k v m)"
    and ok_erase: "ok m \<Longrightarrow> ok (erase k m)"
    and keys_sorted: "ok m \<Longrightarrow> sorted_wrt (<) (keys m)"
    and set_keys: "set (keys m) = dom (find m)"
begin

lemma find_put_same: "find (put k v m) k = Some v"
  by (simp add: find_put)

lemma find_put_other: "k \<noteq> k' \<Longrightarrow> find (put k v m) k' = find m k'"
  by (simp add: find_put)

lemma find_erase_same: "find (erase k m) k = None"
  by (simp add: find_erase)

lemma dom_put: "dom (find (put k v m)) = insert k (dom (find m))"
  by (simp add: find_put)

lemma ok_keys_eq:
  assumes "ok m" and "ok m'" and "dom (find m) = dom (find m')"
  shows "keys m = keys m'"
proof (rule sorted_distinct_set_unique)
  show "sorted (keys m)" "distinct (keys m)" "sorted (keys m')" "distinct (keys m')"
    using keys_sorted [OF assms(1)] keys_sorted [OF assms(2)] by (simp_all add: strict_sorted_iff)
  show "set (keys m) = set (keys m')"
    using assms(3) by (simp add: set_keys)
qed

lemma keys_put_present:
  assumes "ok m" and "find m k \<noteq> None"
  shows "keys (put k v m) = keys m"
  by (rule ok_keys_eq) (use assms in \<open>auto simp: ok_put find_put domIff\<close>)

end

text \<open>The model of \<open>std::map\<close>: an association list kept strictly sorted by key.\<close>

fun map_put :: "'k::linorder \<Rightarrow> 'v \<Rightarrow> ('k \<times> 'v) list \<Rightarrow> ('k \<times> 'v) list" where
  "map_put k v [] = [(k, v)]"
| "map_put k v ((k', v') # xs) =
     (if k < k' then (k, v) # (k', v') # xs
      else if k = k' then (k, v) # xs
      else (k', v') # map_put k v xs)"

fun map_erase :: "'k \<Rightarrow> ('k \<times> 'v) list \<Rightarrow> ('k \<times> 'v) list" where
  "map_erase k [] = []"
| "map_erase k ((k', v') # xs) = (if k = k' then map_erase k xs else (k', v') # map_erase k xs)"

definition map_ok :: "('k::linorder \<times> 'v) list \<Rightarrow> bool" where
  "map_ok m = sorted_wrt (<) (map fst m)"

lemma map_of_map_put: "map_of (map_put k v m) = (map_of m)(k \<mapsto> v)"
  by (induction k v m rule: map_put.induct) (auto simp: fun_eq_iff)

lemma map_of_map_erase: "map_of (map_erase k m) = (map_of m)(k := None)"
  by (induction k m rule: map_erase.induct) (auto simp: fun_eq_iff)

lemma set_map_put_subset: "set (map_put k v m) \<subseteq> insert (k, v) (set m)"
  by (induction k v m rule: map_put.induct) auto

lemma keys_map_put: "fst ` set (map_put k v m) = insert k (fst ` set m)"
proof (induction m)
  case (Cons p m)
  then show ?case by (cases p) (simp add: insert_commute)
qed simp

lemma map_erase_filter: "map_erase k m = filter (\<lambda>p. fst p \<noteq> k) m"
proof (induction m)
  case (Cons p m)
  then show ?case by (cases p) simp
qed simp

lemma set_map_erase: "set (map_erase k m) = {p \<in> set m. fst p \<noteq> k}"
  by (simp add: map_erase_filter)

lemma map_ok_Nil [simp]: "map_ok []"
  by (simp add: map_ok_def)

lemma map_ok_put: "map_ok m \<Longrightarrow> map_ok (map_put k v m)"
proof (induction k v m rule: map_put.induct)
  case (1 k v)
  then show ?case by (simp add: map_ok_def)
next
  case (2 k v k' v' xs)
  have "map_ok xs" and k': "\<forall>x \<in> fst ` set xs. k' < x"
    using 2 by (auto simp: map_ok_def)
  moreover have "k' < x" if "\<not> k < k'" and "k \<noteq> k'" and "x \<in> fst ` set (map_put k v xs)" for x
    using that k' by (auto simp: keys_map_put)
  ultimately show ?case
    using 2 by (auto simp: map_ok_def intro: order_less_trans)
qed

lemma map_ok_erase: "map_ok m \<Longrightarrow> map_ok (map_erase k m)"
  by (induction k m rule: map_erase.induct) (auto simp: map_ok_def set_map_erase)

lemma map_ok_distinct: "map_ok m \<Longrightarrow> distinct (map fst m)"
  by (simp add: map_ok_def strict_sorted_iff)

interpretation std_map: ordered_store map_of map_put map_erase "map fst" map_ok
proof unfold_locales
  show "set (map fst m) = dom (map_of m)" for m :: "('a \<times> 'b) list"
    by (simp add: dom_map_of_conv_image_fst)
qed (auto simp: map_of_map_put map_of_map_erase map_ok_put map_ok_erase,
     simp add: map_ok_def)

text \<open>Updating every value, as a loop over the map that writes through \<open>it->second\<close>.\<close>

definition map_vals :: "('v \<Rightarrow> 'w) \<Rightarrow> ('k \<times> 'v) list \<Rightarrow> ('k \<times> 'w) list" where
  "map_vals f m = map (\<lambda>(k, v). (k, f v)) m"

lemma map_fst_map_vals [simp]: "map fst (map_vals f m) = map fst m"
  by (simp add: map_vals_def case_prod_beta)

lemma map_of_map_vals: "map_of (map_vals f m) k = map_option f (map_of m k)"
  by (induction m) (auto simp: map_vals_def)

lemma map_ok_map_vals [simp]: "map_ok (map_vals f m) = map_ok m"
  by (simp add: map_ok_def)

section \<open>Joining strings\<close>

text \<open>Specification of the comma lists the components print.\<close>

fun join :: "string \<Rightarrow> string list \<Rightarrow> string" where
  "join sep [] = []"
| "join sep [x] = x"
| "join sep (x # y # zs) = x @ sep @ join sep (y # zs)"

lemma join_Cons: "join sep (x # xs) = (if xs = [] then x else x @ sep @ join sep xs)"
  by (cases xs) auto

end
