(* ===== verification/Cpp_Streams.thy ===== *)
theory Cpp_Streams
  imports Smtdv_Prelude
begin

text \<open>
  The \<open>std::stringstream\<close> conversions of \<open>dpi/sqlite3/dpi_smtdv_util.h\<close> and of the head
  of \<open>dpi/stl/dpi_smtdv_wrapper.cpp\<close>: a number is written with \<open>ss << std::dec\<close> or
  \<open>ss << std::hex\<close> and read back with \<open>ss >> x\<close>. The extraction operators of the
  standard library are written out: leading white space is skipped; a string extraction
  stops at the next white space; an extraction that finds no character at all leaves its
  target unchanged (an uninitialised local variable here); a number extraction that finds
  no digit stores 0, one that overflows stores the largest value, and a minus sign negates
  modulo \<open>2^64\<close>. \<open>unsigned long\<close> is 64 bits wide.
\<close>

type_synonym ulong = "64 word"
type_synonym uint = "32 word"

section \<open>String extraction\<close>

definition is_space :: "char \<Rightarrow> bool" where
  "is_space c = (c \<in> {CHR '' '', CHR 0x09, CHR 0x0A, CHR 0x0B, CHR 0x0C, CHR 0x0D})"

definition skip_ws :: "string \<Rightarrow> string" where
  "skip_ws s = dropWhile is_space s"

text \<open>\<open>ss << s; ss >> w\<close> for a \<open>std::string w\<close> that is empty before.\<close>

definition extract_word :: "string \<Rightarrow> string" where
  "extract_word s = takeWhile (\<lambda>c. \<not> is_space c) (skip_ws s)"

lemma extract_word_no_space:
  "\<forall>c \<in> set s. \<not> is_space c \<Longrightarrow> extract_word s = s"
  by (induction s) (auto simp: extract_word_def skip_ws_def)

lemma set_extract_word: "c \<in> set (extract_word s) \<Longrightarrow> c \<in> set s \<and> \<not> is_space c"
  unfolding extract_word_def skip_ws_def
  by (metis set_dropWhileD set_takeWhileD)

lemma extract_word_idem: "extract_word (extract_word s) = extract_word s"
  by (rule extract_word_no_space) (use set_extract_word in blast)

text \<open>\<open>strcpy\<close> copies up to the first NUL character.\<close>

definition c_str :: "string \<Rightarrow> string" where
  "c_str s = takeWhile (\<lambda>c. c \<noteq> CHR 0x00) s"

section \<open>Digits\<close>

definition digit_char :: "nat \<Rightarrow> char" where
  "digit_char d = (''0123456789abcdef'' ! (d mod 16))"

text \<open>The value of a digit in a base of at most 16; \<open>None\<close> for any other character.\<close>

definition digit_val :: "nat \<Rightarrow> char \<Rightarrow> nat option" where
  "digit_val base c =
     (let n = (of_char c :: nat);
          v = (if 48 \<le> n \<and> n \<le> 57 then n - 48
               else if 97 \<le> n \<and> n \<le> 102 then n - 87
               else if 65 \<le> n \<and> n \<le> 70 then n - 55
               else 16)
      in if v < base then Some v else None)"

fun digits_value :: "nat \<Rightarrow> nat \<Rightarrow> string \<Rightarrow> nat" where
  "digits_value base acc [] = acc"
| "digits_value base acc (c # cs) =
     (case digit_val base c of
        None \<Rightarrow> acc
      | Some v \<Rightarrow> digits_value base (acc * base + v) cs)"

definition is_digit :: "nat \<Rightarrow> char \<Rightarrow> bool" where
  "is_digit base c = (digit_val base c \<noteq> None)"

function show_base :: "nat \<Rightarrow> nat \<Rightarrow> string" where
  "show_base base n =
     (if base < 2 \<or> n < base then [digit_char n]
      else show_base base (n div base) @ [digit_char (n mod base)])"
  by pat_completeness auto
termination
  by (relation "measure snd") auto

declare show_base.simps [simp del]

lemma less_16_cases:
  "(d::nat) < 16 \<Longrightarrow> d \<in> {0,1,2,3,4,5,6,7,8,9,10,11,12,13,14,15}"
  by (simp only: insert_iff empty_iff) presburger

lemma digit_val_digit_char:
  assumes "d < base" and "base \<le> 16"
  shows "digit_val base (digit_char d) = Some d"
proof -
  have "d \<in> {0,1,2,3,4,5,6,7,8,9,10,11,12,13,14,15}"
    using assms by (intro less_16_cases) simp
  then show ?thesis
    using assms by (auto simp: digit_val_def digit_char_def)
qed

lemma digit_char_not_space: "\<not> is_space (digit_char d)"
proof -
  have "d mod 16 \<in> {0,1,2,3,4,5,6,7,8,9,10,11,12,13,14,15}"
    by (intro less_16_cases) simp
  then show ?thesis
    by (auto simp: digit_char_def is_space_def)
qed

lemma digits_value_append:
  assumes "\<forall>c \<in> set xs. is_digit base c"
  shows "digits_value base acc (xs @ ys) = digits_value base (digits_value base acc xs) ys"
  using assms by (induction xs arbitrary: acc) (auto simp: is_digit_def)

lemma show_base_digits:
  assumes "2 \<le> base" and "base \<le> 16"
  shows "c \<in> set (show_base base n) \<Longrightarrow> \<exists>d < base. c = digit_char d"
  using assms
proof (induction base n rule: show_base.induct)
  case (1 base n)
  show ?case
  proof (cases "n < base")
    case True
    with 1 have "c = digit_char n"
      by (simp add: show_base.simps [of base n])
    with True show ?thesis by blast
  next
    case False
    with 1 have "c \<in> set (show_base base (n div base)) \<or> c = digit_char (n mod base)"
      by (auto simp: show_base.simps [of base n])
    moreover have "n mod base < base" using 1 by simp
    then have "\<exists>d < base. digit_char (n mod base) = digit_char d" by blast
    ultimately show ?thesis using 1 False by auto
  qed
qed

lemma show_base_is_digit:
  assumes "2 \<le> base" and "base \<le> 16" and "c \<in> set (show_base base n)"
  shows "is_digit base c"
  using show_base_digits [OF assms] assms(2) by (auto simp: is_digit_def digit_val_digit_char)

lemma show_base_no_space:
  assumes "2 \<le> base" and "base \<le> 16" and "c \<in> set (show_base base n)"
  shows "\<not> is_space c"
  using show_base_digits [OF assms] by (auto simp: digit_char_not_space)

lemma show_base_not_Nil [simp]: "show_base base n \<noteq> []"
  by (subst show_base.simps) simp

lemma digits_value_show_base:
  assumes "2 \<le> base" and "base \<le> 16"
  shows "digits_value base 0 (show_base base n) = n"
  using assms
proof (induction base n rule: show_base.induct)
  case (1 base n)
  show ?case
  proof (cases "n < base")
    case True
    with 1 show ?thesis
      by (subst show_base.simps) (simp add: digit_val_digit_char)
  next
    case False
    have "digits_value base 0 (show_base base (n div base)) = n div base"
      using 1 False by auto
    moreover have "n mod base < base" using 1 by simp
    ultimately show ?thesis
      using 1 False
      by (subst show_base.simps)
        (simp add: digits_value_append show_base_is_digit digit_val_digit_char)
  qed
qed

section \<open>Number extraction\<close>

text \<open>
  \<open>ss >> x\<close> for an \<open>unsigned long x\<close> without an initialiser, with the stream's base set to
  10 or 16. In base 16 a prefix \<open>0x\<close> is accepted.
\<close>

fun strip_sign :: "string \<Rightarrow> bool \<times> string" where
  "strip_sign (CHR ''-'' # s) = (True, s)"
| "strip_sign (CHR ''+'' # s) = (False, s)"
| "strip_sign s = (False, s)"

fun strip_0x :: "string \<Rightarrow> string" where
  "strip_0x (CHR ''0'' # CHR ''x'' # s) = s"
| "strip_0x (CHR ''0'' # CHR ''X'' # s) = s"
| "strip_0x s = s"

definition extract_ulong :: "nat \<Rightarrow> string \<Rightarrow> ulong res" where
  "extract_ulong base s =
     (let t = skip_ws s in
      if t = [] then Inl Uninit_Read
      else
        let (neg, u) = strip_sign t;
            ds = takeWhile (is_digit base) (if base = 16 then strip_0x u else u);
            n = digits_value base 0 ds
        in if ds = [] then Inr 0
           else if 2 ^ 64 \<le> n then Inr (- 1)
           else Inr (if neg then - word_of_nat n else word_of_nat n))"

text \<open>\<open>dpi_smtdv_util.h\<close>: \<open>str_2_longint\<close> and \<open>hexstr_2_longint\<close> return 0 for the empty string.\<close>

definition str_2_longint :: "string \<Rightarrow> ulong res" where
  "str_2_longint st = (if st = [] then Inr 0 else extract_ulong 10 st)"

definition hexstr_2_longint :: "string \<Rightarrow> ulong res" where
  "hexstr_2_longint st = (if st = [] then Inr 0 else extract_ulong 16 st)"

text \<open>\<open>ss << std::dec << i; ss >> x\<close> with a \<open>string x\<close>, and the same in base 16.\<close>

definition dpi_longint_2_str :: "ulong \<Rightarrow> string" where
  "dpi_longint_2_str i = extract_word (show_base 10 (unat i))"

definition dpi_longint_2_hexstr :: "ulong \<Rightarrow> string" where
  "dpi_longint_2_hexstr i = extract_word (show_base 16 (unat i))"

lemma dpi_longint_2_str_eq: "dpi_longint_2_str i = show_base 10 (unat i)"
  unfolding dpi_longint_2_str_def
  by (rule extract_word_no_space) (use show_base_no_space [of 10] in auto)

lemma dpi_longint_2_hexstr_eq: "dpi_longint_2_hexstr i = show_base 16 (unat i)"
  unfolding dpi_longint_2_hexstr_def
  by (rule extract_word_no_space) (use show_base_no_space [of 16] in auto)

lemma skip_ws_no_space: "s \<noteq> [] \<Longrightarrow> \<not> is_space (hd s) \<Longrightarrow> skip_ws s = s"
  by (cases s) (auto simp: skip_ws_def)

lemma digit_facts:
  assumes "is_digit base c" and "base \<le> 16"
  shows "c \<noteq> CHR ''-''" and "c \<noteq> CHR ''+''" and "c \<noteq> CHR ''x''" and "c \<noteq> CHR ''X''"
    and "\<not> is_space c"
  using assms by (auto simp: is_digit_def digit_val_def is_space_def split: if_splits)

lemma strip_sign_digit:
  assumes "is_digit base (hd s)" and "s \<noteq> []" and "base \<le> 16"
  shows "strip_sign s = (False, s)"
proof (cases s)
  case (Cons c cs)
  then have "c \<noteq> CHR ''-''" and "c \<noteq> CHR ''+''"
    using assms digit_facts [of base c] by auto
  then show ?thesis
    using Cons by (cases "(c # cs)" rule: strip_sign.cases) auto
qed (use assms in simp)

lemma strip_0x_digits:
  assumes "\<forall>c \<in> set s. is_digit base c" and "base \<le> 16"
  shows "strip_0x s = s"
  using assms digit_facts [of base "CHR ''x''"] digit_facts [of base "CHR ''X''"]
  by (cases s rule: strip_0x.cases) auto

text \<open>A string of digits is read as its value, or as the greatest value if that does not fit.\<close>

lemma extract_ulong_all_digits:
  assumes ds: "\<forall>c \<in> set s. is_digit base c" and "s \<noteq> []" and "base \<le> 16"
  shows "extract_ulong base s =
    Inr (if 2 ^ 64 \<le> digits_value base 0 s then - 1 else word_of_nat (digits_value base 0 s))"
proof -
  have hd: "is_digit base (hd s)" using ds \<open>s \<noteq> []\<close> by simp
  have "skip_ws s = s"
    using \<open>s \<noteq> []\<close> digit_facts(5) [OF hd \<open>base \<le> 16\<close>] by (rule skip_ws_no_space)
  moreover have "strip_sign s = (False, s)"
    using hd \<open>s \<noteq> []\<close> \<open>base \<le> 16\<close> by (rule strip_sign_digit)
  moreover have "strip_0x s = s"
    using ds \<open>base \<le> 16\<close> by (rule strip_0x_digits)
  moreover have "takeWhile (is_digit base) s = s"
    using ds by (rule takeWhile_eq_all_conv [THEN iffD2])
  ultimately have "extract_ulong base s =
      (if s = [] then Inr 0
       else if 2 ^ 64 \<le> digits_value base 0 s then Inr (- 1)
       else Inr (word_of_nat (digits_value base 0 s)))"
    using \<open>s \<noteq> []\<close> unfolding extract_ulong_def Let_def by (simp only: if_cancel if_False prod.case)
  then show ?thesis
    using \<open>s \<noteq> []\<close> by simp
qed

lemma extract_ulong_digits:
  assumes "\<forall>c \<in> set s. is_digit base c" and "s \<noteq> []" and "base \<le> 16"
    and fits: "digits_value base 0 s < 2 ^ 64"
  shows "extract_ulong base s = Inr (word_of_nat (digits_value base 0 s))"
  using extract_ulong_all_digits [OF assms(1-3)] fits by simp

lemma extract_ulong_show_base:
  assumes "2 \<le> base" and "base \<le> 16"
  shows "extract_ulong base (show_base base (unat (w :: ulong))) = Inr w"
proof -
  have "unat w < 2 ^ 64" using unsigned_less [of w] by simp
  then show ?thesis
    using assms extract_ulong_digits [of "show_base base (unat w)" base]
    by (simp add: show_base_is_digit digits_value_show_base)
qed

lemma extract_ulong_skip_ws: "extract_ulong base (skip_ws s) = extract_ulong base s"
  by (simp add: extract_ulong_def skip_ws_def dropWhile_idem)

lemma extract_ulong_uninit_iff:
  "extract_ulong base s = Inl e \<longleftrightarrow> skip_ws s = [] \<and> e = Uninit_Read"
  by (auto simp: extract_ulong_def Let_def split: prod.splits if_splits)

lemma skip_ws_Nil_iff: "skip_ws s = [] \<longleftrightarrow> (\<forall>c \<in> set s. is_space c)"
  by (simp add: skip_ws_def)

end
