(* ===== verification/Sqlite_Table.thy ===== *)
theory Sqlite_Table
  imports Cpp_Streams
begin

text \<open>
  \<open>SMTDV_Data\<close> (\<open>dpi/sqlite3/dpi_smtdv_data.h\<close>) and \<open>SMTDV_Table\<close>
  (\<open>dpi/sqlite3/dpi_smtdv_table.h\<close> and \<open>.cpp\<close>): one table of the trace database, its
  fields in key order with their type, their pending value and their update status, and
  the two SQL commands built from them. The \<open>SMTDV_Data\<close> objects of a table are private
  to it and never shared, so they are kept by value. What an operation prints on
  \<open>std::cout\<close> is returned as a list of lines.
\<close>

section \<open>Data\<close>

type_synonym console = "string list"

datatype data_type = T_STRING | T_LONGINT | T_LONGLONG | T_HEX

record smtdv_data =
  d_typ :: data_type
  d_name :: string
  d_val :: string

datatype tb_status = T_READ | T_WRITE | T_NONE

type_synonym tp_map = "(string \<times> (tb_status \<times> smtdv_data)) list"

record smtdv_table =
  m_record :: tp_map
  m_tb_nm :: string

definition SMTDV_Table :: "string \<Rightarrow> smtdv_table" where
  "SMTDV_Table i_tb_nm = \<lparr>m_record = [], m_tb_nm = i_tb_nm\<rparr>"

section \<open>Operations\<close>

definition field_warning :: "smtdv_table \<Rightarrow> string \<Rightarrow> string" where
  "field_warning tb fd =
     ''[Warning] table: '' @ m_tb_nm tb @ '' not found the field: '' @ fd"

definition iregister :: "data_type \<Rightarrow> string \<Rightarrow> smtdv_table \<Rightarrow> smtdv_table" where
  "iregister i_typ i_fd_nm tb =
     (let dt = \<lparr>d_typ = i_typ, d_name = [], d_val = []\<rparr>
      in tb\<lparr>m_record := map_put i_fd_nm (T_NONE, dt) (m_record tb)\<rparr>)"

definition is_string :: "smtdv_table \<Rightarrow> string \<Rightarrow> bool \<times> console" where
  "is_string tb fd =
     (case map_of (m_record tb) fd of
        Some (st, dt) \<Rightarrow> (d_typ dt = T_STRING, [])
      | None \<Rightarrow> (False, [field_warning tb fd]))"

definition is_longint :: "smtdv_table \<Rightarrow> string \<Rightarrow> bool \<times> console" where
  "is_longint tb fd =
     (case map_of (m_record tb) fd of
        Some (st, dt) \<Rightarrow> (d_typ dt = T_LONGINT, [])
      | None \<Rightarrow> (False, [field_warning tb fd]))"

definition is_longlong :: "smtdv_table \<Rightarrow> string \<Rightarrow> bool \<times> console" where
  "is_longlong tb fd =
     (case map_of (m_record tb) fd of
        Some (st, dt) \<Rightarrow> (d_typ dt = T_LONGLONG, [])
      | None \<Rightarrow> (False, [field_warning tb fd]))"

definition tb_insert :: "string \<Rightarrow> string \<Rightarrow> smtdv_table \<Rightarrow> smtdv_table \<times> console" where
  "tb_insert i_fd_nm i_val tb =
     (case map_of (m_record tb) i_fd_nm of
        Some (st, dt) \<Rightarrow>
          (tb\<lparr>m_record := map_put i_fd_nm (T_WRITE, dt\<lparr>d_val := i_val\<rparr>) (m_record tb)\<rparr>, [])
      | None \<Rightarrow> (tb, [field_warning tb i_fd_nm]))"

text \<open>
  \<open>get\<close> marks the field as read (or warns) and then leaves the function without a
  \<open>return\<close>, although it is declared to return a \<open>std::string\<close>.
\<close>

definition tb_get :: "string \<Rightarrow> smtdv_table \<Rightarrow> (smtdv_table \<times> console) \<times> string res" where
  "tb_get i_fd_nm tb =
     (case map_of (m_record tb) i_fd_nm of
        Some (st, dt) \<Rightarrow>
          ((tb\<lparr>m_record := map_put i_fd_nm (T_READ, dt) (m_record tb)\<rparr>, []), Inl Missing_Return)
      | None \<Rightarrow> ((tb, [field_warning tb i_fd_nm]), Inl Missing_Return))"

text \<open>The loop of \<open>dump\<close> evaluates both components of each entry and does nothing with them.\<close>

definition tb_dump :: "smtdv_table \<Rightarrow> smtdv_table \<times> console" where
  "tb_dump tb = (tb, [])"

definition flush :: "smtdv_table \<Rightarrow> smtdv_table" where
  "flush tb = tb\<lparr>m_record := map_vals (\<lambda>(st, dt). (T_NONE, dt\<lparr>d_val := []\<rparr>)) (m_record tb)\<rparr>"

text \<open>
  The three list printers share one loop: \<open>out << text(it) << (it == ed_it ? "" : ",")\<close>
  over the map, where \<open>ed_it\<close> is \<open>--end()\<close>; decrementing the end iterator of an empty map
  is undefined.
\<close>

fun comma_loop :: "('a \<Rightarrow> string res) \<Rightarrow> 'a list \<Rightarrow> string res" where
  "comma_loop pr [] = Inr []"
| "comma_loop pr [x] = pr x"
| "comma_loop pr (x # y # zs) =
     bind_res (pr x) (\<lambda>s. bind_res (comma_loop pr (y # zs)) (\<lambda>r. Inr (s @ '','' @ r)))"

definition comma_list :: "('a \<Rightarrow> string res) \<Rightarrow> 'a list \<Rightarrow> string res" where
  "comma_list pr xs = (if xs = [] then Inl Bad_Iterator else comma_loop pr xs)"

definition sql_type :: "data_type \<Rightarrow> string" where
  "sql_type t =
     (if t = T_STRING then '' TEXT''
      else if t = T_LONGINT then '' INTEGER''
      else if t = T_LONGLONG then '' INTEGER''
      else '' NULL'')"

definition return_table_items :: "smtdv_table \<Rightarrow> string res" where
  "return_table_items tb =
     comma_list (\<lambda>(nm, (st, dt)). Inr (nm @ sql_type (d_typ dt))) (m_record tb)"

definition return_body_items :: "smtdv_table \<Rightarrow> string res" where
  "return_body_items tb = comma_list (\<lambda>(nm, (st, dt)). Inr nm) (m_record tb)"

text \<open>The text of one value: a number is reprinted in decimal, anything else is quoted.\<close>

definition value_text :: "smtdv_data \<Rightarrow> string res" where
  "value_text dt =
     (if d_typ dt = T_LONGINT \<or> d_typ dt = T_LONGLONG
      then bind_res (str_2_longint (d_val dt)) (\<lambda>x. Inr (show_base 10 (unat x)))
      else Inr (CHR 0x27 # d_val dt @ [CHR 0x27]))"

definition return_body_values :: "smtdv_table \<Rightarrow> string res" where
  "return_body_values tb = comma_list (\<lambda>(nm, (st, dt)). value_text dt) (m_record tb)"

definition tb_exec_field :: "smtdv_table \<Rightarrow> string res" where
  "tb_exec_field tb =
     bind_res (return_table_items tb) (\<lambda>items.
       Inr (''CREATE TABLE '' @ m_tb_nm tb @ '' ('' @ items @ '' );''))"

definition tb_exec_value :: "smtdv_table \<Rightarrow> string res" where
  "tb_exec_value tb =
     bind_res (return_body_items tb) (\<lambda>items.
     bind_res (return_body_values tb) (\<lambda>vals.
       Inr (''INSERT INTO '' @ m_tb_nm tb @ '' ('' @ items @ '' )'' @ ''VALUES'' @
            '' ('' @ vals @ '' );'')))"

section \<open>Invariant, columns and types\<close>

text \<open>A table keeps its fields in strictly increasing key order.\<close>

definition table_ok :: "smtdv_table \<Rightarrow> bool" where
  "table_ok tb = map_ok (m_record tb)"

definition columns :: "smtdv_table \<Rightarrow> string list" where
  "columns tb = map fst (m_record tb)"

text \<open>What a client sees of a table: the type and the pending value of each field.\<close>

definition field_view :: "smtdv_table \<Rightarrow> string \<rightharpoonup> data_type \<times> string" where
  "field_view tb = (\<lambda>fd. map_option (\<lambda>(st, dt). (d_typ dt, d_val dt)) (map_of (m_record tb) fd))"

named_theorems table_defs

lemmas table_op_defs [table_defs] =
  iregister_def tb_insert_def flush_def SMTDV_Table_def

lemma table_ok_new [simp]: "table_ok (SMTDV_Table nm)"
  by (simp add: table_ok_def SMTDV_Table_def)

lemma table_ok_iregister: "table_ok tb \<Longrightarrow> table_ok (iregister t fd tb)"
  by (simp add: table_ok_def iregister_def Let_def map_ok_put)

lemma table_ok_insert: "table_ok tb \<Longrightarrow> table_ok (fst (tb_insert fd v tb))"
  by (auto simp: table_ok_def tb_insert_def map_ok_put split: option.splits)

lemma table_ok_flush: "table_ok tb \<Longrightarrow> table_ok (flush tb)"
  by (simp add: table_ok_def flush_def)

lemma columns_insert:
  assumes "table_ok tb"
  shows "columns (fst (tb_insert fd v tb)) = columns tb"
  using assms std_map.keys_put_present [of "m_record tb" fd]
  by (auto simp: table_ok_def columns_def tb_insert_def split: option.splits)

lemma columns_flush [simp]: "columns (flush tb) = columns tb"
  by (simp add: columns_def flush_def)

lemma tb_nm_simps [simp]:
  "m_tb_nm (iregister t fd tb) = m_tb_nm tb"
  "m_tb_nm (fst (tb_insert fd v tb)) = m_tb_nm tb"
  "m_tb_nm (flush tb) = m_tb_nm tb"
  by (simp_all add: table_defs Let_def split: option.splits prod.splits)

lemma field_view_new: "field_view (SMTDV_Table nm) = Map.empty"
  by (simp add: field_view_def SMTDV_Table_def fun_eq_iff)

lemma field_view_iregister: "field_view (iregister t fd tb) = (field_view tb)(fd \<mapsto> (t, []))"
  by (simp add: field_view_def iregister_def Let_def map_of_map_put fun_eq_iff)

lemma field_view_insert:
  "field_view (fst (tb_insert fd v tb)) =
     (case field_view tb fd of None \<Rightarrow> field_view tb | Some (t, _) \<Rightarrow> (field_view tb)(fd \<mapsto> (t, v)))"
  by (auto simp: field_view_def tb_insert_def map_of_map_put fun_eq_iff split: option.splits)

lemma field_view_flush: "field_view (flush tb) fd = map_option (\<lambda>(t, _). (t, [])) (field_view tb fd)"
  by (auto simp: field_view_def flush_def map_of_map_vals option.map_comp comp_def case_prod_beta)

section \<open>Text of the commands\<close>

lemma comma_loop_ok:
  assumes "\<And>x. x \<in> set xs \<Longrightarrow> pr x = Inr (f x)"
  shows "comma_loop pr xs = Inr (join '','' (map f xs))"
  using assms by (induction pr xs rule: comma_loop.induct) auto

lemma comma_list_ok:
  assumes "xs \<noteq> []" and "\<And>x. x \<in> set xs \<Longrightarrow> pr x = Inr (f x)"
  shows "comma_list pr xs = Inr (join '','' (map f xs))"
  using assms(1) comma_loop_ok [OF assms(2)] by (simp add: comma_list_def)

lemma comma_loop_Inl:
  "comma_loop pr xs = Inl e \<Longrightarrow> \<exists>x \<in> set xs. pr x = Inl e"
proof (induction pr xs rule: comma_loop.induct)
  case (3 pr x y zs)
  then show ?case
    by (cases "pr x"; cases "comma_loop pr (y # zs)") auto
qed auto

lemma comma_loop_Inr_all:
  "comma_loop pr xs = Inr r \<Longrightarrow> \<forall>x \<in> set xs. \<exists>s. pr x = Inr s"
  by (induction pr xs arbitrary: r rule: comma_loop.induct) (auto simp: bind_res_Inr_iff)

definition item_of :: "(string \<times> (tb_status \<times> smtdv_data)) \<Rightarrow> string" where
  "item_of p = fst p @ sql_type (d_typ (snd (snd p)))"

lemma return_table_items_eq:
  "m_record tb \<noteq> [] \<Longrightarrow> return_table_items tb = Inr (join '','' (map item_of (m_record tb)))"
  unfolding return_table_items_def
  by (rule comma_list_ok) (auto simp: item_of_def)

lemma return_body_items_eq:
  "m_record tb \<noteq> [] \<Longrightarrow> return_body_items tb = Inr (join '','' (columns tb))"
  unfolding return_body_items_def columns_def
  by (rule comma_list_ok) auto

text \<open>A number field can be printed unless its text is blank but not empty.\<close>

definition printable :: "data_type \<times> string \<Rightarrow> bool" where
  "printable p =
     ((fst p = T_LONGINT \<or> fst p = T_LONGLONG) \<longrightarrow> snd p = [] \<or> skip_ws (snd p) \<noteq> [])"

definition value_out :: "data_type \<times> string \<Rightarrow> string" where
  "value_out p =
     (if fst p = T_LONGINT \<or> fst p = T_LONGLONG
      then (case str_2_longint (snd p) of Inr x \<Rightarrow> show_base 10 (unat x) | Inl e \<Rightarrow> [])
      else CHR 0x27 # snd p @ [CHR 0x27])"

lemma str_2_longint_Inl_iff:
  "str_2_longint s = Inl e \<longleftrightarrow> s \<noteq> [] \<and> skip_ws s = [] \<and> e = Uninit_Read"
  by (auto simp: str_2_longint_def extract_ulong_uninit_iff)

lemma value_text_printable:
  assumes "printable (d_typ dt, d_val dt)"
  shows "value_text dt = Inr (value_out (d_typ dt, d_val dt))"
proof (cases "str_2_longint (d_val dt)")
  case (Inl e)
  then show ?thesis
    using assms by (auto simp: printable_def value_text_def value_out_def str_2_longint_Inl_iff)
next
  case (Inr x)
  then show ?thesis by (simp add: value_text_def value_out_def)
qed

lemma value_text_unprintable:
  "\<not> printable (d_typ dt, d_val dt) \<Longrightarrow> value_text dt = Inl Uninit_Read"
  using str_2_longint_Inl_iff [of "d_val dt" Uninit_Read]
  by (auto simp: printable_def value_text_def)

lemma field_view_entry:
  assumes "table_ok tb" and "(nm, (st, dt)) \<in> set (m_record tb)"
  shows "field_view tb nm = Some (d_typ dt, d_val dt)"
  using assms map_of_is_SomeI [of "m_record tb" nm "(st, dt)"]
  by (simp add: field_view_def table_ok_def map_ok_distinct)

lemma entry_of_field_view:
  assumes "field_view tb nm = Some (t, v)"
  obtains st dt where "(nm, (st, dt)) \<in> set (m_record tb)" and "d_typ dt = t" and "d_val dt = v"
  using assms by (auto simp: field_view_def dest: map_of_SomeD)

text \<open>The value list, printed over the fields in column order.\<close>

lemma return_body_values_eq:
  assumes "table_ok tb" and "m_record tb \<noteq> []"
    and "\<And>nm p. field_view tb nm = Some p \<Longrightarrow> printable p"
  shows "return_body_values tb =
    Inr (join '','' (map (\<lambda>nm. value_out (the (field_view tb nm))) (columns tb)))"
proof -
  have "return_body_values tb =
      Inr (join '','' (map (\<lambda>(nm, (st, dt)). value_out (the (field_view tb nm))) (m_record tb)))"
    unfolding return_body_values_def
  proof (rule comma_list_ok)
    fix x assume x: "x \<in> set (m_record tb)"
    obtain nm st dt where x_eq: "x = (nm, (st, dt))" by (metis prod.exhaust)
    with x assms(1) have "field_view tb nm = Some (d_typ dt, d_val dt)"
      by (auto intro: field_view_entry)
    with assms(3) x_eq show "(case x of (nm, st, dt) \<Rightarrow> value_text dt) =
        Inr (case x of (nm, st, dt) \<Rightarrow> value_out (the (field_view tb nm)))"
      by (simp add: value_text_printable)
  qed (rule assms(2))
  moreover have "map (\<lambda>(nm, (st, dt)). value_out (the (field_view tb nm))) (m_record tb) =
      map (\<lambda>nm. value_out (the (field_view tb nm))) (columns tb)"
    by (auto simp: columns_def)
  ultimately show ?thesis by simp
qed

lemma return_body_values_Inl:
  assumes "table_ok tb" and "field_view tb nm = Some p" and "\<not> printable p"
  shows "return_body_values tb = Inl Uninit_Read"
proof -
  obtain t v where p: "p = (t, v)" by (cases p)
  obtain st dt where e: "(nm, (st, dt)) \<in> set (m_record tb)" and dt: "d_typ dt = t" "d_val dt = v"
    using assms(2) p by (auto elim: entry_of_field_view)
  have bad: "value_text dt = Inl Uninit_Read"
    using assms(3) p dt by (intro value_text_unprintable) simp
  let ?f = "\<lambda>(nm :: string, (st :: tb_status, dt)). value_text dt"
  have only: "value_text d = Inl e' \<Longrightarrow> e' = Uninit_Read" for d e'
    using value_text_printable [of d] value_text_unprintable [of d] by (cases "printable (d_typ d, d_val d)") auto
  show ?thesis
  proof (cases "comma_loop ?f (m_record tb)")
    case (Inl e')
    with comma_loop_Inl [OF Inl] only e show ?thesis
      by (auto simp: return_body_values_def comma_list_def)
  next
    case (Inr r)
    from comma_loop_Inr_all [OF Inr] e bad show ?thesis by fastforce
  qed
qed

section \<open>Specification of a table\<close>

text \<open>
  The abstract table is a finite map from field names to a type and a pending value. A
  program over a table registers fields, writes values and flushes.
\<close>

datatype tb_op = Register data_type string | Insert string string | Flush

type_synonym tb_abs = "string \<rightharpoonup> data_type \<times> string"

fun tb_apply :: "tb_op \<Rightarrow> smtdv_table \<Rightarrow> smtdv_table" where
  "tb_apply (Register t fd) tb = iregister t fd tb"
| "tb_apply (Insert fd v) tb = fst (tb_insert fd v tb)"
| "tb_apply Flush tb = flush tb"

fun abs_apply :: "tb_op \<Rightarrow> tb_abs \<Rightarrow> tb_abs" where
  "abs_apply (Register t fd) m = m(fd \<mapsto> (t, []))"
| "abs_apply (Insert fd v) m = (case m fd of None \<Rightarrow> m | Some (t, _) \<Rightarrow> m(fd \<mapsto> (t, v)))"
| "abs_apply Flush m = (\<lambda>fd. map_option (\<lambda>(t, _). (t, [])) (m fd))"

definition abs_columns :: "tb_abs \<Rightarrow> string list" where
  "abs_columns m = sorted_list_of_set (dom m)"

text \<open>The command an abstract table stands for; no fields and blank numbers have none.\<close>

definition spec_insert_command :: "string \<Rightarrow> tb_abs \<Rightarrow> string res" where
  "spec_insert_command nm m =
     (if abs_columns m = [] then Inl Bad_Iterator
      else if \<exists>p \<in> ran m. \<not> printable p then Inl Uninit_Read
      else Inr (''INSERT INTO '' @ nm @ '' ('' @ join '','' (abs_columns m) @ '' )VALUES ('' @
        join '','' (map (\<lambda>fd. value_out (the (m fd))) (abs_columns m)) @ '' );''))"

definition spec_create_command :: "string \<Rightarrow> tb_abs \<Rightarrow> string res" where
  "spec_create_command nm m =
     (if abs_columns m = [] then Inl Bad_Iterator
      else Inr (''CREATE TABLE '' @ nm @ '' ('' @
        join '','' (map (\<lambda>fd. fd @ sql_type (fst (the (m fd)))) (abs_columns m)) @ '' );''))"

lemma field_view_apply: "field_view (tb_apply op tb) = abs_apply op (field_view tb)"
  by (cases op) (auto simp: field_view_iregister field_view_insert field_view_flush fun_eq_iff)

lemma table_ok_apply: "table_ok tb \<Longrightarrow> table_ok (tb_apply op tb)"
  by (cases op) (auto simp: table_ok_iregister table_ok_insert table_ok_flush)

lemma tb_nm_apply: "m_tb_nm (tb_apply op tb) = m_tb_nm tb"
  by (cases op) simp_all

lemma fold_apply:
  assumes "table_ok tb"
  shows "table_ok (fold tb_apply ops tb)"
    and "field_view (fold tb_apply ops tb) = fold abs_apply ops (field_view tb)"
    and "m_tb_nm (fold tb_apply ops tb) = m_tb_nm tb"
  using assms by (induction ops arbitrary: tb) (auto simp: table_ok_apply field_view_apply tb_nm_apply)

lemma dom_field_view: "dom (field_view tb) = set (columns tb)"
  by (auto simp: field_view_def columns_def dom_def map_of_eq_None_iff [symmetric]
      simp flip: dom_map_of_conv_image_fst)

lemma columns_abs: "table_ok tb \<Longrightarrow> columns tb = abs_columns (field_view tb)"
  unfolding abs_columns_def dom_field_view table_ok_def columns_def
  using std_map.keys_sorted [of "m_record tb"]
  by (metis sorted_list_of_set.idem_if_sorted_distinct strict_sorted_iff)

lemma columns_Nil_iff: "columns tb = [] \<longleftrightarrow> m_record tb = []"
  by (simp add: columns_def)

lemma tb_exec_value_spec:
  assumes "table_ok tb"
  shows "tb_exec_value tb = spec_insert_command (m_tb_nm tb) (field_view tb)"
proof (cases "m_record tb = []")
  case True
  then show ?thesis
    using columns_abs [OF assms]
    by (simp add: tb_exec_value_def spec_insert_command_def return_body_items_def comma_list_def columns_def)
next
  case ne: False
  then have cols: "abs_columns (field_view tb) \<noteq> []" using columns_abs [OF assms] columns_Nil_iff by metis
  show ?thesis
  proof (cases "\<exists>p \<in> ran (field_view tb). \<not> printable p")
    case True
    then obtain nm p where "field_view tb nm = Some p" "\<not> printable p" by (auto simp: ran_def)
    then show ?thesis
      using return_body_values_Inl [OF assms] return_body_items_eq [OF ne] True cols
      by (simp add: tb_exec_value_def spec_insert_command_def)
  next
    case False
    then have "printable p" if "field_view tb nm = Some p" for nm p
      using ranI [of "field_view tb" nm p] that by blast
    then show ?thesis
      using return_body_values_eq [OF assms ne] return_body_items_eq [OF ne] False cols columns_abs [OF assms]
      by (simp add: tb_exec_value_def spec_insert_command_def)
  qed
qed

lemma tb_exec_field_spec:
  assumes "table_ok tb"
  shows "tb_exec_field tb = spec_create_command (m_tb_nm tb) (field_view tb)"
proof (cases "m_record tb = []")
  case True
  then show ?thesis
    using columns_abs [OF assms]
    by (simp add: tb_exec_field_def spec_create_command_def return_table_items_def comma_list_def columns_def)
next
  case ne: False
  have "map item_of (m_record tb) =
      map (\<lambda>fd. fd @ sql_type (fst (the (field_view tb fd)))) (columns tb)"
    using field_view_entry [OF assms] by (auto simp: item_of_def columns_def)
  then show ?thesis
    using return_table_items_eq [OF ne] ne columns_abs [OF assms] columns_Nil_iff [of tb]
    by (simp add: tb_exec_field_def spec_create_command_def)
qed

end
