(* ===== verification/Sqlite_Pool.thy ===== *)
theory Sqlite_Pool
  imports Sqlite_Table
begin

text \<open>
  \<open>SMTDV_Column\<close>, \<open>SMTDV_Row\<close> and \<open>SMTDV_Pool\<close>
  (\<open>dpi/sqlite3/dpi_smtdv_pool.h\<close> and \<open>.cpp\<close>): the result of a query, a pool of rows of
  columns. Pointers to all three are handed to the simulator as \<open>chandle\<close>s, so the objects
  live in an explicit heap: one region per class, addresses drawn from one counter, and
  \<open>delete\<close> removes the object, after which a pointer to it is dangling.
\<close>

section \<open>Heap of pools\<close>

record smtdv_pool =
  p_tb_nm :: string
  m_row :: "addr list"

record pool_heap =
  h_pools :: "addr \<rightharpoonup> smtdv_pool"
  h_rows :: "addr \<rightharpoonup> addr list"
  h_cols :: "addr \<rightharpoonup> smtdv_data"
  h_next :: addr

definition empty_heap :: pool_heap where
  "empty_heap = \<lparr>h_pools = Map.empty, h_rows = Map.empty, h_cols = Map.empty, h_next = 1\<rparr>"

definition new_pool :: "string \<Rightarrow> pool_heap \<Rightarrow> addr \<times> pool_heap" where
  "new_pool i_tb_nm h =
     (h_next h, h\<lparr>h_pools := (h_pools h)(h_next h \<mapsto> \<lparr>p_tb_nm = i_tb_nm, m_row = []\<rparr>),
                  h_next := Suc (h_next h)\<rparr>)"

definition new_row :: "pool_heap \<Rightarrow> addr \<times> pool_heap" where
  "new_row h = (h_next h, h\<lparr>h_rows := (h_rows h)(h_next h \<mapsto> []), h_next := Suc (h_next h)\<rparr>)"

definition new_column :: "data_type \<Rightarrow> string \<Rightarrow> string \<Rightarrow> pool_heap \<Rightarrow> addr \<times> pool_heap" where
  "new_column i_typ i_name i_val h =
     (h_next h, h\<lparr>h_cols := (h_cols h)(h_next h \<mapsto> \<lparr>d_typ = i_typ, d_name = i_name, d_val = i_val\<rparr>),
                  h_next := Suc (h_next h)\<rparr>)"

text \<open>\<open>delete p\<close>: a null pointer is ignored, a dangling one is undefined.\<close>

definition delete_col :: "addr \<Rightarrow> pool_heap \<Rightarrow> pool_heap res" where
  "delete_col c h =
     (if c = null then Inr h
      else bind_res (deref (h_cols h) c) (\<lambda>_. Inr (h\<lparr>h_cols := (h_cols h)(c := None)\<rparr>)))"

definition delete_row :: "addr \<Rightarrow> pool_heap \<Rightarrow> pool_heap res" where
  "delete_row r h =
     (if r = null then Inr h
      else bind_res (deref (h_rows h) r) (\<lambda>_. Inr (h\<lparr>h_rows := (h_rows h)(r := None)\<rparr>)))"

definition delete_pool :: "addr \<Rightarrow> pool_heap \<Rightarrow> pool_heap res" where
  "delete_pool p h =
     (if p = null then Inr h
      else bind_res (deref (h_pools h) p) (\<lambda>_. Inr (h\<lparr>h_pools := (h_pools h)(p := None)\<rparr>)))"

section \<open>Rows\<close>

definition row_clear :: "addr \<Rightarrow> pool_heap \<Rightarrow> pool_heap res" where
  "row_clear this h =
     bind_res (deref (h_rows h) this) (\<lambda>m_col.
     bind_res (fold_res delete_col m_col h) (\<lambda>h'.
       Inr (h'\<lparr>h_rows := (h_rows h')(this \<mapsto> [])\<rparr>)))"

definition row_set :: "addr \<Rightarrow> addr \<Rightarrow> pool_heap \<Rightarrow> pool_heap res" where
  "row_set this i_col h =
     bind_res (deref (h_rows h) this) (\<lambda>m_col.
       Inr (h\<lparr>h_rows := (h_rows h)(this \<mapsto> m_col @ [i_col])\<rparr>))"

text \<open>\<open>(m_col.size() > i_indx && i_indx >= 0) ? m_col[i_indx] : NULL\<close>.\<close>

definition at_or_null :: "addr list \<Rightarrow> int \<Rightarrow> addr" where
  "at_or_null ps i_indx = (if i_indx < int (length ps) \<and> 0 \<le> i_indx then ps ! nat i_indx else null)"

definition row_get_at :: "addr \<Rightarrow> int \<Rightarrow> pool_heap \<Rightarrow> addr res" where
  "row_get_at this i_indx h = bind_res (deref (h_rows h) this) (\<lambda>m_col. Inr (at_or_null m_col i_indx))"

definition row_get :: "addr \<Rightarrow> pool_heap \<Rightarrow> addr list res" where
  "row_get this h = deref (h_rows h) this"

definition row_dump :: "addr \<Rightarrow> pool_heap \<Rightarrow> console res" where
  "row_dump this h =
     bind_res (deref (h_rows h) this) (map_res (\<lambda>c. bind_res (deref (h_cols h) c) (\<lambda>d. Inr (d_val d))))"

section \<open>Pools\<close>

text \<open>\<open>clear\<close> deletes the rows but leaves the vector of (now dangling) pointers as it is.\<close>

definition pool_clear :: "addr \<Rightarrow> pool_heap \<Rightarrow> pool_heap res" where
  "pool_clear this h =
     bind_res (deref (h_pools h) this) (\<lambda>P.
       fold_res (\<lambda>r h. bind_res (row_clear r h) (delete_row r)) (m_row P) h)"

definition pool_set :: "addr \<Rightarrow> addr \<Rightarrow> pool_heap \<Rightarrow> pool_heap res" where
  "pool_set this i_row h =
     bind_res (deref (h_pools h) this) (\<lambda>P.
       Inr (h\<lparr>h_pools := (h_pools h)(this \<mapsto> P\<lparr>m_row := m_row P @ [i_row]\<rparr>)\<rparr>))"

definition pool_get_at :: "addr \<Rightarrow> int \<Rightarrow> pool_heap \<Rightarrow> addr res" where
  "pool_get_at this i_indx h =
     bind_res (deref (h_pools h) this) (\<lambda>P. Inr (at_or_null (m_row P) i_indx))"

definition pool_get :: "addr \<Rightarrow> pool_heap \<Rightarrow> addr list res" where
  "pool_get this h = bind_res (deref (h_pools h) this) (\<lambda>P. Inr (m_row P))"

definition pool_dump :: "addr \<Rightarrow> pool_heap \<Rightarrow> console res" where
  "pool_dump this h =
     bind_res (deref (h_pools h) this) (\<lambda>P.
     bind_res (map_res (\<lambda>r. row_dump r h) (m_row P)) (\<lambda>ls. Inr (concat ls)))"

section \<open>Ownership invariant\<close>

text \<open>
  No pointer of a live object dangles, and nothing is shared: a row belongs to at most one
  pool and a column to at most one row, each at one index. The regions of the three classes
  do not overlap and lie below the allocation counter.
\<close>

definition owns :: "(addr \<rightharpoonup> addr list) \<Rightarrow> (addr \<rightharpoonup> 'b) \<Rightarrow> bool" where
  "owns f g \<longleftrightarrow>
     (\<forall>a xs. f a = Some xs \<longrightarrow> distinct xs \<and> set xs \<subseteq> dom g) \<and>
     (\<forall>a b xs ys. f a = Some xs \<longrightarrow> f b = Some ys \<longrightarrow> a \<noteq> b \<longrightarrow> set xs \<inter> set ys = {})"

definition rows_of :: "pool_heap \<Rightarrow> addr \<rightharpoonup> addr list" where
  "rows_of h = (\<lambda>p. map_option m_row (h_pools h p))"

definition heap_ok :: "pool_heap \<Rightarrow> bool" where
  "heap_ok h \<longleftrightarrow>
     0 < h_next h \<and>
     dom (h_pools h) \<union> dom (h_rows h) \<union> dom (h_cols h) \<subseteq> {0 <..< h_next h} \<and>
     dom (h_pools h) \<inter> dom (h_rows h) = {} \<and> dom (h_pools h) \<inter> dom (h_cols h) = {} \<and>
     dom (h_rows h) \<inter> dom (h_cols h) = {} \<and>
     owns (rows_of h) (h_rows h) \<and> owns (h_rows h) (h_cols h)"

lemma owns_empty [simp]: "owns Map.empty g"
  by (simp add: owns_def)

lemma owns_upd_target: "owns f g \<Longrightarrow> owns f (g(a \<mapsto> y))"
  unfolding owns_def by fastforce

lemma owns_new: "owns f g \<Longrightarrow> owns (f(a \<mapsto> [])) g"
  unfolding owns_def by (simp split: if_splits)

lemma owns_append:
  assumes "owns f g" and "f a = Some xs" and "y \<in> dom g"
    and fresh: "\<And>b ys. f b = Some ys \<Longrightarrow> y \<notin> set ys"
  shows "owns (f(a \<mapsto> xs @ [y])) g"
proof -
  have "distinct (xs @ [y]) \<and> set (xs @ [y]) \<subseteq> dom g"
    using assms unfolding owns_def by auto
  moreover have "set (xs @ [y]) \<inter> set ys = {}" if "f b = Some ys" "b \<noteq> a" for b ys
    using assms(1,2) that fresh [OF that(1)] unfolding owns_def by fastforce
  ultimately show ?thesis
    using assms(1) unfolding owns_def by (simp split: if_splits) blast
qed

lemma owns_distinct: "owns f g \<Longrightarrow> f a = Some xs \<Longrightarrow> distinct xs"
  and owns_subset: "owns f g \<Longrightarrow> f a = Some xs \<Longrightarrow> set xs \<subseteq> dom g"
  and owns_disjoint: "owns f g \<Longrightarrow> f a = Some xs \<Longrightarrow> f b = Some ys \<Longrightarrow> a \<noteq> b \<Longrightarrow> set xs \<inter> set ys = {}"
  unfolding owns_def by blast+

lemma heap_ok_empty [simp]: "heap_ok empty_heap"
  by (simp add: heap_ok_def empty_heap_def rows_of_def)

lemma heap_okD:
  assumes "heap_ok h"
  shows "0 < h_next h" and "h_pools h a \<noteq> None \<Longrightarrow> 0 < a \<and> a < h_next h"
    and "h_rows h a \<noteq> None \<Longrightarrow> 0 < a \<and> a < h_next h"
    and "h_cols h a \<noteq> None \<Longrightarrow> 0 < a \<and> a < h_next h"
    and "owns (rows_of h) (h_rows h)" and "owns (h_rows h) (h_cols h)"
  using assms unfolding heap_ok_def by (auto simp: dom_def subset_iff)

lemma pool_rows_live:
  assumes "heap_ok h" and "h_pools h q = Some Q" and "r \<in> set (m_row Q)"
  obtains cs where "h_rows h r = Some cs"
proof -
  have "rows_of h q = Some (m_row Q)" using assms(2) by (simp add: rows_of_def)
  then have "r \<in> dom (h_rows h)"
    using owns_subset [OF heap_okD(5) [OF assms(1)]] assms(3) by blast
  then show thesis using that by blast
qed

lemma next_fresh:
  assumes "heap_ok h"
  shows "h_pools h (h_next h) = None" and "h_rows h (h_next h) = None" and "h_cols h (h_next h) = None"
  using heap_okD(2-4) [OF assms, of "h_next h"] by (metis less_irrefl)+

section \<open>Every operation keeps the invariant\<close>

lemma heap_ok_new_pool:
  assumes "heap_ok h"
  shows "heap_ok (snd (new_pool nm h))"
proof -
  have "rows_of (snd (new_pool nm h)) = (rows_of h)(h_next h \<mapsto> [])"
    by (auto simp: rows_of_def new_pool_def fun_eq_iff)
  then show ?thesis
    using assms next_fresh [OF assms] owns_new [of "rows_of h" "h_rows h" "h_next h"]
    unfolding heap_ok_def new_pool_def by (auto simp: domIff)
qed

lemma heap_ok_new_row:
  assumes "heap_ok h"
  shows "heap_ok (snd (new_row h))"
proof -
  have "rows_of (snd (new_row h)) = rows_of h"
    by (simp add: rows_of_def new_row_def)
  then show ?thesis
    using assms next_fresh [OF assms] owns_upd_target [of "rows_of h" "h_rows h" "h_next h" "[]"]
      owns_new [of "h_rows h" "h_cols h" "h_next h"]
    unfolding heap_ok_def new_row_def by (auto simp: domIff)
qed

lemma heap_ok_new_column:
  assumes "heap_ok h"
  shows "heap_ok (snd (new_column t nm v h))"
proof -
  have "rows_of (snd (new_column t nm v h)) = rows_of h"
    by (simp add: rows_of_def new_column_def)
  then show ?thesis
    using assms next_fresh [OF assms]
      owns_upd_target [of "h_rows h" "h_cols h" "h_next h" "\<lparr>d_typ = t, d_name = nm, d_val = v\<rparr>"]
    unfolding heap_ok_def new_column_def by (auto simp: domIff)
qed

lemma heap_ok_row_set:
  assumes "heap_ok h" and "row_set r c h = Inr h'" and "c \<in> dom (h_cols h)"
    and fresh: "\<And>b ys. h_rows h b = Some ys \<Longrightarrow> c \<notin> set ys"
  shows "heap_ok h'"
proof -
  from assms(2) obtain xs where r: "r \<noteq> null" "h_rows h r = Some xs"
    and h': "h' = h\<lparr>h_rows := (h_rows h)(r \<mapsto> xs @ [c])\<rparr>"
    by (auto simp: row_set_def bind_res_Inr_iff deref_Inr_iff)
  have "rows_of h' = rows_of h" by (simp add: h' rows_of_def)
  moreover have "owns ((h_rows h)(r \<mapsto> xs @ [c])) (h_cols h)"
    using heap_okD(6) [OF assms(1)] r(2) assms(3) fresh by (rule owns_append)
  moreover have "dom (h_rows h') = dom (h_rows h)" using r by (auto simp: h')
  moreover have "owns (rows_of h) (h_rows h')"
    using owns_upd_target [OF heap_okD(5) [OF assms(1)]] by (simp add: h')
  ultimately show ?thesis
    using assms(1) unfolding heap_ok_def by (simp add: h')
qed

lemma heap_ok_pool_set:
  assumes "heap_ok h" and "pool_set p r h = Inr h'" and "r \<in> dom (h_rows h)"
    and fresh: "\<And>b ys. rows_of h b = Some ys \<Longrightarrow> r \<notin> set ys"
  shows "heap_ok h'"
proof -
  from assms(2) obtain P where p: "p \<noteq> null" "h_pools h p = Some P"
    and h': "h' = h\<lparr>h_pools := (h_pools h)(p \<mapsto> P\<lparr>m_row := m_row P @ [r]\<rparr>)\<rparr>"
    by (auto simp: pool_set_def bind_res_Inr_iff deref_Inr_iff)
  have "rows_of h' = (rows_of h)(p \<mapsto> m_row P @ [r])" by (auto simp: h' rows_of_def)
  moreover have "owns ((rows_of h)(p \<mapsto> m_row P @ [r])) (h_rows h)"
    using heap_okD(5) [OF assms(1)] _ assms(3) fresh
    by (rule owns_append) (simp add: rows_of_def p)
  moreover have "dom (h_pools h') = dom (h_pools h)" using p by (auto simp: h')
  ultimately show ?thesis
    using assms(1) unfolding heap_ok_def by (simp add: h')
qed

section \<open>Deleting\<close>

lemma fold_delete_col:
  assumes "distinct cs" and "set cs \<subseteq> dom (h_cols h)" and "0 \<notin> set cs"
  shows "fold_res delete_col cs h = Inr (h\<lparr>h_cols := free_all (h_cols h) cs\<rparr>)"
  using assms
proof (induction cs arbitrary: h)
  case (Cons c cs)
  then have "delete_col c h = Inr (h\<lparr>h_cols := (h_cols h)(c := None)\<rparr>)"
    by (auto simp: delete_col_def)
  moreover have "set cs \<subseteq> dom (h_cols (h\<lparr>h_cols := (h_cols h)(c := None)\<rparr>))"
    using Cons.prems by auto
  then have "fold_res delete_col cs (h\<lparr>h_cols := (h_cols h)(c := None)\<rparr>) =
      Inr (h\<lparr>h_cols := free_all ((h_cols h)(c := None)) cs\<rparr>)"
    using Cons.prems Cons.IH [of "h\<lparr>h_cols := (h_cols h)(c := None)\<rparr>"] by (simp del: fun_upd_apply)
  moreover have "free_all ((h_cols h)(c := None)) cs = free_all (h_cols h) (c # cs)"
    by (auto simp: free_all_def fun_eq_iff)
  ultimately show ?case by simp
qed simp

text \<open>What clearing rows needs of the heap, whatever the pools are.\<close>

definition rows_ok :: "pool_heap \<Rightarrow> bool" where
  "rows_ok h \<longleftrightarrow> owns (h_rows h) (h_cols h) \<and> h_rows h 0 = None \<and> h_cols h 0 = None"

lemma heap_ok_rows_ok: "heap_ok h \<Longrightarrow> rows_ok h"
  using heap_okD(3,4,6) [of h] unfolding rows_ok_def by (metis less_irrefl)

lemma row_clear_delete:
  assumes "rows_ok h" and "h_rows h r = Some cs"
  shows "bind_res (row_clear r h) (delete_row r) =
    Inr (h\<lparr>h_rows := (h_rows h)(r := None), h_cols := free_all (h_cols h) cs\<rparr>)"
proof -
  have own: "owns (h_rows h) (h_cols h)" and z: "h_cols h 0 = None" and r: "r \<noteq> 0"
    using assms by (simp add: rows_ok_def, simp add: rows_ok_def, intro notI, simp add: rows_ok_def)
  have "set cs \<subseteq> dom (h_cols h)" "distinct cs"
    using owns_subset [OF own assms(2)] owns_distinct [OF own assms(2)] .
  moreover from this(1) z have "0 \<notin> set cs" by auto
  ultimately have "fold_res delete_col cs h = Inr (h\<lparr>h_cols := free_all (h_cols h) cs\<rparr>)"
    by (intro fold_delete_col)
  then show ?thesis
    using r assms(2) by (simp add: row_clear_def delete_row_def)
qed

lemma owns_remove:
  assumes "owns f g" and "f a = Some xs"
  shows "owns (f(a := None)) (free_all g xs)"
proof -
  have "set ys \<subseteq> dom (free_all g xs)" if "f b = Some ys" "b \<noteq> a" for b ys
    using owns_subset [OF assms(1) that(1)] owns_disjoint [OF assms(1) that(1) assms(2) that(2)]
    by (auto simp: dom_free_all)
  then show ?thesis
    using assms(1) unfolding owns_def by (simp split: if_splits)
qed

text \<open>The loop of \<open>clear\<close>.\<close>

definition cols_of :: "pool_heap \<Rightarrow> addr list \<Rightarrow> addr list" where
  "cols_of h rs = concat (map (\<lambda>r. case h_rows h r of None \<Rightarrow> [] | Some cs \<Rightarrow> cs) rs)"

lemma set_cols_of:
  "c \<in> set (cols_of h rs) \<longleftrightarrow> (\<exists>r xs. r \<in> set rs \<and> h_rows h r = Some xs \<and> c \<in> set xs)"
proof (induction rs)
  case (Cons r rs)
  then show ?case by (cases "h_rows h r") (auto simp: cols_of_def)
qed (simp add: cols_of_def)

definition free_rows :: "addr list \<Rightarrow> pool_heap \<Rightarrow> pool_heap" where
  "free_rows rs h =
     h\<lparr>h_rows := free_all (h_rows h) rs, h_cols := free_all (h_cols h) (cols_of h rs)\<rparr>"

lemma fold_clear_rows:
  assumes "rows_ok h" and "distinct rs" and "set rs \<subseteq> dom (h_rows h)"
  shows "fold_res (\<lambda>r h. bind_res (row_clear r h) (delete_row r)) rs h = Inr (free_rows rs h)
    \<and> rows_ok (free_rows rs h)"
  using assms
proof (induction rs arbitrary: h)
  case Nil
  then show ?case by (simp add: cols_of_def free_rows_def)
next
  case (Cons r rs)
  obtain cs where r: "h_rows h r = Some cs" using Cons.prems(3) by auto
  let ?h = "h\<lparr>h_rows := (h_rows h)(r := None), h_cols := free_all (h_cols h) cs\<rparr>"
  have step: "bind_res (row_clear r h) (delete_row r) = Inr ?h"
    using Cons.prems(1) r by (rule row_clear_delete)
  have ok: "rows_ok ?h"
    using Cons.prems(1) owns_remove [of "h_rows h" "h_cols h", OF _ r]
    by (simp add: rows_ok_def free_all_def)
  have sub: "set rs \<subseteq> dom (h_rows ?h)" and dis: "distinct rs"
    using Cons.prems(2,3) by auto
  note IH = Cons.IH [OF ok dis sub]
  have "cols_of ?h rs = cols_of h rs"
    using Cons.prems(2) by (auto simp: cols_of_def intro!: arg_cong [where f = concat])
  then have "free_all (h_cols ?h) (cols_of ?h rs) = free_all (h_cols h) (cols_of h (r # rs))"
    using r by (auto simp: free_all_def cols_of_def fun_eq_iff)
  moreover have "free_all (h_rows ?h) rs = free_all (h_rows h) (r # rs)"
    by (auto simp: free_all_def fun_eq_iff)
  ultimately have "free_rows rs ?h = free_rows (r # rs) h"
    by (simp add: free_rows_def)
  then show ?case using step IH by simp
qed

text \<open>\<open>pl->clear(); delete pl\<close> on a pool of a well-formed heap.\<close>

definition remove_pool :: "addr \<Rightarrow> pool_heap \<Rightarrow> pool_heap" where
  "remove_pool p h =
     (case h_pools h p of
        None \<Rightarrow> h
      | Some P \<Rightarrow> (free_rows (m_row P) h)\<lparr>h_pools := (h_pools h)(p := None)\<rparr>)"

lemma pool_clear_delete:
  assumes ok: "heap_ok h" and p: "h_pools h p = Some P"
  shows "bind_res (pool_clear p h) (delete_pool p) = Inr (remove_pool p h)"
    and "heap_ok (remove_pool p h)"
proof -
  have own: "owns (rows_of h) (h_rows h)" and pP: "rows_of h p = Some (m_row P)"
    using heap_okD(5) [OF ok] p by (simp_all add: rows_of_def)
  have p0: "p \<noteq> 0" using heap_okD(2) [OF ok, of p] p by auto
  note fold = fold_clear_rows [OF heap_ok_rows_ok [OF ok] owns_distinct [OF own pP] owns_subset [OF own pP]]
  show "bind_res (pool_clear p h) (delete_pool p) = Inr (remove_pool p h)"
    using fold p p0 by (simp add: pool_clear_def delete_pool_def remove_pool_def free_rows_def)
  have "rows_of (remove_pool p h) = (rows_of h)(p := None)"
    using p by (auto simp: remove_pool_def rows_of_def free_rows_def fun_eq_iff)
  moreover have "owns ((rows_of h)(p := None)) (free_all (h_rows h) (m_row P))"
    using own pP by (rule owns_remove)
  moreover have "owns (h_rows (remove_pool p h)) (h_cols (remove_pool p h))"
    using fold p by (simp add: rows_ok_def remove_pool_def free_rows_def)
  ultimately show "heap_ok (remove_pool p h)"
    using ok p unfolding heap_ok_def
    by (auto simp: remove_pool_def free_rows_def dom_free_all)
qed

section \<open>Contents\<close>

text \<open>The cells of a pool, read through its pointers.\<close>

definition row_cells :: "pool_heap \<Rightarrow> addr \<Rightarrow> smtdv_data list" where
  "row_cells h r = map (\<lambda>c. the (h_cols h c)) (the (h_rows h r))"

definition pool_cells :: "pool_heap \<Rightarrow> addr \<Rightarrow> smtdv_data list list" where
  "pool_cells h p = map (row_cells h) (m_row (the (h_pools h p)))"

lemma row_dump_ok:
  assumes "heap_ok h" and "h_rows h r = Some cs"
  shows "row_dump r h = Inr (map d_val (row_cells h r))"
proof -
  have "r \<noteq> 0" using heap_okD(3) [OF assms(1), of r] assms(2) by auto
  moreover have "deref (h_cols h) c = Inr (the (h_cols h c))" if "c \<in> set cs" for c
    using owns_subset [OF heap_okD(6) [OF assms(1)] assms(2)] that heap_okD(4) [OF assms(1), of c]
    by (auto simp: deref_Inr_iff)
  then have "map_res (\<lambda>c. bind_res (deref (h_cols h) c) (\<lambda>d. Inr (d_val d))) cs =
      Inr (map (\<lambda>c. d_val (the (h_cols h c))) cs)"
    by (intro map_res_ok) simp
  ultimately show ?thesis
    using assms(2) by (simp add: row_dump_def row_cells_def comp_def)
qed

lemma pool_dump_ok:
  assumes "heap_ok h" and "h_pools h p = Some P"
  shows "pool_dump p h = Inr (concat (map (map d_val) (pool_cells h p)))"
proof -
  have "p \<noteq> 0" using heap_okD(2) [OF assms(1), of p] assms(2) by auto
  moreover have "row_dump r h = Inr (map d_val (row_cells h r))" if "r \<in> set (m_row P)" for r
    using pool_rows_live [OF assms that] row_dump_ok [OF assms(1)] by blast
  then have "map_res (\<lambda>r. row_dump r h) (m_row P) = Inr (map (\<lambda>r. map d_val (row_cells h r)) (m_row P))"
    by (rule map_res_ok)
  ultimately show ?thesis
    using assms(2) by (simp add: pool_dump_def pool_cells_def comp_def)
qed

section \<open>Removing one pool leaves the others alone\<close>

lemma row_kept:
  assumes ok: "heap_ok h" and p: "h_pools h p = Some P" and r: "h_rows h r = Some cs"
    and "r \<notin> set (m_row P)"
  shows "h_rows (remove_pool p h) r = Some cs" and "row_cells (remove_pool p h) r = row_cells h r"
proof -
  show rows: "h_rows (remove_pool p h) r = Some cs"
    using p r assms(4) by (simp add: remove_pool_def free_rows_def free_all_def)
  have "c \<notin> set (cols_of h (m_row P))" if "c \<in> set cs" for c
  proof
    assume "c \<in> set (cols_of h (m_row P))"
    then obtain r' xs where "r' \<in> set (m_row P)" "h_rows h r' = Some xs" "c \<in> set xs"
      unfolding set_cols_of by blast
    moreover have "r' \<noteq> r" using calculation(1) assms(4) by blast
    ultimately show False
      using owns_disjoint [OF heap_okD(6) [OF ok] _ r] that by blast
  qed
  then show "row_cells (remove_pool p h) r = row_cells h r"
    using p r rows by (simp add: row_cells_def remove_pool_def free_rows_def free_all_def)
qed

lemma pool_cells_remove_other:
  assumes ok: "heap_ok h" and p: "h_pools h p = Some P" and q: "h_pools h q = Some Q" and "p \<noteq> q"
  shows "pool_cells (remove_pool p h) q = pool_cells h q"
proof -
  have "rows_of h p = Some (m_row P)" "rows_of h q = Some (m_row Q)"
    using p q by (simp_all add: rows_of_def)
  then have disj: "set (m_row P) \<inter> set (m_row Q) = {}"
    using owns_disjoint [OF heap_okD(5) [OF ok]] \<open>p \<noteq> q\<close> by blast
  have "row_cells (remove_pool p h) r = row_cells h r" if r: "r \<in> set (m_row Q)" for r
  proof -
    obtain cs where "h_rows h r = Some cs" by (rule pool_rows_live [OF ok q r])
    then show ?thesis using row_kept(2) [OF ok p] disj r by blast
  qed
  then show ?thesis
    using p q \<open>p \<noteq> q\<close> by (simp add: pool_cells_def remove_pool_def free_rows_def)
qed

lemma removed_dangles:
  assumes "heap_ok h" and p: "h_pools h p = Some P"
  shows "h_pools (remove_pool p h) p = None"
    and "r \<in> set (m_row P) \<Longrightarrow> h_rows (remove_pool p h) r = None"
    and "r \<in> set (m_row P) \<Longrightarrow> h_rows h r = Some cs \<Longrightarrow> c \<in> set cs \<Longrightarrow>
      h_cols (remove_pool p h) c = None"
  using p by (auto simp: remove_pool_def free_rows_def free_all_def set_cols_of)

end
