(* ===== verification/Sqlite_Db.thy ===== *)
theory Sqlite_Db
  imports Sqlite_Pool
begin

text \<open>
  \<open>SMTDV_Sqlite3\<close> (\<open>dpi/sqlite3/dpi_smtdv_sqlite3.h\<close> and \<open>.cpp\<close>): the tables and pools by
  name, the database handle, and the operations the DPI layer calls. The SQLite library and
  the file system are not part of the repository: they are the record \<open>sqlite3_api\<close> that
  every operation using them takes, over an unspecified type \<open>'db\<close> of handles and files.
  \<open>sqlite3_exec\<close> delivers the result rows to the callback in order; a row is a list of
  column names and values, a value is absent where SQLite passes a null pointer.
\<close>

section \<open>State\<close>

type_synonym sql_row = "(string \<times> string option) list"

record 'db sqlite3_api =
  sqlite3_open :: "string \<Rightarrow> 'db \<Rightarrow> int \<times> string \<times> 'db"
  sqlite3_close :: "'db \<Rightarrow> 'db"
  sqlite3_exec :: "'db \<Rightarrow> string \<Rightarrow> int \<times> sql_row list \<times> 'db"
  std_remove :: "string \<Rightarrow> 'db \<Rightarrow> int \<times> 'db"

text \<open>
  \<open>m_tb\<close> and \<open>m_pl\<close> are the static maps behind \<open>get_tb()\<close> and \<open>get_pl()\<close>, \<open>m_db\<close> the static
  handle, \<open>g_tb_nm\<close> the global \<open>m_tb_nm\<close> the callback reads, \<open>cout\<close> the printed lines.
\<close>

record 'db smtdv_sqlite3 =
  m_tb :: "(string \<times> smtdv_table) list"
  m_pl :: "(string \<times> addr) list"
  m_heap :: pool_heap
  m_db :: 'db
  g_tb_nm :: string
  cout :: console

definition init_state :: "'db \<Rightarrow> 'db smtdv_sqlite3" where
  "init_state db =
     \<lparr>m_tb = [], m_pl = [], m_heap = empty_heap, m_db = db, g_tb_nm = [], cout = []\<rparr>"

definition print :: "console \<Rightarrow> 'db smtdv_sqlite3 \<Rightarrow> 'db smtdv_sqlite3" where
  "print ls s = s\<lparr>cout := cout s @ ls\<rparr>"

definition table_warning :: "string \<Rightarrow> string" where
  "table_warning tb = ''[Warning] table: '' @ tb @ '' not found''"

section \<open>Database file\<close>

definition create_db :: "'db sqlite3_api \<Rightarrow> string \<Rightarrow> 'db smtdv_sqlite3 \<Rightarrow> 'db smtdv_sqlite3 res" where
  "create_db api i_db_nm s =
     (let (rc, errmsg, db) = sqlite3_open api i_db_nm (m_db s)
      in if rc \<noteq> 0 then Inl Exit_Failure
         else Inr (print [''opened database '' @ i_db_nm @ '' successfully''] (s\<lparr>m_db := db\<rparr>)))"

definition delete_db :: "'db sqlite3_api \<Rightarrow> string \<Rightarrow> 'db smtdv_sqlite3 \<Rightarrow> 'db smtdv_sqlite3" where
  "delete_db api i_db_nm s =
     (let (rc, db) = std_remove api i_db_nm (m_db s)
      in if rc \<noteq> 0 then print [''[Warning] delete '' @ i_db_nm @ '' fail''] (s\<lparr>m_db := db\<rparr>)
         else s\<lparr>m_db := db\<rparr>)"

definition close_db :: "'db sqlite3_api \<Rightarrow> 'db smtdv_sqlite3 \<Rightarrow> 'db smtdv_sqlite3" where
  "close_db api s = s\<lparr>m_db := sqlite3_close api (m_db s)\<rparr>"

section \<open>Tables\<close>

definition create_tb :: "string \<Rightarrow> 'db smtdv_sqlite3 \<Rightarrow> 'db smtdv_sqlite3" where
  "create_tb i_tb_nm s = s\<lparr>m_tb := map_put i_tb_nm (SMTDV_Table i_tb_nm) (m_tb s)\<rparr>"

definition delete_tb :: "string \<Rightarrow> 'db smtdv_sqlite3 \<Rightarrow> 'db smtdv_sqlite3" where
  "delete_tb i_tb_nm s =
     (case map_of (m_tb s) i_tb_nm of
        Some tb \<Rightarrow> s\<lparr>m_tb := map_erase i_tb_nm (m_tb s)\<rparr>
      | None \<Rightarrow> s)"

definition register_string_field :: "string \<Rightarrow> string \<Rightarrow> 'db smtdv_sqlite3 \<Rightarrow> 'db smtdv_sqlite3" where
  "register_string_field i_tb_nm i_fd_nm s =
     (case map_of (m_tb s) i_tb_nm of
        Some tb \<Rightarrow> s\<lparr>m_tb := map_put i_tb_nm (iregister T_STRING i_fd_nm tb) (m_tb s)\<rparr>
      | None \<Rightarrow> print [table_warning i_tb_nm] s)"

definition register_longint_field :: "string \<Rightarrow> string \<Rightarrow> 'db smtdv_sqlite3 \<Rightarrow> 'db smtdv_sqlite3" where
  "register_longint_field i_tb_nm i_fd_nm s =
     (case map_of (m_tb s) i_tb_nm of
        Some tb \<Rightarrow> s\<lparr>m_tb := map_put i_tb_nm (iregister T_LONGINT i_fd_nm tb) (m_tb s)\<rparr>
      | None \<Rightarrow> print [table_warning i_tb_nm] s)"

definition register_longlong_field :: "string \<Rightarrow> string \<Rightarrow> 'db smtdv_sqlite3 \<Rightarrow> 'db smtdv_sqlite3" where
  "register_longlong_field i_tb_nm i_fd_nm s =
     (case map_of (m_tb s) i_tb_nm of
        Some tb \<Rightarrow> s\<lparr>m_tb := map_put i_tb_nm (iregister T_LONGLONG i_fd_nm tb) (m_tb s)\<rparr>
      | None \<Rightarrow> print [table_warning i_tb_nm] s)"

definition is_string_field :: "'db smtdv_sqlite3 \<Rightarrow> string \<Rightarrow> string \<Rightarrow> bool \<times> console" where
  "is_string_field s i_tb_nm i_fd_nm =
     (case map_of (m_tb s) i_tb_nm of
        Some tb \<Rightarrow> is_string tb i_fd_nm
      | None \<Rightarrow> (False, [table_warning i_tb_nm]))"

definition is_longint_field :: "'db smtdv_sqlite3 \<Rightarrow> string \<Rightarrow> string \<Rightarrow> bool \<times> console" where
  "is_longint_field s i_tb_nm i_fd_nm =
     (case map_of (m_tb s) i_tb_nm of
        Some tb \<Rightarrow> is_longint tb i_fd_nm
      | None \<Rightarrow> (False, [table_warning i_tb_nm]))"

definition is_longlong_field :: "'db smtdv_sqlite3 \<Rightarrow> string \<Rightarrow> string \<Rightarrow> bool \<times> console" where
  "is_longlong_field s i_tb_nm i_fd_nm =
     (case map_of (m_tb s) i_tb_nm of
        Some tb \<Rightarrow> is_longlong tb i_fd_nm
      | None \<Rightarrow> (False, [table_warning i_tb_nm]))"

text \<open>The three tests are tried in order; each may print its warning.\<close>

definition get_field_typ :: "'db smtdv_sqlite3 \<Rightarrow> string \<Rightarrow> string \<Rightarrow> data_type \<times> console" where
  "get_field_typ s i_tb_nm i_fd_nm =
     (let (b1, l1) = is_string_field s i_tb_nm i_fd_nm in
      if b1 then (T_STRING, l1) else
      let (b2, l2) = is_longint_field s i_tb_nm i_fd_nm in
      if b2 then (T_LONGINT, l1 @ l2) else
      let (b3, l3) = is_longlong_field s i_tb_nm i_fd_nm in
      if b3 then (T_LONGLONG, l1 @ l2 @ l3) else (T_STRING, l1 @ l2 @ l3))"

definition insert_value :: "string \<Rightarrow> string \<Rightarrow> string \<Rightarrow> 'db smtdv_sqlite3 \<Rightarrow> 'db smtdv_sqlite3" where
  "insert_value i_tb_nm i_fd_nm i_val s =
     (case map_of (m_tb s) i_tb_nm of
        Some tb \<Rightarrow>
          let (tb', ls) = tb_insert i_fd_nm i_val tb
          in print ls (s\<lparr>m_tb := map_put i_tb_nm tb' (m_tb s)\<rparr>)
      | None \<Rightarrow> print [table_warning i_tb_nm] s)"

definition flush_value :: "string \<Rightarrow> 'db smtdv_sqlite3 \<Rightarrow> 'db smtdv_sqlite3" where
  "flush_value i_tb_nm s =
     (case map_of (m_tb s) i_tb_nm of
        Some tb \<Rightarrow> s\<lparr>m_tb := map_put i_tb_nm (flush tb) (m_tb s)\<rparr>
      | None \<Rightarrow> print [table_warning i_tb_nm] s)"

text \<open>The common tail of \<open>exec_field\<close> and \<open>exec_value\<close>: trace the query, run it, exit on an error.\<close>

definition run_command :: "'db sqlite3_api \<Rightarrow> string \<Rightarrow> 'db smtdv_sqlite3 \<Rightarrow> 'db smtdv_sqlite3 res" where
  "run_command api query s =
     (let (rc, rows, db) = sqlite3_exec api (m_db s) query
      in if rc \<noteq> 0 then Inl Exit_Failure
         else Inr (print [query] (s\<lparr>m_db := db\<rparr>)))"

definition exec_field :: "'db sqlite3_api \<Rightarrow> string \<Rightarrow> 'db smtdv_sqlite3 \<Rightarrow> 'db smtdv_sqlite3 res" where
  "exec_field api i_tb_nm s =
     (case map_of (m_tb s) i_tb_nm of
        Some tb \<Rightarrow> bind_res (tb_exec_field tb) (\<lambda>query. run_command api query s)
      | None \<Rightarrow> Inr (print [table_warning i_tb_nm] s))"

definition exec_value :: "'db sqlite3_api \<Rightarrow> string \<Rightarrow> 'db smtdv_sqlite3 \<Rightarrow> 'db smtdv_sqlite3 res" where
  "exec_value api i_tb_nm s =
     (case map_of (m_tb s) i_tb_nm of
        Some tb \<Rightarrow> bind_res (tb_exec_value tb) (\<lambda>query. run_command api query s)
      | None \<Rightarrow> Inr (print [table_warning i_tb_nm] s))"

section \<open>Pools and queries\<close>

definition create_pl :: "string \<Rightarrow> 'db smtdv_sqlite3 \<Rightarrow> 'db smtdv_sqlite3" where
  "create_pl i_tb_nm s =
     (let (p, h) = new_pool i_tb_nm (m_heap s)
      in s\<lparr>m_heap := h, m_pl := map_put i_tb_nm p (m_pl s)\<rparr>)"

definition delete_pl :: "string \<Rightarrow> 'db smtdv_sqlite3 \<Rightarrow> 'db smtdv_sqlite3 res" where
  "delete_pl i_tb_nm s =
     (case map_of (m_pl s) i_tb_nm of
        Some p \<Rightarrow>
          bind_res (pool_clear p (m_heap s)) (\<lambda>h.
          bind_res (delete_pool p h) (\<lambda>h.
            Inr (s\<lparr>m_heap := h, m_pl := map_erase i_tb_nm (m_pl s)\<rparr>)))
      | None \<Rightarrow> Inr s)"

text \<open>\<open>get_pl()[nm]\<close>: an absent name is inserted with a null pointer.\<close>

definition pl_index :: "string \<Rightarrow> 'db smtdv_sqlite3 \<Rightarrow> addr \<times> 'db smtdv_sqlite3" where
  "pl_index nm s =
     (case map_of (m_pl s) nm of
        Some p \<Rightarrow> (p, s)
      | None \<Rightarrow> (null, s\<lparr>m_pl := map_put nm null (m_pl s)\<rparr>))"

text \<open>
  One turn of the loop of \<open>exec_callback\<close>. Name and value are extracted with \<open>>>\<close> from a
  string stream. Streaming a null \<open>argv[i]\<close> is undefined.
\<close>

definition exec_cell :: "addr \<Rightarrow> string \<times> string option \<Rightarrow> 'db smtdv_sqlite3 \<Rightarrow> 'db smtdv_sqlite3 res" where
  "exec_cell row cell s =
     (case snd cell of
        None \<Rightarrow> Inl Null_Deref
      | Some argv \<Rightarrow>
          let s1 = print [fst cell @ ''='' @ argv] s;
              nm = extract_word (fst cell);
              val = extract_word argv;
              (t, ls) = get_field_typ s1 (g_tb_nm s1) nm;
              (dt, h) = new_column t nm val (m_heap s1);
              s2 = print (ls @ [nm @ ''='' @ val]) (s1\<lparr>m_heap := h\<rparr>)
          in bind_res (row_set row dt (m_heap s2)) (\<lambda>h. Inr (s2\<lparr>m_heap := h\<rparr>)))"

definition exec_callback :: "sql_row \<Rightarrow> 'db smtdv_sqlite3 \<Rightarrow> 'db smtdv_sqlite3 res" where
  "exec_callback cells s =
     (let (row, h) = new_row (m_heap s)
      in bind_res (fold_res (exec_cell row) cells (s\<lparr>m_heap := h\<rparr>)) (\<lambda>s.
           let (p, s) = pl_index (g_tb_nm s) s
           in bind_res (pool_set p row (m_heap s)) (\<lambda>h. Inr (s\<lparr>m_heap := h\<rparr>))))"

definition exec_query :: "'db sqlite3_api \<Rightarrow> string \<Rightarrow> string \<Rightarrow> 'db smtdv_sqlite3 \<Rightarrow>
    (addr \<times> 'db smtdv_sqlite3) res" where
  "exec_query api i_tb_nm i_query s =
     (let s1 = print [i_query] (s\<lparr>g_tb_nm := i_tb_nm\<rparr>);
          (rc, rows, db) = sqlite3_exec api (m_db s1) i_query
      in bind_res (fold_res exec_callback rows (s1\<lparr>m_db := db\<rparr>)) (\<lambda>s2.
         if rc \<noteq> 0 then Inl Exit_Failure
         else
           let (p, s3) = pl_index i_tb_nm s2
           in bind_res (pool_dump p (m_heap s3)) (\<lambda>ls. Inr (pl_index i_tb_nm (print ls s3)))))"

definition exec_row_size :: "addr \<Rightarrow> 'db smtdv_sqlite3 \<Rightarrow> int res" where
  "exec_row_size i_pl s = bind_res (pool_get i_pl (m_heap s)) (\<lambda>rs. Inr (size_to_int (length rs)))"

definition exec_row_step :: "addr \<Rightarrow> int \<Rightarrow> 'db smtdv_sqlite3 \<Rightarrow> addr res" where
  "exec_row_step i_pl i_indx s = pool_get_at i_pl i_indx (m_heap s)"

definition exec_column_size :: "addr \<Rightarrow> 'db smtdv_sqlite3 \<Rightarrow> int res" where
  "exec_column_size i_row s = bind_res (row_get i_row (m_heap s)) (\<lambda>cs. Inr (size_to_int (length cs)))"

definition exec_column_step :: "addr \<Rightarrow> int \<Rightarrow> 'db smtdv_sqlite3 \<Rightarrow> addr res" where
  "exec_column_step i_row i_indx s = row_get_at i_row i_indx (m_heap s)"

section \<open>Invariant\<close>

text \<open>
  The name maps are ordered, every table keeps its fields ordered and carries the name it
  is filed under, the heap of query results is well formed, and every pool name leads to a
  live pool of its own.
\<close>

definition db_ok :: "'db smtdv_sqlite3 \<Rightarrow> bool" where
  "db_ok s \<longleftrightarrow>
     map_ok (m_tb s) \<and> map_ok (m_pl s) \<and>
     (\<forall>nm tb. map_of (m_tb s) nm = Some tb \<longrightarrow> table_ok tb \<and> m_tb_nm tb = nm) \<and>
     heap_ok (m_heap s) \<and>
     (\<forall>nm p. map_of (m_pl s) nm = Some p \<longrightarrow> h_pools (m_heap s) p \<noteq> None) \<and>
     (\<forall>nm nm' p. map_of (m_pl s) nm = Some p \<longrightarrow> map_of (m_pl s) nm' = Some p \<longrightarrow> nm = nm')"

lemma print_simps [simp]:
  "m_tb (print ls s) = m_tb s" "m_pl (print ls s) = m_pl s" "m_heap (print ls s) = m_heap s"
  "m_db (print ls s) = m_db s" "g_tb_nm (print ls s) = g_tb_nm s"
  "cout (print ls s) = cout s @ ls"
  by (simp_all add: print_def)

lemma db_ok_cong:
  assumes "m_tb s' = m_tb s" and "m_pl s' = m_pl s" and "m_heap s' = m_heap s"
  shows "db_ok s' = db_ok s"
  using assms by (simp add: db_ok_def)

lemma db_ok_print [simp]: "db_ok (print ls s) = db_ok s"
  and db_ok_m_db [simp]: "db_ok (s\<lparr>m_db := d\<rparr>) = db_ok s"
  and db_ok_g_tb_nm [simp]: "db_ok (s\<lparr>g_tb_nm := n\<rparr>) = db_ok s"
  by (rule db_ok_cong; simp)+

lemma db_ok_init [simp]: "db_ok (init_state db)"
  by (simp add: db_ok_def init_state_def)

lemma db_okD:
  assumes "db_ok s"
  shows "map_ok (m_tb s)" and "map_ok (m_pl s)" and "heap_ok (m_heap s)"
    and "map_of (m_tb s) nm = Some tb \<Longrightarrow> table_ok tb"
    and "map_of (m_tb s) nm = Some tb \<Longrightarrow> m_tb_nm tb = nm"
    and "map_of (m_pl s) nm = Some p \<Longrightarrow> h_pools (m_heap s) p \<noteq> None"
    and "map_of (m_pl s) nm = Some p \<Longrightarrow> map_of (m_pl s) nm' = Some p \<Longrightarrow> nm = nm'"
  using assms unfolding db_ok_def by blast+

lemma db_ok_put_table:
  assumes "db_ok s" and "table_ok tb" and "m_tb_nm tb = nm"
  shows "db_ok (s\<lparr>m_tb := map_put nm tb (m_tb s)\<rparr>)"
  using assms by (simp add: db_ok_def map_of_map_put map_ok_put)

lemma db_ok_create_tb: "db_ok s \<Longrightarrow> db_ok (create_tb nm s)"
  unfolding create_tb_def by (rule db_ok_put_table, assumption) (simp, simp add: SMTDV_Table_def)

lemma db_ok_delete_tb: "db_ok s \<Longrightarrow> db_ok (delete_tb nm s)"
  by (auto simp: delete_tb_def db_ok_def map_of_map_erase map_ok_erase split: option.splits)

lemma db_ok_register:
  assumes "db_ok s"
  shows "db_ok (register_string_field nm fd s)"
    and "db_ok (register_longint_field nm fd s)"
    and "db_ok (register_longlong_field nm fd s)"
  using db_okD(4,5) [OF assms] assms
  by (auto simp: register_string_field_def register_longint_field_def register_longlong_field_def
      table_ok_iregister db_ok_put_table split: option.splits)

lemma db_ok_insert_value: "db_ok s \<Longrightarrow> db_ok (insert_value nm fd v s)"
  using db_okD(4,5) [of s nm] table_ok_insert [of _ fd v] tb_nm_simps(2) [of fd v]
  by (auto simp: insert_value_def Let_def case_prod_beta intro!: db_ok_put_table split: option.splits)

lemma db_ok_flush_value: "db_ok s \<Longrightarrow> db_ok (flush_value nm s)"
  using db_okD(4,5) [of s nm]
  by (auto simp: flush_value_def table_ok_flush intro!: db_ok_put_table split: option.splits)

lemma db_ok_create_pl:
  assumes "db_ok s"
  shows "db_ok (create_pl nm s)"
proof -
  let ?h = "m_heap s"
  have ok: "heap_ok ?h" using db_okD(3) [OF assms] .
  have fresh: "map_of (m_pl s) nm' \<noteq> Some (h_next ?h)" for nm'
    using db_okD(6) [OF assms, of nm'] next_fresh(1) [OF ok] by auto
  then show ?thesis
    using assms heap_ok_new_pool [OF ok, of nm]
    by (auto simp: create_pl_def new_pool_def db_ok_def map_of_map_put map_ok_put)
qed

lemma delete_pl_eq:
  assumes "db_ok s" and "map_of (m_pl s) nm = Some p"
  shows "delete_pl nm s =
    Inr (s\<lparr>m_heap := remove_pool p (m_heap s), m_pl := map_erase nm (m_pl s)\<rparr>)"
proof -
  obtain P where "h_pools (m_heap s) p = Some P" using db_okD(6) [OF assms] by auto
  then have "bind_res (pool_clear p (m_heap s)) (delete_pool p) = Inr (remove_pool p (m_heap s))"
    using db_okD(3) [OF assms(1)] by (intro pool_clear_delete(1))
  then show ?thesis
    using assms(2) by (auto simp: delete_pl_def bind_res_Inr_iff)
qed

lemma h_pools_remove_pool:
  "h_pools h p \<noteq> None \<Longrightarrow> h_pools (remove_pool p h) = (h_pools h)(p := None)"
  by (auto simp: remove_pool_def split: option.splits)

lemma db_ok_delete_pl:
  assumes "db_ok s" and "delete_pl nm s = Inr s'"
  shows "db_ok s'"
proof (cases "map_of (m_pl s) nm")
  case None
  then show ?thesis using assms by (simp add: delete_pl_def)
next
  case (Some p)
  obtain P where P: "h_pools (m_heap s) p = Some P" using db_okD(6) [OF assms(1) Some] by auto
  have s': "s' = s\<lparr>m_heap := remove_pool p (m_heap s), m_pl := map_erase nm (m_pl s)\<rparr>"
    using assms delete_pl_eq [OF assms(1) Some] by simp
  have "heap_ok (remove_pool p (m_heap s))"
    using db_okD(3) [OF assms(1)] P by (rule pool_clear_delete(2))
  moreover have "q \<noteq> p" if "map_of (m_pl s) nm' = Some q" and "nm' \<noteq> nm" for nm' q
    using db_okD(7) [OF assms(1), of nm' p nm] that Some by auto
  ultimately show ?thesis
    using assms(1) P by (auto simp: s' db_ok_def map_of_map_erase map_ok_erase h_pools_remove_pool)
qed

lemma db_ok_run_command: "db_ok s \<Longrightarrow> run_command api q s = Inr s' \<Longrightarrow> db_ok s'"
  by (auto simp: run_command_def Let_def split: prod.splits if_splits)

lemma db_ok_exec:
  assumes "db_ok s"
  shows "exec_field api nm s = Inr s' \<Longrightarrow> db_ok s'" and "exec_value api nm s = Inr s' \<Longrightarrow> db_ok s'"
  using assms db_ok_run_command
  by (auto simp: exec_field_def exec_value_def bind_res_Inr_iff split: option.splits)

lemma db_ok_db:
  assumes "db_ok s"
  shows "create_db api nm s = Inr s' \<Longrightarrow> db_ok s'" and "db_ok (delete_db api nm s)"
    and "db_ok (close_db api s)"
  using assms by (auto simp: create_db_def delete_db_def close_db_def Let_def
      split: prod.splits if_splits)

section \<open>What a query adds to its pool\<close>

text \<open>The column built for one cell of a result row.\<close>

definition cell_of :: "'db smtdv_sqlite3 \<Rightarrow> string \<times> string option \<Rightarrow> smtdv_data" where
  "cell_of s cell =
     \<lparr>d_typ = fst (get_field_typ s (g_tb_nm s) (extract_word (fst cell))),
      d_name = extract_word (fst cell), d_val = extract_word (the (snd cell))\<rparr>"

text \<open>SQLite returned no null value in these rows.\<close>

definition no_nulls :: "sql_row \<Rightarrow> bool" where
  "no_nulls cells = (\<forall>c \<in> set cells. snd c \<noteq> None)"

lemma get_field_typ_cong:
  assumes "m_tb s' = m_tb s"
  shows "get_field_typ s' = get_field_typ s"
proof -
  have "is_string_field s' = is_string_field s" "is_longint_field s' = is_longint_field s"
    "is_longlong_field s' = is_longlong_field s"
    using assms by (simp_all add: fun_eq_iff is_string_field_def is_longint_field_def
        is_longlong_field_def)
  then show ?thesis by (intro ext) (simp only: get_field_typ_def)
qed

lemma cell_of_cong: "m_tb s' = m_tb s \<Longrightarrow> g_tb_nm s' = g_tb_nm s \<Longrightarrow> cell_of s' = cell_of s"
  using get_field_typ_cong [of s' s] by (simp add: cell_of_def fun_eq_iff)

text \<open>Everything but the heap and the console is as before.\<close>

definition same_names :: "'db smtdv_sqlite3 \<Rightarrow> 'db smtdv_sqlite3 \<Rightarrow> bool" where
  "same_names s s' \<longleftrightarrow>
     m_tb s' = m_tb s \<and> m_pl s' = m_pl s \<and> g_tb_nm s' = g_tb_nm s \<and> m_db s' = m_db s"

lemma same_names_refl [simp]: "same_names s s"
  by (simp add: same_names_def)

lemma same_names_trans: "same_names s s' \<Longrightarrow> same_names s' s'' \<Longrightarrow> same_names s s''"
  by (simp add: same_names_def)

text \<open>Objects that exist are not changed by an allocation.\<close>

definition keeps :: "(addr \<rightharpoonup> 'a) \<Rightarrow> (addr \<rightharpoonup> 'a) \<Rightarrow> bool" where
  "keeps g g' \<longleftrightarrow> (\<forall>a x. g a = Some x \<longrightarrow> g' a = Some x)"

lemma keeps_refl [simp]: "keeps g g"
  by (simp add: keeps_def)

lemma keeps_trans: "keeps g g' \<Longrightarrow> keeps g' g'' \<Longrightarrow> keeps g g''"
  by (simp add: keeps_def)

lemma keeps_fresh: "g a = None \<Longrightarrow> keeps g (g(a \<mapsto> x))"
  by (auto simp: keeps_def)

lemma exec_cell_ok:
  assumes ok: "heap_ok (m_heap s)" and r: "h_rows (m_heap s) r = Some cs"
    and cell: "snd cell \<noteq> None"
  shows "\<exists>s' c. exec_cell r cell s = Inr s' \<and> same_names s s' \<and> heap_ok (m_heap s') \<and>
    h_pools (m_heap s') = h_pools (m_heap s) \<and>
    h_rows (m_heap s') = (h_rows (m_heap s))(r \<mapsto> cs @ [c]) \<and>
    h_cols (m_heap s') c = Some (cell_of s cell) \<and> keeps (h_cols (m_heap s)) (h_cols (m_heap s'))"
proof -
  obtain argv where argv: "snd cell = Some argv" using cell by auto
  let ?h = "m_heap s" and ?c = "h_next (m_heap s)"
  let ?d = "cell_of s cell"
  let ?h1 = "snd (new_column (d_typ ?d) (d_name ?d) (d_val ?d) ?h)"
  let ?h2 = "?h1\<lparr>h_rows := (h_rows ?h)(r \<mapsto> cs @ [?c])\<rparr>"
  have r0: "r \<noteq> 0" using heap_okD(3) [OF ok, of r] r by auto
  have ok1: "heap_ok ?h1" using ok by (rule heap_ok_new_column)
  have set: "row_set r ?c ?h1 = Inr ?h2"
    using r r0 by (simp add: row_set_def new_column_def)
  have ok2: "heap_ok ?h2"
  proof (rule heap_ok_row_set [OF ok1 set])
    show "?c \<in> dom (h_cols ?h1)" by (simp add: new_column_def)
    show "?c \<notin> set ys" if "h_rows ?h1 b = Some ys" for b ys
      using that owns_subset [OF heap_okD(6) [OF ok], of b ys] next_fresh(3) [OF ok]
      by (auto simp: new_column_def)
  qed
  obtain s' where run: "exec_cell r cell s = Inr s'" and heap: "m_heap s' = ?h2"
    and names: "same_names s s'"
  proof
    have ty: "get_field_typ (print ls s) = get_field_typ s" for ls
      by (rule get_field_typ_cong) simp
    let ?s1 = "print [fst cell @ ''='' @ argv] s"
    let ?ls = "snd (get_field_typ s (g_tb_nm s) (d_name ?d)) @ [d_name ?d @ ''='' @ d_val ?d]"
    show "exec_cell r cell s = Inr ((print ?ls (?s1\<lparr>m_heap := ?h1\<rparr>))\<lparr>m_heap := ?h2\<rparr>)"
      using argv set
      by (simp add: exec_cell_def Let_def ty cell_of_def new_column_def case_prod_beta)
    show "m_heap ((print ?ls (?s1\<lparr>m_heap := ?h1\<rparr>))\<lparr>m_heap := ?h2\<rparr>) = ?h2" by simp
    show "same_names s ((print ?ls (?s1\<lparr>m_heap := ?h1\<rparr>))\<lparr>m_heap := ?h2\<rparr>)"
      by (simp add: same_names_def)
  qed
  have "h_cols ?h2 ?c = Some ?d" "keeps (h_cols ?h) (h_cols ?h2)"
    using next_fresh(3) [OF ok] by (auto simp: new_column_def cell_of_def intro: keeps_fresh)
  moreover have "h_pools ?h2 = h_pools ?h" by (simp add: new_column_def)
  ultimately show ?thesis
    using run heap names ok2 by (intro exI [of _ s'] exI [of _ ?c]) simp
qed

lemma exec_cells_ok:
  assumes "heap_ok (m_heap s)" and "h_rows (m_heap s) r = Some cs" and "no_nulls cells"
  shows "\<exists>s' cs'. fold_res (exec_cell r) cells s = Inr s' \<and> same_names s s' \<and>
    heap_ok (m_heap s') \<and> h_pools (m_heap s') = h_pools (m_heap s) \<and>
    h_rows (m_heap s') = (h_rows (m_heap s))(r \<mapsto> cs @ cs') \<and>
    map (h_cols (m_heap s')) cs' = map (\<lambda>c. Some (cell_of s c)) cells \<and>
    keeps (h_cols (m_heap s)) (h_cols (m_heap s'))"
  using assms
proof (induction cells arbitrary: s cs)
  case Nil
  then show ?case by (intro exI [of _ s] exI [of _ "[]"]) (simp add: fun_upd_idem)
next
  case (Cons cell cells)
  have "snd cell \<noteq> None" and nn: "no_nulls cells"
    using Cons.prems(3) by (auto simp: no_nulls_def)
  then obtain s1 c where 1: "exec_cell r cell s = Inr s1" "same_names s s1" "heap_ok (m_heap s1)"
    "h_pools (m_heap s1) = h_pools (m_heap s)"
    "h_rows (m_heap s1) = (h_rows (m_heap s))(r \<mapsto> cs @ [c])"
    "h_cols (m_heap s1) c = Some (cell_of s cell)" "keeps (h_cols (m_heap s)) (h_cols (m_heap s1))"
    using exec_cell_ok [OF Cons.prems(1,2)] by blast
  have "h_rows (m_heap s1) r = Some (cs @ [c])" by (simp add: 1(5))
  from Cons.IH [OF 1(3) this nn] obtain s2 cs' where 2: "fold_res (exec_cell r) cells s1 = Inr s2"
    "same_names s1 s2" "heap_ok (m_heap s2)" "h_pools (m_heap s2) = h_pools (m_heap s1)"
    "h_rows (m_heap s2) = (h_rows (m_heap s1))(r \<mapsto> (cs @ [c]) @ cs')"
    "map (h_cols (m_heap s2)) cs' = map (\<lambda>c. Some (cell_of s1 c)) cells"
    "keeps (h_cols (m_heap s1)) (h_cols (m_heap s2))" by blast
  have "cell_of s1 = cell_of s"
    using 1(2) by (intro cell_of_cong) (simp_all add: same_names_def)
  then have "map (h_cols (m_heap s2)) (c # cs') = map (\<lambda>c. Some (cell_of s c)) (cell # cells)"
    using 1(6) 2(6,7) by (simp add: keeps_def)
  moreover have "h_rows (m_heap s2) = (h_rows (m_heap s))(r \<mapsto> cs @ (c # cs'))"
    by (simp add: 2(5) 1(5))
  ultimately show ?case
    using 1 2 same_names_trans [OF 1(2) 2(2)] keeps_trans [OF 1(7) 2(7)]
    by (intro exI [of _ s2] exI [of _ "c # cs'"]) simp
qed

text \<open>What a state keeps of the pools when one pool \<open>p\<close> got more rows.\<close>

definition pool_grew :: "addr \<Rightarrow> smtdv_data list list \<Rightarrow> 'db smtdv_sqlite3 \<Rightarrow> 'db smtdv_sqlite3 \<Rightarrow> bool" where
  "pool_grew p new s s' \<longleftrightarrow>
     pool_cells (m_heap s') p = pool_cells (m_heap s) p @ new \<and>
     dom (h_pools (m_heap s')) = dom (h_pools (m_heap s)) \<and>
     (\<forall>q. h_pools (m_heap s) q \<noteq> None \<longrightarrow> q \<noteq> p \<longrightarrow> pool_cells (m_heap s') q = pool_cells (m_heap s) q)"

lemma row_cells_keeps:
  assumes "heap_ok h" and "h_rows h r = Some cs" and "h_rows h' r = Some cs"
    and "keeps (h_cols h) (h_cols h')"
  shows "row_cells h' r = row_cells h r"
proof -
  have "the (h_cols h' c) = the (h_cols h c)" if "c \<in> set cs" for c
    using owns_subset [OF heap_okD(6) [OF assms(1)] assms(2)] that assms(4)
    by (fastforce simp: keeps_def)
  then show ?thesis using assms(2,3) by (simp add: row_cells_def)
qed

lemma pool_cells_keeps:
  assumes "heap_ok h" and "h_pools h q = Some Q" and "h_pools h' q = Some Q"
    and "keeps (h_cols h) (h_cols h')" and "keeps (h_rows h) (h_rows h')"
  shows "pool_cells h' q = pool_cells h q"
proof -
  have "row_cells h' r = row_cells h r" if r: "r \<in> set (m_row Q)" for r
  proof -
    obtain cs where "h_rows h r = Some cs" by (rule pool_rows_live [OF assms(1,2) r])
    then show ?thesis
      using assms(1,4,5) by (intro row_cells_keeps) (auto simp: keeps_def)
  qed
  then show ?thesis using assms(2,3) by (simp add: pool_cells_def)
qed

lemma exec_callback_ok:
  assumes ok: "db_ok s" and p: "map_of (m_pl s) (g_tb_nm s) = Some p" and nn: "no_nulls cells"
  shows "\<exists>s'. exec_callback cells s = Inr s' \<and> same_names s s' \<and> db_ok s' \<and>
    pool_grew p [map (cell_of s) cells] s s'"
proof -
  let ?h = "m_heap s" and ?r = "h_next (m_heap s)"
  let ?h1 = "snd (new_row ?h)" and ?s1 = "s\<lparr>m_heap := snd (new_row (m_heap s))\<rparr>"
  have hok: "heap_ok ?h" using db_okD(3) [OF ok] .
  obtain P where P: "h_pools ?h p = Some P" using db_okD(6) [OF ok p] by auto
  have p0: "p \<noteq> 0" using heap_okD(2) [OF hok, of p] P by auto
  have hok1: "heap_ok (m_heap ?s1)" using heap_ok_new_row [OF hok] by simp
  have r1: "h_rows (m_heap ?s1) ?r = Some []" by (simp add: new_row_def)
  obtain s2 cs where 2: "fold_res (exec_cell ?r) cells ?s1 = Inr s2" "same_names ?s1 s2"
    "heap_ok (m_heap s2)" "h_pools (m_heap s2) = h_pools ?h"
    "h_rows (m_heap s2) = (h_rows ?h1)(?r \<mapsto> [] @ cs)"
    "map (h_cols (m_heap s2)) cs = map (\<lambda>c. Some (cell_of ?s1 c)) cells"
    "keeps (h_cols ?h) (h_cols (m_heap s2))"
    using exec_cells_ok [OF hok1 r1 nn] by (auto simp: new_row_def)
  let ?h3 = "(m_heap s2)\<lparr>h_pools := (h_pools ?h)(p \<mapsto> P\<lparr>m_row := m_row P @ [?r]\<rparr>)\<rparr>"
  have set: "pool_set p ?r (m_heap s2) = Inr ?h3"
    using P p0 by (simp add: pool_set_def 2(4))
  have hok3: "heap_ok ?h3"
  proof (rule heap_ok_pool_set [OF 2(3) set])
    show "?r \<in> dom (h_rows (m_heap s2))" by (simp add: 2(5))
    show "?r \<notin> set ys" if "rows_of (m_heap s2) b = Some ys" for b ys
    proof -
      have "rows_of ?h b = Some ys" using that by (simp add: rows_of_def 2(4))
      then show ?thesis
        using owns_subset [OF heap_okD(5) [OF hok]] next_fresh(2) [OF hok] by blast
    qed
  qed
  let ?s' = "s2\<lparr>m_heap := ?h3\<rparr>"
  have names: "same_names s ?s'" using 2(2) by (simp add: same_names_def)
  have run: "exec_callback cells s = Inr ?s'"
    using 2(1) set p names
    by (simp add: exec_callback_def new_row_def pl_index_def same_names_def)
  have krows: "keeps (h_rows ?h) (h_rows ?h3)"
    using next_fresh(2) [OF hok] by (auto simp: 2(5) keeps_def new_row_def)
  have kcols: "keeps (h_cols ?h) (h_cols ?h3)" using 2(7) by simp
  have "cell_of ?s1 = cell_of s" by (rule cell_of_cong) simp_all
  with 2(6) have new: "row_cells ?h3 ?r = map (cell_of s) cells"
    by (auto simp: row_cells_def 2(5) list_eq_iff_nth_eq)
  have old: "row_cells ?h3 r = row_cells ?h r" if r: "r \<in> set (m_row P)" for r
  proof -
    obtain xs where "h_rows ?h r = Some xs" by (rule pool_rows_live [OF hok P r])
    then show ?thesis using krows kcols hok by (intro row_cells_keeps) (auto simp: keeps_def)
  qed
  have "pool_cells ?h3 p = pool_cells ?h p @ [map (cell_of s) cells]"
    using P new old by (simp add: pool_cells_def)
  moreover have "pool_cells ?h3 q = pool_cells ?h q" if "h_pools ?h q \<noteq> None" "q \<noteq> p" for q
    using that hok krows kcols by (auto intro!: pool_cells_keeps)
  moreover have "dom (h_pools ?h3) = dom (h_pools ?h)" using P by auto
  ultimately have "pool_grew p [map (cell_of s) cells] s ?s'"
    by (simp add: pool_grew_def)
  moreover have "db_ok ?s'"
    using ok hok3 P names unfolding db_ok_def same_names_def by auto
  ultimately show ?thesis using run names by blast
qed

lemma pool_grew_Nil [simp]: "pool_grew p [] s s"
  by (simp add: pool_grew_def)

lemma pool_grew_trans:
  assumes "pool_grew p xs s s'" and "pool_grew p ys s' s''"
  shows "pool_grew p (xs @ ys) s s''"
proof -
  have "h_pools (m_heap s') q \<noteq> None" if "h_pools (m_heap s) q \<noteq> None" for q
    using assms(1) that by (auto simp: pool_grew_def dom_def set_eq_iff)
  then show ?thesis
    using assms by (simp add: pool_grew_def)
qed

lemma exec_callbacks_ok:
  assumes "db_ok s" and "map_of (m_pl s) (g_tb_nm s) = Some p" and "\<forall>r \<in> set rows. no_nulls r"
  shows "\<exists>s'. fold_res exec_callback rows s = Inr s' \<and> same_names s s' \<and> db_ok s' \<and>
    pool_grew p (map (map (cell_of s)) rows) s s'"
  using assms
proof (induction rows arbitrary: s)
  case Nil
  then show ?case by (intro exI [of _ s]) simp
next
  case (Cons r rows)
  from exec_callback_ok [OF Cons.prems(1,2)] Cons.prems(3)
  obtain s1 where 1: "exec_callback r s = Inr s1" "same_names s s1" "db_ok s1"
    "pool_grew p [map (cell_of s) r] s s1" by auto
  have "map_of (m_pl s1) (g_tb_nm s1) = Some p" and cells: "cell_of s1 = cell_of s"
    using 1(2) Cons.prems(2) by (auto simp: same_names_def intro: cell_of_cong)
  from Cons.IH [OF 1(3) this(1)] Cons.prems(3)
  obtain s2 where 2: "fold_res exec_callback rows s1 = Inr s2" "same_names s1 s2" "db_ok s2"
    "pool_grew p (map (map (cell_of s1)) rows) s1 s2" by auto
  show ?case
    using 1 2 cells same_names_trans [OF 1(2) 2(2)] pool_grew_trans [OF 1(4) 2(4)]
    by (intro exI [of _ s2]) simp
qed

lemma exec_query_ok:
  assumes ok: "db_ok s" and p: "map_of (m_pl s) tb = Some p"
    and exec: "sqlite3_exec api (m_db s) q = (0, rows, db)" and nn: "\<forall>r \<in> set rows. no_nulls r"
  shows "\<exists>s'. exec_query api tb q s = Inr (p, s') \<and> db_ok s' \<and>
    m_tb s' = m_tb s \<and> m_pl s' = m_pl s \<and> m_db s' = db \<and>
    pool_grew p (map (map (cell_of (s\<lparr>g_tb_nm := tb\<rparr>))) rows) s s'"
proof -
  let ?s1 = "(print [q] (s\<lparr>g_tb_nm := tb\<rparr>))\<lparr>m_db := db\<rparr>"
  have ok1: "db_ok ?s1" using ok by simp
  have p1: "map_of (m_pl ?s1) (g_tb_nm ?s1) = Some p" using p by simp
  obtain s2 where 2: "fold_res exec_callback rows ?s1 = Inr s2" "same_names ?s1 s2" "db_ok s2"
    "pool_grew p (map (map (cell_of ?s1)) rows) ?s1 s2"
    using exec_callbacks_ok [OF ok1 p1 nn] by blast
  have p2: "map_of (m_pl s2) tb = Some p" using 2(2) p by (simp add: same_names_def)
  obtain P where P: "h_pools (m_heap s2) p = Some P" using db_okD(6) [OF 2(3) p2] by auto
  obtain ls where ls: "pool_dump p (m_heap s2) = Inr ls"
    using pool_dump_ok [OF db_okD(3) [OF 2(3)] P] by blast
  have "exec_query api tb q s = Inr (p, print ls s2)"
    using 2(1) p2 ls exec by (simp add: exec_query_def Let_def pl_index_def)
  moreover have "cell_of ?s1 = cell_of (s\<lparr>g_tb_nm := tb\<rparr>)"
    by (rule cell_of_cong) simp_all
  ultimately show ?thesis
    using 2 by (intro exI [of _ "print ls s2"]) (simp add: same_names_def pool_grew_def)
qed

section \<open>When a query fails\<close>

lemma exec_callback_no_nulls: "exec_callback cells s = Inr s' \<Longrightarrow> no_nulls cells"
proof -
  assume "exec_callback cells s = Inr s'"
  then obtain t where t: "fold_res (exec_cell (h_next (m_heap s))) cells
      (s\<lparr>m_heap := snd (new_row (m_heap s))\<rparr>) = Inr t"
    by (auto simp: exec_callback_def new_row_def bind_res_Inr_iff)
  have "snd c \<noteq> None" if "c \<in> set cells" for c
    using fold_res_InrD [OF t that] by (auto simp: exec_cell_def split: option.splits)
  then show "no_nulls cells" by (simp add: no_nulls_def)
qed

lemma pool_null:
  "pool_set 0 r h = Inl Null_Deref" "pool_dump 0 h = Inl Null_Deref"
  by (simp_all add: pool_set_def pool_dump_def)

lemma exec_callback_no_pool:
  assumes "db_ok s" and "map_of (m_pl s) (g_tb_nm s) = None"
  shows "exec_callback cells s \<noteq> Inr s'"
proof
  assume run: "exec_callback cells s = Inr s'"
  let ?s1 = "s\<lparr>m_heap := snd (new_row (m_heap s))\<rparr>" and ?r = "h_next (m_heap s)"
  have "heap_ok (m_heap ?s1)" using heap_ok_new_row [OF db_okD(3) [OF assms(1)]] by simp
  moreover have "h_rows (m_heap ?s1) ?r = Some []" by (simp add: new_row_def)
  ultimately obtain s2 where "fold_res (exec_cell ?r) cells ?s1 = Inr s2" "same_names ?s1 s2"
    using exec_cells_ok exec_callback_no_nulls [OF run] by blast
  then show False
    using run assms(2)
    by (simp add: exec_callback_def new_row_def pl_index_def same_names_def pool_null)
qed

text \<open>A query that returns had a pool, no SQL null and no SQLite error.\<close>

lemma exec_query_InrD:
  assumes ok: "db_ok s" and run: "exec_query api tb q s = Inr (p, s')"
  shows "\<exists>rows. map_of (m_pl s) tb = Some p \<and> (\<forall>r \<in> set rows. no_nulls r) \<and>
    sqlite3_exec api (m_db s) q = (0, rows, m_db s')"
proof -
  obtain rc rows db where e: "sqlite3_exec api (m_db s) q = (rc, rows, db)" by (metis prod.exhaust)
  let ?s1 = "(print [q] (s\<lparr>g_tb_nm := tb\<rparr>))\<lparr>m_db := db\<rparr>"
  from run e obtain s2 where s2: "fold_res exec_callback rows ?s1 = Inr s2" and rc: "rc = 0"
    and dump: "pool_dump (fst (pl_index tb s2)) (m_heap (snd (pl_index tb s2))) \<noteq> Inl Null_Deref"
    by (auto simp: exec_query_def Let_def bind_res_Inr_iff case_prod_beta split: if_splits)
  have nn: "\<forall>r \<in> set rows. no_nulls r"
    using fold_res_InrD [OF s2] exec_callback_no_nulls by blast
  have "map_of (m_pl s) tb \<noteq> None"
  proof
    assume none: "map_of (m_pl s) tb = None"
    show False
    proof (cases rows)
      case Nil
      then show False using s2 dump none by (auto simp: pl_index_def pool_null)
    next
      case (Cons r rs)
      then obtain t where "exec_callback r ?s1 = Inr t" using s2 by (auto simp: bind_res_Inr_iff)
      then show False using exec_callback_no_pool [of ?s1 r t] ok none by simp
    qed
  qed
  then obtain p' where "map_of (m_pl s) tb = Some p'" by blast
  then show ?thesis
    using exec_query_ok [OF ok _ e [unfolded rc] nn] run nn e rc by fastforce
qed

lemma db_ok_exec_query:
  assumes "db_ok s" and "exec_query api tb q s = Inr (p, s')"
  shows "db_ok s'"
  using exec_query_InrD [OF assms] exec_query_ok [OF assms(1)] assms(2) by fastforce

end
