(* ===== verification/Sqlite_Lib.thy ===== *)
theory Sqlite_Lib
  imports Sqlite_Db
begin

text \<open>
  The exported DPI functions of \<open>dpi/sqlite3/dpi_smtdv_lib.cpp\<close>, one definition each, the
  transition system of a simulation that calls them in any order, its invariant, and the
  contract a client relies on when it walks a query result by index.
\<close>

section \<open>The exported functions\<close>

definition dpi_smtdv_new_db :: "'db sqlite3_api \<Rightarrow> string \<Rightarrow> 'db smtdv_sqlite3 \<Rightarrow> 'db smtdv_sqlite3 res" where
  "dpi_smtdv_new_db api i_db_nm s = create_db api i_db_nm s"

definition dpi_smtdv_delete_db :: "'db sqlite3_api \<Rightarrow> string \<Rightarrow> 'db smtdv_sqlite3 \<Rightarrow> 'db smtdv_sqlite3" where
  "dpi_smtdv_delete_db api i_db_nm s = delete_db api i_db_nm s"

definition dpi_smtdv_close_db :: "'db sqlite3_api \<Rightarrow> 'db smtdv_sqlite3 \<Rightarrow> 'db smtdv_sqlite3" where
  "dpi_smtdv_close_db api s = close_db api s"

definition dpi_smtdv_create_tb :: "string \<Rightarrow> 'db smtdv_sqlite3 \<Rightarrow> 'db smtdv_sqlite3" where
  "dpi_smtdv_create_tb i_tb_nm s = create_tb i_tb_nm s"

definition dpi_smtdv_delete_tb :: "string \<Rightarrow> 'db smtdv_sqlite3 \<Rightarrow> 'db smtdv_sqlite3" where
  "dpi_smtdv_delete_tb i_tb_nm s = delete_tb i_tb_nm s"

definition dpi_smtdv_create_pl :: "string \<Rightarrow> 'db smtdv_sqlite3 \<Rightarrow> 'db smtdv_sqlite3" where
  "dpi_smtdv_create_pl i_tb_nm s = create_pl i_tb_nm s"

definition dpi_smtdv_delete_pl :: "string \<Rightarrow> 'db smtdv_sqlite3 \<Rightarrow> 'db smtdv_sqlite3 res" where
  "dpi_smtdv_delete_pl i_tb_nm s = delete_pl i_tb_nm s"

definition dpi_smtdv_register_string_field :: "string \<Rightarrow> string \<Rightarrow> 'db smtdv_sqlite3 \<Rightarrow> 'db smtdv_sqlite3" where
  "dpi_smtdv_register_string_field i_tb_nm i_fd_nm s = register_string_field i_tb_nm i_fd_nm s"

definition dpi_smtdv_is_string_field :: "string \<Rightarrow> string \<Rightarrow> 'db smtdv_sqlite3 \<Rightarrow> bool \<times> 'db smtdv_sqlite3" where
  "dpi_smtdv_is_string_field i_tb_nm i_fd_nm s =
     (let (b, ls) = is_string_field s i_tb_nm i_fd_nm in (b, print ls s))"

definition dpi_smtdv_register_longint_field :: "string \<Rightarrow> string \<Rightarrow> 'db smtdv_sqlite3 \<Rightarrow> 'db smtdv_sqlite3" where
  "dpi_smtdv_register_longint_field i_tb_nm i_fd_nm s = register_longint_field i_tb_nm i_fd_nm s"

definition dpi_smtdv_is_longint_field :: "string \<Rightarrow> string \<Rightarrow> 'db smtdv_sqlite3 \<Rightarrow> bool \<times> 'db smtdv_sqlite3" where
  "dpi_smtdv_is_longint_field i_tb_nm i_fd_nm s =
     (let (b, ls) = is_longint_field s i_tb_nm i_fd_nm in (b, print ls s))"

definition dpi_smtdv_register_longlong_field :: "string \<Rightarrow> string \<Rightarrow> 'db smtdv_sqlite3 \<Rightarrow> 'db smtdv_sqlite3" where
  "dpi_smtdv_register_longlong_field i_tb_nm i_fd_nm s = register_longlong_field i_tb_nm i_fd_nm s"

definition dpi_smtdv_is_longlong_field :: "string \<Rightarrow> string \<Rightarrow> 'db smtdv_sqlite3 \<Rightarrow> bool \<times> 'db smtdv_sqlite3" where
  "dpi_smtdv_is_longlong_field i_tb_nm i_fd_nm s =
     (let (b, ls) = is_longlong_field s i_tb_nm i_fd_nm in (b, print ls s))"

definition dpi_smtdv_exec_field :: "'db sqlite3_api \<Rightarrow> string \<Rightarrow> 'db smtdv_sqlite3 \<Rightarrow> 'db smtdv_sqlite3 res" where
  "dpi_smtdv_exec_field api i_tb_nm s = exec_field api i_tb_nm s"

definition dpi_smtdv_insert_value :: "string \<Rightarrow> string \<Rightarrow> string \<Rightarrow> 'db smtdv_sqlite3 \<Rightarrow> 'db smtdv_sqlite3" where
  "dpi_smtdv_insert_value i_tb_nm i_fd_nm i_val s = insert_value i_tb_nm i_fd_nm i_val s"

definition dpi_smtdv_exec_value :: "'db sqlite3_api \<Rightarrow> string \<Rightarrow> 'db smtdv_sqlite3 \<Rightarrow> 'db smtdv_sqlite3 res" where
  "dpi_smtdv_exec_value api i_tb_nm s = exec_value api i_tb_nm s"

definition dpi_smtdv_flush_value :: "string \<Rightarrow> 'db smtdv_sqlite3 \<Rightarrow> 'db smtdv_sqlite3" where
  "dpi_smtdv_flush_value i_tb_nm s = flush_value i_tb_nm s"

definition dpi_smtdv_exec_query :: "'db sqlite3_api \<Rightarrow> string \<Rightarrow> string \<Rightarrow> 'db smtdv_sqlite3 \<Rightarrow>
    (addr \<times> 'db smtdv_sqlite3) res" where
  "dpi_smtdv_exec_query api i_tb_nm i_query s =
     bind_res (exec_query api i_tb_nm i_query s) (\<lambda>(pl, s').
     bind_res (assert_res (pl \<noteq> null)) (\<lambda>_. Inr (pl, s')))"

definition dpi_smtdv_exec_row_size :: "addr \<Rightarrow> 'db smtdv_sqlite3 \<Rightarrow> int res" where
  "dpi_smtdv_exec_row_size i_pl s =
     bind_res (assert_res (i_pl \<noteq> null)) (\<lambda>_. exec_row_size i_pl s)"

definition dpi_smtdv_exec_row_step :: "addr \<Rightarrow> int \<Rightarrow> 'db smtdv_sqlite3 \<Rightarrow> addr res" where
  "dpi_smtdv_exec_row_step i_pl i_indx s =
     bind_res (assert_res (i_pl \<noteq> null)) (\<lambda>_. exec_row_step i_pl i_indx s)"

definition dpi_smtdv_exec_column_size :: "addr \<Rightarrow> 'db smtdv_sqlite3 \<Rightarrow> int res" where
  "dpi_smtdv_exec_column_size i_row s =
     bind_res (assert_res (i_row \<noteq> null)) (\<lambda>_. exec_column_size i_row s)"

definition dpi_smtdv_exec_column_step :: "addr \<Rightarrow> int \<Rightarrow> 'db smtdv_sqlite3 \<Rightarrow> addr res" where
  "dpi_smtdv_exec_column_step i_row i_indx s =
     bind_res (assert_res (i_row \<noteq> null)) (\<lambda>_. exec_column_step i_row i_indx s)"

definition dpi_smtdv_exec_string_data :: "addr \<Rightarrow> 'db smtdv_sqlite3 \<Rightarrow> string res" where
  "dpi_smtdv_exec_string_data i_dt s =
     bind_res (assert_res (i_dt \<noteq> null)) (\<lambda>_.
     bind_res (deref (h_cols (m_heap s)) i_dt) (\<lambda>dt. Inr (c_str (d_val dt))))"

definition dpi_smtdv_exec_header_data :: "addr \<Rightarrow> 'db smtdv_sqlite3 \<Rightarrow> string res" where
  "dpi_smtdv_exec_header_data i_dt s =
     bind_res (assert_res (i_dt \<noteq> null)) (\<lambda>_.
     bind_res (deref (h_cols (m_heap s)) i_dt) (\<lambda>dt. Inr (c_str (d_name dt))))"

definition dpi_smtdv_is_string_data :: "addr \<Rightarrow> 'db smtdv_sqlite3 \<Rightarrow> bool res" where
  "dpi_smtdv_is_string_data i_dt s =
     bind_res (assert_res (i_dt \<noteq> null)) (\<lambda>_.
     bind_res (deref (h_cols (m_heap s)) i_dt) (\<lambda>dt. Inr (d_typ dt = T_STRING)))"

definition dpi_smtdv_is_longint_data :: "addr \<Rightarrow> 'db smtdv_sqlite3 \<Rightarrow> bool res" where
  "dpi_smtdv_is_longint_data i_dt s =
     bind_res (assert_res (i_dt \<noteq> null)) (\<lambda>_.
     bind_res (deref (h_cols (m_heap s)) i_dt) (\<lambda>dt. Inr (d_typ dt = T_LONGINT)))"

definition dpi_smtdv_is_longlong_data :: "addr \<Rightarrow> 'db smtdv_sqlite3 \<Rightarrow> bool res" where
  "dpi_smtdv_is_longlong_data i_dt s =
     bind_res (assert_res (i_dt \<noteq> null)) (\<lambda>_.
     bind_res (deref (h_cols (m_heap s)) i_dt) (\<lambda>dt. Inr (d_typ dt = T_LONGLONG)))"

section \<open>The simulation as a transition system\<close>

text \<open>One rule per exported function that changes the state; calls that fail end the run.\<close>

inductive dpi_step :: "'db sqlite3_api \<Rightarrow> 'db smtdv_sqlite3 \<Rightarrow> 'db smtdv_sqlite3 \<Rightarrow> bool"
  for api :: "'db sqlite3_api" where
  new_db: "dpi_smtdv_new_db api nm s = Inr s' \<Longrightarrow> dpi_step api s s'"
| delete_db: "dpi_step api s (dpi_smtdv_delete_db api nm s)"
| close_db: "dpi_step api s (dpi_smtdv_close_db api s)"
| create_tb: "dpi_step api s (dpi_smtdv_create_tb nm s)"
| delete_tb: "dpi_step api s (dpi_smtdv_delete_tb nm s)"
| create_pl: "dpi_step api s (dpi_smtdv_create_pl nm s)"
| delete_pl: "dpi_smtdv_delete_pl nm s = Inr s' \<Longrightarrow> dpi_step api s s'"
| register_string: "dpi_step api s (dpi_smtdv_register_string_field nm fd s)"
| register_longint: "dpi_step api s (dpi_smtdv_register_longint_field nm fd s)"
| register_longlong: "dpi_step api s (dpi_smtdv_register_longlong_field nm fd s)"
| is_string: "dpi_step api s (snd (dpi_smtdv_is_string_field nm fd s))"
| is_longint: "dpi_step api s (snd (dpi_smtdv_is_longint_field nm fd s))"
| is_longlong: "dpi_step api s (snd (dpi_smtdv_is_longlong_field nm fd s))"
| exec_field: "dpi_smtdv_exec_field api nm s = Inr s' \<Longrightarrow> dpi_step api s s'"
| insert_value: "dpi_step api s (dpi_smtdv_insert_value nm fd v s)"
| exec_value: "dpi_smtdv_exec_value api nm s = Inr s' \<Longrightarrow> dpi_step api s s'"
| flush_value: "dpi_step api s (dpi_smtdv_flush_value nm s)"
| exec_query: "dpi_smtdv_exec_query api nm q s = Inr (p, s') \<Longrightarrow> dpi_step api s s'"

inductive reachable :: "'db sqlite3_api \<Rightarrow> 'db \<Rightarrow> 'db smtdv_sqlite3 \<Rightarrow> bool"
  for api :: "'db sqlite3_api" and db :: 'db where
  start: "reachable api db (init_state db)"
| step: "reachable api db s \<Longrightarrow> dpi_step api s s' \<Longrightarrow> reachable api db s'"

named_theorems dpi_defs

lemmas dpi_step_defs [dpi_defs] =
  dpi_smtdv_new_db_def dpi_smtdv_delete_db_def dpi_smtdv_close_db_def dpi_smtdv_create_tb_def
  dpi_smtdv_delete_tb_def dpi_smtdv_create_pl_def dpi_smtdv_delete_pl_def
  dpi_smtdv_register_string_field_def dpi_smtdv_register_longint_field_def
  dpi_smtdv_register_longlong_field_def dpi_smtdv_is_string_field_def
  dpi_smtdv_is_longint_field_def dpi_smtdv_is_longlong_field_def dpi_smtdv_exec_field_def
  dpi_smtdv_insert_value_def dpi_smtdv_exec_value_def dpi_smtdv_flush_value_def

lemma db_ok_dpi_exec_query:
  "db_ok s \<Longrightarrow> dpi_smtdv_exec_query api nm q s = Inr (p, s') \<Longrightarrow> db_ok s'"
  by (auto simp: dpi_smtdv_exec_query_def bind_res_Inr_iff dest: db_ok_exec_query)

lemma dpi_step_db_ok: "dpi_step api s s' \<Longrightarrow> db_ok s \<Longrightarrow> db_ok s'"
  by (induction rule: dpi_step.induct)
    (auto simp: dpi_defs case_prod_beta Let_def db_ok_create_tb db_ok_delete_tb db_ok_create_pl
      db_ok_register db_ok_insert_value db_ok_flush_value
      intro: db_ok_db db_ok_delete_pl db_ok_exec db_ok_dpi_exec_query)

lemma reachable_db_ok: "reachable api db s \<Longrightarrow> db_ok s"
  by (induction rule: reachable.induct) (auto intro: dpi_step_db_ok)

section \<open>Walking a result by index\<close>

text \<open>
  The interface a client uses to read a container through handles: a size, and the element
  at an index or null. The client's loop reads indices \<open>0\<close> to \<open>size - 1\<close>.
\<close>

locale indexed_reader =
  fixes size_of :: "addr \<Rightarrow> int res"
    and step_of :: "addr \<Rightarrow> int \<Rightarrow> addr res"
    and contents :: "addr \<Rightarrow> addr list option"
  assumes size_ok: "contents p = Some xs \<Longrightarrow> length xs < 2 ^ 31 \<Longrightarrow> size_of p = Inr (int (length xs))"
    and step_ok: "contents p = Some xs \<Longrightarrow> step_of p i = Inr (at_or_null xs i)"
begin

definition read_all :: "addr \<Rightarrow> addr list res" where
  "read_all p = bind_res (size_of p) (\<lambda>n. map_res (\<lambda>i. step_of p i) (map int [0..<nat n]))"

lemma step_in_range:
  assumes "contents p = Some xs" and "i < length xs"
  shows "step_of p (int i) = Inr (xs ! i)"
  using assms by (simp add: step_ok at_or_null_def)

lemma step_out_of_range:
  assumes "contents p = Some xs" and "i < 0 \<or> int (length xs) \<le> i"
  shows "step_of p i = Inr 0"
  using assms by (auto simp: step_ok at_or_null_def)

lemma read_all_ok:
  assumes "contents p = Some xs" and "length xs < 2 ^ 31"
  shows "read_all p = Inr xs"
proof -
  have "map_res (step_of p) (map int [0..<length xs]) = Inr (map (\<lambda>i. xs ! nat i) (map int [0..<length xs]))"
    by (rule map_res_ok) (auto simp: step_in_range [OF assms(1)])
  also have "map (\<lambda>i. xs ! nat i) (map int [0..<length xs]) = xs"
    by (simp add: comp_def map_nth)
  finally show ?thesis
    using assms by (simp add: read_all_def size_ok)
qed

end

definition pool_contents :: "'db smtdv_sqlite3 \<Rightarrow> addr \<Rightarrow> addr list option" where
  "pool_contents s p = (if p = null then None else rows_of (m_heap s) p)"

definition row_contents :: "'db smtdv_sqlite3 \<Rightarrow> addr \<Rightarrow> addr list option" where
  "row_contents s r = (if r = null then None else h_rows (m_heap s) r)"

interpretation pool_reader: indexed_reader
  "\<lambda>p. dpi_smtdv_exec_row_size p s" "\<lambda>p i. dpi_smtdv_exec_row_step p i s" "pool_contents s"
  for s :: "'db smtdv_sqlite3"
  by unfold_locales
    (auto simp: dpi_smtdv_exec_row_size_def dpi_smtdv_exec_row_step_def exec_row_size_def
      exec_row_step_def pool_get_def pool_get_at_def pool_contents_def rows_of_def
      size_to_int_small split: if_splits)

interpretation row_reader: indexed_reader
  "\<lambda>r. dpi_smtdv_exec_column_size r s" "\<lambda>r i. dpi_smtdv_exec_column_step r i s" "row_contents s"
  for s :: "'db smtdv_sqlite3"
  by unfold_locales
    (auto simp: dpi_smtdv_exec_column_size_def dpi_smtdv_exec_column_step_def exec_column_size_def
      exec_column_step_def row_get_def row_get_at_def row_contents_def
      size_to_int_small split: if_splits)

text \<open>
  The client's double loop (the tests and the SystemVerilog users of the library): every row
  handle, every column handle of it, and the header and text of each column.
\<close>

definition read_cell :: "'db smtdv_sqlite3 \<Rightarrow> addr \<Rightarrow> (string \<times> string) res" where
  "read_cell s c =
     bind_res (dpi_smtdv_exec_header_data c s) (\<lambda>nm.
     bind_res (dpi_smtdv_exec_string_data c s) (\<lambda>v. Inr (nm, v)))"

definition read_row :: "'db smtdv_sqlite3 \<Rightarrow> addr \<Rightarrow> (string \<times> string) list res" where
  "read_row s r =
     bind_res (dpi_smtdv_exec_column_size r s) (\<lambda>n.
     map_res (\<lambda>i. bind_res (dpi_smtdv_exec_column_step r i s) (read_cell s)) (map int [0..<nat n]))"

definition read_pool :: "'db smtdv_sqlite3 \<Rightarrow> addr \<Rightarrow> (string \<times> string) list list res" where
  "read_pool s p =
     bind_res (dpi_smtdv_exec_row_size p s) (\<lambda>n.
     map_res (\<lambda>i. bind_res (dpi_smtdv_exec_row_step p i s) (read_row s)) (map int [0..<nat n]))"

lemma map_res_bind:
  assumes "map_res f is = Inr xs" and "\<And>x. x \<in> set xs \<Longrightarrow> g x = Inr (h x)"
  shows "map_res (\<lambda>i. bind_res (f i) g) is = Inr (map h xs)"
  using assms by (induction "is" arbitrary: xs) (auto simp: bind_res_Inr_iff)

definition cell_text :: "smtdv_data \<Rightarrow> string \<times> string" where
  "cell_text d = (c_str (d_name d), c_str (d_val d))"

text \<open>The size of every row fits the \<open>int\<close> the size functions return.\<close>

definition fits_int :: "'db smtdv_sqlite3 \<Rightarrow> addr \<Rightarrow> bool" where
  "fits_int s p \<longleftrightarrow>
     length (pool_cells (m_heap s) p) < 2 ^ 31 \<and>
     (\<forall>r \<in> set (pool_cells (m_heap s) p). length r < 2 ^ 31)"

lemma read_cell_ok:
  assumes "heap_ok (m_heap s)" and "h_cols (m_heap s) c = Some d"
  shows "read_cell s c = Inr (cell_text d)"
proof -
  have "c \<noteq> 0" using heap_okD(4) [OF assms(1), of c] assms(2) by auto
  then show ?thesis
    using assms(2)
    by (simp add: read_cell_def cell_text_def dpi_smtdv_exec_header_data_def
        dpi_smtdv_exec_string_data_def)
qed

lemma read_row_ok:
  assumes ok: "heap_ok (m_heap s)" and r: "h_rows (m_heap s) r = Some cs" and "length cs < 2 ^ 31"
  shows "read_row s r = Inr (map cell_text (row_cells (m_heap s) r))"
proof -
  have "r \<noteq> 0" using heap_okD(3) [OF ok, of r] r by auto
  then have cont: "row_contents s r = Some cs" using r by (simp add: row_contents_def)
  have all: "map_res (\<lambda>i. dpi_smtdv_exec_column_step r i s) (map int [0..<length cs]) = Inr cs"
    using row_reader.read_all_ok [OF cont assms(3)] row_reader.size_ok [OF cont assms(3)]
    by (simp add: row_reader.read_all_def)
  have "read_cell s c = Inr (cell_text (the (h_cols (m_heap s) c)))" if "c \<in> set cs" for c
    using owns_subset [OF heap_okD(6) [OF ok] r] that read_cell_ok [OF ok] by fastforce
  from map_res_bind [OF all this] show ?thesis
    using row_reader.size_ok [OF cont assms(3)]
    by (simp add: read_row_def row_cells_def r comp_def)
qed

lemma read_pool_ok:
  assumes ok: "heap_ok (m_heap s)" and p: "h_pools (m_heap s) p = Some P" and fits: "fits_int s p"
  shows "read_pool s p = Inr (map (map cell_text) (pool_cells (m_heap s) p))"
proof -
  have "p \<noteq> 0" using heap_okD(2) [OF ok, of p] p by auto
  then have cont: "pool_contents s p = Some (m_row P)" using p by (simp add: pool_contents_def rows_of_def)
  have len: "length (m_row P) < 2 ^ 31" using fits p by (simp add: fits_int_def pool_cells_def)
  have all: "map_res (\<lambda>i. dpi_smtdv_exec_row_step p i s) (map int [0..<length (m_row P)]) = Inr (m_row P)"
    using pool_reader.read_all_ok [OF cont len] pool_reader.size_ok [OF cont len]
    by (simp add: pool_reader.read_all_def)
  have "read_row s r = Inr (map cell_text (row_cells (m_heap s) r))" if r: "r \<in> set (m_row P)" for r
  proof -
    obtain cs where cs: "h_rows (m_heap s) r = Some cs" by (rule pool_rows_live [OF ok p r])
    have "length (row_cells (m_heap s) r) < 2 ^ 31" using fits p r by (auto simp: fits_int_def pool_cells_def)
    then show ?thesis using cs by (intro read_row_ok [OF ok cs]) (simp add: row_cells_def)
  qed
  from map_res_bind [OF all this] show ?thesis
    using pool_reader.size_ok [OF cont len] p
    by (simp add: read_pool_def pool_cells_def comp_def)
qed

end
