(* ===== verification/Sqlite_Properties.thy ===== *)
theory Sqlite_Properties
  imports Sqlite_Lib
begin

text \<open>
  The properties of the SQLite trace library (\<open>dpi/sqlite3\<close>): what a client sees of the
  tables, the pools and the query results through the exported functions. Each property is
  followed by its witness. The witnesses run on \<open>demo_api\<close>, a concrete SQLite whose every
  command succeeds and whose every query returns one row with the text \<open>a b\<close> in column \<open>n\<close>.
\<close>

section \<open>A concrete library for the witnesses\<close>

definition demo_api :: "unit sqlite3_api" where
  "demo_api =
     \<lparr>sqlite3_open = (\<lambda>_ _. (0, [], ())), sqlite3_close = (\<lambda>_. ()),
      sqlite3_exec = (\<lambda>_ _. (0, [[(''n'', Some ''a b'')]], ())), std_remove = (\<lambda>_ _. (0, ()))\<rparr>"

definition demo_state :: "unit smtdv_sqlite3" where
  "demo_state =
     dpi_smtdv_create_pl ''t'' (dpi_smtdv_register_string_field ''t'' ''n''
       (dpi_smtdv_create_tb ''t'' (init_state ())))"

lemma demo_reachable: "reachable demo_api () demo_state"
  unfolding demo_state_def
  by (rule reachable.step [OF _ dpi_step.create_pl], rule reachable.step [OF _ dpi_step.register_string],
      rule reachable.step [OF _ dpi_step.create_tb], rule reachable.start)

lemma demo_state_eq:
  "m_pl demo_state = [(''t'', 1)]"
  "m_tb demo_state =
     [(''t'', \<lparr>m_record = [(''n'', (T_NONE, \<lparr>d_typ = T_STRING, d_name = [], d_val = []\<rparr>))],
              m_tb_nm = ''t''\<rparr>)]"
  "h_pools (m_heap demo_state) (Suc 0) = Some \<lparr>p_tb_nm = ''t'', m_row = []\<rparr>"
  by (simp_all add: demo_state_def dpi_smtdv_create_pl_def create_pl_def new_pool_def
      dpi_smtdv_register_string_field_def register_string_field_def dpi_smtdv_create_tb_def
      create_tb_def init_state_def empty_heap_def SMTDV_Table_def iregister_def)

lemma demo_pool: "map_of (m_pl demo_state) ''t'' = Some 1"
  by (simp add: demo_state_eq)

lemma demo_fits: "fits_int demo_state 1"
  by (simp add: demo_state_eq fits_int_def pool_cells_def)

lemma demo_exec: "sqlite3_exec demo_api db q = (0, [[(''n'', Some ''a b'')]], ())"
  by (simp add: demo_api_def)

section \<open>Tables\<close>

text \<open>
  Property C1. However fields are registered, written and flushed, the \<open>INSERT\<close> command
  a table sends is the one of its abstract content: the columns in increasing order, each
  once, and for each the last value written since the last flush or registration, numbers
  normalised to decimal, texts quoted; with no field, or with a number field whose text is
  blank but not empty, the command is undefined behaviour, and only then.
\<close>

theorem insert_command_refines:
  "tb_exec_value (fold tb_apply ops (SMTDV_Table nm)) =
     spec_insert_command nm (fold abs_apply ops Map.empty)"
  using tb_exec_value_spec [OF fold_apply(1) [OF table_ok_new, of ops nm]]
    fold_apply(2,3) [OF table_ok_new, of ops nm]
  by (simp add: field_view_new) (simp add: SMTDV_Table_def)

text \<open>
  The \<open>CREATE TABLE\<close> command lists exactly the registered fields, in the
  order the \<open>INSERT\<close> commands use, with \<open>TEXT\<close> for texts and \<open>INTEGER\<close> for numbers.
\<close>

theorem create_command_refines:
  "tb_exec_field (fold tb_apply ops (SMTDV_Table nm)) =
     spec_create_command nm (fold abs_apply ops Map.empty)"
  using tb_exec_field_spec [OF fold_apply(1) [OF table_ok_new, of ops nm]]
    fold_apply(2,3) [OF table_ok_new, of ops nm]
  by (simp add: field_view_new) (simp add: SMTDV_Table_def)

text \<open>Reading a quoted SQL text: a doubled quote stands for one, a single quote ends it.\<close>

fun sql_text :: "string \<Rightarrow> (string \<times> string) option" where
  "sql_text [] = None"
| "sql_text [c] = (if c = CHR 0x27 then Some ([], []) else None)"
| "sql_text (c # d # s) =
     (if c = CHR 0x27
      then (if d = CHR 0x27 then map_option (\<lambda>(v, r). (CHR 0x27 # v, r)) (sql_text s)
            else Some ([], d # s))
      else map_option (\<lambda>(v, r). (c # v, r)) (sql_text (d # s)))"

lemma sql_text_length:
  "sql_text s = Some (v, r) \<Longrightarrow> length s = length v + count_list v (CHR 0x27) + 1 + length r"
  by (induction s arbitrary: v r rule: sql_text.induct) (auto split: if_splits)

lemma sql_text_no_quote:
  assumes "CHR 0x27 \<notin> set v" and "rest = [] \<or> hd rest \<noteq> CHR 0x27"
  shows "sql_text (v @ CHR 0x27 # rest) = Some (v, rest)"
  using assms
proof (induction v)
  case Nil
  then show ?case by (cases rest) auto
next
  case (Cons c v)
  then show ?case by (cases v) auto
qed

text \<open>
  Property C39. A text value reaches SQLite unchanged exactly when it contains no single
  quote: the printed literal, whatever follows it in the command, is read back as the value
  itself if and only if no character of the value is a quote. Values are not escaped.
\<close>

theorem text_value_survives_iff:
  assumes "d_typ dt = T_STRING" and "rest = [] \<or> hd rest \<noteq> CHR 0x27"
  shows "\<exists>lit. value_text dt = Inr (CHR 0x27 # lit) \<and>
    (sql_text (lit @ rest) = Some (d_val dt, rest) \<longleftrightarrow> CHR 0x27 \<notin> set (d_val dt))"
proof (intro exI conjI iffI)
  show "value_text dt = Inr (CHR 0x27 # (d_val dt @ [CHR 0x27]))"
    using assms(1) by (simp add: value_text_def)
  show "CHR 0x27 \<notin> set (d_val dt)"
    if "sql_text ((d_val dt @ [CHR 0x27]) @ rest) = Some (d_val dt, rest)"
    using sql_text_length [OF that] by (simp add: count_list_0_iff)
  show "sql_text ((d_val dt @ [CHR 0x27]) @ rest) = Some (d_val dt, rest)"
    if "CHR 0x27 \<notin> set (d_val dt)"
    using sql_text_no_quote [OF that assms(2)] by simp
qed

theorem text_value_survives_iff_witness:
  "\<exists>lit. value_text \<lparr>d_typ = T_STRING, d_name = [], d_val = ''ab''\<rparr> = Inr (CHR 0x27 # lit) \<and>
    (sql_text (lit @ '',1'') = Some (''ab'', '',1'') \<longleftrightarrow> CHR 0x27 \<notin> set ''ab'')"
  using text_value_survives_iff [of "\<lparr>d_typ = T_STRING, d_name = [], d_val = ''ab''\<rparr>" "'',1''"]
  by simp

text \<open>
  A number field written in decimal or taken through the library's own
  printer is sent as the same number: printing an unsigned 64-bit value and inserting the
  text makes the command carry exactly that text; and both conversions, decimal and
  hexadecimal, are inverted by their readers on every value.
\<close>

theorem number_roundtrip:
  "str_2_longint (dpi_longint_2_str x) = Inr x \<and>
   hexstr_2_longint (dpi_longint_2_hexstr x) = Inr x \<and>
   value_text \<lparr>d_typ = T_LONGINT, d_name = nm, d_val = dpi_longint_2_str x\<rparr> =
     Inr (dpi_longint_2_str x)"
proof -
  have dec: "str_2_longint (dpi_longint_2_str x) = Inr x"
    by (simp add: str_2_longint_def dpi_longint_2_str_eq extract_ulong_show_base)
  moreover have "hexstr_2_longint (dpi_longint_2_hexstr x) = Inr x"
    by (simp add: hexstr_2_longint_def dpi_longint_2_hexstr_eq extract_ulong_show_base)
  ultimately show ?thesis
    by (simp add: value_text_def dpi_longint_2_str_eq)
qed

section \<open>Pools and queries\<close>

text \<open>The texts a client reads for one cell SQLite returned: the first word of each.\<close>

definition query_text :: "string \<times> string option \<Rightarrow> string \<times> string" where
  "query_text c = (c_str (extract_word (fst c)), c_str (extract_word (the (snd c))))"

lemma cell_text_cell_of: "cell_text (cell_of s c) = query_text c"
  by (simp add: cell_text_def cell_of_def query_text_def)

text \<open>
  Property C5. In every state a simulation can reach, a query on a table that has a pool
  returns that pool, and walking it by index then yields what the pool held before followed
  by one row per result row and one cell per result cell, name and value each cut to their
  first white-space-delimited word. A second query on the same pool therefore appends.
\<close>

theorem query_reads_back:
  assumes "reachable api db0 s" and "map_of (m_pl s) tb = Some p"
    and "sqlite3_exec api (m_db s) q = (0, rows, db)" and "\<forall>r \<in> set rows. no_nulls r"
    and "fits_int s p" and "length (pool_cells (m_heap s) p) + length rows < 2 ^ 31"
    and "\<forall>r \<in> set rows. length r < 2 ^ 31"
  shows "\<exists>s' old. read_pool s p = Inr old \<and> dpi_smtdv_exec_query api tb q s = Inr (p, s') \<and>
    read_pool s' p = Inr (old @ map (map query_text) rows)"
proof -
  have ok: "db_ok s" using assms(1) by (rule reachable_db_ok)
  obtain P where P: "h_pools (m_heap s) p = Some P" using db_okD(6) [OF ok assms(2)] by auto
  have p0: "p \<noteq> 0" using heap_okD(2) [OF db_okD(3) [OF ok], of p] P by auto
  obtain s' where s': "exec_query api tb q s = Inr (p, s')" "db_ok s'" "m_pl s' = m_pl s"
    and grew: "pool_grew p (map (map (cell_of (s\<lparr>g_tb_nm := tb\<rparr>))) rows) s s'"
    using exec_query_ok [OF ok assms(2,3,4)] by blast
  obtain P' where P': "h_pools (m_heap s') p = Some P'"
    using db_okD(6) [OF s'(2), of tb p] s'(3) assms(2) by auto
  have "fits_int s' p"
    using grew assms(5-7) by (auto simp: fits_int_def pool_grew_def)
  then have "read_pool s' p = Inr (map (map cell_text) (pool_cells (m_heap s') p))"
    using read_pool_ok [OF db_okD(3) [OF s'(2)] P'] by blast
  moreover have "read_pool s p = Inr (map (map cell_text) (pool_cells (m_heap s) p))"
    using read_pool_ok [OF db_okD(3) [OF ok] P assms(5)] .
  moreover have "dpi_smtdv_exec_query api tb q s = Inr (p, s')"
    using s'(1) p0 by (simp add: dpi_smtdv_exec_query_def)
  ultimately show ?thesis
    using grew by (simp add: pool_grew_def comp_def cell_text_cell_of)
qed

theorem query_reads_back_witness:
  "\<exists>s' old. read_pool demo_state 1 = Inr old \<and>
    dpi_smtdv_exec_query demo_api ''t'' ''SELECT n FROM t'' demo_state = Inr (1, s') \<and>
    read_pool s' 1 = Inr (old @ map (map query_text) [[(''n'', Some ''a b'')]])"
  using query_reads_back [OF demo_reachable, of "''t''" 1 "''SELECT n FROM t''" "[[(''n'', Some ''a b'')]]" "()"]
  by (simp add: demo_state_eq demo_exec no_nulls_def fits_int_def pool_cells_def)

text \<open>
  Property C32. A query returns if and only if its table has a pool, SQLite reports no
  error, and no result value is an SQL null; otherwise it exits or runs into undefined
  behaviour.
\<close>

theorem query_returns_iff:
  assumes "reachable api db0 s"
  shows "(\<exists>p s'. dpi_smtdv_exec_query api tb q s = Inr (p, s')) \<longleftrightarrow>
    (\<exists>p. map_of (m_pl s) tb = Some p) \<and>
    (\<exists>rows db. sqlite3_exec api (m_db s) q = (0, rows, db) \<and> (\<forall>r \<in> set rows. no_nulls r))"
    (is "?returns \<longleftrightarrow> ?pool \<and> ?result")
proof
  have ok: "db_ok s" using assms by (rule reachable_db_ok)
  show "?pool \<and> ?result" if ?returns
    using that exec_query_InrD [OF ok] by (fastforce simp: dpi_smtdv_exec_query_def bind_res_Inr_iff)
  show ?returns if r: "?pool \<and> ?result"
  proof -
    from r obtain p rows db where p: "map_of (m_pl s) tb = Some p"
      and e: "sqlite3_exec api (m_db s) q = (0, rows, db)" "\<forall>r \<in> set rows. no_nulls r" by blast
    have "p \<noteq> 0"
      using heap_okD(2) [OF db_okD(3) [OF ok], of p] db_okD(6) [OF ok p] by auto
    then show ?thesis
      using exec_query_ok [OF ok p e] by (auto simp: dpi_smtdv_exec_query_def)
  qed
qed

theorem query_returns_iff_witness:
  "(\<exists>p s'. dpi_smtdv_exec_query demo_api ''u'' ''SELECT n FROM u'' demo_state = Inr (p, s')) = False"
  using query_returns_iff [OF demo_reachable, of "''u''" "''SELECT n FROM u''"]
  by (simp add: demo_state_eq)



text \<open>
  Property C33. In every reachable state every pool filed under a name can be walked
  completely: no read on the way fails, so no pointer reachable from the name map dangles,
  and two names never share a pool.
\<close>

theorem reachable_pools_readable:
  assumes "reachable api db0 s" and "map_of (m_pl s) nm = Some p" and "fits_int s p"
  shows "(\<exists>cells. read_pool s p = Inr cells \<and> length cells = length (pool_cells (m_heap s) p)) \<and>
    (\<forall>nm'. map_of (m_pl s) nm' = Some p \<longrightarrow> nm' = nm)"
proof -
  have ok: "db_ok s" using assms(1) by (rule reachable_db_ok)
  obtain P where "h_pools (m_heap s) p = Some P" using db_okD(6) [OF ok assms(2)] by auto
  from read_pool_ok [OF db_okD(3) [OF ok] this assms(3)] show ?thesis
    using db_okD(7) [OF ok _ assms(2)] by auto
qed

theorem reachable_pools_readable_witness:
  "(\<exists>cells. read_pool demo_state 1 = Inr cells \<and> length cells = length (pool_cells (m_heap demo_state) 1)) \<and>
    {nm'. map_of (m_pl demo_state) nm' = Some 1} \<subseteq> {''t''}"
  using reachable_pools_readable [OF demo_reachable demo_pool demo_fits] by blast

text \<open>
  Property C38. Sending the values of a table: with no table of that name a warning is
  printed and nothing else changes; otherwise the abstract table's command is run, an SQLite
  error exits, and success changes only the database handle and prints the command.
\<close>

theorem exec_value_behaviour:
  assumes "reachable api db0 s"
  shows "dpi_smtdv_exec_value api nm s =
    (case map_of (m_tb s) nm of
       None \<Rightarrow> Inr (s\<lparr>cout := cout s @ [table_warning nm]\<rparr>)
     | Some tb \<Rightarrow>
         bind_res (spec_insert_command nm (field_view tb)) (\<lambda>query.
           case sqlite3_exec api (m_db s) query of (rc, rows, db) \<Rightarrow>
             if rc = 0 then Inr (s\<lparr>m_db := db, cout := cout s @ [query]\<rparr>) else Inl Exit_Failure))"
proof (cases "map_of (m_tb s) nm")
  case None
  then show ?thesis by (simp add: dpi_smtdv_exec_value_def exec_value_def print_def)
next
  case (Some tb)
  have "table_ok tb" "m_tb_nm tb = nm"
    using db_okD(4,5) [OF reachable_db_ok [OF assms] Some] .
  then have "tb_exec_value tb = spec_insert_command nm (field_view tb)"
    using tb_exec_value_spec by blast
  then show ?thesis
    using Some
    by (cases "spec_insert_command nm (field_view tb)")
      (auto simp: dpi_smtdv_exec_value_def exec_value_def run_command_def print_def split: prod.splits)
qed

theorem exec_value_behaviour_witness:
  "dpi_smtdv_exec_value demo_api ''u'' demo_state =
     Inr (demo_state\<lparr>cout := cout demo_state @ [table_warning ''u'']\<rparr>)"
  using exec_value_behaviour [OF demo_reachable, of "''u''"] by (simp add: demo_state_eq)

text \<open>
  The function that reads a field back never returns a value: it is declared
  to return a text, marks a known field as read, and leaves without a return statement
  whether or not the field exists.
\<close>

theorem tb_get_never_returns:
  "snd (tb_get fd tb) = Inl Missing_Return \<and> field_view (fst (fst (tb_get fd tb))) = field_view tb"
  by (auto simp: tb_get_def field_view_def map_of_map_put fun_eq_iff split: option.splits)

end
