(* ===== verification/Stl_Transfer.thy ===== *)
theory Stl_Transfer
  imports Cpp_Streams
begin

text \<open>
  \<open>SMTDV_Transfer\<close> and \<open>SMTDV_MailBox\<close> (\<open>dpi/stl/dpi_smtdv_transfer.h\<close> and \<open>.cpp\<close>) and the
  exported accessors of \<open>dpi/stl/dpi_smtdv_wrapper.cpp\<close>. Transfers and mailboxes are reached
  through \<open>chandle\<close>s and are never deleted: they live in an explicit heap. The constructor of
  a transfer initialises none of its number fields: such a field is \<open>None\<close> until it is
  assigned, and reading it before is undefined.
\<close>

section \<open>Objects\<close>

record smtdv_transfer =
  begin_cycle :: "ulong option"
  end_cycle :: "ulong option"
  begin_time :: "ulong option"
  end_time :: "ulong option"
  t_addr :: "ulong option"
  t_data :: "ulong list"
  byten :: "uint list"
  t_id :: "uint option"
  resp :: string
  rw :: string
  bst_type :: string
  trx_size :: string
  trx_prt :: string
  lock :: "uint option"

definition SMTDV_Transfer :: smtdv_transfer where
  "SMTDV_Transfer =
     \<lparr>begin_cycle = None, end_cycle = None, begin_time = None, end_time = None, t_addr = None,
      t_data = [], byten = [], t_id = None, resp = [], rw = [], bst_type = [], trx_size = [],
      trx_prt = [], lock = None\<rparr>"

text \<open>The read iterator of a new mailbox is not attached to the vector: \<open>None\<close>.\<close>

record smtdv_mailbox =
  m_it :: "nat option"
  m_vec :: "addr list"
  inst_name :: string

definition SMTDV_MailBox :: "string \<Rightarrow> smtdv_mailbox" where
  "SMTDV_MailBox nm = \<lparr>m_it = None, m_vec = [], inst_name = nm\<rparr>"

section \<open>Mailbox operations\<close>

definition mb_push :: "addr \<Rightarrow> smtdv_mailbox \<Rightarrow> smtdv_mailbox" where
  "mb_push tt mb = mb\<lparr>m_vec := m_vec mb @ [tt], m_it := Some 0\<rparr>"

definition mb_is_empty :: "smtdv_mailbox \<Rightarrow> bool" where
  "mb_is_empty mb = (m_vec mb = [])"

definition mb_next :: "smtdv_mailbox \<Rightarrow> (addr \<times> smtdv_mailbox) res" where
  "mb_next mb =
     (case m_it mb of
        None \<Rightarrow> Inl Bad_Iterator
      | Some i \<Rightarrow>
          if i \<noteq> length (m_vec mb) then Inr (m_vec mb ! i, mb\<lparr>m_it := Some (i + 1)\<rparr>)
          else Inr (null, mb))"

definition mb_size :: "smtdv_mailbox \<Rightarrow> int" where
  "mb_size mb = size_to_int (length (m_vec mb))"

section \<open>State of the library\<close>

record stl_state =
  trxs :: "addr \<rightharpoonup> smtdv_transfer"
  mbs :: "addr \<rightharpoonup> smtdv_mailbox"
  s_next :: addr
  global_mb :: addr
  global_trx :: addr

definition init_stl :: stl_state where
  "init_stl = \<lparr>trxs = Map.empty, mbs = Map.empty, s_next = 1, global_mb = null, global_trx = null\<rparr>"

text \<open>
  A \<open>char*\<close> handed to the simulator: \<open>Live\<close> text in a buffer of its own, or \<open>Dead\<close>, a
  pointer into a \<open>std::string\<close> that was destroyed on return, with the text it held then.
\<close>

datatype char_ptr = Live string | Dead string

definition dpi_hexstr_2_longint :: "string \<Rightarrow> ulong res" where
  "dpi_hexstr_2_longint st = extract_ulong 16 st"

definition stl_longint_2_hexstr :: "ulong \<Rightarrow> char_ptr" where
  "stl_longint_2_hexstr i = Dead (extract_word (show_base 16 (unat i)))"

definition dpi_smtdv_new_smtdv_transfer :: "stl_state \<Rightarrow> addr \<times> stl_state" where
  "dpi_smtdv_new_smtdv_transfer s =
     (s_next s, s\<lparr>trxs := (trxs s)(s_next s \<mapsto> SMTDV_Transfer), s_next := Suc (s_next s)\<rparr>)"

definition dpi_smtdv_new_smtdv_mailbox :: "string \<Rightarrow> stl_state \<Rightarrow> addr \<times> stl_state" where
  "dpi_smtdv_new_smtdv_mailbox nm s =
     (s_next s, s\<lparr>mbs := (mbs s)(s_next s \<mapsto> SMTDV_MailBox nm), s_next := Suc (s_next s)\<rparr>)"

section \<open>Accessors\<close>

text \<open>The common frame of a setter: cast, assert, assign; and of a getter.\<close>

definition with_trx :: "addr \<Rightarrow> (smtdv_transfer \<Rightarrow> smtdv_transfer res) \<Rightarrow> stl_state \<Rightarrow> stl_state res" where
  "with_trx ip f s =
     bind_res (assert_res (ip \<noteq> null)) (\<lambda>_.
     bind_res (deref (trxs s) ip) (\<lambda>tt.
     bind_res (f tt) (\<lambda>tt'. Inr (s\<lparr>trxs := (trxs s)(ip \<mapsto> tt')\<rparr>))))"

definition get_trx :: "addr \<Rightarrow> (smtdv_transfer \<Rightarrow> 'a res) \<Rightarrow> stl_state \<Rightarrow> 'a res" where
  "get_trx ip f s =
     bind_res (assert_res (ip \<noteq> null)) (\<lambda>_. bind_res (deref (trxs s) ip) f)"

text \<open>Reading a number field that may never have been assigned.\<close>

definition init_read :: "'a option \<Rightarrow> 'a res" where
  "init_read v = (case v of None \<Rightarrow> Inl Uninit_Read | Some x \<Rightarrow> Inr x)"

definition dpi_smtdv_set_smtdv_transfer_begin_time :: "addr \<Rightarrow> string \<Rightarrow> stl_state \<Rightarrow> stl_state res" where
  "dpi_smtdv_set_smtdv_transfer_begin_time ip st =
     with_trx ip (\<lambda>tt. bind_res (dpi_hexstr_2_longint st) (\<lambda>x. Inr (tt\<lparr>begin_time := Some x\<rparr>)))"

definition dpi_smtdv_get_smtdv_transfer_begin_time :: "addr \<Rightarrow> stl_state \<Rightarrow> char_ptr res" where
  "dpi_smtdv_get_smtdv_transfer_begin_time ip =
     get_trx ip (\<lambda>tt. bind_res (init_read (begin_time tt)) (\<lambda>x. Inr (stl_longint_2_hexstr x)))"

definition dpi_smtdv_set_smtdv_transfer_end_time :: "addr \<Rightarrow> string \<Rightarrow> stl_state \<Rightarrow> stl_state res" where
  "dpi_smtdv_set_smtdv_transfer_end_time ip st =
     with_trx ip (\<lambda>tt. bind_res (dpi_hexstr_2_longint st) (\<lambda>x. Inr (tt\<lparr>end_time := Some x\<rparr>)))"

definition dpi_smtdv_get_smtdv_transfer_end_time :: "addr \<Rightarrow> stl_state \<Rightarrow> char_ptr res" where
  "dpi_smtdv_get_smtdv_transfer_end_time ip =
     get_trx ip (\<lambda>tt. bind_res (init_read (end_time tt)) (\<lambda>x. Inr (stl_longint_2_hexstr x)))"

definition dpi_smtdv_set_smtdv_transfer_begin_cycle :: "addr \<Rightarrow> string \<Rightarrow> stl_state \<Rightarrow> stl_state res" where
  "dpi_smtdv_set_smtdv_transfer_begin_cycle ip st =
     with_trx ip (\<lambda>tt. bind_res (dpi_hexstr_2_longint st) (\<lambda>x. Inr (tt\<lparr>begin_cycle := Some x\<rparr>)))"

definition dpi_smtdv_get_smtdv_transfer_begin_cycle :: "addr \<Rightarrow> stl_state \<Rightarrow> char_ptr res" where
  "dpi_smtdv_get_smtdv_transfer_begin_cycle ip =
     get_trx ip (\<lambda>tt. bind_res (init_read (begin_cycle tt)) (\<lambda>x. Inr (stl_longint_2_hexstr x)))"

definition dpi_smtdv_set_smtdv_transfer_end_cycle :: "addr \<Rightarrow> string \<Rightarrow> stl_state \<Rightarrow> stl_state res" where
  "dpi_smtdv_set_smtdv_transfer_end_cycle ip st =
     with_trx ip (\<lambda>tt. bind_res (dpi_hexstr_2_longint st) (\<lambda>x. Inr (tt\<lparr>end_cycle := Some x\<rparr>)))"

definition dpi_smtdv_get_smtdv_transfer_end_cycle :: "addr \<Rightarrow> stl_state \<Rightarrow> char_ptr res" where
  "dpi_smtdv_get_smtdv_transfer_end_cycle ip =
     get_trx ip (\<lambda>tt. bind_res (init_read (end_cycle tt)) (\<lambda>x. Inr (stl_longint_2_hexstr x)))"

text \<open>\<open>id\<close> is an \<open>unsigned int\<close>: the assignment truncates, the getter widens.\<close>

definition dpi_smtdv_set_smtdv_transfer_id :: "addr \<Rightarrow> string \<Rightarrow> stl_state \<Rightarrow> stl_state res" where
  "dpi_smtdv_set_smtdv_transfer_id ip st =
     with_trx ip (\<lambda>tt. bind_res (dpi_hexstr_2_longint st) (\<lambda>x. Inr (tt\<lparr>t_id := Some (ucast x)\<rparr>)))"

definition dpi_smtdv_get_smtdv_transfer_id :: "addr \<Rightarrow> stl_state \<Rightarrow> char_ptr res" where
  "dpi_smtdv_get_smtdv_transfer_id ip =
     get_trx ip (\<lambda>tt. bind_res (init_read (t_id tt)) (\<lambda>x. Inr (stl_longint_2_hexstr (ucast x))))"

definition dpi_smtdv_set_smtdv_transfer_resp :: "addr \<Rightarrow> string \<Rightarrow> stl_state \<Rightarrow> stl_state res" where
  "dpi_smtdv_set_smtdv_transfer_resp ip st = with_trx ip (\<lambda>tt. Inr (tt\<lparr>resp := st\<rparr>))"

definition dpi_smtdv_get_smtdv_transfer_resp :: "addr \<Rightarrow> stl_state \<Rightarrow> char_ptr res" where
  "dpi_smtdv_get_smtdv_transfer_resp ip = get_trx ip (\<lambda>tt. Inr (Live (c_str (resp tt))))"

definition dpi_smtdv_set_smtdv_transfer_rw :: "addr \<Rightarrow> string \<Rightarrow> stl_state \<Rightarrow> stl_state res" where
  "dpi_smtdv_set_smtdv_transfer_rw ip st = with_trx ip (\<lambda>tt. Inr (tt\<lparr>rw := st\<rparr>))"

definition dpi_smtdv_get_smtdv_transfer_rw :: "addr \<Rightarrow> stl_state \<Rightarrow> char_ptr res" where
  "dpi_smtdv_get_smtdv_transfer_rw ip = get_trx ip (\<lambda>tt. Inr (Live (c_str (rw tt))))"

definition dpi_smtdv_set_smtdv_transfer_bst_type :: "addr \<Rightarrow> string \<Rightarrow> stl_state \<Rightarrow> stl_state res" where
  "dpi_smtdv_set_smtdv_transfer_bst_type ip st = with_trx ip (\<lambda>tt. Inr (tt\<lparr>bst_type := st\<rparr>))"

definition dpi_smtdv_get_smtdv_transfer_bst_type :: "addr \<Rightarrow> stl_state \<Rightarrow> char_ptr res" where
  "dpi_smtdv_get_smtdv_transfer_bst_type ip = get_trx ip (\<lambda>tt. Inr (Live (c_str (bst_type tt))))"

definition dpi_smtdv_set_smtdv_transfer_trx_size :: "addr \<Rightarrow> string \<Rightarrow> stl_state \<Rightarrow> stl_state res" where
  "dpi_smtdv_set_smtdv_transfer_trx_size ip st = with_trx ip (\<lambda>tt. Inr (tt\<lparr>trx_size := st\<rparr>))"

definition dpi_smtdv_get_smtdv_transfer_trx_size :: "addr \<Rightarrow> stl_state \<Rightarrow> char_ptr res" where
  "dpi_smtdv_get_smtdv_transfer_trx_size ip = get_trx ip (\<lambda>tt. Inr (Live (c_str (trx_size tt))))"

definition dpi_smtdv_set_smtdv_transfer_trx_prt :: "addr \<Rightarrow> string \<Rightarrow> stl_state \<Rightarrow> stl_state res" where
  "dpi_smtdv_set_smtdv_transfer_trx_prt ip st = with_trx ip (\<lambda>tt. Inr (tt\<lparr>trx_prt := st\<rparr>))"

definition dpi_smtdv_get_smtdv_transfer_trx_prt :: "addr \<Rightarrow> stl_state \<Rightarrow> char_ptr res" where
  "dpi_smtdv_get_smtdv_transfer_trx_prt ip = get_trx ip (\<lambda>tt. Inr (Live (c_str (trx_prt tt))))"

text \<open>The setter of \<open>lock\<close> assigns \<open>id\<close>; the getter reads \<open>lock\<close>.\<close>

definition dpi_smtdv_set_smtdv_transfer_lock :: "addr \<Rightarrow> string \<Rightarrow> stl_state \<Rightarrow> stl_state res" where
  "dpi_smtdv_set_smtdv_transfer_lock ip st =
     with_trx ip (\<lambda>tt. bind_res (dpi_hexstr_2_longint st) (\<lambda>x. Inr (tt\<lparr>t_id := Some (ucast x)\<rparr>)))"

definition dpi_smtdv_get_smtdv_transfer_lock :: "addr \<Rightarrow> stl_state \<Rightarrow> char_ptr res" where
  "dpi_smtdv_get_smtdv_transfer_lock ip =
     get_trx ip (\<lambda>tt. bind_res (init_read (lock tt)) (\<lambda>x. Inr (stl_longint_2_hexstr (ucast x))))"

definition dpi_smtdv_set_smtdv_transfer_addr :: "addr \<Rightarrow> string \<Rightarrow> stl_state \<Rightarrow> stl_state res" where
  "dpi_smtdv_set_smtdv_transfer_addr ip st =
     with_trx ip (\<lambda>tt. bind_res (dpi_hexstr_2_longint st) (\<lambda>x. Inr (tt\<lparr>t_addr := Some x\<rparr>)))"

definition dpi_smtdv_get_smtdv_transfer_addr :: "addr \<Rightarrow> stl_state \<Rightarrow> char_ptr res" where
  "dpi_smtdv_get_smtdv_transfer_addr ip =
     get_trx ip (\<lambda>tt. bind_res (init_read (t_addr tt)) (\<lambda>x. Inr (stl_longint_2_hexstr x)))"

definition dpi_smtdv_set_smtdv_transfer_data :: "addr \<Rightarrow> string \<Rightarrow> stl_state \<Rightarrow> stl_state res" where
  "dpi_smtdv_set_smtdv_transfer_data ip st =
     with_trx ip (\<lambda>tt. bind_res (dpi_hexstr_2_longint st) (\<lambda>x. Inr (tt\<lparr>t_data := t_data tt @ [x]\<rparr>)))"

text \<open>
  \<open>assert(size > 0 && i < size)\<close> lets a negative index through to \<open>data[i]\<close>.
\<close>

definition checked_index :: "'a list \<Rightarrow> int \<Rightarrow> 'a res" where
  "checked_index xs i =
     (let size = size_to_int (length xs) in
      bind_res (assert_res (size > 0 \<and> i < size)) (\<lambda>_.
        if 0 \<le> i \<and> i < int (length xs) then Inr (xs ! nat i) else Inl Bad_Index))"

definition dpi_smtdv_get_smtdv_transfer_data :: "addr \<Rightarrow> int \<Rightarrow> stl_state \<Rightarrow> char_ptr res" where
  "dpi_smtdv_get_smtdv_transfer_data ip i =
     get_trx ip (\<lambda>tt. bind_res (checked_index (t_data tt) i) (\<lambda>x. Inr (stl_longint_2_hexstr x)))"

definition dpi_smtdv_set_smtdv_transfer_byten :: "addr \<Rightarrow> string \<Rightarrow> stl_state \<Rightarrow> stl_state res" where
  "dpi_smtdv_set_smtdv_transfer_byten ip st =
     with_trx ip (\<lambda>tt. bind_res (dpi_hexstr_2_longint st) (\<lambda>x. Inr (tt\<lparr>byten := byten tt @ [ucast x]\<rparr>)))"

definition dpi_smtdv_get_smtdv_transfer_byten :: "addr \<Rightarrow> int \<Rightarrow> stl_state \<Rightarrow> char_ptr res" where
  "dpi_smtdv_get_smtdv_transfer_byten ip i =
     get_trx ip (\<lambda>tt. bind_res (checked_index (byten tt) i) (\<lambda>x. Inr (stl_longint_2_hexstr (ucast x))))"

section \<open>Mailbox calls\<close>

definition dpi_smtdv_register_smtdv_transfer :: "addr \<Rightarrow> addr \<Rightarrow> stl_state \<Rightarrow> stl_state res" where
  "dpi_smtdv_register_smtdv_transfer it ip s =
     bind_res (assert_res (ip \<noteq> null \<and> it \<noteq> null)) (\<lambda>_.
     bind_res (deref (mbs s) it) (\<lambda>mb. Inr (s\<lparr>mbs := (mbs s)(it \<mapsto> mb_push ip mb)\<rparr>)))"

definition dpi_smtdv_next_smtdv_transfer :: "addr \<Rightarrow> stl_state \<Rightarrow> (addr \<times> stl_state) res" where
  "dpi_smtdv_next_smtdv_transfer it s =
     bind_res (assert_res (it \<noteq> null)) (\<lambda>_.
     bind_res (deref (mbs s) it) (\<lambda>mb.
     bind_res (mb_next mb) (\<lambda>(tt, mb'). Inr (tt, s\<lparr>mbs := (mbs s)(it \<mapsto> mb')\<rparr>))))"
end
