(* ===== verification/Stl_Lexer.thy ===== *)
theory Stl_Lexer
  imports Stl_Transfer
begin

text \<open>
  The scanner of the \<open>.stl\<close> trace files, \<open>dpi/stl/dpi_smtdv_parser.l\<close>: the rules in the
  order of the file, and flex's discipline, by which the longest match wins and the earlier
  rule wins among equally long ones. A rule is its action and the length of its longest match
  at the head of the input (0 when it does not match).
\<close>

section \<open>Tokens\<close>

datatype token =
    RETURN | BEGIN_CYCLE | END_CYCLE | BEGIN_TIME | END_TIME | RW | ID | BST_TYPE | TRX_SIZE
  | TRX_PRT | LOCK | ADDR | RESP | DATA | BYTEN | TCOMMA | TLPAREN | TRPAREN | COMMENT
  | TIDENTIFIER string | SIDENTIFIER string

datatype lex_action = Skip | Tok token | Tident | Sident | Unknown

section \<open>Rules\<close>

definition lit :: "string \<Rightarrow> string \<Rightarrow> nat" where
  "lit w s = (if take (length w) s = w then length w else 0)"

definition one_of :: "(char \<Rightarrow> bool) \<Rightarrow> string \<Rightarrow> nat" where
  "one_of P s = (case s of [] \<Rightarrow> 0 | c # _ \<Rightarrow> if P c then 1 else 0)"

definition star_of :: "(char \<Rightarrow> bool) \<Rightarrow> string \<Rightarrow> nat" where
  "star_of P s = length (takeWhile P s)"

definition in_range :: "char \<Rightarrow> char \<Rightarrow> char \<Rightarrow> bool" where
  "in_range lo hi c = ((of_char lo :: nat) \<le> of_char c \<and> (of_char c :: nat) \<le> of_char hi)"

definition tident_char :: "char \<Rightarrow> bool" where
  "tident_char c = (in_range CHR ''a'' CHR ''f'' c \<or> in_range CHR ''0'' CHR ''9'' c)"

definition sident_char :: "char \<Rightarrow> bool" where
  "sident_char c =
     (in_range CHR ''a'' CHR ''z'' c \<or> in_range CHR ''A'' CHR ''Z'' c \<or>
      in_range CHR ''0'' CHR ''9'' c \<or> c = CHR ''.'' \<or> c = CHR ''_'')"

definition newline :: char where
  "newline = CHR 0x0A"

definition lex_words :: "(token \<times> string) list" where
  "lex_words =
     [(BEGIN_CYCLE, ''begin_cycle''), (END_CYCLE, ''end_cycle''), (BEGIN_TIME, ''begin_time''),
      (END_TIME, ''end_time''), (RW, ''r/w''), (ID, ''id''), (BST_TYPE, ''bst_type''),
      (TRX_SIZE, ''trx_size''), (TRX_PRT, ''trx_prt''), (LOCK, ''lock''), (ADDR, ''addr''),
      (RESP, ''resp''), (DATA, ''data''), (BYTEN, ''byten''), (TCOMMA, '',''), (TLPAREN, ''(''),
      (TRPAREN, '')''), (COMMENT, ''#'')]"

definition lex_rules :: "(lex_action \<times> (string \<Rightarrow> nat)) list" where
  "lex_rules =
     [(Skip, one_of (\<lambda>c. c = CHR '' '' \<or> c = CHR 0x09)),
      (Tok RETURN, one_of (\<lambda>c. c = newline))] @
     map (\<lambda>(t, w). (Tok t, lit w)) lex_words @
     [(Tident, star_of tident_char), (Sident, star_of sident_char),
      (Unknown, one_of (\<lambda>c. c \<noteq> newline))]"

fun best_rule :: "(lex_action \<times> (string \<Rightarrow> nat)) list \<Rightarrow> string \<Rightarrow> lex_action \<times> nat" where
  "best_rule [] s = (Unknown, 0)"
| "best_rule ((a, m) # rs) s =
     (let (b, n) = best_rule rs s in if n \<le> m s then (a, m s) else (b, n))"

section \<open>The scanner\<close>

text \<open>
  \<open>yylex\<close> returns the next token, or none at the end of the input and, after a message, at
  a character no rule accepts (\<open>yyterminate\<close>); with it comes the input not scanned yet.
\<close>

lemma best_rule_length_pos:
  assumes "s \<noteq> []"
  shows "0 < snd (best_rule lex_rules s)"
proof -
  have max: "m s \<le> snd (best_rule rs s)" if "(a, m) \<in> set rs" for a m rs
    using that by (induction rs s rule: best_rule.induct) (auto simp: Let_def split: prod.splits)
  obtain c cs where s: "s = c # cs" using assms by (cases s) auto
  show ?thesis
  proof (cases "c = newline")
    case True
    have "(Tok RETURN, one_of (\<lambda>c. c = newline)) \<in> set lex_rules" by (simp add: lex_rules_def)
    from max [OF this] s True show ?thesis by (simp add: one_of_def)
  next
    case False
    have "(Unknown, one_of (\<lambda>c. c \<noteq> newline)) \<in> set lex_rules" by (simp add: lex_rules_def)
    from max [OF this] s False show ?thesis by (simp add: one_of_def)
  qed
qed

function yylex :: "string \<Rightarrow> token option \<times> string" where
  "yylex s =
     (if s = [] then (None, [])
      else
        let (a, n) = best_rule lex_rules s; yytext = take n s; rest = drop n s
        in case a of
             Skip \<Rightarrow> yylex rest
           | Tok t \<Rightarrow> (Some t, rest)
           | Tident \<Rightarrow> (Some (TIDENTIFIER yytext), rest)
           | Sident \<Rightarrow> (Some (SIDENTIFIER yytext), rest)
           | Unknown \<Rightarrow> (None, rest))"
  by pat_completeness auto
termination
proof (relation "measure length")
  fix s :: string and x y a n yytext rest
  assume "s \<noteq> []" "x = best_rule lex_rules s" "(a, n) = x" "rest = drop n s"
  then show "(rest, s) \<in> measure length"
    using best_rule_length_pos [of s] by (metis diff_less in_measure length_drop length_greater_0_conv snd_conv)
qed simp

declare yylex.simps [simp del]

lemma yylex_rest: "s \<noteq> [] \<Longrightarrow> length (snd (yylex s)) < length s"
proof (induction s rule: yylex.induct)
  case (1 s)
  obtain a n where an: "best_rule lex_rules s = (a, n)" by (cases "best_rule lex_rules s")
  then have n: "length (drop n s) < length s"
    using best_rule_length_pos [OF 1(2)] 1(2) by (cases s) auto
  show ?case
  proof (cases a)
    case Skip
    then have eq: "yylex s = yylex (drop n s)" using an 1(2) by (simp add: yylex.simps [of s])
    show ?thesis
    proof (cases "drop n s = []")
      case True
      then show ?thesis using eq 1(2) by (simp add: yylex.simps)
    next
      case False
      then show ?thesis using eq n 1(1) [OF 1(2) refl an [symmetric] refl refl Skip False] by simp
    qed
  qed (use an n 1(2) in \<open>simp_all add: yylex.simps [of s]\<close>)
qed

text \<open>The tokens the parser sees before its end of input, and the input left then.\<close>

function tokens :: "string \<Rightarrow> token list \<times> string" where
  "tokens s =
     (if s = [] then ([], [])
      else case yylex s of
             (None, rest) \<Rightarrow> ([], rest)
           | (Some t, rest) \<Rightarrow> let (ts, end_rest) = tokens rest in (t # ts, end_rest))"
  by pat_completeness auto
termination
  by (relation "measure length") (simp, metis in_measure snd_conv yylex_rest)

declare tokens.simps [simp del]

lemma tokens_rest:
  "length (snd (tokens s)) \<le> length s"
  and tokens_rest_less: "s \<noteq> [] \<Longrightarrow> length (snd (tokens s)) < length s"
proof -
  have "length (snd (tokens s)) \<le> length s \<and> (s \<noteq> [] \<longrightarrow> length (snd (tokens s)) < length s)"
  proof (induction s rule: tokens.induct)
    case (1 s)
    show ?case
    proof (cases "s = []")
      case True
      then show ?thesis by (simp add: tokens.simps)
    next
      case False
      obtain t rest where tr: "yylex s = (t, rest)" by (cases "yylex s")
      have "length rest < length s" using yylex_rest [OF False] tr by simp
      then show ?thesis
        using 1 [OF False tr [symmetric]] tr False
        by (cases t) (auto simp: tokens.simps [of s] Let_def split: prod.splits)
    qed
  qed
  then show "length (snd (tokens s)) \<le> length s" "s \<noteq> [] \<Longrightarrow> length (snd (tokens s)) < length s"
    by blast+
qed

end
