(* ===== verification/Stl_Parser.thy ===== *)
theory Stl_Parser
  imports Stl_Lexer "HOL-Library.Monad_Syntax"
begin

text \<open>
  The grammar of \<open>dpi/stl/dpi_smtdv_parser.y\<close> and its actions, and \<open>dpi_smtdv_parse_file\<close>.
  The grammar is deterministic with one token of look-ahead, so the parser generated by
  bison is a descent over the token list: an instance line, then header lines, body lines and
  blank lines. A line is parsed into the values its actions use; the actions of a body line
  run in the order of the reductions: the transfer is created and registered first, the data
  words are appended next, the remaining fields are set when the line is reduced. A syntax
  error calls \<open>yyerror\<close>, which exits.
\<close>

section \<open>Recognising lines\<close>

definition expect :: "token \<Rightarrow> token list \<Rightarrow> token list option" where
  "expect t ts = (case ts of x # r \<Rightarrow> if x = t then Some r else None | [] \<Rightarrow> None)"

definition tident :: "token list \<Rightarrow> (string \<times> token list) option" where
  "tident ts = (case ts of TIDENTIFIER x # r \<Rightarrow> Some (x, r) | _ \<Rightarrow> None)"

definition sident :: "token list \<Rightarrow> (string \<times> token list) option" where
  "sident ts = (case ts of SIDENTIFIER x # r \<Rightarrow> Some (x, r) | _ \<Rightarrow> None)"

definition tident_comma :: "token list \<Rightarrow> (string \<times> token list) option" where
  "tident_comma ts = do { (x, ts) \<leftarrow> tident ts; ts \<leftarrow> expect TCOMMA ts; Some (x, ts) }"

definition sident_comma :: "token list \<Rightarrow> (string \<times> token list) option" where
  "sident_comma ts = do { (x, ts) \<leftarrow> sident ts; ts \<leftarrow> expect TCOMMA ts; Some (x, ts) }"

fun expect_all :: "token list \<Rightarrow> token list \<Rightarrow> token list option" where
  "expect_all [] ts = Some ts"
| "expect_all (e # es) ts = do { ts \<leftarrow> expect e ts; expect_all es ts }"

definition header_xbus :: "token list" where
  "header_xbus =
     [COMMENT, BEGIN_CYCLE, TCOMMA, END_CYCLE, TCOMMA, BEGIN_TIME, TCOMMA, END_TIME, TCOMMA,
      RW, TCOMMA, ADDR, TCOMMA, DATA, TLPAREN, BYTEN, TRPAREN, TCOMMA]"

definition header_apb :: "token list" where
  "header_apb =
     [COMMENT, BEGIN_CYCLE, TCOMMA, END_CYCLE, TCOMMA, BEGIN_TIME, TCOMMA, END_TIME, TCOMMA,
      ID, TCOMMA, RW, TCOMMA, RESP, TCOMMA, ADDR, TCOMMA, DATA, TCOMMA]"

definition header_ahb :: "token list" where
  "header_ahb =
     [COMMENT, BEGIN_CYCLE, TCOMMA, END_CYCLE, TCOMMA, BEGIN_TIME, TCOMMA, END_TIME, TCOMMA,
      ID, TCOMMA, RW, TCOMMA, BST_TYPE, TCOMMA, TRX_SIZE, TCOMMA, TRX_PRT, TCOMMA, LOCK, TCOMMA,
      RESP, TCOMMA, ADDR, TCOMMA, DATA, TCOMMA]"

definition header_stmt :: "token list \<Rightarrow> token list option" where
  "header_stmt ts =
     (case expect_all header_ahb ts of
        Some r \<Rightarrow> Some r
      | None \<Rightarrow>
          (case expect_all header_apb ts of
             Some r \<Rightarrow> Some r
           | None \<Rightarrow> expect_all header_xbus ts))"

text \<open>\<open>data_has_byten\<close> and \<open>data_no_byten\<close>: one item or more, as long as one follows.\<close>

definition byten_item :: "token list \<Rightarrow> ((string \<times> string) \<times> token list) option" where
  "byten_item ts =
     do { (d, ts) \<leftarrow> tident ts; ts \<leftarrow> expect TLPAREN ts; (b, ts) \<leftarrow> tident ts;
          ts \<leftarrow> expect TRPAREN ts; ts \<leftarrow> expect TCOMMA ts; Some ((d, b), ts) }"

lemma expect_length: "expect t ts = Some r \<Longrightarrow> length r < length ts"
  by (auto simp: expect_def split: list.splits if_splits)

lemma tident_length: "tident ts = Some (x, r) \<Longrightarrow> length r < length ts"
  and sident_length: "sident ts = Some (x, r) \<Longrightarrow> length r < length ts"
  by (auto simp: tident_def sident_def split: list.splits token.splits)

lemma tident_comma_length: "tident_comma ts = Some (x, r) \<Longrightarrow> length r < length ts"
  and sident_comma_length: "sident_comma ts = Some (x, r) \<Longrightarrow> length r < length ts"
  by (auto simp: tident_comma_def sident_comma_def split: bind_splits
      dest!: expect_length tident_length sident_length)

lemma byten_item_length: "byten_item ts = Some (x, r) \<Longrightarrow> length r < length ts"
  by (auto simp: byten_item_def split: bind_splits dest!: expect_length tident_length)

function data_has_byten :: "token list \<Rightarrow> (string \<times> string) list \<times> token list" where
  "data_has_byten ts =
     (case byten_item ts of
        None \<Rightarrow> ([], ts)
      | Some (x, r) \<Rightarrow> let (xs, r') = data_has_byten r in (x # xs, r'))"
  by pat_completeness auto
termination
  by (relation "measure length") (auto dest: byten_item_length)

function data_no_byten :: "token list \<Rightarrow> string list \<times> token list" where
  "data_no_byten ts =
     (case tident_comma ts of
        None \<Rightarrow> ([], ts)
      | Some (x, r) \<Rightarrow> let (xs, r') = data_no_byten r in (x # xs, r'))"
  by pat_completeness auto
termination
  by (relation "measure length") (auto dest: tident_comma_length)

declare data_has_byten.simps [simp del] data_no_byten.simps [simp del]

section \<open>Body lines\<close>

record body_common =
  b_begin_cycle :: string
  b_end_cycle :: string
  b_begin_time :: string
  b_end_time :: string
  b_rw :: string
  b_addr :: string

datatype body =
    Body_xbus body_common "(string \<times> string) list"
  | Body_apb body_common string string "string list"
      \<comment> \<open>id, resp, data\<close>
  | Body_ahb body_common string string string string string string "string list"
      \<comment> \<open>id, bst_type, trx_size, trx_prt, lock, resp, data\<close>

definition common_of :: "string \<Rightarrow> string \<Rightarrow> string \<Rightarrow> string \<Rightarrow> string \<Rightarrow> string \<Rightarrow> body_common" where
  "common_of bc ec bt et w ad =
     \<lparr>b_begin_cycle = bc, b_end_cycle = ec, b_begin_time = bt, b_end_time = et, b_rw = w, b_addr = ad\<rparr>"

definition nonempty :: "'a list \<times> 'b \<Rightarrow> ('a list \<times> 'b) option" where
  "nonempty p = (if fst p = [] then None else Some p)"

definition body_xbus :: "token list \<Rightarrow> (body \<times> token list) option" where
  "body_xbus ts =
     do { (bc, ts) \<leftarrow> tident_comma ts; (ec, ts) \<leftarrow> tident_comma ts;
          (bt, ts) \<leftarrow> tident_comma ts; (et, ts) \<leftarrow> tident_comma ts;
          (w, ts) \<leftarrow> sident_comma ts; (ad, ts) \<leftarrow> tident_comma ts;
          (ds, ts) \<leftarrow> nonempty (data_has_byten ts);
          Some (Body_xbus (common_of bc ec bt et w ad) ds, ts) }"

definition body_apb :: "token list \<Rightarrow> (body \<times> token list) option" where
  "body_apb ts =
     do { (bc, ts) \<leftarrow> tident_comma ts; (ec, ts) \<leftarrow> tident_comma ts;
          (bt, ts) \<leftarrow> tident_comma ts; (et, ts) \<leftarrow> tident_comma ts;
          (i, ts) \<leftarrow> tident_comma ts; (w, ts) \<leftarrow> sident_comma ts;
          (rs, ts) \<leftarrow> sident_comma ts; (ad, ts) \<leftarrow> tident_comma ts;
          (ds, ts) \<leftarrow> nonempty (data_no_byten ts);
          Some (Body_apb (common_of bc ec bt et w ad) i rs ds, ts) }"

definition body_ahb :: "token list \<Rightarrow> (body \<times> token list) option" where
  "body_ahb ts =
     do { (bc, ts) \<leftarrow> tident_comma ts; (ec, ts) \<leftarrow> tident_comma ts;
          (bt, ts) \<leftarrow> tident_comma ts; (et, ts) \<leftarrow> tident_comma ts;
          (i, ts) \<leftarrow> tident_comma ts; (w, ts) \<leftarrow> sident_comma ts;
          (bst, ts) \<leftarrow> sident_comma ts; (sz, ts) \<leftarrow> sident_comma ts;
          (prt, ts) \<leftarrow> sident_comma ts; (lk, ts) \<leftarrow> tident_comma ts;
          (rs, ts) \<leftarrow> sident_comma ts; (ad, ts) \<leftarrow> tident_comma ts;
          (ds, ts) \<leftarrow> nonempty (data_no_byten ts);
          Some (Body_ahb (common_of bc ec bt et w ad) i bst sz prt lk rs ds, ts) }"

definition sub_body_stmt :: "token list \<Rightarrow> (body \<times> token list) option" where
  "sub_body_stmt ts =
     (case body_ahb ts of
        Some r \<Rightarrow> Some r
      | None \<Rightarrow> (case body_apb ts of Some r \<Rightarrow> Some r | None \<Rightarrow> body_xbus ts))"

section \<open>Actions\<close>

definition str2char :: "string \<Rightarrow> string" where
  "str2char s = c_str s"

definition instance_action :: "string \<Rightarrow> stl_state \<Rightarrow> stl_state" where
  "instance_action nm s =
     (let (mb, s) = dpi_smtdv_new_smtdv_mailbox (str2char nm) s in s\<lparr>global_mb := mb\<rparr>)"

definition body_start :: "stl_state \<Rightarrow> stl_state res" where
  "body_start s =
     (let (tt, s) = dpi_smtdv_new_smtdv_transfer s; s = s\<lparr>global_trx := tt\<rparr>
      in dpi_smtdv_register_smtdv_transfer (global_mb s) (global_trx s) s)"

text \<open>Calls on \<open>global_trx\<close> made one after the other.\<close>

definition on_trx :: "(addr \<Rightarrow> stl_state \<Rightarrow> stl_state res) list \<Rightarrow> stl_state \<Rightarrow> stl_state res" where
  "on_trx fs s = fold_res (\<lambda>f s. f (global_trx s) s) fs s"

definition data_actions :: "string list \<Rightarrow> (addr \<Rightarrow> stl_state \<Rightarrow> stl_state res) list" where
  "data_actions ds = map (\<lambda>d ip. dpi_smtdv_set_smtdv_transfer_data ip (str2char d)) ds"

definition byten_actions :: "(string \<times> string) list \<Rightarrow> (addr \<Rightarrow> stl_state \<Rightarrow> stl_state res) list" where
  "byten_actions ds =
     concat (map (\<lambda>(d, b). [\<lambda>ip. dpi_smtdv_set_smtdv_transfer_data ip (str2char d),
                            \<lambda>ip. dpi_smtdv_set_smtdv_transfer_byten ip (str2char b)]) ds)"

fun body_actions :: "body \<Rightarrow> (addr \<Rightarrow> stl_state \<Rightarrow> stl_state res) list" where
  "body_actions (Body_xbus c ds) =
     byten_actions ds @
     [\<lambda>ip. dpi_smtdv_set_smtdv_transfer_begin_cycle ip (str2char (b_begin_cycle c)),
      \<lambda>ip. dpi_smtdv_set_smtdv_transfer_end_cycle ip (str2char (b_end_cycle c)),
      \<lambda>ip. dpi_smtdv_set_smtdv_transfer_begin_time ip (str2char (b_begin_time c)),
      \<lambda>ip. dpi_smtdv_set_smtdv_transfer_end_time ip (str2char (b_end_time c)),
      \<lambda>ip. dpi_smtdv_set_smtdv_transfer_rw ip (str2char (b_rw c)),
      \<lambda>ip. dpi_smtdv_set_smtdv_transfer_addr ip (str2char (b_addr c))]"
| "body_actions (Body_apb c i rs ds) =
     data_actions ds @
     [\<lambda>ip. dpi_smtdv_set_smtdv_transfer_begin_cycle ip (str2char (b_begin_cycle c)),
      \<lambda>ip. dpi_smtdv_set_smtdv_transfer_end_cycle ip (str2char (b_end_cycle c)),
      \<lambda>ip. dpi_smtdv_set_smtdv_transfer_begin_time ip (str2char (b_begin_time c)),
      \<lambda>ip. dpi_smtdv_set_smtdv_transfer_end_time ip (str2char (b_end_time c)),
      \<lambda>ip. dpi_smtdv_set_smtdv_transfer_id ip (str2char i),
      \<lambda>ip. dpi_smtdv_set_smtdv_transfer_rw ip (str2char (b_rw c)),
      \<lambda>ip. dpi_smtdv_set_smtdv_transfer_resp ip (str2char rs),
      \<lambda>ip. dpi_smtdv_set_smtdv_transfer_addr ip (str2char (b_addr c))]"
| "body_actions (Body_ahb c i bst sz prt lk rs ds) =
     data_actions ds @
     [\<lambda>ip. dpi_smtdv_set_smtdv_transfer_begin_cycle ip (str2char (b_begin_cycle c)),
      \<lambda>ip. dpi_smtdv_set_smtdv_transfer_end_cycle ip (str2char (b_end_cycle c)),
      \<lambda>ip. dpi_smtdv_set_smtdv_transfer_begin_time ip (str2char (b_begin_time c)),
      \<lambda>ip. dpi_smtdv_set_smtdv_transfer_end_time ip (str2char (b_end_time c)),
      \<lambda>ip. dpi_smtdv_set_smtdv_transfer_id ip (str2char i),
      \<lambda>ip. dpi_smtdv_set_smtdv_transfer_rw ip (str2char (b_rw c)),
      \<lambda>ip. dpi_smtdv_set_smtdv_transfer_bst_type ip (str2char bst),
      \<lambda>ip. dpi_smtdv_set_smtdv_transfer_trx_size ip (str2char sz),
      \<lambda>ip. dpi_smtdv_set_smtdv_transfer_trx_prt ip (str2char prt),
      \<lambda>ip. dpi_smtdv_set_smtdv_transfer_lock ip (str2char lk),
      \<lambda>ip. dpi_smtdv_set_smtdv_transfer_resp ip (str2char rs),
      \<lambda>ip. dpi_smtdv_set_smtdv_transfer_addr ip (str2char (b_addr c))]"

definition body_stmt :: "body \<Rightarrow> stl_state \<Rightarrow> stl_state res" where
  "body_stmt b s = bind_res (body_start s) (on_trx (body_actions b))"

section \<open>The program\<close>

lemma data_no_byten_length: "data_no_byten ts = (xs, r) \<Longrightarrow> length r \<le> length ts"
proof (induction ts arbitrary: xs r rule: data_no_byten.induct)
  case (1 ts)
  show ?case
  proof (cases "tident_comma ts")
    case (Some p)
    obtain x r' where p: "p = (x, r')" by (cases p)
    obtain ys r'' where rec: "data_no_byten r' = (ys, r'')" by (cases "data_no_byten r'")
    have "length r' < length ts" using Some p by (simp add: tident_comma_length)
    then show ?thesis
      using 1(1) [OF Some p [symmetric] rec] 1(2) Some p rec by (simp add: data_no_byten.simps [of ts])
  qed (use 1(2) in \<open>simp add: data_no_byten.simps [of ts]\<close>)
qed

lemma data_has_byten_length: "data_has_byten ts = (xs, r) \<Longrightarrow> length r \<le> length ts"
proof (induction ts arbitrary: xs r rule: data_has_byten.induct)
  case (1 ts)
  show ?case
  proof (cases "byten_item ts")
    case (Some p)
    obtain x r' where p: "p = (x, r')" by (cases p)
    obtain ys r'' where rec: "data_has_byten r' = (ys, r'')" by (cases "data_has_byten r'")
    have "length r' < length ts" using Some p by (simp add: byten_item_length)
    then show ?thesis
      using 1(1) [OF Some p [symmetric] rec] 1(2) Some p rec by (simp add: data_has_byten.simps [of ts])
  qed (use 1(2) in \<open>simp add: data_has_byten.simps [of ts]\<close>)
qed

lemma nonempty_Some: "nonempty p = Some q \<Longrightarrow> q = p \<and> fst p \<noteq> []"
  by (auto simp: nonempty_def split: if_splits)

lemma sub_body_length:
  assumes "sub_body_stmt ts = Some (b, r)"
  shows "length r < length ts"
proof -
  have ahb: "body_ahb ts = Some (b, r) \<Longrightarrow> length r < length ts"
    unfolding body_ahb_def
    by (auto split: bind_splits dest!: tident_comma_length sident_comma_length
        nonempty_Some [of "data_no_byten _"] data_no_byten_length [OF sym])
  have apb: "body_apb ts = Some (b, r) \<Longrightarrow> length r < length ts"
    unfolding body_apb_def
    by (auto split: bind_splits dest!: tident_comma_length sident_comma_length
        nonempty_Some [of "data_no_byten _"] data_no_byten_length [OF sym])
  have xbus: "body_xbus ts = Some (b, r) \<Longrightarrow> length r < length ts"
    unfolding body_xbus_def
    by (auto split: bind_splits dest!: tident_comma_length sident_comma_length
        nonempty_Some [of "data_has_byten _"] data_has_byten_length [OF sym])
  show ?thesis
    using assms ahb apb xbus by (auto simp: sub_body_stmt_def split: option.splits)
qed

lemma expect_all_length: "expect_all es ts = Some r \<Longrightarrow> length r \<le> length ts"
  by (induction es arbitrary: ts) (fastforce split: bind_splits dest: expect_length)+

lemma header_length: "header_stmt ts = Some r \<Longrightarrow> length r \<le> length ts"
  by (auto simp: header_stmt_def split: option.splits dest: expect_all_length)

text \<open>The statements after the instance line, each closed by a \<open>RETURN\<close>.\<close>

function top_stmts :: "token list \<Rightarrow> stl_state \<Rightarrow> stl_state res" where
  "top_stmts ts s =
     (case ts of
        [] \<Rightarrow> Inr s
      | t # ts' \<Rightarrow>
          if t = RETURN then top_stmts ts' s
          else if t = COMMENT then
            (case do { r \<leftarrow> header_stmt ts; expect RETURN r } of
               None \<Rightarrow> Inl Exit_Failure
             | Some r \<Rightarrow> top_stmts r s)
          else
            (case do { (b, r) \<leftarrow> sub_body_stmt ts; r \<leftarrow> expect RETURN r; Some (b, r) } of
               None \<Rightarrow> Inl Exit_Failure
             | Some (b, r) \<Rightarrow> bind_res (body_stmt b s) (top_stmts r)))"
  by pat_completeness auto
termination
  by (relation "measure (\<lambda>(ts, s). length ts)")
    (auto split: bind_splits dest!: expect_length header_length sub_body_length)

declare top_stmts.simps [simp del]

text \<open>\<open>program : top_stmt\<close>, whose first statement is the instance line.\<close>

definition yyparse :: "token list \<Rightarrow> stl_state \<Rightarrow> stl_state res" where
  "yyparse ts s =
     (case do { ts \<leftarrow> expect COMMENT ts; (nm, ts) \<leftarrow> sident ts; ts \<leftarrow> expect RETURN ts; Some (nm, ts) } of
        None \<Rightarrow> Inl Exit_Failure
      | Some (nm, ts) \<Rightarrow> top_stmts ts (instance_action nm s))"

text \<open>
  \<open>do yyparse(); while (!feof(yyin))\<close>. The scanner buffers the file, so what \<open>feof\<close> answers
  while unscanned input \<open>rest\<close> is left depends on its buffer and is the parameter \<open>feof\<close>; at
  the end of the input it answers true.
\<close>

function parse_loop :: "(string \<Rightarrow> bool) \<Rightarrow> string \<Rightarrow> stl_state \<Rightarrow> stl_state res" where
  "parse_loop feof inp s =
     (let (ts, rest) = tokens inp in
      bind_res (yyparse ts s) (\<lambda>s'.
        if rest = [] \<or> feof rest then Inr s' else parse_loop feof rest s'))"
  by pat_completeness auto
termination
proof (relation "measure (\<lambda>(feof, inp, s). length inp)")
  fix feof :: "string \<Rightarrow> bool" and inp :: string and s :: stl_state and x ts rest s'
  assume x: "x = tokens inp" "(ts, rest) = x" and "\<not> (rest = [] \<or> feof rest)"
  then have "inp \<noteq> []" by (auto simp: tokens.simps)
  with x show "((feof, rest, s'), feof, inp, s) \<in> measure (\<lambda>(feof, inp, s). length inp)"
    using tokens_rest_less [of inp] by (metis case_prod_conv in_measure snd_conv)
qed simp

declare parse_loop.simps [simp del]

text \<open>\<open>files\<close> is the content of the files \<open>fopen\<close> can open.\<close>

definition dpi_smtdv_parse_file ::
  "(string \<rightharpoonup> string) \<Rightarrow> (string \<Rightarrow> bool) \<Rightarrow> string \<Rightarrow> stl_state \<Rightarrow> (addr \<times> stl_state) res" where
  "dpi_smtdv_parse_file files feof name s =
     (case files name of
        None \<Rightarrow> Inl Exit_Failure
      | Some inp \<Rightarrow> bind_res (parse_loop feof inp s) (\<lambda>s'. Inr (global_mb s', s')))"

end
