(* ===== verification/Stl_Trace.thy ===== *)
theory Stl_Trace
  imports Stl_Parser
begin

text \<open>
  The abstract contract of the trace reader: how a trace is written (\<open>render\<close>) and the
  transfer a line stands for (\<open>trx_of\<close>). The lemmas relate the scanner, the grammar and the
  actions to it, one layer each.
\<close>

section \<open>Writing a trace\<close>

fun token_text :: "token \<Rightarrow> string" where
  "token_text RETURN = [newline]"
| "token_text (TIDENTIFIER x) = x"
| "token_text (SIDENTIFIER x) = x"
| "token_text t = (case map_of lex_words t of Some w \<Rightarrow> w | None \<Rightarrow> [])"

definition key_words :: "string list" where
  "key_words = filter (\<lambda>w. 1 < length w) (map snd lex_words)"

definition is_hex :: "string \<Rightarrow> bool" where
  "is_hex x = (x \<noteq> [] \<and> list_all tident_char x)"

definition is_word :: "string \<Rightarrow> bool" where
  "is_word x = (x \<noteq> [] \<and> list_all sident_char x \<and> \<not> list_all tident_char x \<and> x \<notin> set key_words)"

fun scannable :: "token \<Rightarrow> bool" where
  "scannable (TIDENTIFIER x) = is_hex x"
| "scannable (SIDENTIFIER x) = is_word x"
| "scannable _ = True"

definition is_punct :: "token \<Rightarrow> bool" where
  "is_punct t = (t \<in> {RETURN, TCOMMA, TLPAREN, TRPAREN, COMMENT})"

text \<open>Words are kept apart by punctuation.\<close>

fun separated :: "token list \<Rightarrow> bool" where
  "separated [] = True"
| "separated [t] = is_punct t"
| "separated (t # u # ts) = ((is_punct t \<or> is_punct u) \<and> separated (u # ts))"

text \<open>Each token is written after any number of blanks.\<close>

definition render :: "(nat \<times> token) list \<Rightarrow> string" where
  "render ts = concat (map (\<lambda>(n, t). replicate n CHR '' '' @ token_text t) ts)"

section \<open>The scanner reads what was written\<close>

definition delimited :: "string \<Rightarrow> bool" where
  "delimited s = (case s of [] \<Rightarrow> True | c # _ \<Rightarrow> \<not> sident_char c \<and> c \<noteq> CHR ''/'')"

lemma best_rule_at:
  assumes "\<forall>(b, n) \<in> set rs1. n s < m s" and "\<forall>(b, n) \<in> set rs2. n s \<le> m s"
  shows "best_rule (rs1 @ (a, m) # rs2) s = (a, m s)"
proof -
  have le: "snd (best_rule rs s) \<le> k" if "\<forall>(b, n) \<in> set rs. n s \<le> k" for rs k
    using that by (induction rs s rule: best_rule.induct) (auto simp: Let_def split: prod.splits)
  have "best_rule ((a, m) # rs2) s = (a, m s)"
    using le [OF assms(2)] by (auto simp: Let_def split: prod.splits)
  then show ?thesis
    using assms(1) by (induction rs1) (auto simp: Let_def)
qed

lemma tident_sident: "tident_char c \<Longrightarrow> sident_char c"
  by (auto simp: tident_char_def sident_char_def in_range_def)

lemma star_of_delimited:
  assumes "list_all P x" and "delimited r" and "\<And>c. P c \<Longrightarrow> sident_char c"
  shows "star_of P (x @ r) = length x"
proof -
  have "takeWhile P r = []"
    using assms(2,3) by (cases r) (auto simp: delimited_def)
  then show ?thesis
    using assms(1) by (simp add: star_of_def list_all_iff takeWhile_append2)
qed

lemma star_of_not_all:
  assumes "\<not> list_all P x"
  shows "star_of P (x @ r) < length x"
proof -
  obtain c where "c \<in> set x" "\<not> P c" using assms by (auto simp: list_all_iff)
  then have "takeWhile P (x @ r) = takeWhile P x" and "takeWhile P x \<noteq> x"
    by (auto simp: takeWhile_append1 takeWhile_eq_all_conv)
  moreover have "length (takeWhile P x) \<le> length x" by (rule length_takeWhile_le)
  moreover have "length (takeWhile P x) \<noteq> length x"
    using \<open>takeWhile P x \<noteq> x\<close> by (metis takeWhile_eq_take take_all_iff order_refl)
  ultimately show ?thesis by (simp add: star_of_def)
qed

lemma one_of_le: "x \<noteq> [] \<Longrightarrow> one_of P (x @ r) \<le> length x"
  by (cases x) (auto simp: one_of_def)

lemma key_words_eq:
  "key_words = [''begin_cycle'', ''end_cycle'', ''begin_time'', ''end_time'', ''r/w'', ''id'', ''bst_type'',
     ''trx_size'', ''trx_prt'', ''lock'', ''addr'', ''resp'', ''data'', ''byten'']"
  by (simp add: key_words_def lex_words_def)

lemma key_words_checked:
  "list_all (\<lambda>w. list_all (\<lambda>c. sident_char c \<or> c = CHR ''/'') w \<and> \<not> list_all tident_char w) key_words"
  by code_simp

lemma key_words_chars: "w \<in> set key_words \<Longrightarrow> list_all (\<lambda>c. sident_char c \<or> c = CHR ''/'') w"
  and key_words_not_hex: "w \<in> set key_words \<Longrightarrow> \<not> list_all tident_char w"
  using key_words_checked by (auto simp: list_all_iff)

lemma is_hex_not_key: "is_hex x \<Longrightarrow> x \<notin> set key_words"
  using key_words_not_hex by (auto simp: is_hex_def)

lemma is_hex_sident: "is_hex x \<Longrightarrow> list_all sident_char x"
  by (auto simp: is_hex_def list_all_iff tident_sident)

lemma lit_key_less:
  assumes "x \<noteq> []" and "list_all sident_char x" and "x \<notin> set key_words" and "delimited r"
    and "w \<in> set key_words"
  shows "lit w (x @ r) < length x"
proof (cases "take (length w) (x @ r) = w \<and> length x \<le> length w")
  case True
  then have w: "w = x @ take (length w - length x) r" by (metis take_append take_all)
  moreover have "take (length w - length x) r = []"
  proof (cases "take (length w - length x) r")
    case (Cons c cs)
    then have "c \<in> set w" using w by (metis in_set_conv_decomp list.set_intros(1) Un_iff set_append)
    moreover have "r = c # tl r" using Cons by (cases r) (auto simp: take_Cons' split: if_splits)
    ultimately show ?thesis
      using key_words_chars [OF assms(5)] assms(4) by (cases r) (auto simp: list_all_iff delimited_def)
  qed
  ultimately show ?thesis using assms(3,5) by simp
next
  case False
  then show ?thesis using assms(1) by (auto simp: lit_def)
qed

lemma lit_punct:
  assumes "x \<noteq> []" and "list_all sident_char x" and "w \<in> {'','', ''('', '')'', ''#''}"
  shows "lit w (x @ r) = 0"
  using assms by (cases x) (auto simp: lit_def sident_char_def in_range_def)

lemma lex_words_cases: "(t, w) \<in> set lex_words \<Longrightarrow> w \<in> set key_words \<or> w \<in> {'','', ''('', '')'', ''#''}"
  by (auto simp: lex_words_def key_words_eq)

lemma words_less:
  assumes "x \<noteq> []" and "list_all sident_char x" and "x \<notin> set key_words" and "delimited r"
  shows "\<forall>(b, n) \<in> set (map (\<lambda>(t, w). (Tok t, lit w)) lex_words). n (x @ r) < length x"
proof -
  have "lit w (x @ r) < length x" if "(t, w) \<in> set lex_words" for t w
    using lex_words_cases [OF that] assms(1) lit_key_less [OF assms] lit_punct [OF assms(1,2)] by auto
  then show ?thesis by auto
qed

lemma one_of_sident:
  assumes "x \<noteq> []" and "list_all sident_char x" and "\<And>c. P c \<Longrightarrow> \<not> sident_char c"
  shows "one_of P (x @ r) = 0"
  using assms by (cases x) (auto simp: one_of_def)

lemma best_rule_tident:
  assumes "is_hex x" and "delimited r"
  shows "best_rule lex_rules (x @ r) = (Tident, length x)"
proof -
  have x: "x \<noteq> []" "list_all tident_char x" "list_all sident_char x" "x \<notin> set key_words"
    using assms(1) is_hex_sident is_hex_not_key by (auto simp: is_hex_def)
  have len: "star_of tident_char (x @ r) = length x"
    using x(2) assms(2) tident_sident by (rule star_of_delimited)
  have le: "star_of sident_char (x @ r) = length x"
    using x(3) assms(2) by (rule star_of_delimited)
  have blank: "one_of (\<lambda>c. c = CHR '' '' \<or> c = CHR 0x09) (x @ r) = 0"
    "one_of (\<lambda>c. c = newline) (x @ r) = 0"
    using x(1,3) by (auto intro!: one_of_sident simp: sident_char_def in_range_def newline_def)
  let ?rs1 = "[(Skip, one_of (\<lambda>c. c = CHR '' '' \<or> c = CHR 0x09)), (Tok RETURN, one_of (\<lambda>c. c = newline))] @
    map (\<lambda>(t, w). (Tok t, lit w)) lex_words"
  have "best_rule (?rs1 @ (Tident, star_of tident_char) # [(Sident, star_of sident_char),
      (Unknown, one_of (\<lambda>c. c \<noteq> newline))]) (x @ r) = (Tident, star_of tident_char (x @ r))"
    using x words_less [OF x(1,3,4) assms(2)] one_of_le [OF x(1)]
    by (intro best_rule_at) (auto simp: len le blank)
  then show ?thesis by (simp add: lex_rules_def len)
qed

lemma best_rule_sident:
  assumes "is_word x" and "delimited r"
  shows "best_rule lex_rules (x @ r) = (Sident, length x)"
proof -
  have x: "x \<noteq> []" "\<not> list_all tident_char x" "list_all sident_char x" "x \<notin> set key_words"
    using assms(1) by (auto simp: is_word_def)
  have less: "star_of tident_char (x @ r) < length x"
    using x(2) by (rule star_of_not_all)
  have len: "star_of sident_char (x @ r) = length x"
    using x(3) assms(2) by (rule star_of_delimited)
  have blank: "one_of (\<lambda>c. c = CHR '' '' \<or> c = CHR 0x09) (x @ r) = 0"
    "one_of (\<lambda>c. c = newline) (x @ r) = 0"
    using x(1,3) by (auto intro!: one_of_sident simp: sident_char_def in_range_def newline_def)
  let ?rs1 = "[(Skip, one_of (\<lambda>c. c = CHR '' '' \<or> c = CHR 0x09)), (Tok RETURN, one_of (\<lambda>c. c = newline))] @
    map (\<lambda>(t, w). (Tok t, lit w)) lex_words @ [(Tident, star_of tident_char)]"
  have "best_rule (?rs1 @ (Sident, star_of sident_char) # [(Unknown, one_of (\<lambda>c. c \<noteq> newline))]) (x @ r) =
      (Sident, star_of sident_char (x @ r))"
    using x words_less [OF x(1,3,4) assms(2)] one_of_le [OF x(1)] less
    by (intro best_rule_at) (auto simp: len blank)
  then show ?thesis by (simp add: lex_rules_def len)
qed

text \<open>No word of the scanner is a prefix of another.\<close>

definition apart :: "string \<Rightarrow> string \<Rightarrow> bool" where
  "apart w w' = (let m = min (length w) (length w') in take m w \<noteq> take m w')"

lemma lex_words_checked:
  "list_all (\<lambda>w. list_all (\<lambda>w'. w = w' \<or> apart w w') (map snd lex_words)) (map snd lex_words)"
  "list_all (\<lambda>w. w \<noteq> [] \<and> \<not> list_all tident_char w \<and> hd w \<noteq> newline \<and> hd w \<noteq> CHR '' '' \<and> hd w \<noteq> CHR 0x09)
     (map snd lex_words)"
  "distinct (map snd lex_words)" "distinct (map fst lex_words)"
  by code_simp+

lemma unknown_checked:
  "list_all (\<lambda>c. \<not> sident_char c \<and> c \<noteq> newline \<and> c \<noteq> CHR '' '' \<and> c \<noteq> CHR 0x09 \<and>
     list_all (\<lambda>w. hd w \<noteq> c) (map snd lex_words)) ''-+*:;!?$%&@=''"
  by code_simp

lemma lit_apart:
  assumes "apart w w'"
  shows "lit w' (w @ r) = 0"
proof -
  let ?m = "min (length w) (length w')"
  have "take (length w') (w @ r) \<noteq> w'"
  proof
    assume eq: "take (length w') (w @ r) = w'"
    have "take ?m w = take ?m (w @ r)" by simp
    also have "\<dots> = take ?m (take (length w') (w @ r))" by (simp add: take_take min_def)
    also have "\<dots> = take ?m w'" by (simp only: eq)
    finally show False using assms by (simp add: apart_def Let_def)
  qed
  then show ?thesis by (simp add: lit_def)
qed

lemma best_rule_word:
  assumes mem: "(t, w) \<in> set lex_words" and r: "list_all sident_char w \<longrightarrow> delimited r"
  shows "best_rule lex_rules (w @ r) = (Tok t, length w)"
proof -
  obtain ws1 ws2 where split: "lex_words = ws1 @ (t, w) # ws2"
    using split_list [OF mem] by blast
  have w: "w \<noteq> []" "\<not> list_all tident_char w" "hd w \<noteq> newline" "hd w \<noteq> CHR '' ''" "hd w \<noteq> CHR 0x09"
    using lex_words_checked(2) mem by (fastforce simp: list_all_iff)+
  have other: "lit w' (w @ r) = 0" if "(t', w') \<in> set (ws1 @ ws2)" for t' w'
  proof -
    have "w' \<noteq> w" using lex_words_checked(3) that by (force simp: split image_iff)
    moreover have "(t', w') \<in> set lex_words" using that by (auto simp: split)
    ultimately have "apart w w'"
      using lex_words_checked(1) mem unfolding list_all_iff by (metis imageI image_set snd_conv)
    then show ?thesis by (rule lit_apart)
  qed
  have blank: "one_of (\<lambda>c. c = CHR '' '' \<or> c = CHR 0x09) (w @ r) = 0" "one_of (\<lambda>c. c = newline) (w @ r) = 0"
    using w by (cases w; simp add: one_of_def)+
  have tid: "star_of tident_char (w @ r) < length w"
    using w(2) by (rule star_of_not_all)
  have sid: "star_of sident_char (w @ r) \<le> length w"
  proof (cases "list_all sident_char w")
    case True
    then show ?thesis using r by (simp add: star_of_delimited)
  next
    case False
    then show ?thesis using star_of_not_all [OF False, of r] by simp
  qed
  have here: "lit w (w @ r) = length w" by (simp add: lit_def)
  let ?f = "\<lambda>(t, w). (Tok t, lit w)"
  let ?rs1 = "[(Skip, one_of (\<lambda>c. c = CHR '' '' \<or> c = CHR 0x09)), (Tok RETURN, one_of (\<lambda>c. c = newline))] @ map ?f ws1"
  let ?rs2 = "map ?f ws2 @ [(Tident, star_of tident_char), (Sident, star_of sident_char),
      (Unknown, one_of (\<lambda>c. c \<noteq> newline))]"
  have "best_rule (?rs1 @ (Tok t, lit w) # ?rs2) (w @ r) = (Tok t, lit w (w @ r))"
  proof (rule best_rule_at)
    show "\<forall>(b, n) \<in> set ?rs1. n (w @ r) < lit w (w @ r)"
    proof -
      have "lit w' (w @ r) < length w" if "(t', w') \<in> set ws1" for t' w'
        using other [of t' w'] that w(1) by simp
      then show ?thesis using w(1) by (auto simp: here blank)
    qed
    show "\<forall>(b, n) \<in> set ?rs2. n (w @ r) \<le> lit w (w @ r)"
    proof -
      have "lit w' (w @ r) \<le> length w" if "(t', w') \<in> set ws2" for t' w'
        using other [of t' w'] that by simp
      then show ?thesis using one_of_le [OF w(1)] tid sid by (auto simp: here)
    qed
  qed
  then show ?thesis by (simp add: lex_rules_def split here)
qed

lemma best_rule_newline: "best_rule lex_rules (newline # r) = (Tok RETURN, 1)"
proof -
  have zero: "lit w (newline # r) = 0" if "(t, w) \<in> set lex_words" for t w
    using lex_words_checked(2) that by (cases w) (auto simp: lit_def list_all_iff)
  have "best_rule ([(Skip, one_of (\<lambda>c. c = CHR '' '' \<or> c = CHR 0x09))] @ (Tok RETURN, one_of (\<lambda>c. c = newline)) #
      map (\<lambda>(t, w). (Tok t, lit w)) lex_words @ [(Tident, star_of tident_char), (Sident, star_of sident_char),
      (Unknown, one_of (\<lambda>c. c \<noteq> newline))]) (newline # r) = (Tok RETURN, one_of (\<lambda>c. c = newline) (newline # r))"
    by (rule best_rule_at)
      (auto simp: one_of_def newline_def star_of_def tident_char_def sident_char_def in_range_def
        dest: zero [unfolded newline_def])
  then show ?thesis by (simp add: lex_rules_def one_of_def)
qed

lemma best_rule_blank: "best_rule lex_rules (CHR '' '' # r) = (Skip, 1)"
proof -
  have zero: "lit w (CHR '' '' # r) = 0" if "(t, w) \<in> set lex_words" for t w
    using lex_words_checked(2) that by (cases w) (auto simp: lit_def list_all_iff)
  have "best_rule ([] @ (Skip, one_of (\<lambda>c. c = CHR '' '' \<or> c = CHR 0x09)) # (Tok RETURN, one_of (\<lambda>c. c = newline)) #
      map (\<lambda>(t, w). (Tok t, lit w)) lex_words @ [(Tident, star_of tident_char), (Sident, star_of sident_char),
      (Unknown, one_of (\<lambda>c. c \<noteq> newline))]) (CHR '' '' # r) =
      (Skip, one_of (\<lambda>c. c = CHR '' '' \<or> c = CHR 0x09) (CHR '' '' # r))"
    by (rule best_rule_at)
      (auto simp: one_of_def newline_def star_of_def tident_char_def sident_char_def in_range_def dest: zero)
  then show ?thesis by (simp add: lex_rules_def one_of_def)
qed

lemma best_rule_unknown:
  assumes "c \<in> set ''-+*:;!?$%&@=''"
  shows "best_rule lex_rules (c # r) = (Unknown, 1)"
proof -
  have c: "\<not> sident_char c" "c \<noteq> newline" "c \<noteq> CHR '' ''" "c \<noteq> CHR 0x09"
      "list_all (\<lambda>w. hd w \<noteq> c) (map snd lex_words)"
    using assms unknown_checked by (auto simp only: list_all_iff)
  have zero: "lit w (c # r) = 0" if "(t, w) \<in> set lex_words" for t w
    using c(5) lex_words_checked(2) that by (cases w) (fastforce simp: lit_def list_all_iff)+
  have star: "star_of tident_char (c # r) = 0" "star_of sident_char (c # r) = 0"
    using c(1) tident_sident by (auto simp: star_of_def)
  let ?rs1 = "[(Skip, one_of (\<lambda>c. c = CHR '' '' \<or> c = CHR 0x09)), (Tok RETURN, one_of (\<lambda>c. c = newline))] @
      map (\<lambda>(t, w). (Tok t, lit w)) lex_words @ [(Tident, star_of tident_char), (Sident, star_of sident_char)]"
  have "best_rule (?rs1 @ (Unknown, one_of (\<lambda>c. c \<noteq> newline)) # []) (c # r) =
      (Unknown, one_of (\<lambda>c. c \<noteq> newline) (c # r))"
  proof (rule best_rule_at)
    show "\<forall>(b, n) \<in> set ?rs1. n (c # r) < one_of (\<lambda>c. c \<noteq> newline) (c # r)"
      using c zero by (auto simp: one_of_def star)
  qed simp
  then show ?thesis using c(2) by (simp add: lex_rules_def one_of_def)
qed

lemma yylex_blanks: "yylex (replicate n CHR '' '' @ s) = yylex s"
proof (induction n)
  case (Suc n)
  have "yylex (CHR '' '' # replicate n CHR '' '' @ s) = yylex (replicate n CHR '' '' @ s)"
    by (subst yylex.simps) (simp add: best_rule_blank Let_def)
  then show ?case using Suc by simp
qed simp

lemma token_text_word: "(t, w) \<in> set lex_words \<Longrightarrow> token_text t = w"
  and token_cases: "t = RETURN \<or> (\<exists>x. t = TIDENTIFIER x) \<or> (\<exists>x. t = SIDENTIFIER x) \<or> (\<exists>w. (t, w) \<in> set lex_words)"
  by (auto simp: lex_words_def) (cases t; simp)

lemma punct_text: "is_punct t \<Longrightarrow> \<exists>c. token_text t = [c] \<and> \<not> sident_char c \<and> c \<noteq> CHR ''/''"
  by (auto simp: is_punct_def lex_words_def newline_def sident_char_def in_range_def)

lemma yylex_token:
  assumes "scannable t" and "\<not> is_punct t \<Longrightarrow> delimited r"
  shows "yylex (token_text t @ r) = (Some t, r)"
  using token_cases [of t]
proof (elim disjE exE)
  assume "t = RETURN"
  then show ?thesis by (simp add: yylex.simps best_rule_newline)
next
  fix x assume t: "t = TIDENTIFIER x"
  then have "best_rule lex_rules (x @ r) = (Tident, length x)" "x \<noteq> []"
    using assms by (auto simp: is_punct_def best_rule_tident is_hex_def)
  then show ?thesis using t by (simp add: yylex.simps)
next
  fix x assume t: "t = SIDENTIFIER x"
  then have "best_rule lex_rules (x @ r) = (Sident, length x)" "x \<noteq> []"
    using assms by (auto simp: is_punct_def best_rule_sident is_word_def)
  then show ?thesis using t by (simp add: yylex.simps)
next
  fix w assume mem: "(t, w) \<in> set lex_words"
  have w: "token_text t = w" using mem by (rule token_text_word)
  have "list_all sident_char w \<longrightarrow> delimited r"
    using assms(2) punct_text [of t] w by (cases "is_punct t") auto
  then have "best_rule lex_rules (w @ r) = (Tok t, length w)"
    using mem by (simp add: best_rule_word)
  moreover have "w \<noteq> []" using lex_words_checked(2) mem by (fastforce simp: list_all_iff)
  ultimately show ?thesis using w by (simp add: yylex.simps)
qed

lemma delimited_render:
  assumes "is_punct (snd p)"
  shows "delimited (render (p # ps))"
  using punct_text [OF assms]
  by (cases "fst p") (auto simp: render_def delimited_def case_prod_beta sident_char_def in_range_def)

lemma tokens_render:
  assumes "list_all (scannable \<circ> snd) ts" and "separated (map snd ts)"
  shows "tokens (render ts @ r) = (map snd ts @ fst (tokens r), snd (tokens r))"
  using assms
proof (induction ts)
  case Nil
  then show ?case by (simp add: render_def)
next
  case (Cons p ts)
  obtain n t where p: "p = (n, t)" by (cases p)
  have sep: "separated (map snd ts)" using Cons.prems(2) by (cases ts) auto
  have next_ok: "delimited (render ts @ r)" if "\<not> is_punct t"
  proof -
    obtain q qs where ts: "ts = q # qs" using Cons.prems(2) \<open>\<not> is_punct t\<close> p by (cases ts) auto
    then have "delimited (render (q # qs))"
      using Cons.prems(2) \<open>\<not> is_punct t\<close> p by (intro delimited_render) auto
    moreover have "render (q # qs) \<noteq> []"
      using punct_text [of "snd q"] Cons.prems(2) \<open>\<not> is_punct t\<close> p ts
      by (auto simp: render_def case_prod_beta)
    ultimately show ?thesis using ts by (cases "render (q # qs)") (auto simp: delimited_def)
  qed
  have "yylex (render (p # ts) @ r) = (Some t, render ts @ r)"
    using Cons.prems(1) p yylex_token [of t "render ts @ r", OF _ next_ok]
    by (simp add: render_def yylex_blanks)
  moreover have "render (p # ts) @ r \<noteq> []"
    using \<open>yylex (render (p # ts) @ r) = _\<close> by (auto simp: yylex.simps)
  ultimately show ?case
    using Cons.IH Cons.prems(1) sep p
    by (subst tokens.simps) (auto simp: Let_def split: prod.splits)
qed

section \<open>The grammar accepts exactly the traces\<close>

definition head_tokens :: "body_common \<Rightarrow> token list" where
  "head_tokens c =
     [TIDENTIFIER (b_begin_cycle c), TCOMMA, TIDENTIFIER (b_end_cycle c), TCOMMA,
      TIDENTIFIER (b_begin_time c), TCOMMA, TIDENTIFIER (b_end_time c), TCOMMA]"

definition data_tokens :: "string list \<Rightarrow> token list" where
  "data_tokens ds = concat (map (\<lambda>d. [TIDENTIFIER d, TCOMMA]) ds)"

definition byten_tokens :: "(string \<times> string) list \<Rightarrow> token list" where
  "byten_tokens ds = concat (map (\<lambda>(d, b). [TIDENTIFIER d, TLPAREN, TIDENTIFIER b, TRPAREN, TCOMMA]) ds)"

fun body_tokens :: "body \<Rightarrow> token list" where
  "body_tokens (Body_xbus c ds) =
     head_tokens c @ [SIDENTIFIER (b_rw c), TCOMMA, TIDENTIFIER (b_addr c), TCOMMA] @ byten_tokens ds"
| "body_tokens (Body_apb c i rs ds) =
     head_tokens c @ [TIDENTIFIER i, TCOMMA, SIDENTIFIER (b_rw c), TCOMMA, SIDENTIFIER rs, TCOMMA,
       TIDENTIFIER (b_addr c), TCOMMA] @ data_tokens ds"
| "body_tokens (Body_ahb c i bst sz prt lk rs ds) =
     head_tokens c @ [TIDENTIFIER i, TCOMMA, SIDENTIFIER (b_rw c), TCOMMA, SIDENTIFIER bst, TCOMMA,
       SIDENTIFIER sz, TCOMMA, SIDENTIFIER prt, TCOMMA, TIDENTIFIER lk, TCOMMA, SIDENTIFIER rs, TCOMMA,
       TIDENTIFIER (b_addr c), TCOMMA] @ data_tokens ds"

fun has_data :: "body \<Rightarrow> bool" where
  "has_data (Body_xbus _ ds) = (ds \<noteq> [])"
| "has_data (Body_apb _ _ _ ds) = (ds \<noteq> [])"
| "has_data (Body_ahb _ _ _ _ _ _ _ ds) = (ds \<noteq> [])"

datatype line = Blank | Header_ahb | Header_apb | Header_xbus | Body body

fun line_tokens :: "line \<Rightarrow> token list" where
  "line_tokens Blank = []"
| "line_tokens Header_ahb = header_ahb"
| "line_tokens Header_apb = header_apb"
| "line_tokens Header_xbus = header_xbus"
| "line_tokens (Body b) = body_tokens b"

fun line_ok :: "line \<Rightarrow> bool" where
  "line_ok (Body b) = has_data b"
| "line_ok _ = True"

definition lines_tokens :: "line list \<Rightarrow> token list" where
  "lines_tokens ls = concat (map (\<lambda>l. line_tokens l @ [RETURN]) ls)"

definition trace_tokens :: "string \<Rightarrow> line list \<Rightarrow> token list" where
  "trace_tokens nm ls = [COMMENT, SIDENTIFIER nm, RETURN] @ lines_tokens ls"

fun bodies :: "line list \<Rightarrow> body list" where
  "bodies [] = []"
| "bodies (Body b # ls) = b # bodies ls"
| "bodies (_ # ls) = bodies ls"

lemma expect_iff: "expect t ts = Some r \<longleftrightarrow> ts = t # r"
  and tident_iff: "tident ts = Some (x, r) \<longleftrightarrow> ts = TIDENTIFIER x # r"
  and sident_iff: "sident ts = Some (x, r) \<longleftrightarrow> ts = SIDENTIFIER x # r"
  by (auto simp: expect_def tident_def sident_def split: list.splits token.splits)

lemma tident_comma_iff: "tident_comma ts = Some (x, r) \<longleftrightarrow> ts = TIDENTIFIER x # TCOMMA # r"
  and sident_comma_iff: "sident_comma ts = Some (x, r) \<longleftrightarrow> ts = SIDENTIFIER x # TCOMMA # r"
  by (auto simp: tident_comma_def sident_comma_def expect_iff tident_iff sident_iff split: bind_splits)
     (auto simp: expect_def tident_def sident_def)

lemma byten_item_iff:
  "byten_item ts = Some ((d, b), r) \<longleftrightarrow> ts = [TIDENTIFIER d, TLPAREN, TIDENTIFIER b, TRPAREN, TCOMMA] @ r"
  by (auto simp: byten_item_def expect_iff tident_iff split: bind_splits)
     (auto simp: expect_def tident_def)

lemma expect_all_iff: "expect_all es ts = Some r \<longleftrightarrow> ts = es @ r"
  by (induction es arbitrary: ts) (auto simp: expect_iff split: bind_splits, auto simp: expect_def)

lemma data_no_byten_sound: "data_no_byten ts = (ds, r) \<Longrightarrow> ts = data_tokens ds @ r"
proof (induction ts arbitrary: ds r rule: data_no_byten.induct)
  case (1 ts)
  show ?case
  proof (cases "tident_comma ts")
    case (Some p)
    obtain x r' where p: "p = (x, r')" by (cases p)
    obtain ys r'' where rec: "data_no_byten r' = (ys, r'')" by (cases "data_no_byten r'")
    show ?thesis
      using 1(1) [OF Some p [symmetric] rec] 1(2) Some p rec
      by (auto simp add: data_no_byten.simps [of ts] tident_comma_iff data_tokens_def)
  qed (use 1(2) in \<open>simp add: data_no_byten.simps [of ts] data_tokens_def\<close>)
qed

lemma data_has_byten_sound: "data_has_byten ts = (ds, r) \<Longrightarrow> ts = byten_tokens ds @ r"
proof (induction ts arbitrary: ds r rule: data_has_byten.induct)
  case (1 ts)
  show ?case
  proof (cases "byten_item ts")
    case (Some p)
    obtain d b r' where p: "p = ((d, b), r')" by (metis surj_pair)
    obtain ys r'' where rec: "data_has_byten r' = (ys, r'')" by (cases "data_has_byten r'")
    show ?thesis
      using 1(1) [OF Some p [symmetric] rec] 1(2) Some p rec
      by (auto simp add: data_has_byten.simps [of ts] byten_item_iff byten_tokens_def)
  qed (use 1(2) in \<open>simp add: data_has_byten.simps [of ts] byten_tokens_def\<close>)
qed

lemma data_no_byten_complete: "data_no_byten (data_tokens ds @ RETURN # r) = (ds, RETURN # r)"
  by (induction ds)
    (simp_all add: data_tokens_def data_no_byten.simps [of "_ # _"] tident_comma_def tident_def expect_def)

lemma data_has_byten_complete: "data_has_byten (byten_tokens ds @ RETURN # r) = (ds, RETURN # r)"
proof (induction ds)
  case (Cons p ds)
  then show ?case
    by (cases p) (simp add: byten_tokens_def data_has_byten.simps [of "_ # _"] byten_item_def tident_def expect_def)
qed (simp add: byten_tokens_def data_has_byten.simps [of "_ # _"] byten_item_def tident_def)

lemma nonempty_iff: "nonempty p = Some (xs, r) \<longleftrightarrow> p = (xs, r) \<and> xs \<noteq> []"
  by (auto simp: nonempty_def)

lemma body_ahb_sound: "body_ahb ts = Some (b, r) \<Longrightarrow> ts = body_tokens b @ r \<and> has_data b"
  by (auto simp: body_ahb_def tident_comma_iff sident_comma_iff nonempty_iff common_of_def head_tokens_def
      Option.bind_eq_Some_conv dest!: data_no_byten_sound)

lemma body_apb_sound: "body_apb ts = Some (b, r) \<Longrightarrow> ts = body_tokens b @ r \<and> has_data b"
  by (auto simp: body_apb_def tident_comma_iff sident_comma_iff nonempty_iff common_of_def head_tokens_def
      Option.bind_eq_Some_conv dest!: data_no_byten_sound)

lemma body_xbus_sound: "body_xbus ts = Some (b, r) \<Longrightarrow> ts = body_tokens b @ r \<and> has_data b"
  by (auto simp: body_xbus_def tident_comma_iff sident_comma_iff nonempty_iff common_of_def head_tokens_def
      Option.bind_eq_Some_conv dest!: data_has_byten_sound)

lemma sub_body_sound: "sub_body_stmt ts = Some (b, r) \<Longrightarrow> ts = body_tokens b @ r \<and> has_data b"
  using body_ahb_sound body_apb_sound body_xbus_sound
  by (auto simp: sub_body_stmt_def split: option.splits)

lemma sub_body_complete:
  assumes "has_data b"
  shows "sub_body_stmt (body_tokens b @ RETURN # r) = Some (b, RETURN # r)"
proof -
  have c: "common_of (b_begin_cycle c) (b_end_cycle c) (b_begin_time c) (b_end_time c) (b_rw c) (b_addr c) = c" for c
    by (simp add: common_of_def)
  have ne: "concat (map (\<lambda>d. [TIDENTIFIER d, TCOMMA]) ds) = [] \<longleftrightarrow> ds = []" for ds
    by (cases ds) auto
  have dt: "data_no_byten (data_tokens ds @ RETURN # r) = (ds, RETURN # r)" for ds
    by (rule data_no_byten_complete)
  have bt: "data_has_byten (byten_tokens ds @ RETURN # r) = (ds, RETURN # r)" for ds
    by (rule data_has_byten_complete)
  show ?thesis
  proof (cases b)
    case (Body_xbus c ds)
    then show ?thesis using assms
      by (simp add: sub_body_stmt_def body_ahb_def body_apb_def body_xbus_def head_tokens_def nonempty_def
          tident_comma_def sident_comma_def tident_def sident_def expect_def bt c)
  next
    case (Body_apb c i rs ds)
    obtain d ds' where ds: "ds = d # ds'" using assms Body_apb by (cases ds) auto
    have "body_ahb (body_tokens b @ RETURN # r) = None"
      using Body_apb ds
      by (simp add: body_ahb_def head_tokens_def data_tokens_def
          tident_comma_def sident_comma_def tident_def sident_def expect_def)
    then show ?thesis using assms Body_apb
      by (simp add: sub_body_stmt_def body_apb_def head_tokens_def nonempty_def
          tident_comma_def sident_comma_def tident_def sident_def expect_def dt c)
  next
    case (Body_ahb c i bst sz prt lk rs ds)
    then show ?thesis using assms
      by (simp add: sub_body_stmt_def body_ahb_def head_tokens_def nonempty_def
          tident_comma_def sident_comma_def tident_def sident_def expect_def dt c)
  qed
qed

lemma header_sound:
  assumes "header_stmt ts = Some r"
  shows "ts = header_ahb @ r \<or> ts = header_apb @ r \<or> ts = header_xbus @ r"
  using assms by (auto simp: header_stmt_def expect_all_iff split: option.splits)

lemma header_complete:
  "header_stmt (header_ahb @ r) = Some r" "header_stmt (header_apb @ r) = Some r"
  "header_stmt (header_xbus @ r) = Some r"
  by (simp_all add: header_stmt_def header_ahb_def header_apb_def header_xbus_def expect_def)

text \<open>The first token of a line tells what it is.\<close>

lemma body_tokens_Cons: "\<exists>x r. body_tokens b = TIDENTIFIER x # r"
  by (cases b) (auto simp: head_tokens_def)

lemma lines_tokens_simps [simp]:
  "lines_tokens [] = []" "lines_tokens (l # ls) = line_tokens l @ RETURN # lines_tokens ls"
  by (simp_all add: lines_tokens_def)

lemma top_stmts_Nil: "top_stmts [] s = Inr s"
  and top_stmts_RETURN: "top_stmts (RETURN # r) s = top_stmts r s"
  by (simp_all add: top_stmts.simps)

lemma top_stmts_COMMENT:
  "top_stmts (COMMENT # ts) s =
     (case Option.bind (header_stmt (COMMENT # ts)) (expect RETURN) of
        None \<Rightarrow> Inl Exit_Failure | Some r \<Rightarrow> top_stmts r s)"
  by (simp add: top_stmts.simps [of "COMMENT # ts"])

lemma top_stmts_line:
  assumes "t \<noteq> RETURN" and "t \<noteq> COMMENT"
  shows "top_stmts (t # ts) s =
     (case Option.bind (sub_body_stmt (t # ts)) (\<lambda>(b, r). Option.bind (expect RETURN r) (\<lambda>r. Some (b, r))) of
        None \<Rightarrow> Inl Exit_Failure | Some (b, r) \<Rightarrow> bind_res (body_stmt b s) (top_stmts r))"
  using assms by (simp add: top_stmts.simps [of "t # ts"])

lemma top_stmts_header:
  assumes "h \<in> {header_ahb, header_apb, header_xbus}"
  shows "top_stmts (h @ RETURN # r) s = top_stmts r s"
proof -
  have "header_stmt (h @ RETURN # r) = Some (RETURN # r)"
    using assms header_complete by auto
  moreover obtain h' where "h = COMMENT # h'"
    using assms by (auto simp: header_ahb_def header_apb_def header_xbus_def)
  ultimately show ?thesis by (simp add: top_stmts_COMMENT expect_def)
qed

lemma top_stmts_body:
  assumes "has_data b"
  shows "top_stmts (body_tokens b @ RETURN # r) s = bind_res (body_stmt b s) (top_stmts r)"
proof -
  obtain x h where b: "body_tokens b = TIDENTIFIER x # h" using body_tokens_Cons by blast
  then show ?thesis
    using sub_body_complete [OF assms, of r] by (simp add: top_stmts_line expect_def)
qed

lemma top_stmts_complete:
  "list_all line_ok ls \<Longrightarrow> top_stmts (lines_tokens ls) s = fold_res body_stmt (bodies ls) s"
proof (induction ls arbitrary: s)
  case (Cons l ls)
  then show ?case
    by (cases l) (auto simp: top_stmts_RETURN top_stmts_header top_stmts_body intro: bind_res_cong)
qed (simp add: top_stmts_Nil)

lemma top_stmts_sound:
  "top_stmts ts s = Inr s' \<Longrightarrow> \<exists>ls. ts = lines_tokens ls \<and> list_all line_ok ls"
proof (induction ts s arbitrary: s' rule: top_stmts.induct)
  case (1 ts s)
  show ?case
  proof (cases ts)
    case Nil
    then show ?thesis by (intro exI [of _ "[]"]) simp
  next
    case (Cons t ts')
    consider "t = RETURN" | "t = COMMENT" | "t \<noteq> RETURN" "t \<noteq> COMMENT" by blast
    then show ?thesis
    proof cases
      case 1
      then obtain ls where "ts' = lines_tokens ls" "list_all line_ok ls"
        using "1.IH"(1) [OF Cons _ , of s'] "1.prems" Cons 1 by (auto simp: top_stmts_RETURN)
      with 1 Cons show ?thesis by (intro exI [of _ "Blank # ls"]) simp
    next
      case 2
      then obtain r where r: "header_stmt ts = Some (RETURN # r)" "top_stmts r s = Inr s'"
        using "1.prems" Cons
        by (auto simp: top_stmts_COMMENT expect_iff Option.bind_eq_Some_conv split: option.splits)
      then obtain ls where "r = lines_tokens ls" "list_all line_ok ls"
        using "1.IH"(2) [OF Cons _ 2, of r s'] 2 by (auto simp: expect_def)
      moreover obtain l where "line_tokens l @ RETURN # r = ts" "line_ok l"
        using header_sound [OF r(1)] that [of Header_ahb] that [of Header_apb] that [of Header_xbus] by auto
      ultimately show ?thesis by (intro exI [of _ "l # ls"]) simp
    next
      case 3
      then obtain b r s'' where r: "sub_body_stmt ts = Some (b, RETURN # r)"
          "body_stmt b s = Inr s''" "top_stmts r s'' = Inr s'"
        using "1.prems" Cons
        by (auto simp: top_stmts_line expect_iff Option.bind_eq_Some_conv bind_res_Inr_iff split: option.splits)
      have "\<exists>ls. r = lines_tokens ls \<and> list_all line_ok ls"
        using "1.IH"(3) [OF Cons 3, of "(b, r)" b r s'' s'] r by (simp add: expect_def)
      then obtain ls where "r = lines_tokens ls" "list_all line_ok ls" by blast
      then show ?thesis
        using sub_body_sound [OF r(1)] by (intro exI [of _ "Body b # ls"]) simp
    qed
  qed
qed


lemma yyparse_trace:
  "list_all line_ok ls \<Longrightarrow>
    yyparse (trace_tokens nm ls) s = fold_res body_stmt (bodies ls) (instance_action nm s)"
  by (simp add: yyparse_def trace_tokens_def expect_def sident_def top_stmts_complete)

lemma yyparse_sound:
  assumes "yyparse ts s = Inr s'"
  shows "\<exists>nm ls. ts = trace_tokens nm ls \<and> list_all line_ok ls"
proof -
  obtain nm r where ts: "ts = COMMENT # SIDENTIFIER nm # RETURN # r"
      and r: "top_stmts r (instance_action nm s) = Inr s'"
    using assms
    by (auto simp: yyparse_def expect_iff sident_iff Option.bind_eq_Some_conv split: option.splits)
  from top_stmts_sound [OF r] ts show ?thesis
    by (auto simp: trace_tokens_def)
qed

section \<open>What a line means\<close>

text \<open>
  The value of a hexadecimal word, saturated as the extraction of an \<open>unsigned long\<close> is, and
  the transfer of each kind of line. The AHB line's lock value ends up in \<open>id\<close>, and \<open>lock\<close>
  stays unassigned.
\<close>

definition hex_value :: "string \<Rightarrow> ulong" where
  "hex_value d = (let n = digits_value 16 0 d in if 2 ^ 64 \<le> n then - 1 else word_of_nat n)"

definition trx_head :: "body_common \<Rightarrow> smtdv_transfer" where
  "trx_head c = SMTDV_Transfer
     \<lparr>begin_cycle := Some (hex_value (b_begin_cycle c)), end_cycle := Some (hex_value (b_end_cycle c)),
      begin_time := Some (hex_value (b_begin_time c)), end_time := Some (hex_value (b_end_time c)),
      t_addr := Some (hex_value (b_addr c)), rw := b_rw c\<rparr>"

fun trx_of :: "body \<Rightarrow> smtdv_transfer" where
  "trx_of (Body_xbus c ds) =
     (trx_head c)\<lparr>t_data := map (hex_value \<circ> fst) ds, byten := map (ucast \<circ> hex_value \<circ> snd) ds\<rparr>"
| "trx_of (Body_apb c i rs ds) =
     (trx_head c)\<lparr>t_data := map hex_value ds, t_id := Some (ucast (hex_value i)), resp := rs\<rparr>"
| "trx_of (Body_ahb c i bst sz prt lk rs ds) =
     (trx_head c)\<lparr>t_data := map hex_value ds, t_id := Some (ucast (hex_value lk)), resp := rs,
       bst_type := bst, trx_size := sz, trx_prt := prt\<rparr>"

definition head_ok :: "body_common \<Rightarrow> bool" where
  "head_ok c = (is_hex (b_begin_cycle c) \<and> is_hex (b_end_cycle c) \<and> is_hex (b_begin_time c) \<and>
     is_hex (b_end_time c) \<and> is_word (b_rw c) \<and> is_hex (b_addr c))"

fun body_ok :: "body \<Rightarrow> bool" where
  "body_ok (Body_xbus c ds) = (head_ok c \<and> ds \<noteq> [] \<and> list_all (\<lambda>(d, b). is_hex d \<and> is_hex b) ds)"
| "body_ok (Body_apb c i rs ds) = (head_ok c \<and> is_hex i \<and> is_word rs \<and> ds \<noteq> [] \<and> list_all is_hex ds)"
| "body_ok (Body_ahb c i bst sz prt lk rs ds) =
     (head_ok c \<and> is_hex i \<and> is_word bst \<and> is_word sz \<and> is_word prt \<and> is_hex lk \<and> is_word rs \<and>
      ds \<noteq> [] \<and> list_all is_hex ds)"

lemma tident_digit: "tident_char c \<Longrightarrow> is_digit 16 c"
  by (auto simp: tident_char_def in_range_def is_digit_def digit_val_def Let_def)

lemma str2char_hex: "is_hex d \<Longrightarrow> str2char d = d"
  by (auto simp: str2char_def c_str_def is_hex_def list_all_iff takeWhile_eq_all_conv
      tident_char_def in_range_def)

lemma extract_hex:
  assumes "is_hex d"
  shows "dpi_hexstr_2_longint (str2char d) = Inr (hex_value d)"
proof -
  have ds: "\<forall>c \<in> set d. is_digit 16 c" and "d \<noteq> []"
    using assms tident_digit by (auto simp: is_hex_def list_all_iff)
  have "str2char d = d" using assms by (rule str2char_hex)
  moreover have "extract_ulong 16 d = Inr (hex_value d)"
    using extract_ulong_all_digits [OF ds \<open>d \<noteq> []\<close>] by (simp add: hex_value_def)
  ultimately show ?thesis by (simp add: dpi_hexstr_2_longint_def)
qed

lemma str2char_word: "is_word x \<Longrightarrow> str2char x = x"
  by (auto simp: str2char_def c_str_def is_word_def list_all_iff takeWhile_eq_all_conv sident_char_def in_range_def)

text \<open>
  The calls on \<open>global_trx\<close> of a line, run on the transfer alone: a setter replaces the object
  the pointer leads to.
\<close>

definition sets :: "(addr \<Rightarrow> stl_state \<Rightarrow> stl_state res) \<Rightarrow> (smtdv_transfer \<Rightarrow> smtdv_transfer) \<Rightarrow> bool" where
  "sets f g = (\<forall>ip s tt. ip \<noteq> null \<longrightarrow> trxs s ip = Some tt \<longrightarrow> f ip s = Inr (s\<lparr>trxs := (trxs s)(ip \<mapsto> g tt)\<rparr>))"

lemma on_trx_sets:
  assumes "list_all2 sets fs gs" and "global_trx s \<noteq> null" and "trxs s (global_trx s) = Some tt"
  shows "on_trx fs s = Inr (s\<lparr>trxs := (trxs s)(global_trx s \<mapsto> fold (\<lambda>g. g) gs tt)\<rparr>)"
  using assms
proof (induction arbitrary: s tt rule: list_all2_induct)
  case Nil
  then show ?case by (simp add: on_trx_def fun_upd_idem)
next
  case (Cons f fs g gs)
  have "f (global_trx s) s = Inr (s\<lparr>trxs := (trxs s)(global_trx s \<mapsto> g tt)\<rparr>)"
    using Cons by (simp add: sets_def)
  then show ?case
    using Cons.IH [of "s\<lparr>trxs := (trxs s)(global_trx s \<mapsto> g tt)\<rparr>" "g tt"] Cons.prems
    by (simp add: on_trx_def cong: if_cong)
qed

lemma sets_with_trx: "(\<And>tt. h tt = Inr (g tt)) \<Longrightarrow> sets (\<lambda>ip. with_trx ip h) g"
  by (simp add: sets_def with_trx_def)

lemma sets_hex:
  assumes "is_hex d"
  shows "sets (\<lambda>ip. dpi_smtdv_set_smtdv_transfer_begin_cycle ip (str2char d)) (begin_cycle_update (\<lambda>_. Some (hex_value d)))"
    and "sets (\<lambda>ip. dpi_smtdv_set_smtdv_transfer_end_cycle ip (str2char d)) (end_cycle_update (\<lambda>_. Some (hex_value d)))"
    and "sets (\<lambda>ip. dpi_smtdv_set_smtdv_transfer_begin_time ip (str2char d)) (begin_time_update (\<lambda>_. Some (hex_value d)))"
    and "sets (\<lambda>ip. dpi_smtdv_set_smtdv_transfer_end_time ip (str2char d)) (end_time_update (\<lambda>_. Some (hex_value d)))"
    and "sets (\<lambda>ip. dpi_smtdv_set_smtdv_transfer_addr ip (str2char d)) (t_addr_update (\<lambda>_. Some (hex_value d)))"
    and "sets (\<lambda>ip. dpi_smtdv_set_smtdv_transfer_id ip (str2char d)) (t_id_update (\<lambda>_. Some (ucast (hex_value d))))"
    and "sets (\<lambda>ip. dpi_smtdv_set_smtdv_transfer_lock ip (str2char d)) (t_id_update (\<lambda>_. Some (ucast (hex_value d))))"
    and "sets (\<lambda>ip. dpi_smtdv_set_smtdv_transfer_data ip (str2char d)) (\<lambda>tt. tt\<lparr>t_data := t_data tt @ [hex_value d]\<rparr>)"
    and "sets (\<lambda>ip. dpi_smtdv_set_smtdv_transfer_byten ip (str2char d)) (\<lambda>tt. tt\<lparr>byten := byten tt @ [ucast (hex_value d)]\<rparr>)"
  unfolding dpi_smtdv_set_smtdv_transfer_begin_cycle_def dpi_smtdv_set_smtdv_transfer_end_cycle_def
    dpi_smtdv_set_smtdv_transfer_begin_time_def dpi_smtdv_set_smtdv_transfer_end_time_def
    dpi_smtdv_set_smtdv_transfer_addr_def dpi_smtdv_set_smtdv_transfer_id_def
    dpi_smtdv_set_smtdv_transfer_lock_def dpi_smtdv_set_smtdv_transfer_data_def
    dpi_smtdv_set_smtdv_transfer_byten_def
  by (rule sets_with_trx; simp add: extract_hex [OF assms])+

lemma sets_word:
  assumes "is_word x"
  shows "sets (\<lambda>ip. dpi_smtdv_set_smtdv_transfer_rw ip (str2char x)) (rw_update (\<lambda>_. x))"
    and "sets (\<lambda>ip. dpi_smtdv_set_smtdv_transfer_resp ip (str2char x)) (resp_update (\<lambda>_. x))"
    and "sets (\<lambda>ip. dpi_smtdv_set_smtdv_transfer_bst_type ip (str2char x)) (bst_type_update (\<lambda>_. x))"
    and "sets (\<lambda>ip. dpi_smtdv_set_smtdv_transfer_trx_size ip (str2char x)) (trx_size_update (\<lambda>_. x))"
    and "sets (\<lambda>ip. dpi_smtdv_set_smtdv_transfer_trx_prt ip (str2char x)) (trx_prt_update (\<lambda>_. x))"
  unfolding dpi_smtdv_set_smtdv_transfer_rw_def dpi_smtdv_set_smtdv_transfer_resp_def
    dpi_smtdv_set_smtdv_transfer_bst_type_def dpi_smtdv_set_smtdv_transfer_trx_size_def
    dpi_smtdv_set_smtdv_transfer_trx_prt_def
  by (rule sets_with_trx; simp add: str2char_word [OF assms])+

definition data_sets :: "string list \<Rightarrow> (smtdv_transfer \<Rightarrow> smtdv_transfer) list" where
  "data_sets ds = map (\<lambda>d tt. tt\<lparr>t_data := t_data tt @ [hex_value d]\<rparr>) ds"

definition byten_sets :: "(string \<times> string) list \<Rightarrow> (smtdv_transfer \<Rightarrow> smtdv_transfer) list" where
  "byten_sets ds = concat (map (\<lambda>(d, b). [\<lambda>tt. tt\<lparr>t_data := t_data tt @ [hex_value d]\<rparr>,
     \<lambda>tt. tt\<lparr>byten := byten tt @ [ucast (hex_value b)]\<rparr>]) ds)"

lemma data_sets: "list_all is_hex ds \<Longrightarrow> list_all2 sets (data_actions ds) (data_sets ds)"
  by (induction ds) (auto simp: data_actions_def data_sets_def sets_hex)

lemma byten_sets: "list_all (\<lambda>(d, b). is_hex d \<and> is_hex b) ds \<Longrightarrow> list_all2 sets (byten_actions ds) (byten_sets ds)"
  by (induction ds) (auto simp: byten_actions_def byten_sets_def sets_hex)

lemma fold_data_sets: "fold (\<lambda>g. g) (data_sets ds) tt = tt\<lparr>t_data := t_data tt @ map hex_value ds\<rparr>"
  by (induction ds arbitrary: tt) (simp_all add: data_sets_def)

lemma fold_byten_sets:
  "fold (\<lambda>g. g) (byten_sets ds) tt =
     tt\<lparr>t_data := t_data tt @ map (hex_value \<circ> fst) ds, byten := byten tt @ map (ucast \<circ> hex_value \<circ> snd) ds\<rparr>"
  by (induction ds arbitrary: tt) (simp_all add: byten_sets_def case_prod_beta)

lemma on_trx_body:
  assumes "body_ok b" and "global_trx s \<noteq> null" and "trxs s (global_trx s) = Some SMTDV_Transfer"
  shows "on_trx (body_actions b) s = Inr (s\<lparr>trxs := (trxs s)(global_trx s \<mapsto> trx_of b)\<rparr>)"
proof -
  have "\<exists>gs. list_all2 sets (body_actions b) gs \<and> fold (\<lambda>g. g) gs SMTDV_Transfer = trx_of b"
  proof (cases b)
    case (Body_xbus c ds)
    let ?gs = "byten_sets ds @
      [begin_cycle_update (\<lambda>_. Some (hex_value (b_begin_cycle c))), end_cycle_update (\<lambda>_. Some (hex_value (b_end_cycle c))),
       begin_time_update (\<lambda>_. Some (hex_value (b_begin_time c))), end_time_update (\<lambda>_. Some (hex_value (b_end_time c))),
       rw_update (\<lambda>_. b_rw c), t_addr_update (\<lambda>_. Some (hex_value (b_addr c)))]"
    show ?thesis
      using assms(1) Body_xbus
      by (intro exI [of _ ?gs])
        (simp add: head_ok_def trx_head_def sets_hex sets_word byten_sets list_all2_appendI fold_byten_sets SMTDV_Transfer_def)
  next
    case (Body_apb c i rs ds)
    let ?gs = "data_sets ds @
      [begin_cycle_update (\<lambda>_. Some (hex_value (b_begin_cycle c))), end_cycle_update (\<lambda>_. Some (hex_value (b_end_cycle c))),
       begin_time_update (\<lambda>_. Some (hex_value (b_begin_time c))), end_time_update (\<lambda>_. Some (hex_value (b_end_time c))),
       t_id_update (\<lambda>_. Some (ucast (hex_value i))), rw_update (\<lambda>_. b_rw c), resp_update (\<lambda>_. rs),
       t_addr_update (\<lambda>_. Some (hex_value (b_addr c)))]"
    show ?thesis
      using assms(1) Body_apb
      by (intro exI [of _ ?gs])
        (simp add: head_ok_def trx_head_def sets_hex sets_word data_sets list_all2_appendI fold_data_sets SMTDV_Transfer_def)
  next
    case (Body_ahb c i bst sz prt lk rs ds)
    let ?gs = "data_sets ds @
      [begin_cycle_update (\<lambda>_. Some (hex_value (b_begin_cycle c))), end_cycle_update (\<lambda>_. Some (hex_value (b_end_cycle c))),
       begin_time_update (\<lambda>_. Some (hex_value (b_begin_time c))), end_time_update (\<lambda>_. Some (hex_value (b_end_time c))),
       t_id_update (\<lambda>_. Some (ucast (hex_value i))), rw_update (\<lambda>_. b_rw c), bst_type_update (\<lambda>_. bst),
       trx_size_update (\<lambda>_. sz), trx_prt_update (\<lambda>_. prt), t_id_update (\<lambda>_. Some (ucast (hex_value lk))),
       resp_update (\<lambda>_. rs), t_addr_update (\<lambda>_. Some (hex_value (b_addr c)))]"
    show ?thesis
      using assms(1) Body_ahb
      by (intro exI [of _ ?gs])
        (simp add: head_ok_def trx_head_def sets_hex sets_word data_sets list_all2_appendI fold_data_sets SMTDV_Transfer_def)
  qed
  then show ?thesis using on_trx_sets [OF _ assms(2,3)] by auto
qed

text \<open>One body line: a new transfer, pushed into the mailbox, holding the line's values.\<close>

lemma body_stmt_effect:
  assumes "body_ok b" and "global_mb s \<noteq> null" and "mbs s (global_mb s) = Some mb" and "s_next s \<noteq> null"
  shows "body_stmt b s = Inr (s\<lparr>trxs := (trxs s)(s_next s \<mapsto> trx_of b),
    mbs := (mbs s)(global_mb s \<mapsto> mb_push (s_next s) mb), s_next := Suc (s_next s), global_trx := s_next s\<rparr>)"
proof -
  have "body_start s = Inr (s\<lparr>trxs := (trxs s)(s_next s \<mapsto> SMTDV_Transfer), s_next := Suc (s_next s),
      global_trx := s_next s, mbs := (mbs s)(global_mb s \<mapsto> mb_push (s_next s) mb)\<rparr>)"
    using assms(2-4)
    by (simp add: body_start_def dpi_smtdv_new_smtdv_transfer_def dpi_smtdv_register_smtdv_transfer_def)
  then show ?thesis
    using assms(4) by (simp add: body_stmt_def on_trx_body [OF assms(1)] cong: if_cong)
qed

definition loaded :: "body list \<Rightarrow> stl_state \<Rightarrow> smtdv_mailbox \<Rightarrow> stl_state \<Rightarrow> smtdv_mailbox \<Rightarrow> bool" where
  "loaded bs s mb s' mb' =
     (mbs s' (global_mb s) = Some mb' \<and>
      m_vec mb' = m_vec mb @ [s_next s ..< s_next s + length bs] \<and> inst_name mb' = inst_name mb \<and>
      m_it mb' = (if bs = [] then m_it mb else Some 0) \<and>
      (\<forall>i < length bs. trxs s' (s_next s + i) = Some (trx_of (bs ! i))) \<and>
      (\<forall>p < s_next s. trxs s' p = trxs s p) \<and> (\<forall>q. q \<noteq> global_mb s \<longrightarrow> mbs s' q = mbs s q) \<and>
      global_mb s' = global_mb s \<and> s_next s' = s_next s + length bs)"

definition after_line :: "body \<Rightarrow> stl_state \<Rightarrow> smtdv_mailbox \<Rightarrow> stl_state" where
  "after_line b s mb =
     s\<lparr>trxs := (trxs s)(s_next s \<mapsto> trx_of b), mbs := (mbs s)(global_mb s \<mapsto> mb_push (s_next s) mb),
       s_next := Suc (s_next s), global_trx := s_next s\<rparr>"

lemma loaded_Cons:
  assumes "loaded bs (after_line b s mb) (mb_push (s_next s) mb) s' mb'"
  shows "loaded (b # bs) s mb s' mb'"
proof -
  have upt: "[s_next s ..< s_next s + length (b # bs)] = s_next s # [Suc (s_next s) ..< Suc (s_next s) + length bs]"
    by (simp add: upt_conv_Cons del: upt_Suc)
  have "trxs s' (s_next s + i) = Some (trx_of ((b # bs) ! i))" if "i < length (b # bs)" for i
    using assms that by (cases i) (auto simp: loaded_def after_line_def)
  then show ?thesis
    using assms unfolding loaded_def upt
    by (auto simp: after_line_def mb_push_def simp del: upt_Suc)
qed

lemma fold_body_stmt:
  assumes "list_all body_ok bs" and "global_mb s \<noteq> null" and "mbs s (global_mb s) = Some mb" and "s_next s \<noteq> null"
  shows "\<exists>s' mb'. fold_res body_stmt bs s = Inr s' \<and> loaded bs s mb s' mb'"
  using assms
proof (induction bs arbitrary: s mb)
  case Nil
  then show ?case by (intro exI [of _ s] exI [of _ mb]) (simp add: loaded_def)
next
  case (Cons b bs)
  have "body_stmt b s = Inr (after_line b s mb)"
    using Cons.prems body_stmt_effect [of b s mb] by (simp add: after_line_def)
  moreover have "\<exists>s' mb'. fold_res body_stmt bs (after_line b s mb) = Inr s' \<and>
      loaded bs (after_line b s mb) (mb_push (s_next s) mb) s' mb'"
    by (rule Cons.IH) (use Cons.prems in \<open>simp_all add: after_line_def\<close>)
  ultimately show ?case using loaded_Cons by fastforce
qed

end
