(* ===== verification/Stl_Lib.thy ===== *)
theory Stl_Lib
  imports Stl_Trace
begin

text \<open>
  The library \<open>dpi_smtdv_stl\<close> as the simulator sees it: the calls as a step relation, what
  every sequence of calls keeps, and the reading of a mailbox through its cursor.
\<close>

section \<open>Cursors\<close>

text \<open>
  A box whose items are read in the order they were put, through a cursor that each \<open>put\<close>
  sets back to the first item; past the last item the reader gets the null pointer.
\<close>

locale cursor_box =
  fixes put :: "addr \<Rightarrow> 'b \<Rightarrow> 'b"
    and step :: "'b \<Rightarrow> (addr \<times> 'b) res"
    and items :: "'b \<Rightarrow> addr list"
    and pos :: "'b \<Rightarrow> nat option"
  assumes items_put: "items (put x b) = items b @ [x]"
    and pos_put: "pos (put x b) = Some 0"
    and step_item: "pos b = Some i \<Longrightarrow> i < length (items b) \<Longrightarrow>
      \<exists>b'. step b = Inr (items b ! i, b') \<and> items b' = items b \<and> pos b' = Some (Suc i)"
    and step_end: "pos b = Some i \<Longrightarrow> i = length (items b) \<Longrightarrow> step b = Inr (null, b)"
    and step_fresh: "pos b = None \<Longrightarrow> step b = Inl Bad_Iterator"
begin

fun steps :: "nat \<Rightarrow> 'b \<Rightarrow> (addr list \<times> 'b) res" where
  "steps 0 b = Inr ([], b)"
| "steps (Suc n) b =
     bind_res (step b) (\<lambda>(x, b'). bind_res (steps n b') (\<lambda>(xs, b''). Inr (x # xs, b'')))"

lemma steps_end: "pos b = Some (length (items b)) \<Longrightarrow> steps k b = Inr (replicate k null, b)"
  by (induction k) (simp_all add: step_end)

lemma steps_items:
  assumes "pos b = Some i" and "i \<le> length (items b)"
  shows "\<exists>b'. steps (length (items b) - i + k) b = Inr (drop i (items b) @ replicate k null, b') \<and>
    items b' = items b \<and> pos b' = Some (length (items b))"
  using assms
proof (induction "length (items b) - i" arbitrary: b i)
  case 0
  then show ?case by (simp add: steps_end)
next
  case (Suc n)
  have "i < length (items b)" using Suc.hyps(2) by linarith
  with Suc.prems obtain b' where b': "step b = Inr (items b ! i, b')" "items b' = items b" "pos b' = Some (Suc i)"
    using step_item [of b i] by auto
  have "\<exists>b''. steps (length (items b') - Suc i + k) b' =
      Inr (drop (Suc i) (items b') @ replicate k null, b'') \<and> items b'' = items b' \<and> pos b'' = Some (length (items b'))"
    by (rule Suc.hyps(1)) (use Suc b' in auto)
  moreover have "length (items b') - Suc i = n" using b' Suc.hyps(2) by simp
  ultimately obtain b'' where b'': "steps (n + k) b' = Inr (drop (Suc i) (items b) @ replicate k null, b'')"
      "items b'' = items b" "pos b'' = Some (length (items b))"
    using b' by auto
  have "length (items b) - i + k = Suc (n + k)" using Suc.hyps(2) by simp
  moreover have "items b ! i # drop (Suc i) (items b) = drop i (items b)"
    using \<open>i < length (items b)\<close> by (rule Cons_nth_drop_Suc)
  ultimately show ?case using b' b'' by (simp flip: append_Cons)
qed

lemma steps_after_puts:
  assumes "xs \<noteq> []"
  shows "\<exists>b'. steps (length (items b) + length xs + k) (fold put xs b) =
    Inr (items b @ xs @ replicate k null, b')"
proof -
  have items: "items (fold put xs b) = items b @ xs" for xs
    by (induction xs arbitrary: b) (simp_all add: items_put)
  obtain ys y where "xs = ys @ [y]" using assms by (metis rev_exhaust)
  then have "pos (fold put xs b) = Some 0" by (simp add: pos_put)
  from steps_items [OF this, of k] show ?thesis by (auto simp: items)
qed

end

interpretation mailbox: cursor_box mb_push mb_next m_vec m_it
  by unfold_locales (auto simp: mb_push_def mb_next_def)

text \<open>Reading through the exported call is reading through the cursor.\<close>

fun read_transfers :: "nat \<Rightarrow> addr \<Rightarrow> stl_state \<Rightarrow> (addr list \<times> stl_state) res" where
  "read_transfers 0 it s = Inr ([], s)"
| "read_transfers (Suc n) it s =
     bind_res (dpi_smtdv_next_smtdv_transfer it s) (\<lambda>(x, s').
     bind_res (read_transfers n it s') (\<lambda>(xs, s''). Inr (x # xs, s'')))"

lemma read_transfers_steps:
  assumes "it \<noteq> null" and "mbs s it = Some mb" and "mailbox.steps n mb = Inr (xs, mb')"
  shows "read_transfers n it s = Inr (xs, s\<lparr>mbs := (mbs s)(it \<mapsto> mb')\<rparr>)"
  using assms
proof (induction n arbitrary: s mb xs)
  case 0
  then show ?case by (simp add: fun_upd_idem)
next
  case (Suc n)
  then obtain x b ys where b: "mb_next mb = Inr (x, b)" "mailbox.steps n b = Inr (ys, mb')" "xs = x # ys"
    by (auto simp: bind_res_Inr_iff)
  have "dpi_smtdv_next_smtdv_transfer it s = Inr (x, s\<lparr>mbs := (mbs s)(it \<mapsto> b)\<rparr>)"
    using Suc.prems b by (simp add: dpi_smtdv_next_smtdv_transfer_def)
  moreover have "read_transfers n it (s\<lparr>mbs := (mbs s)(it \<mapsto> b)\<rparr>) =
      Inr (ys, s\<lparr>mbs := (mbs s)(it \<mapsto> b)\<rparr>\<lparr>mbs := (mbs (s\<lparr>mbs := (mbs s)(it \<mapsto> b)\<rparr>))(it \<mapsto> mb')\<rparr>)"
    by (rule Suc.IH) (use Suc.prems b in auto)
  ultimately show ?case using b by (simp add: fun_upd_def cong: if_cong)
qed

section \<open>Calls\<close>

text \<open>The setters the simulator can call on a transfer.\<close>

definition setters :: "(addr \<Rightarrow> string \<Rightarrow> stl_state \<Rightarrow> stl_state res) list" where
  "setters =
     [dpi_smtdv_set_smtdv_transfer_begin_time, dpi_smtdv_set_smtdv_transfer_end_time,
      dpi_smtdv_set_smtdv_transfer_begin_cycle, dpi_smtdv_set_smtdv_transfer_end_cycle,
      dpi_smtdv_set_smtdv_transfer_id, dpi_smtdv_set_smtdv_transfer_resp,
      dpi_smtdv_set_smtdv_transfer_rw, dpi_smtdv_set_smtdv_transfer_bst_type,
      dpi_smtdv_set_smtdv_transfer_trx_size, dpi_smtdv_set_smtdv_transfer_trx_prt,
      dpi_smtdv_set_smtdv_transfer_lock, dpi_smtdv_set_smtdv_transfer_addr,
      dpi_smtdv_set_smtdv_transfer_data, dpi_smtdv_set_smtdv_transfer_byten]"

text \<open>One call. Only handles the library gave out are registered.\<close>

inductive stl_step :: "stl_state \<Rightarrow> stl_state \<Rightarrow> bool" where
  New_mailbox: "stl_step s (snd (dpi_smtdv_new_smtdv_mailbox nm s))"
| New_transfer: "stl_step s (snd (dpi_smtdv_new_smtdv_transfer s))"
| Set_field: "f \<in> set setters \<Longrightarrow> f ip st s = Inr s' \<Longrightarrow> stl_step s s'"
| Register: "trxs s ip \<noteq> None \<Longrightarrow> dpi_smtdv_register_smtdv_transfer it ip s = Inr s' \<Longrightarrow> stl_step s s'"
| Next: "dpi_smtdv_next_smtdv_transfer it s = Inr (x, s') \<Longrightarrow> stl_step s s'"
| Parse: "dpi_smtdv_parse_file files feof nm s = Inr (x, s') \<Longrightarrow> stl_step s s'"

inductive stl_reachable :: "stl_state \<Rightarrow> bool" where
  Init: "stl_reachable init_stl"
| Step: "stl_reachable s \<Longrightarrow> stl_step s s' \<Longrightarrow> stl_reachable s'"

section \<open>Invariant\<close>

definition mailbox_ok :: "stl_state \<Rightarrow> smtdv_mailbox \<Rightarrow> bool" where
  "mailbox_ok s mb =
     ((\<forall>p \<in> set (m_vec mb). trxs s p \<noteq> None) \<and>
      (case m_it mb of None \<Rightarrow> m_vec mb = [] | Some i \<Rightarrow> i \<le> length (m_vec mb)))"

definition stl_ok :: "stl_state \<Rightarrow> bool" where
  "stl_ok s =
     (s_next s \<noteq> null \<and>
      (\<forall>p tt. trxs s p = Some tt \<longrightarrow> p \<noteq> null \<and> p < s_next s \<and> lock tt = None) \<and>
      (\<forall>p mb. mbs s p = Some mb \<longrightarrow> p \<noteq> null \<and> p < s_next s \<and> mailbox_ok s mb))"

lemma stl_okD:
  assumes "stl_ok s"
  shows "s_next s \<noteq> null"
    and "trxs s p = Some tt \<Longrightarrow> p \<noteq> null \<and> p < s_next s \<and> lock tt = None"
    and "mbs s p = Some mb \<Longrightarrow> p \<noteq> null \<and> p < s_next s \<and> mailbox_ok s mb"
  using assms unfolding stl_ok_def by blast+

lemma mailbox_ok_mono:
  "mailbox_ok s mb \<Longrightarrow> (\<And>p. trxs s p \<noteq> None \<Longrightarrow> trxs s' p \<noteq> None) \<Longrightarrow> mailbox_ok s' mb"
  unfolding mailbox_ok_def by blast

lemma stl_ok_cong:
  assumes "trxs s = trxs s'" "mbs s = mbs s'" "s_next s = s_next s'"
  shows "stl_ok s = stl_ok s'"
  using assms by (simp add: stl_ok_def mailbox_ok_def)

lemma stl_ok_init: "stl_ok init_stl"
  by (simp add: stl_ok_def init_stl_def)

lemma new_mailbox_ok:
  assumes "dpi_smtdv_new_smtdv_mailbox nm s = (p, s')" and "stl_ok s"
  shows "stl_ok s'"
  using assms
  by (auto simp: dpi_smtdv_new_smtdv_mailbox_def stl_ok_def mailbox_ok_def SMTDV_MailBox_def less_Suc_eq split: if_splits)

lemma new_transfer_ok:
  assumes "dpi_smtdv_new_smtdv_transfer s = (p, s')" and "stl_ok s"
  shows "stl_ok s'" and "trxs s' p \<noteq> None"
  using assms
  by (auto simp: dpi_smtdv_new_smtdv_transfer_def stl_ok_def mailbox_ok_def SMTDV_Transfer_def less_Suc_eq split: if_splits)

text \<open>Setters keep \<open>lock\<close> and touch one transfer.\<close>

definition keeps_lock :: "(smtdv_transfer \<Rightarrow> smtdv_transfer res) \<Rightarrow> bool" where
  "keeps_lock h = (\<forall>tt tt'. h tt = Inr tt' \<longrightarrow> lock tt' = lock tt)"

lemma with_trx_ok:
  assumes "with_trx ip h s = Inr s'" and "stl_ok s" and "keeps_lock h"
  shows "stl_ok s'"
proof -
  obtain tt tt' where t: "trxs s ip = Some tt" "h tt = Inr tt'" "s' = s\<lparr>trxs := (trxs s)(ip \<mapsto> tt')\<rparr>"
    using assms(1) by (auto simp: with_trx_def bind_res_Inr_iff deref_Inr_iff)
  have "lock tt' = lock tt" using assms(3) t by (auto simp: keeps_lock_def)
  moreover have "mailbox_ok s' mb" if "mailbox_ok s mb" for mb
    using that by (rule mailbox_ok_mono) (simp add: t)
  ultimately show ?thesis
    using assms(2) t by (auto simp: stl_ok_def)
qed

lemma setters_frame:
  assumes "f \<in> set setters"
  shows "\<exists>h. (\<forall>ip. f ip st = with_trx ip h) \<and> keeps_lock h"
proof -
  note defs = dpi_smtdv_set_smtdv_transfer_begin_time_def dpi_smtdv_set_smtdv_transfer_end_time_def
    dpi_smtdv_set_smtdv_transfer_begin_cycle_def dpi_smtdv_set_smtdv_transfer_end_cycle_def
    dpi_smtdv_set_smtdv_transfer_id_def dpi_smtdv_set_smtdv_transfer_resp_def
    dpi_smtdv_set_smtdv_transfer_rw_def dpi_smtdv_set_smtdv_transfer_bst_type_def
    dpi_smtdv_set_smtdv_transfer_trx_size_def dpi_smtdv_set_smtdv_transfer_trx_prt_def
    dpi_smtdv_set_smtdv_transfer_lock_def dpi_smtdv_set_smtdv_transfer_addr_def
    dpi_smtdv_set_smtdv_transfer_data_def dpi_smtdv_set_smtdv_transfer_byten_def
  consider "f = dpi_smtdv_set_smtdv_transfer_begin_time" | "f = dpi_smtdv_set_smtdv_transfer_end_time"
    | "f = dpi_smtdv_set_smtdv_transfer_begin_cycle" | "f = dpi_smtdv_set_smtdv_transfer_end_cycle"
    | "f = dpi_smtdv_set_smtdv_transfer_id" | "f = dpi_smtdv_set_smtdv_transfer_resp"
    | "f = dpi_smtdv_set_smtdv_transfer_rw" | "f = dpi_smtdv_set_smtdv_transfer_bst_type"
    | "f = dpi_smtdv_set_smtdv_transfer_trx_size" | "f = dpi_smtdv_set_smtdv_transfer_trx_prt"
    | "f = dpi_smtdv_set_smtdv_transfer_lock" | "f = dpi_smtdv_set_smtdv_transfer_addr"
    | "f = dpi_smtdv_set_smtdv_transfer_data" | "f = dpi_smtdv_set_smtdv_transfer_byten"
    using assms unfolding setters_def by auto
  then show ?thesis
    by cases (simp only: defs, rule exI, rule conjI, rule allI, rule refl,
      auto simp: keeps_lock_def bind_res_Inr_iff)+
qed

lemma setter_ok:
  "f \<in> set setters \<Longrightarrow> f ip st s = Inr s' \<Longrightarrow> stl_ok s \<Longrightarrow> stl_ok s'"
  using setters_frame [of f st] with_trx_ok by fastforce

lemma register_ok:
  assumes "dpi_smtdv_register_smtdv_transfer it ip s = Inr s'" and "stl_ok s" and "trxs s ip \<noteq> None"
  shows "stl_ok s'"
proof -
  obtain mb where mb: "mbs s it = Some mb" "s' = s\<lparr>mbs := (mbs s)(it \<mapsto> mb_push ip mb)\<rparr>"
    using assms(1) by (auto simp: dpi_smtdv_register_smtdv_transfer_def bind_res_Inr_iff deref_Inr_iff)
  have "mailbox_ok s (mb_push ip mb)"
    using stl_okD(3) [OF assms(2) mb(1)] assms(3) by (auto simp: mailbox_ok_def mb_push_def)
  then show ?thesis
    using assms(2) mb by (auto simp: stl_ok_def mailbox_ok_def)
qed

lemma next_ok:
  assumes "dpi_smtdv_next_smtdv_transfer it s = Inr (x, s')" and "stl_ok s"
  shows "stl_ok s'" and "x = null \<or> trxs s x \<noteq> None"
proof -
  obtain mb mb' where mb: "mbs s it = Some mb" "mb_next mb = Inr (x, mb')" "s' = s\<lparr>mbs := (mbs s)(it \<mapsto> mb')\<rparr>"
    using assms(1) by (auto simp: dpi_smtdv_next_smtdv_transfer_def bind_res_Inr_iff deref_Inr_iff)
  have ok: "mailbox_ok s mb" using stl_okD(3) [OF assms(2) mb(1)] by blast
  then have "mailbox_ok s mb'" and x: "x = null \<or> trxs s x \<noteq> None"
    using mb(2) by (auto simp: mailbox_ok_def mb_next_def split: option.splits if_splits)
  then show "stl_ok s'"
    using assms(2) mb by (auto simp: stl_ok_def mailbox_ok_def)
  show "x = null \<or> trxs s x \<noteq> None" by (rule x)
qed

lemma setters_mem:
  "dpi_smtdv_set_smtdv_transfer_begin_time \<in> set setters" "dpi_smtdv_set_smtdv_transfer_end_time \<in> set setters"
  "dpi_smtdv_set_smtdv_transfer_begin_cycle \<in> set setters" "dpi_smtdv_set_smtdv_transfer_end_cycle \<in> set setters"
  "dpi_smtdv_set_smtdv_transfer_id \<in> set setters" "dpi_smtdv_set_smtdv_transfer_resp \<in> set setters"
  "dpi_smtdv_set_smtdv_transfer_rw \<in> set setters" "dpi_smtdv_set_smtdv_transfer_bst_type \<in> set setters"
  "dpi_smtdv_set_smtdv_transfer_trx_size \<in> set setters" "dpi_smtdv_set_smtdv_transfer_trx_prt \<in> set setters"
  "dpi_smtdv_set_smtdv_transfer_lock \<in> set setters" "dpi_smtdv_set_smtdv_transfer_addr \<in> set setters"
  "dpi_smtdv_set_smtdv_transfer_data \<in> set setters" "dpi_smtdv_set_smtdv_transfer_byten \<in> set setters"
  by (simp_all add: setters_def)

definition is_setter :: "(addr \<Rightarrow> stl_state \<Rightarrow> stl_state res) \<Rightarrow> bool" where
  "is_setter f = (\<exists>g \<in> set setters. \<exists>st. f = (\<lambda>ip. g ip st))"

lemma is_setterI: "g \<in> set setters \<Longrightarrow> is_setter (\<lambda>ip. g ip st)"
  unfolding is_setter_def by blast

lemma body_actions_setters: "list_all is_setter (body_actions b)"
proof -
  have "list_all is_setter (data_actions ds)" for ds
    by (induction ds) (simp_all add: data_actions_def is_setterI setters_mem)
  moreover have "list_all is_setter (byten_actions ds)" for ds
    by (induction ds) (simp_all add: byten_actions_def case_prod_beta is_setterI setters_mem)
  ultimately show ?thesis
    by (cases b) (simp_all add: is_setterI setters_mem)
qed

lemma body_stmt_ok:
  assumes "body_stmt b s = Inr s'" and "stl_ok s"
  shows "stl_ok s'"
proof -
  obtain s1 where s1: "body_start s = Inr s1" "on_trx (body_actions b) s1 = Inr s'"
    using assms(1) by (auto simp: body_stmt_def bind_res_Inr_iff)
  obtain tt s0 where s0: "dpi_smtdv_new_smtdv_transfer s = (tt, s0)" by fastforce
  then have "stl_ok (s0\<lparr>global_trx := tt\<rparr>)" "trxs (s0\<lparr>global_trx := tt\<rparr>) tt \<noteq> None"
    using new_transfer_ok [OF s0 assms(2)] stl_ok_cong [of s0 "s0\<lparr>global_trx := tt\<rparr>"] by auto
  then have "stl_ok s1"
    using s1(1) s0 register_ok [of _ tt "s0\<lparr>global_trx := tt\<rparr>" s1] by (simp add: body_start_def)
  with s1(2) show ?thesis
    unfolding on_trx_def
  proof (rule fold_res_invariant)
    fix f t t'
    assume "f \<in> set (body_actions b)" "stl_ok t" "f (global_trx t) t = Inr t'"
    then show "stl_ok t'"
      using body_actions_setters [of b] setter_ok by (fastforce simp: list_all_iff is_setter_def)
  qed
qed

lemma yyparse_ok:
  assumes "yyparse ts s = Inr s'" and "stl_ok s"
  shows "stl_ok s'"
proof -
  obtain nm ls where ts: "ts = trace_tokens nm ls" "list_all line_ok ls"
    using yyparse_sound [OF assms(1)] by blast
  obtain mb s0 where s0: "dpi_smtdv_new_smtdv_mailbox (str2char nm) s = (mb, s0)" by fastforce
  then have "stl_ok (instance_action nm s)"
    using new_mailbox_ok [OF s0 assms(2)] stl_ok_cong [of s0 "s0\<lparr>global_mb := mb\<rparr>"]
    by (simp add: instance_action_def)
  moreover have "fold_res body_stmt (bodies ls) (instance_action nm s) = Inr s'"
    using assms(1) ts by (simp add: yyparse_trace)
  ultimately show ?thesis
    using fold_res_invariant [of body_stmt _ _ s' stl_ok] body_stmt_ok by blast
qed

lemma parse_loop_ok:
  "parse_loop feof inp s = Inr s' \<Longrightarrow> stl_ok s \<Longrightarrow> stl_ok s'"
proof (induction feof inp s arbitrary: s' rule: parse_loop.induct)
  case (1 feof inp s)
  obtain ts rest where tr: "tokens inp = (ts, rest)" by fastforce
  obtain s1 where s1: "yyparse ts s = Inr s1"
      "(if rest = [] \<or> feof rest then Inr s1 else parse_loop feof rest s1) = Inr s'"
    using "1.prems"(1) tr by (subst (asm) parse_loop.simps) (auto simp: bind_res_Inr_iff)
  have "stl_ok s1" using yyparse_ok [OF s1(1) "1.prems"(2)] .
  then show ?case
    using "1.IH" [OF tr [symmetric] refl s1(1)] s1(2) by (auto split: if_splits)
qed

lemma parse_file_ok:
  "dpi_smtdv_parse_file files feof nm s = Inr (p, s') \<Longrightarrow> stl_ok s \<Longrightarrow> stl_ok s'"
  using parse_loop_ok by (auto simp: dpi_smtdv_parse_file_def bind_res_Inr_iff split: option.splits)

inductive_cases stl_stepE: "stl_step s s'"

lemma stl_step_ok: "stl_step s s' \<Longrightarrow> stl_ok s \<Longrightarrow> stl_ok s'"
  by (erule stl_stepE)
    (auto simp: setter_ok next_ok(1) parse_file_ok register_ok
      intro: new_mailbox_ok [OF surjective_pairing] new_transfer_ok(1) [OF surjective_pairing])

lemma stl_reachable_ok: "stl_reachable s \<Longrightarrow> stl_ok s"
  by (induction rule: stl_reachable.induct) (auto simp: stl_ok_init stl_step_ok)

end
