(* ===== verification/Stl_Properties.thy ===== *)
theory Stl_Properties
  imports Stl_Lib
begin

text \<open>
  The properties of the trace library \<open>dpi_smtdv_stl\<close>: what a parsed trace file leaves in
  the mailbox, which inputs are accepted, how a mailbox is read, and what the field accessors
  return.
\<close>

section \<open>Writable traces\<close>

lemma separated_append: "separated xs \<Longrightarrow> separated ys \<Longrightarrow> separated (xs @ ys)"
proof (induction xs rule: separated.induct)
  case (2 t)
  then show ?case by (cases ys) auto
qed auto

lemma separated_punct: "is_punct t \<Longrightarrow> separated (t # ts) = separated ts"
  by (cases ts) auto

lemma is_punct_simps: "is_punct RETURN" "is_punct TCOMMA" "is_punct TLPAREN" "is_punct TRPAREN" "is_punct COMMENT"
  by (simp_all add: is_punct_def)

lemma separated_line: "separated (line_tokens l @ [RETURN])"
proof -
  have data: "separated (data_tokens ds @ [RETURN])" for ds
    by (induction ds) (simp_all add: data_tokens_def separated_punct is_punct_simps)
  have byten: "separated (byten_tokens ds @ [RETURN])" for ds
    by (induction ds) (simp_all add: byten_tokens_def separated_punct is_punct_simps case_prod_beta)
  have head: "separated (head_tokens c)" for c
    by (simp add: head_tokens_def is_punct_def)
  have "separated (body_tokens b @ [RETURN])" for b
  proof (cases b)
    case (Body_xbus c ds)
    have "separated ((head_tokens c @ [SIDENTIFIER (b_rw c), TCOMMA, TIDENTIFIER (b_addr c), TCOMMA]) @
        byten_tokens ds @ [RETURN])"
      by (intro separated_append head byten) (simp add: is_punct_def)
    then show ?thesis using Body_xbus by simp
  next
    case (Body_apb c i rs ds)
    have "separated ((head_tokens c @ [TIDENTIFIER i, TCOMMA, SIDENTIFIER (b_rw c), TCOMMA, SIDENTIFIER rs, TCOMMA,
        TIDENTIFIER (b_addr c), TCOMMA]) @ data_tokens ds @ [RETURN])"
      by (intro separated_append head data) (simp add: is_punct_def)
    then show ?thesis using Body_apb by simp
  next
    case (Body_ahb c i bst sz prt lk rs ds)
    have "separated ((head_tokens c @ [TIDENTIFIER i, TCOMMA, SIDENTIFIER (b_rw c), TCOMMA, SIDENTIFIER bst, TCOMMA,
        SIDENTIFIER sz, TCOMMA, SIDENTIFIER prt, TCOMMA, TIDENTIFIER lk, TCOMMA, SIDENTIFIER rs, TCOMMA,
        TIDENTIFIER (b_addr c), TCOMMA]) @ data_tokens ds @ [RETURN])"
      by (intro separated_append head data) (simp add: is_punct_def)
    then show ?thesis using Body_ahb by simp
  qed
  then show ?thesis
    by (cases l) (simp_all add: header_ahb_def header_apb_def header_xbus_def is_punct_def)
qed

lemma separated_trace: "separated (trace_tokens nm ls)"
proof -
  have "separated (lines_tokens ls)"
    by (induction ls) (simp_all add: separated_append [OF separated_line, simplified])
  then show ?thesis
    by (simp add: trace_tokens_def is_punct_def separated_append [of "[COMMENT, SIDENTIFIER nm, RETURN]", simplified])
qed

lemma scannable_body: "list_all scannable (body_tokens b) \<and> has_data b \<longleftrightarrow> body_ok b"
proof -
  have "list_all scannable (data_tokens ds) = list_all is_hex ds" for ds
    by (induction ds) (simp_all add: data_tokens_def)
  moreover have "list_all scannable (byten_tokens ds) = list_all (\<lambda>(d, b). is_hex d \<and> is_hex b) ds" for ds
    by (induction ds) (auto simp add: byten_tokens_def)
  ultimately show ?thesis
    by (cases b) (auto simp: head_tokens_def head_ok_def)
qed

lemma scannable_lines:
  "list_all scannable (lines_tokens ls) \<and> list_all line_ok ls \<longleftrightarrow> list_all body_ok (bodies ls)"
proof (induction ls)
  case (Cons l ls)
  have "list_all scannable h" if "h \<in> {header_ahb, header_apb, header_xbus}" for h
    using that by (auto simp: header_ahb_def header_apb_def header_xbus_def)
  then show ?case
    using Cons scannable_body by (cases l) auto
qed simp

lemma scannable_trace:
  "list_all scannable (trace_tokens nm ls) \<and> list_all line_ok ls \<longleftrightarrow> is_word nm \<and> list_all body_ok (bodies ls)"
  using scannable_lines [of ls] by (auto simp: trace_tokens_def)

lemma instance_action_effect:
  assumes "is_word nm"
  shows "instance_action nm s = s\<lparr>mbs := (mbs s)(s_next s \<mapsto> SMTDV_MailBox nm), s_next := Suc (s_next s),
    global_mb := s_next s\<rparr>"
  using assms by (simp add: instance_action_def dpi_smtdv_new_smtdv_mailbox_def str2char_word)

text \<open>The mailbox a trace denotes.\<close>

definition denotes :: "stl_state \<Rightarrow> addr \<Rightarrow> string \<Rightarrow> body list \<Rightarrow> bool" where
  "denotes s p nm bs =
     (\<exists>mb. mbs s p = Some mb \<and> inst_name mb = nm \<and> m_it mb = (if bs = [] then None else Some 0) \<and>
        map (trxs s) (m_vec mb) = map (Some \<circ> trx_of) bs)"

lemma yyparse_denotes:
  assumes "is_word nm" and "list_all body_ok (bodies ls)" and "s_next s \<noteq> null"
  shows "\<exists>s'. yyparse (trace_tokens nm ls) s = Inr s' \<and> global_mb s' = s_next s \<and>
    denotes s' (s_next s) nm (bodies ls) \<and> (\<forall>q < s_next s. trxs s' q = trxs s q \<and> mbs s' q = mbs s q)"
proof -
  let ?s = "instance_action nm s"
  have s: "global_mb ?s \<noteq> null" "mbs ?s (global_mb ?s) = Some (SMTDV_MailBox nm)" "s_next ?s \<noteq> null"
    and g: "global_mb ?s = s_next s"
    using assms(3) by (simp_all add: instance_action_effect [OF assms(1)])
  obtain s' mb where s': "fold_res body_stmt (bodies ls) ?s = Inr s'"
      "loaded (bodies ls) ?s (SMTDV_MailBox nm) s' mb"
    using fold_body_stmt [OF assms(2) s] by blast
  have "map (trxs s') (m_vec mb) = map (Some \<circ> trx_of) (bodies ls)"
    using s'(2) by (intro nth_equalityI) (auto simp: loaded_def SMTDV_MailBox_def)
  then have "denotes s' (s_next s) nm (bodies ls)"
    using s'(2) by (simp add: denotes_def loaded_def g SMTDV_MailBox_def)
  moreover have "list_all line_ok ls" using assms scannable_lines by blast
  ultimately show ?thesis
    using s' assms(1) by (auto simp add: yyparse_trace loaded_def g instance_action_effect)
qed

lemma tokens_trace:
  assumes "is_word nm" and "list_all body_ok (bodies ls)" and "map snd ts = trace_tokens nm ls"
  shows "tokens (render ts @ r) = (trace_tokens nm ls @ fst (tokens r), snd (tokens r))"
proof -
  have "list_all scannable (map snd ts)" using assms scannable_trace by metis
  then have "list_all (scannable \<circ> snd) ts" by (simp add: list.pred_map)
  moreover have "separated (map snd ts)" by (simp add: assms(3) separated_trace)
  ultimately show ?thesis using tokens_render [of ts r] assms(3) by simp
qed

lemma tokens_Nil [simp]: "tokens [] = ([], [])"
  by (simp add: tokens.simps)

text \<open>The parser fails in one way only.\<close>

definition parse_ready :: "stl_state \<Rightarrow> bool" where
  "parse_ready s = (global_mb s \<noteq> null \<and> mbs s (global_mb s) \<noteq> None \<and> s_next s \<noteq> null)"

lemma body_stmt_ready:
  assumes "body_ok b" and "parse_ready s"
  shows "\<exists>s'. body_stmt b s = Inr s' \<and> parse_ready s'"
  using assms body_stmt_effect [OF assms(1), of s] by (auto simp: parse_ready_def)

lemma top_stmts_exits:
  "list_all scannable ts \<Longrightarrow> parse_ready s \<Longrightarrow> top_stmts ts s = Inl e \<Longrightarrow> e = Exit_Failure"
proof (induction ts s rule: top_stmts.induct)
  case (1 ts s)
  show ?case
  proof (cases ts)
    case Nil
    then show ?thesis using "1.prems"(3) by (simp add: top_stmts_Nil)
  next
    case (Cons t ts')
    consider "t = RETURN" | "t = COMMENT" | "t \<noteq> RETURN" "t \<noteq> COMMENT" by blast
    then show ?thesis
    proof cases
      case 1
      then show ?thesis using "1.IH"(1) [OF Cons] "1.prems" Cons by (simp add: top_stmts_RETURN)
    next
      case 2
      show ?thesis
      proof (cases "Option.bind (header_stmt ts) (expect RETURN)")
        case None
        then show ?thesis using "1.prems"(3) Cons 2 by (simp add: top_stmts_COMMENT)
      next
        case (Some r)
        then have "list_all scannable r"
          using "1.prems"(1) by (auto simp: expect_iff Option.bind_eq_Some_conv dest!: header_sound)
        then show ?thesis
          using "1.IH"(2) [OF Cons _ 2, of r] "1.prems"(2,3) Some Cons 2 by (simp add: top_stmts_COMMENT)
      qed
    next
      case 3
      let ?p = "Option.bind (sub_body_stmt ts) (\<lambda>(b, r). Option.bind (expect RETURN r) (\<lambda>r. Some (b, r)))"
      show ?thesis
      proof (cases ?p)
        case None
        then show ?thesis using "1.prems"(3) Cons 3 by (simp add: top_stmts_line)
      next
        case (Some p)
        then obtain b r where br: "p = (b, r)" "sub_body_stmt ts = Some (b, RETURN # r)"
          by (auto simp: expect_iff Option.bind_eq_Some_conv)
        then have "list_all scannable r" "body_ok b"
          using "1.prems"(1) sub_body_sound [OF br(2)] scannable_body [of b] by auto
        then obtain s' where s': "body_stmt b s = Inr s'" "parse_ready s'" "top_stmts r s' = Inl e"
          using body_stmt_ready [OF _ "1.prems"(2)] "1.prems"(3) Some br Cons 3
          by (fastforce simp: top_stmts_line)
        then show ?thesis
          using "1.IH"(3) [OF Cons 3 Some br(1) [symmetric] s'(1)] \<open>list_all scannable r\<close> by blast
      qed
    qed
  qed
qed

lemma yyparse_exits:
  assumes "list_all scannable ts" and "s_next s \<noteq> null"
    and "\<not> (\<exists>nm ls. ts = trace_tokens nm ls \<and> list_all line_ok ls)"
  shows "yyparse ts s = Inl Exit_Failure"
proof (cases "\<exists>nm r. ts = COMMENT # SIDENTIFIER nm # RETURN # r")
  case True
  then obtain nm r where ts: "ts = COMMENT # SIDENTIFIER nm # RETURN # r" by blast
  then have y: "yyparse ts s = top_stmts r (instance_action nm s)"
    by (simp add: yyparse_def expect_def sident_def)
  have "parse_ready (instance_action nm s)"
    using assms(2) by (simp add: parse_ready_def instance_action_def dpi_smtdv_new_smtdv_mailbox_def)
  then have "e = Exit_Failure" if "yyparse ts s = Inl e" for e
    using that top_stmts_exits [of r "instance_action nm s" e] assms(1) ts y by simp
  moreover have "yyparse ts s \<noteq> Inr s'" for s'
    using yyparse_sound [of ts s s'] assms(3) by blast
  ultimately show ?thesis by (cases "yyparse ts s") auto
next
  case False
  then show ?thesis
    by (auto simp: yyparse_def expect_iff sident_iff Option.bind_eq_Some_conv split: option.splits)
qed

section \<open>A concrete trace\<close>

definition demo_apb :: body where
  "demo_apb = Body_apb
     \<lparr>b_begin_cycle = ''1'', b_end_cycle = ''2'', b_begin_time = ''a0'', b_end_time = ''b4'',
      b_rw = ''WR'', b_addr = ''10''\<rparr> ''0'' ''OK'' [''ff'', ''1c'']"

definition demo_lines :: "line list" where
  "demo_lines = [Header_apb, Body demo_apb, Blank]"

definition demo_trace :: "(nat \<times> token) list" where
  "demo_trace = map (\<lambda>t. (1, t)) (trace_tokens ''uart'' demo_lines)"

definition demo_files :: "string \<rightharpoonup> string" where
  "demo_files = [''a.trx'' \<mapsto> render demo_trace]"

lemma demo_ok:
  "is_word ''uart''" "list_all body_ok (bodies demo_lines)"
  "map snd demo_trace = trace_tokens ''uart'' demo_lines" "s_next init_stl \<noteq> null"
proof -
  show "is_word ''uart''" "list_all body_ok (bodies demo_lines)" by code_simp+
qed (simp_all add: demo_trace_def comp_def init_stl_def)

section \<open>Properties of parsing\<close>



text \<open>
  Property C16. The parser accepts exactly the traces: on tokens the scanner can produce it
  returns if and only if they are an instance line followed by header, body and blank lines,
  each ended by a newline; on anything else it exits, and it fails in no other way.
\<close>

theorem parser_accepts_iff:
  assumes "list_all scannable ts" and "s_next s \<noteq> null"
  shows "if \<exists>nm ls. ts = trace_tokens nm ls \<and> list_all line_ok ls
    then \<exists>s'. yyparse ts s = Inr s' else yyparse ts s = Inl Exit_Failure"
proof (cases "\<exists>nm ls. ts = trace_tokens nm ls \<and> list_all line_ok ls")
  case True
  then obtain nm ls where ts: "ts = trace_tokens nm ls" "list_all line_ok ls" by blast
  then have "is_word nm" "list_all body_ok (bodies ls)"
    using assms(1) scannable_trace by blast+
  from yyparse_denotes [OF this assms(2)] show ?thesis using True ts by auto
next
  case False
  then show ?thesis using yyparse_exits [OF assms] by auto
qed

theorem parser_accepts_iff_witness:
  "(if \<exists>nm ls. [COMMENT, RETURN] = trace_tokens nm ls \<and> list_all line_ok ls
    then \<exists>s'. yyparse [COMMENT, RETURN] init_stl = Inr s' else yyparse [COMMENT, RETURN] init_stl = Inl Exit_Failure) \<and>
    yyparse [COMMENT, RETURN] init_stl = Inl Exit_Failure"
  using parser_accepts_iff [of "[COMMENT, RETURN]" init_stl] demo_ok(4) by (auto simp: trace_tokens_def)

text \<open>
  The scanner's classification: a maximal run of letters, digits, dots and
  underscores is the keyword it spells if there is one, a hexadecimal word if all its
  characters are digits or \<open>a\<close> to \<open>f\<close>, and any other word otherwise.
\<close>

theorem scanner_classifies:
  assumes "x \<noteq> []" and "list_all sident_char x" and "delimited r"
  shows "yylex (x @ r) =
    (case filter (\<lambda>(t, w). w = x) lex_words of
       (t, w) # _ \<Rightarrow> (Some t, r)
     | [] \<Rightarrow> (Some (if list_all tident_char x then TIDENTIFIER x else SIDENTIFIER x), r))"
proof (cases "filter (\<lambda>(t, w). w = x) lex_words")
  case Nil
  then have "x \<notin> set key_words" by (auto simp: key_words_def filter_empty_conv)
  then have "scannable (if list_all tident_char x then TIDENTIFIER x else SIDENTIFIER x)"
    using assms(1,2) by (simp add: is_hex_def is_word_def)
  from yylex_token [OF this, of r] show ?thesis
    using assms(3) Nil by (cases "list_all tident_char x") simp_all
next
  case (Cons p ps)
  then have "p \<in> set (filter (\<lambda>(t, w). w = x) lex_words)" by simp
  then obtain t where p: "p = (t, x)" "(t, x) \<in> set lex_words" by auto
  then have "best_rule lex_rules (x @ r) = (Tok t, length x)"
    using assms(3) by (simp add: best_rule_word)
  then show ?thesis
    using assms(1) Cons p by (simp add: yylex.simps)
qed

theorem scanner_classifies_witness:
  "yylex (''begin_cycles'' @ '','') = (Some (SIDENTIFIER ''begin_cycles''), '','') \<and>
   yylex (''begin_cycle'' @ '','') = (Some BEGIN_CYCLE, '','') \<and>
   yylex (''bad1'' @ '','') = (Some (TIDENTIFIER ''bad1''), '','')"
proof -
  have w: "list_all sident_char ''begin_cycles''" "list_all sident_char ''begin_cycle''"
      "list_all sident_char ''bad1''" "delimited '',''"
      "filter (\<lambda>(t, w). w = ''begin_cycles'') lex_words = []"
      "filter (\<lambda>(t, w). w = ''begin_cycle'') lex_words = [(BEGIN_CYCLE, ''begin_cycle'')]"
      "filter (\<lambda>(t, w). w = ''bad1'') lex_words = []"
      "\<not> list_all tident_char ''begin_cycles''" "list_all tident_char ''bad1''"
    by code_simp+
  have n: "''begin_cycles'' \<noteq> []" "''begin_cycle'' \<noteq> []" "''bad1'' \<noteq> []" by simp_all
  show ?thesis
    using scanner_classifies [OF n(1) w(1,4)] scanner_classifies [OF n(2) w(2,4)]
      scanner_classifies [OF n(3) w(3,4)]
    by (simp only: w(5-9) list.case prod.case if_True if_False simp_thms)
qed

text \<open>
  A character the scanner does not know ends the file without an error when the
  stream is already at its end (the file is buffered whole): the lines before it are kept,
  everything from it on is dropped, and the caller gets the mailbox as if the file had ended.
\<close>

theorem unknown_character_truncates:
  assumes "is_word nm" and "list_all body_ok (bodies ls)" and "map snd ts = trace_tokens nm ls"
    and "c \<in> set ''-+*:;!?$%&@=''" and "feof rest" and "files name = Some (render ts @ c # rest)"
    and "files' name = Some (render ts)"
  shows "dpi_smtdv_parse_file files feof name s = dpi_smtdv_parse_file files' feof name s"
proof -
  have "best_rule lex_rules (c # rest) = (Unknown, 1)"
    using assms(4) by (rule best_rule_unknown)
  then have "yylex (c # rest) = (None, rest)" by (simp add: yylex.simps)
  then have "tokens (c # rest) = ([], rest)" by (simp add: tokens.simps)
  then have t1: "tokens (render ts @ c # rest) = (trace_tokens nm ls, rest)"
    using tokens_trace [OF assms(1-3), of "c # rest"] by simp
  have t2: "tokens (render ts) = (trace_tokens nm ls, [])"
    using tokens_trace [OF assms(1-3), of "[]"] by simp
  have "parse_loop feof (render ts @ c # rest) s = parse_loop feof (render ts) s"
    using assms(5) by (simp add: parse_loop.simps [of feof "_ @ _"] parse_loop.simps [of feof "render ts"] t1 t2)
  then show ?thesis using assms(6,7) by (simp add: dpi_smtdv_parse_file_def)
qed

text \<open>A line the scanner stops in.\<close>

theorem unknown_character_truncates_witness:
  "dpi_smtdv_parse_file [''a.trx'' \<mapsto> render demo_trace @ CHR ''-'' # ''junk''] (\<lambda>_. True) ''a.trx'' init_stl =
   dpi_smtdv_parse_file demo_files (\<lambda>_. True) ''a.trx'' init_stl"
  by (rule unknown_character_truncates [OF demo_ok(1,2,3)]) (simp_all add: demo_files_def)

section \<open>Properties of mailboxes\<close>

text \<open>
  Property C27. Reading a mailbox: in a reachable state, after one or more registrations,
  repeated calls of \<open>dpi_smtdv_next_smtdv_transfer\<close> return every transfer of the mailbox in
  the order of registration, the new ones last, and the null pointer from then on.
\<close>

theorem mailbox_drains:
  assumes "stl_reachable s" and "mbs s it = Some mb" and "ips \<noteq> []"
    and "fold_res (\<lambda>ip. dpi_smtdv_register_smtdv_transfer it ip) ips s = Inr s'"
  shows "\<exists>s''. read_transfers (length (m_vec mb) + length ips + k) it s' =
    Inr (m_vec mb @ ips @ replicate k null, s'')"
proof -
  have it: "it \<noteq> null" using stl_okD(3) [OF stl_reachable_ok [OF assms(1)] assms(2)] by simp
  have "mbs s' it = Some (fold mb_push ips mb)"
    using assms(4) assms(2)
  proof (induction ips arbitrary: s mb)
    case (Cons ip ips)
    have "dpi_smtdv_register_smtdv_transfer it ip s =
        (if ip \<noteq> null then Inr (s\<lparr>mbs := (mbs s)(it \<mapsto> mb_push ip mb)\<rparr>) else Inl Assert_Failure)"
      using it Cons.prems(2) by (simp add: dpi_smtdv_register_smtdv_transfer_def)
    then show ?case
      using Cons.IH [of "s\<lparr>mbs := (mbs s)(it \<mapsto> mb_push ip mb)\<rparr>" "mb_push ip mb"] Cons.prems(1)
      by (auto split: if_splits)
  qed simp
  moreover obtain mb' where "mailbox.steps (length (m_vec mb) + length ips + k) (fold mb_push ips mb) =
      Inr (m_vec mb @ ips @ replicate k null, mb')"
    using mailbox.steps_after_puts [OF assms(3)] by blast
  ultimately show ?thesis using read_transfers_steps [OF it] by blast
qed

definition demo_stl :: stl_state where
  "demo_stl = snd (dpi_smtdv_new_smtdv_transfer (snd (dpi_smtdv_new_smtdv_mailbox ''m'' init_stl)))"

lemma demo_stl_reachable: "stl_reachable demo_stl"
  unfolding demo_stl_def by (rule Step [OF Step [OF Init New_mailbox] New_transfer])

lemma demo_stl_eq:
  "demo_stl = \<lparr>trxs = [2 \<mapsto> SMTDV_Transfer], mbs = [1 \<mapsto> SMTDV_MailBox ''m''], s_next = 3, global_mb = 0, global_trx = 0\<rparr>"
  by (simp add: demo_stl_def init_stl_def dpi_smtdv_new_smtdv_transfer_def dpi_smtdv_new_smtdv_mailbox_def
      numeral_2_eq_2)

theorem mailbox_drains_witness:
  "\<exists>s' s''. fold_res (\<lambda>ip. dpi_smtdv_register_smtdv_transfer 1 ip) [2, 2] demo_stl = Inr s' \<and>
    read_transfers (length (m_vec (SMTDV_MailBox ''m'')) + length [2::nat, 2] + 1) 1 s' =
      Inr (m_vec (SMTDV_MailBox ''m'') @ [2, 2] @ replicate 1 null, s'')"
proof -
  have "mbs demo_stl 1 = Some (SMTDV_MailBox ''m'')" by (simp add: demo_stl_eq)
  moreover obtain s' where "fold_res (\<lambda>ip. dpi_smtdv_register_smtdv_transfer 1 ip) [2, 2] demo_stl = Inr s'"
    by (simp add: demo_stl_eq dpi_smtdv_register_smtdv_transfer_def)
  ultimately show ?thesis
    using mailbox_drains [OF demo_stl_reachable, of 1 "SMTDV_MailBox ''m''" "[2, 2]" s' 1] by blast
qed

text \<open>
  In every reachable state a mailbox holds only live transfers, so a read
  returns one of them or the null pointer, and it fails only on a mailbox that nothing was
  ever registered in, whose iterator was never attached.
\<close>

theorem next_returns_live:
  assumes "stl_reachable s" and "mbs s it = Some mb"
  shows "case dpi_smtdv_next_smtdv_transfer it s of
      Inr (x, s') \<Rightarrow> x = null \<or> trxs s' x \<noteq> None
    | Inl e \<Rightarrow> e = Bad_Iterator \<and> m_vec mb = []"
proof -
  have ok: "stl_ok s" using assms(1) by (rule stl_reachable_ok)
  then have mb: "it \<noteq> null" "mailbox_ok s mb" using stl_okD(3) [OF ok assms(2)] by auto
  then have n: "dpi_smtdv_next_smtdv_transfer it s =
      bind_res (mb_next mb) (\<lambda>(tt, mb'). Inr (tt, s\<lparr>mbs := (mbs s)(it \<mapsto> mb')\<rparr>))"
    using assms(2) by (simp add: dpi_smtdv_next_smtdv_transfer_def)
  show ?thesis
    using mb(2) by (auto simp: n mb_next_def mailbox_ok_def split: option.splits)
qed

theorem next_returns_live_witness:
  "case dpi_smtdv_next_smtdv_transfer 1 demo_stl of
      Inr (x, s') \<Rightarrow> x = null \<or> trxs s' x \<noteq> None
    | Inl e \<Rightarrow> e = Bad_Iterator \<and> m_vec (SMTDV_MailBox ''m'') = []"
  by (rule next_returns_live [OF demo_stl_reachable]) (simp add: demo_stl_eq)

section \<open>Properties of the accessors\<close>

text \<open>
  The lock of a transfer can never be read: in every reachable state, traces
  parsed or not, the field that \<open>dpi_smtdv_get_smtdv_transfer_lock\<close> reads has never been
  assigned, and the call that should assign it is the one that assigns the identifier.
\<close>

theorem lock_never_readable:
  assumes "stl_reachable s" and "trxs s ip \<noteq> None"
  shows "dpi_smtdv_get_smtdv_transfer_lock ip s = Inl Uninit_Read \<and>
    dpi_smtdv_set_smtdv_transfer_lock ip st s = dpi_smtdv_set_smtdv_transfer_id ip st s"
proof -
  obtain tt where tt: "trxs s ip = Some tt" using assms(2) by blast
  have "ip \<noteq> null" "lock tt = None"
    using stl_okD(2) [OF stl_reachable_ok [OF assms(1)] tt] by simp_all
  then show ?thesis
    using tt by (simp add: dpi_smtdv_get_smtdv_transfer_lock_def get_trx_def init_read_def
        dpi_smtdv_set_smtdv_transfer_lock_def dpi_smtdv_set_smtdv_transfer_id_def)
qed

theorem lock_never_readable_witness:
  "dpi_smtdv_get_smtdv_transfer_lock 2 demo_stl = Inl Uninit_Read \<and>
    dpi_smtdv_set_smtdv_transfer_lock 2 ''1'' demo_stl = dpi_smtdv_set_smtdv_transfer_id 2 ''1'' demo_stl"
  by (rule lock_never_readable [OF demo_stl_reachable]) (simp add: demo_stl_eq)

text \<open>The 64-bit number fields with their setters and getters.\<close>

definition number_fields ::
  "((addr \<Rightarrow> string \<Rightarrow> stl_state \<Rightarrow> stl_state res) \<times> (addr \<Rightarrow> stl_state \<Rightarrow> char_ptr res)) list" where
  "number_fields =
     [(dpi_smtdv_set_smtdv_transfer_begin_time, dpi_smtdv_get_smtdv_transfer_begin_time),
      (dpi_smtdv_set_smtdv_transfer_end_time, dpi_smtdv_get_smtdv_transfer_end_time),
      (dpi_smtdv_set_smtdv_transfer_begin_cycle, dpi_smtdv_get_smtdv_transfer_begin_cycle),
      (dpi_smtdv_set_smtdv_transfer_end_cycle, dpi_smtdv_get_smtdv_transfer_end_cycle),
      (dpi_smtdv_set_smtdv_transfer_addr, dpi_smtdv_get_smtdv_transfer_addr)]"

lemma stl_longint_2_hexstr_eq: "stl_longint_2_hexstr i = Dead (show_base 16 (unat i))"
  using dpi_longint_2_hexstr_eq [of i] by (simp add: stl_longint_2_hexstr_def dpi_longint_2_hexstr_def)

text \<open>
  A number set through any of the 64-bit fields comes back as the text of its
  hexadecimal digits, the value saturated to 64 bits, but through a pointer into a string that
  is destroyed when the getter returns.
\<close>

theorem number_field_reads_back:
  assumes "(f, g) \<in> set number_fields" and "is_hex d" and "ip \<noteq> null" and "trxs s ip \<noteq> None"
  shows "\<exists>s'. f ip d s = Inr s' \<and> g ip s' = Inr (Dead (show_base 16 (unat (hex_value d))))"
proof -
  have d: "dpi_hexstr_2_longint d = Inr (hex_value d)"
    using extract_hex [OF assms(2)] by (simp add: str2char_hex [OF assms(2)])
  obtain tt where tt: "trxs s ip = Some tt" using assms(4) by blast
  consider "f = dpi_smtdv_set_smtdv_transfer_begin_time" "g = dpi_smtdv_get_smtdv_transfer_begin_time"
    | "f = dpi_smtdv_set_smtdv_transfer_end_time" "g = dpi_smtdv_get_smtdv_transfer_end_time"
    | "f = dpi_smtdv_set_smtdv_transfer_begin_cycle" "g = dpi_smtdv_get_smtdv_transfer_begin_cycle"
    | "f = dpi_smtdv_set_smtdv_transfer_end_cycle" "g = dpi_smtdv_get_smtdv_transfer_end_cycle"
    | "f = dpi_smtdv_set_smtdv_transfer_addr" "g = dpi_smtdv_get_smtdv_transfer_addr"
    using assms(1) unfolding number_fields_def by auto
  then show ?thesis
    using assms(3) tt
    by cases (simp_all add: with_trx_def get_trx_def d init_read_def stl_longint_2_hexstr_eq
        dpi_smtdv_set_smtdv_transfer_begin_time_def dpi_smtdv_get_smtdv_transfer_begin_time_def
        dpi_smtdv_set_smtdv_transfer_end_time_def dpi_smtdv_get_smtdv_transfer_end_time_def
        dpi_smtdv_set_smtdv_transfer_begin_cycle_def dpi_smtdv_get_smtdv_transfer_begin_cycle_def
        dpi_smtdv_set_smtdv_transfer_end_cycle_def dpi_smtdv_get_smtdv_transfer_end_cycle_def
        dpi_smtdv_set_smtdv_transfer_addr_def dpi_smtdv_get_smtdv_transfer_addr_def)
qed

theorem number_field_reads_back_witness:
  "\<exists>s'. dpi_smtdv_set_smtdv_transfer_addr 2 ''1c'' demo_stl = Inr s' \<and>
    dpi_smtdv_get_smtdv_transfer_addr 2 s' = Inr (Dead (show_base 16 (unat (hex_value ''1c''))))"
proof -
  have "is_hex ''1c''" by code_simp
  then show ?thesis
    by (intro number_field_reads_back) (simp_all add: number_fields_def demo_stl_eq)
qed



end
