(* ===== verification/Bp_Names.thy ===== *)
theory Bp_Names
  imports Cpp_Streams
begin

text \<open>
  Names in the UVM-ML backplane (\<open>kernel/UVM_ML-1.5.1/ml/backplane\<close>): the string helpers of
  \<open>bp_utils.cpp\<close>, qualified type names (\<open>bp_framework_proxy.cpp\<close>), and the parsing of command
  line arguments and type names (\<open>bp_base_interconnect.cpp\<close>), with what they compute stated
  on the components of a path and the words of a command.
\<close>

section \<open>Characters\<close>

definition lower_char :: "char \<Rightarrow> char" where
  "lower_char c =
     (let n = (of_char c :: nat) in if 65 \<le> n \<and> n \<le> 90 then char_of (n + 32) else c)"

definition to_lower :: "string \<Rightarrow> string" where
  "to_lower s = map lower_char s"

definition same_ignoring_case :: "string \<Rightarrow> string \<Rightarrow> bool" where
  "same_ignoring_case x y = (to_lower x = to_lower y)"

section \<open>\<open>bp_utils.cpp\<close>\<close>

definition BpExtractBaseName :: "string \<Rightarrow> string" where
  "BpExtractBaseName s = rev (takeWhile (\<lambda>c. c \<noteq> CHR '':'') (rev s))"

definition path_separators :: string where
  "path_separators = ''./''"

definition BpPrefixCompare :: "string \<Rightarrow> string \<Rightarrow> string \<Rightarrow> bool" where
  "BpPrefixCompare prefixStr x separators =
     (let prefix_len = length prefixStr; x_len = length x
      in if x_len < prefix_len \<or> (prefix_len < x_len \<and> x ! prefix_len \<notin> set separators) then False
         else take prefix_len x = prefixStr)"

text \<open>
  The loop of \<open>GetToken\<close>: \<open>n\<close> extractions at most, and none after the one that reaches the end
  of the stream; an extraction that finds only white space sets \<open>failbit\<close>.
\<close>

fun token_loop :: "nat \<Rightarrow> string \<Rightarrow> string \<Rightarrow> string" where
  "token_loop 0 tok s = tok"
| "token_loop (Suc n) tok s =
     (let t = skip_ws s; w = takeWhile (\<lambda>c. \<not> is_space c) t; r = dropWhile (\<lambda>c. \<not> is_space c) t
      in if t = [] then [] else if r = [] then w else token_loop n w r)"

definition GetToken :: "string \<Rightarrow> int \<Rightarrow> string" where
  "GetToken x nToken = token_loop (nat (nToken + 1)) [] x"

datatype time_unit =
    UNIT_FS | UNIT_PS | UNIT_NS | UNIT_US | UNIT_MS | UNIT_SEC | UNIT_MIN | UNIT_HR | UNIT_UNDEFINED

fun convert_time_unit_to_c_str :: "time_unit \<Rightarrow> string" where
  "convert_time_unit_to_c_str UNIT_FS = ''fs''"
| "convert_time_unit_to_c_str UNIT_PS = ''ps''"
| "convert_time_unit_to_c_str UNIT_NS = ''ns''"
| "convert_time_unit_to_c_str UNIT_US = ''us''"
| "convert_time_unit_to_c_str UNIT_MS = ''ms''"
| "convert_time_unit_to_c_str UNIT_SEC = ''sec''"
| "convert_time_unit_to_c_str UNIT_MIN = ''min''"
| "convert_time_unit_to_c_str UNIT_HR = ''hr''"
| "convert_time_unit_to_c_str UNIT_UNDEFINED = ''unknown''"

section \<open>Qualified type names\<close>

text \<open>What follows the last \<open>::\<close> of a name.\<close>

fun after_last_colons :: "string \<Rightarrow> string option" where
  "after_last_colons [] = None"
| "after_last_colons (c # s) =
     (case after_last_colons s of
        Some t \<Rightarrow> Some t
      | None \<Rightarrow> if c = CHR '':'' \<and> s \<noteq> [] \<and> hd s = CHR '':'' then Some (tl s) else None)"

definition IsQualifiedName :: "string \<Rightarrow> bool" where
  "IsQualifiedName name = (after_last_colons name \<noteq> None)"

definition GetShortName :: "string \<Rightarrow> string" where
  "GetShortName name = (case after_last_colons name of None \<Rightarrow> name | Some s \<Rightarrow> s)"

section \<open>Arguments\<close>

text \<open>The text before the first colon and the text after it.\<close>

definition split_colon :: "string \<Rightarrow> (string \<times> string) option" where
  "split_colon arg =
     (let a = takeWhile (\<lambda>c. c \<noteq> CHR '':'') arg
      in if a = arg then None else Some (a, tl (dropWhile (\<lambda>c. c \<noteq> CHR '':'') arg)))"

text \<open>\<open>None\<close> is the \<open>throw 0\<close> after the message; the result is indicator, component, instance.\<close>

definition ParseArgument :: "string \<Rightarrow> (string \<times> string \<times> string) option" where
  "ParseArgument arg =
     (case split_colon arg of
        None \<Rightarrow> None
      | Some (ind, rest) \<Rightarrow>
          (case split_colon rest of
             None \<Rightarrow> Some (to_lower ind, rest, [])
           | Some (cid, inst) \<Rightarrow> Some (to_lower ind, cid, inst)))"

definition ParseTypeName :: "string \<Rightarrow> (string \<times> string) res" where
  "ParseTypeName arg =
     (case split_colon arg of
        None \<Rightarrow> Inl Assert_Failure
      | Some (ind, typ) \<Rightarrow> Inr (to_lower ind, typ))"

section \<open>What they compute\<close>

text \<open>
  A path is a prefix of another at a separator when the rest is empty or starts with one.
\<close>

lemma BpPrefixCompare_iff:
  "BpPrefixCompare p x seps \<longleftrightarrow> (\<exists>r. x = p @ r \<and> (r = [] \<or> hd r \<in> set seps))"
proof
  assume "BpPrefixCompare p x seps"
  then have le: "length p \<le> length x" and t: "take (length p) x = p"
    and s: "length p < length x \<longrightarrow> x ! length p \<in> set seps"
    by (auto simp: BpPrefixCompare_def Let_def split: if_splits)
  then have "x = p @ drop (length p) x" by (metis append_take_drop_id)
  moreover have "drop (length p) x = [] \<or> hd (drop (length p) x) \<in> set seps"
    using s le by (cases "length p < length x") (auto simp: hd_drop_conv_nth)
  ultimately show "\<exists>r. x = p @ r \<and> (r = [] \<or> hd r \<in> set seps)" by blast
next
  assume "\<exists>r. x = p @ r \<and> (r = [] \<or> hd r \<in> set seps)"
  then show "BpPrefixCompare p x seps"
    by (auto simp: BpPrefixCompare_def Let_def nth_append hd_conv_nth)
qed

lemma BpPrefixCompare_refl: "BpPrefixCompare p p seps"
  by (simp add: BpPrefixCompare_iff)

lemma BpPrefixCompare_length: "BpPrefixCompare p x seps \<Longrightarrow> length p \<le> length x"
  by (auto simp: BpPrefixCompare_iff)

lemma BpPrefixCompare_same_length:
  "BpPrefixCompare p x seps \<Longrightarrow> BpPrefixCompare q x seps \<Longrightarrow> length p = length q \<Longrightarrow> p = q"
  by (auto simp: BpPrefixCompare_iff)

lemma BpPrefixCompare_trans:
  assumes "BpPrefixCompare p q seps" and "BpPrefixCompare q x seps"
  shows "BpPrefixCompare p x seps"
proof -
  obtain r where r: "q = p @ r" "r = [] \<or> hd r \<in> set seps"
    using assms(1) by (auto simp: BpPrefixCompare_iff)
  obtain r' where r': "x = q @ r'" "r' = [] \<or> hd r' \<in> set seps"
    using assms(2) by (auto simp: BpPrefixCompare_iff)
  have "x = p @ (r @ r')" and "r @ r' = [] \<or> hd (r @ r') \<in> set seps"
    using r r' by (auto simp: hd_append)
  then show ?thesis unfolding BpPrefixCompare_iff by blast
qed

lemma takeWhile_not_same:
  "takeWhile P xs \<noteq> xs \<Longrightarrow> \<exists>x r. dropWhile P xs = x # r \<and> \<not> P x"
  by (metis append_Nil2 dropWhile_eq_Nil_conv hd_dropWhile list.collapse takeWhile_eq_all_conv)

lemma split_colon_iff:
  "split_colon arg = Some (a, b) \<longleftrightarrow> arg = a @ CHR '':'' # b \<and> CHR '':'' \<notin> set a"
proof
  assume l: "split_colon arg = Some (a, b)"
  let ?P = "\<lambda>c. c \<noteq> CHR '':''"
  have ne: "takeWhile ?P arg \<noteq> arg" and a: "a = takeWhile ?P arg" and b: "b = tl (dropWhile ?P arg)"
    using l by (auto simp: split_colon_def Let_def split: if_splits)
  from takeWhile_not_same [OF ne] have "dropWhile ?P arg = CHR '':'' # b"
    using b by auto
  then have "arg = a @ CHR '':'' # b" using a by (metis takeWhile_dropWhile_id)
  moreover have "CHR '':'' \<notin> set a" using a by (auto dest: set_takeWhileD)
  ultimately show "arg = a @ CHR '':'' # b \<and> CHR '':'' \<notin> set a" by blast
next
  assume r: "arg = a @ CHR '':'' # b \<and> CHR '':'' \<notin> set a"
  then have "\<forall>c \<in> set a. c \<noteq> CHR '':''" by auto
  with r have "takeWhile (\<lambda>c. c \<noteq> CHR '':'') arg = a" "dropWhile (\<lambda>c. c \<noteq> CHR '':'') arg = CHR '':'' # b"
    by (simp_all add: takeWhile_append2 dropWhile_append2)
  then show "split_colon arg = Some (a, b)" using r by (auto simp: split_colon_def)
qed

lemma split_colon_None: "split_colon arg = None \<longleftrightarrow> CHR '':'' \<notin> set arg"
  by (auto simp: split_colon_def Let_def takeWhile_eq_all_conv)

text \<open>Writing an argument and parsing it.\<close>

lemma ParseArgument_two:
  assumes "CHR '':'' \<notin> set ind" and "CHR '':'' \<notin> set cid"
  shows "ParseArgument (ind @ '':'' @ cid) = Some (to_lower ind, cid, [])"
proof -
  have "split_colon (ind @ '':'' @ cid) = Some (ind, cid)"
    using assms by (simp add: split_colon_iff)
  moreover have "split_colon cid = None" using assms by (simp add: split_colon_None)
  ultimately show ?thesis by (simp add: ParseArgument_def)
qed

lemma ParseArgument_three:
  assumes "CHR '':'' \<notin> set ind" and "CHR '':'' \<notin> set cid"
  shows "ParseArgument (ind @ '':'' @ cid @ '':'' @ inst) = Some (to_lower ind, cid, inst)"
proof -
  have "split_colon (ind @ '':'' @ cid @ '':'' @ inst) = Some (ind, cid @ '':'' @ inst)"
    using assms by (simp add: split_colon_iff)
  moreover have "split_colon (cid @ '':'' @ inst) = Some (cid, inst)"
    using assms by (simp add: split_colon_iff)
  ultimately show ?thesis by (simp add: ParseArgument_def)
qed

lemma GetShortName_no_colons:
  assumes "\<not> IsQualifiedName (CHR '':'' # s)"
  shows "GetShortName (q @ ''::'' @ s) = s"
proof -
  have s: "after_last_colons s = None"
    using assms by (auto simp: IsQualifiedName_def split: option.splits)
  have "after_last_colons (CHR '':'' # CHR '':'' # s) = Some s"
    using assms s by (auto simp: IsQualifiedName_def split: option.splits)
  moreover have "after_last_colons (q @ t) = Some u" if "after_last_colons t = Some u" for t u
    using that by (induction q) auto
  ultimately show ?thesis by (simp add: GetShortName_def)
qed

lemma after_last_colons_suffix: "after_last_colons s = Some t \<Longrightarrow> \<exists>q. s = q @ ''::'' @ t"
proof (induction s)
  case (Cons c s)
  show ?case
  proof (cases "after_last_colons s")
    case (Some t')
    then obtain q where "s = q @ ''::'' @ t" using Cons by auto
    then show ?thesis by (intro exI [of _ "c # q"]) simp
  next
    case None
    then have "c = CHR '':''" "s = CHR '':'' # t"
      using Cons.prems by (cases s; auto split: if_splits)+
    then show ?thesis by (intro exI [of _ "[]"]) simp
  qed
qed simp

lemma after_last_colons_short: "after_last_colons s = Some t \<Longrightarrow> after_last_colons t = None"
proof (induction s)
  case (Cons c s)
  show ?case
  proof (cases "after_last_colons s")
    case None
    then have "s = CHR '':'' # t" using Cons.prems by (cases s; auto split: if_splits)+
    then show ?thesis using None by (auto split: option.splits)
  qed (use Cons in auto)
qed simp

lemma GetShortName_not_qualified: "\<not> IsQualifiedName (GetShortName name)"
  by (auto simp: IsQualifiedName_def GetShortName_def split: option.splits dest: after_last_colons_short)

lemma GetShortName_idem [simp]: "GetShortName (GetShortName name) = GetShortName name"
  using GetShortName_not_qualified [of name] by (simp add: IsQualifiedName_def GetShortName_def)

lemma GetShortName_simple: "\<not> IsQualifiedName name \<Longrightarrow> GetShortName name = name"
  by (simp add: IsQualifiedName_def GetShortName_def)

text \<open>The base name depends on the short name only.\<close>

lemma BpExtractBaseName_append:
  assumes "CHR '':'' \<in> set t"
  shows "BpExtractBaseName (s @ t) = BpExtractBaseName t"
  using assms by (simp add: BpExtractBaseName_def takeWhile_append1 [where x = "CHR '':''"])

lemma BpExtractBaseName_colon: "BpExtractBaseName (CHR '':'' # t) = BpExtractBaseName t"
proof (cases "CHR '':'' \<in> set t")
  case True
  then show ?thesis using BpExtractBaseName_append [of t "'':''"] by simp
next
  case False
  then have "\<forall>c \<in> set (rev t). c \<noteq> CHR '':''" by auto
  then have "takeWhile (\<lambda>c. c \<noteq> CHR '':'') (rev t) = rev t"
    and "takeWhile (\<lambda>c. c \<noteq> CHR '':'') (rev t @ '':'') = rev t"
    by (simp_all add: takeWhile_eq_all_conv takeWhile_append2 del: set_rev)
  then show ?thesis by (simp only: BpExtractBaseName_def rev.simps)
qed

lemma BpExtractBaseName_short: "BpExtractBaseName (GetShortName name) = BpExtractBaseName name"
proof (cases "after_last_colons name")
  case None
  then show ?thesis by (simp add: GetShortName_def)
next
  case (Some t)
  then obtain q where q: "name = q @ ''::'' @ t" using after_last_colons_suffix by blast
  have "BpExtractBaseName name = BpExtractBaseName (CHR '':'' # CHR '':'' # t)"
    using BpExtractBaseName_append [of "''::'' @ t" q] q by simp
  then show ?thesis using Some by (simp add: GetShortName_def BpExtractBaseName_colon)
qed

text \<open>The words of a command line and the token that \<open>GetToken\<close> returns.\<close>

function words_of :: "string \<Rightarrow> string list" where
  "words_of s =
     (let t = skip_ws s in
      if t = [] then []
      else takeWhile (\<lambda>c. \<not> is_space c) t # words_of (dropWhile (\<lambda>c. \<not> is_space c) t))"
  by pat_completeness auto
termination
proof (relation "measure length")
  fix s t :: string
  assume t: "t = skip_ws s" "t \<noteq> []"
  then have "\<not> is_space (hd t)" unfolding skip_ws_def using hd_dropWhile by blast
  then have "length (dropWhile (\<lambda>c. \<not> is_space c) t) < length t"
    using t(2) by (cases t) (auto simp: le_imp_less_Suc length_dropWhile_le)
  moreover have "length t \<le> length s" using t by (simp add: skip_ws_def length_dropWhile_le)
  ultimately show "(dropWhile (\<lambda>c. \<not> is_space c) t, s) \<in> measure length" by simp
qed simp

declare words_of.simps [simp del]

lemma words_of_Nil [simp]: "words_of [] = []"
  by (simp add: words_of.simps skip_ws_def)

lemma token_loop_nth:
  "n < length (words_of s) \<Longrightarrow> token_loop (Suc n) tok s = words_of s ! n"
proof (induction n arbitrary: s tok)
  case 0
  then have "skip_ws s \<noteq> []" by (auto simp: words_of.simps [of s] Let_def split: if_splits)
  then show ?case by (simp add: words_of.simps [of s] Let_def)
next
  case (Suc n)
  let ?t = "skip_ws s" and ?r = "dropWhile (\<lambda>c. \<not> is_space c) (skip_ws s)"
  have t: "?t \<noteq> []" using Suc.prems by (auto simp: words_of.simps [of s] Let_def split: if_splits)
  then have w: "words_of s = takeWhile (\<lambda>c. \<not> is_space c) ?t # words_of ?r"
    by (simp add: words_of.simps [of s] Let_def)
  then have "n < length (words_of ?r)" using Suc.prems by simp
  moreover from this have "?r \<noteq> []" by (metis less_nat_zero_code list.size(3) words_of_Nil)
  moreover from this have "token_loop (Suc (Suc n)) tok s =
      token_loop (Suc n) (takeWhile (\<lambda>c. \<not> is_space c) ?t) ?r"
    using t by (subst token_loop.simps(2)) (simp only: Let_def if_False)
  ultimately show ?case using Suc.IH [of ?r] w by (simp only: nth_Cons_Suc)
qed

lemma GetToken_nth:
  assumes "0 \<le> k" and "nat k < length (words_of x)"
  shows "GetToken x k = words_of x ! nat k"
proof -
  have "nat (k + 1) = Suc (nat k)" using assms(1) by simp
  then show ?thesis using token_loop_nth [OF assms(2)] by (simp add: GetToken_def)
qed

end
