(* ===== verification/Bp_State.thy ===== *)
theory Bp_State
  imports Complex_Main Bp_Names
begin

text \<open>
  The state of the UVM-ML backplane: the static members of \<open>BpInterconnect\<close>
  (\<open>bp_interconnect.h\<close>, \<open>bp_base_interconnect.cpp\<close>), the framework proxies
  (\<open>bp_framework_proxy.h\<close>), connections (\<open>bp_connection.h\<close>), type map entries
  (\<open>bp_type_map.h\<close>), top descriptors and child proxies.

  A framework adapter (the SystemC, SystemVerilog or e side) is known to the backplane only
  through the table of function pointers \<open>bp_frmw_c_api_struct\<close> it registers. That table is
  the record \<open>frmw_api\<close>; each of its functions works on the adapters' own state, the type
  parameter \<open>'w\<close>, and may be a null pointer (\<open>None\<close>). Queries of an adapter only read its
  state. A call an adapter makes back into the backplane is a step of its own and is not
  nested in the call that is running.
\<close>

section \<open>Plain data\<close>

type_synonym stream = "uint list"
type_synonym time = "time_unit \<times> real"

datatype phase_action = PHASE_STARTED | PHASE_EXECUTING | PHASE_READY_TO_END | PHASE_ENDED

datatype tlm_phase = UNINITIALIZED_PHASE | BEGIN_REQ | END_REQ | BEGIN_RESP | END_RESP

datatype tlm_sync = TLM2_ACCEPTED | TLM2_UPDATED | TLM2_COMPLETED

datatype connector_kind = PORT | EXPORT | IMP | INITIATOR_SOCKET | TARGET_SOCKET

datatype route_type = UNDEF | TLM1 | TLM2

section \<open>The adapter's function table\<close>

text \<open>Setup and connectors.\<close>

record 'w setup_api =
  set_trace_mode_ptr :: "(int \<Rightarrow> 'w \<Rightarrow> 'w) option"
  startup_ptr :: "('w \<Rightarrow> int \<times> 'w) option"
  construct_top_ptr :: "(string \<Rightarrow> string \<Rightarrow> 'w \<Rightarrow> int \<times> 'w) option"
  get_top_component_for_arg_ptr :: "(string \<Rightarrow> 'w \<Rightarrow> string option) option"
  create_child_junction_node_ptr :: "(string \<Rightarrow> string \<Rightarrow> string \<Rightarrow> int \<Rightarrow> int \<Rightarrow> 'w \<Rightarrow> int \<times> 'w) option"
  find_connector_id_by_name_ptr :: "(string \<Rightarrow> 'w \<Rightarrow> int) option"
  get_connector_intf_name_ptr :: "(int \<Rightarrow> 'w \<Rightarrow> string) option"
  get_connector_type_ptr :: "(int \<Rightarrow> 'w \<Rightarrow> int) option"
  is_export_connector_ptr :: "(int \<Rightarrow> 'w \<Rightarrow> int) option"
  external_connect_ptr :: "(int \<Rightarrow> 'w \<Rightarrow> 'w) option"

text \<open>Phasing, the phase and stopper services, commands.\<close>

record 'w phase_api =
  transmit_phase_ptr :: "(int \<Rightarrow> string \<Rightarrow> string \<Rightarrow> phase_action \<Rightarrow> 'w \<Rightarrow> int \<times> 'w) option"
  notify_phase_ptr :: "(string \<Rightarrow> string \<Rightarrow> phase_action \<Rightarrow> 'w \<Rightarrow> int \<times> 'w) option"
  notify_runtime_phase_ptr :: "(string \<Rightarrow> string \<Rightarrow> phase_action \<Rightarrow> time \<Rightarrow> 'w \<Rightarrow> (int \<times> uint option) \<times> 'w) option"
  phase_srv_start_ptr :: "('w \<Rightarrow> 'w) option"
  phase_srv_notify_phase_done_ptr :: "(uint \<Rightarrow> string \<Rightarrow> string \<Rightarrow> time \<Rightarrow> 'w \<Rightarrow> 'w) option"
  phase_srv_check_phase_ptr :: "(string \<Rightarrow> 'w \<Rightarrow> int) option"
  phase_srv_check_future_phase_ptr :: "(string \<Rightarrow> phase_action \<Rightarrow> 'w \<Rightarrow> int) option"
  stopper_request_ptr :: "('w \<Rightarrow> 'w) option"
  notify_command_ptr :: "(string \<Rightarrow> time \<Rightarrow> 'w \<Rightarrow> int \<times> 'w) option"

text \<open>TLM1 put, get and peek.\<close>

record 'w tlm1_api =
  try_put_ptr :: "(int \<Rightarrow> uint \<Rightarrow> stream \<Rightarrow> time \<Rightarrow> 'w \<Rightarrow> int \<times> 'w) option"
  can_put_ptr :: "(int \<Rightarrow> time \<Rightarrow> 'w \<Rightarrow> int \<times> 'w) option"
  put_request_ptr :: "(int \<Rightarrow> int \<Rightarrow> int \<Rightarrow> uint \<Rightarrow> stream \<Rightarrow> time \<Rightarrow> 'w \<Rightarrow> int \<times> 'w) option"
  get_ptr :: "(int \<Rightarrow> uint \<Rightarrow> stream \<Rightarrow> time \<Rightarrow> 'w \<Rightarrow> (int \<times> uint \<times> stream \<times> time) \<times> 'w) option"
  get_request_ptr :: "(int \<Rightarrow> int \<Rightarrow> int \<Rightarrow> time \<Rightarrow> 'w \<Rightarrow> int \<times> 'w) option"
  get_requested_ptr :: "(int \<Rightarrow> int \<Rightarrow> stream \<Rightarrow> 'w \<Rightarrow> (uint \<times> stream) \<times> 'w) option"
  try_get_ptr :: "(int \<Rightarrow> uint \<Rightarrow> stream \<Rightarrow> time \<Rightarrow> 'w \<Rightarrow> (int \<times> uint \<times> stream) \<times> 'w) option"
  can_get_ptr :: "(int \<Rightarrow> time \<Rightarrow> 'w \<Rightarrow> int \<times> 'w) option"
  peek_ptr :: "(int \<Rightarrow> uint \<Rightarrow> stream \<Rightarrow> time \<Rightarrow> 'w \<Rightarrow> (int \<times> uint \<times> stream \<times> time) \<times> 'w) option"
  peek_request_ptr :: "(int \<Rightarrow> int \<Rightarrow> int \<Rightarrow> time \<Rightarrow> 'w \<Rightarrow> int \<times> 'w) option"
  peek_requested_ptr :: "(int \<Rightarrow> int \<Rightarrow> stream \<Rightarrow> 'w \<Rightarrow> (uint \<times> stream) \<times> 'w) option"
  try_peek_ptr :: "(int \<Rightarrow> uint \<Rightarrow> stream \<Rightarrow> time \<Rightarrow> 'w \<Rightarrow> (int \<times> uint \<times> stream) \<times> 'w) option"
  can_peek_ptr :: "(int \<Rightarrow> time \<Rightarrow> 'w \<Rightarrow> int \<times> 'w) option"

text \<open>TLM1 transport and analysis, TLM2.\<close>

record 'w tlm2_api =
  transport_request_ptr :: "(int \<Rightarrow> int \<Rightarrow> int \<Rightarrow> uint \<Rightarrow> stream \<Rightarrow> uint \<Rightarrow> stream \<Rightarrow> time \<Rightarrow> 'w \<Rightarrow> (int \<times> uint \<times> stream) \<times> 'w) option"
  transport_response_ptr :: "(int \<Rightarrow> int \<Rightarrow> stream \<Rightarrow> 'w \<Rightarrow> (int \<times> stream) \<times> 'w) option"
  nb_transport_ptr :: "(int \<Rightarrow> uint \<Rightarrow> stream \<Rightarrow> uint \<Rightarrow> stream \<Rightarrow> time \<Rightarrow> 'w \<Rightarrow> (int \<times> uint \<times> stream) \<times> 'w) option"
  write_ptr :: "(int \<Rightarrow> uint \<Rightarrow> stream \<Rightarrow> time \<Rightarrow> 'w \<Rightarrow> 'w) option"
  notify_end_blocking_ptr :: "(int \<Rightarrow> time \<Rightarrow> 'w \<Rightarrow> 'w) option"
  tlm2_b_request_ptr :: "(int \<Rightarrow> int \<Rightarrow> int \<Rightarrow> uint \<Rightarrow> stream \<Rightarrow> time \<Rightarrow> time \<Rightarrow> 'w \<Rightarrow> int \<times> 'w) option"
  tlm2_b_response_ptr :: "(int \<Rightarrow> int \<Rightarrow> uint \<Rightarrow> stream \<Rightarrow> 'w \<Rightarrow> (int \<times> uint \<times> stream) \<times> 'w) option"
  tlm2_nb_fw_ptr :: "(int \<Rightarrow> uint \<Rightarrow> stream \<Rightarrow> tlm_phase \<Rightarrow> uint \<Rightarrow> time \<Rightarrow> time \<Rightarrow> 'w \<Rightarrow> (tlm_sync \<times> uint \<times> stream \<times> tlm_phase \<times> time) \<times> 'w) option"
  tlm2_nb_bw_ptr :: "(int \<Rightarrow> uint \<Rightarrow> stream \<Rightarrow> tlm_phase \<Rightarrow> uint \<Rightarrow> time \<Rightarrow> time \<Rightarrow> 'w \<Rightarrow> (tlm_sync \<times> uint \<times> stream \<times> tlm_phase \<times> time) \<times> 'w) option"
  tlm2_dbg_ptr :: "(int \<Rightarrow> uint \<Rightarrow> stream \<Rightarrow> time \<Rightarrow> 'w \<Rightarrow> (uint \<times> uint \<times> stream) \<times> 'w) option"
  tlm2_turn_off_ptr :: "(string \<Rightarrow> 'w \<Rightarrow> 'w) option"

text \<open>Synchronisation, notifications, time callbacks.\<close>

record 'w notify_api =
  synchronize_ptr :: "(time \<Rightarrow> 'w \<Rightarrow> 'w) option"
  notify_config_ptr :: "(string \<Rightarrow> string \<Rightarrow> string \<Rightarrow> uint \<Rightarrow> stream \<Rightarrow> time \<Rightarrow> 'w \<Rightarrow> 'w) option"
  notify_event_ptr :: "(string \<Rightarrow> string \<Rightarrow> nat \<Rightarrow> uint \<Rightarrow> stream \<Rightarrow> time \<Rightarrow> 'w \<Rightarrow> 'w) option"
  notify_barrier_ptr :: "(string \<Rightarrow> string \<Rightarrow> nat \<Rightarrow> int \<Rightarrow> time \<Rightarrow> 'w \<Rightarrow> 'w) option"
  notify_time_cb_ptr :: "(time \<Rightarrow> nat \<Rightarrow> 'w \<Rightarrow> 'w) option"
  wakeup_register_ptr :: "(int \<Rightarrow> time \<Rightarrow> nat \<Rightarrow> 'w \<Rightarrow> int \<times> 'w) option"
  wakeup_remove_ptr :: "(int \<Rightarrow> 'w \<Rightarrow> int \<times> 'w) option"

text \<open>The component hierarchy, for \<open>print_tree\<close>.\<close>

record 'w tree_api =
  get_num_children_ptr :: "(string \<Rightarrow> 'w \<Rightarrow> int) option"
  get_child_name_ptr :: "(string \<Rightarrow> int \<Rightarrow> 'w \<Rightarrow> string) option"
  get_component_type_name_ptr :: "(string \<Rightarrow> 'w \<Rightarrow> string) option"
  is_port_ptr :: "(string \<Rightarrow> 'w \<Rightarrow> int) option"

record 'w frmw_api =
  setup_fns :: "'w setup_api"
  phase_fns :: "'w phase_api"
  tlm1_fns :: "'w tlm1_api"
  tlm2_fns :: "'w tlm2_api"
  notify_fns :: "'w notify_api"
  tree_fns :: "'w tree_api"

section \<open>Objects\<close>

text \<open>\<open>BpConnectorDescriptorClass\<close> and \<open>BpConnectionClass\<close>; the connector's route type is never set.\<close>

record connection =
  c_frmw :: addr
  c_bind_key :: int
  c_path :: string
  c_intf :: string
  c_kind :: connector_kind
  c_route :: route_type
  fanout :: "addr list"
  fanin :: "addr list"

text \<open>\<open>BpChildProxyClass\<close>.\<close>

record child_proxy =
  cp_target :: int
  cp_parent :: int
  cp_full_name :: string

text \<open>\<open>BpTopDescriptorBaseClass\<close> and \<open>BpTopDescriptorClass\<close>.\<close>

record top_arg =
  ta_indicator :: string
  ta_identifier :: string
  ta_instance :: string
  ta_test :: bool

record top_descriptor =
  td_arg :: top_arg
  td_frmw :: addr
  td_id :: int

text \<open>\<open>BpTypeMapEntryClass\<close> with its list of \<open>FrameworkTypeEntryClass\<close>.\<close>

record type_entry =
  te_id :: uint
  te_types :: "(addr \<times> string) list"

text \<open>\<open>FrameworkProxyClass\<close>.\<close>

record 'w frmw_proxy =
  frmw_id :: int
  frmw_name :: string
  frmw_indicators :: "string list"
  frmw_trace_mode :: int
  top_level_components :: "addr list"
  m_connections :: "(int \<times> addr) list"
  m_type_entries :: "(string \<times> uint) list"
  m_type_names :: "(uint \<times> string) list"
  m_registered_types :: "(uint \<times> addr) list"
  required_api :: "'w frmw_api"
  true_blocking :: bool
  fake_blocking :: bool
  command_backlog :: "string list"

text \<open>\<open>bp_stop_request_struct\<close>.\<close>

record stop_request =
  sr_id :: int
  sr_phase :: string
  sr_action :: phase_action
  sr_checked :: bool

text \<open>A message: its level, its format string and its arguments, not yet formatted.\<close>

datatype level = Error | Warning | Info

type_synonym message = "level \<times> string \<times> string list"

text \<open>
  \<open>UvmMlPhaseService\<close>: how many frameworks take part in a runtime phase and how many of them
  are done (an entry never written counts 0), the current phase, and the time last reported.
\<close>

record phase_service =
  participate :: "string \<Rightarrow> uint"
  participate_done :: "string \<Rightarrow> uint"
  ps_current_phase :: string
  ps_time :: time

section \<open>The static members\<close>

record 'w bp_state =
  proxies :: "addr \<rightharpoonup> 'w frmw_proxy"
  framework_registry :: "addr list"
  frameworks_by_ind :: "(string \<times> addr list) list"
  connections :: "addr \<rightharpoonup> connection"
  port_registry :: "addr list"
  tops :: "addr \<rightharpoonup> top_descriptor"
  top_level_registry :: "addr list"
  top_arguments :: "top_arg list"
  test_component :: addr
  test_instance_name :: string
  child_proxy_registry :: "child_proxy list"
  type_map :: "addr \<rightharpoonup> type_entry"
  next_type_id :: uint
  unregistered_types :: "(string \<times> uint) list"
  unregistered_type_names :: "(uint \<times> string) list"
  elaboration_passed :: bool
  bp_trace_mode :: int
  phase_srv :: addr
  wakeup_srv :: addr
  stopper_srv :: addr
  print_srv :: addr
  common_frmw :: addr
  cmd_line_tops :: "string list"
  cmd_line_tests :: "string list"
  first_time_prerun_cleanup :: bool
  top_level_static_size :: nat
  stop_requests :: "stop_request list"
  stop_last_id :: uint
  current_phase_name :: string
  first_phase :: bool
  transaction_id :: uint
  debug_backlog :: "string list"
  pack_max_size :: int
  phase_service :: "phase_service option"
  bp_next :: addr
  log :: "message list"
  world :: 'w

end
