(* ===== verification/Bp_Registry.thy ===== *)
theory Bp_Registry
  imports Bp_State
begin

text \<open>
  Framework proxies and their registry: the calls a proxy makes into its adapter
  (\<open>bp_framework_proxy.cpp\<close>), the registration of frameworks, indicators and service
  providers, and the notifications that go to every framework but the caller's
  (\<open>bp_base_interconnect.cpp\<close>).
\<close>

section \<open>Messages and proxies\<close>

definition message :: "level \<Rightarrow> string \<Rightarrow> string list \<Rightarrow> 'w bp_state \<Rightarrow> 'w bp_state" where
  "message l fmt args s = s\<lparr>log := log s @ [(l, fmt, args)]\<rparr>"

abbreviation ErrorMsg :: "string \<Rightarrow> string list \<Rightarrow> 'w bp_state \<Rightarrow> 'w bp_state" where
  "ErrorMsg \<equiv> message Error"

abbreviation WarningMsg :: "string \<Rightarrow> string list \<Rightarrow> 'w bp_state \<Rightarrow> 'w bp_state" where
  "WarningMsg \<equiv> message Warning"

definition set_proxy :: "addr \<Rightarrow> 'w frmw_proxy \<Rightarrow> 'w bp_state \<Rightarrow> 'w bp_state" where
  "set_proxy p f s = s\<lparr>proxies := (proxies s)(p \<mapsto> f)\<rparr>"

definition proxy :: "addr \<Rightarrow> 'w bp_state \<Rightarrow> 'w frmw_proxy res" where
  "proxy p s = deref (proxies s) p"

lemma proxy_InrD: "proxy p s = Inr f \<Longrightarrow> p \<noteq> null \<and> proxies s p = Some f"
  by (simp add: proxy_def deref_Inr_iff)

text \<open>Calling a function of the adapter's table: \<open>BP_FRMW_CALL\<close>, \<open>BP_FRMW_CALL_VOID\<close>, queries.\<close>

definition frmw_call ::
  "addr \<Rightarrow> ('w frmw_api \<Rightarrow> ('w \<Rightarrow> 'a \<times> 'w) option) \<Rightarrow> 'a \<Rightarrow> 'w bp_state \<Rightarrow> ('a \<times> 'w bp_state) res" where
  "frmw_call p fn unimplemented s =
     bind_res (proxy p s) (\<lambda>f.
       case fn (required_api f) of
         None \<Rightarrow> Inr (unimplemented, s)
       | Some g \<Rightarrow> (case g (world s) of (r, w) \<Rightarrow> Inr (r, s\<lparr>world := w\<rparr>)))"

definition frmw_call_void ::
  "addr \<Rightarrow> ('w frmw_api \<Rightarrow> ('w \<Rightarrow> 'w) option) \<Rightarrow> 'w bp_state \<Rightarrow> 'w bp_state res" where
  "frmw_call_void p fn s =
     bind_res (proxy p s) (\<lambda>f.
       case fn (required_api f) of None \<Rightarrow> Inr s | Some g \<Rightarrow> Inr (s\<lparr>world := g (world s)\<rparr>))"

definition frmw_query :: "addr \<Rightarrow> ('w frmw_api \<Rightarrow> ('w \<Rightarrow> 'a) option) \<Rightarrow> 'a \<Rightarrow> 'w bp_state \<Rightarrow> 'a res" where
  "frmw_query p fn unimplemented s =
     bind_res (proxy p s) (\<lambda>f.
       case fn (required_api f) of None \<Rightarrow> Inr unimplemented | Some g \<Rightarrow> Inr (g (world s)))"

section \<open>The registry\<close>

definition GetFramework :: "int \<Rightarrow> 'w bp_state \<Rightarrow> addr res" where
  "GetFramework frameworkId s =
     (if 0 \<le> frameworkId \<and> frameworkId < int (length (framework_registry s))
      then Inr (framework_registry s ! nat frameworkId) else Inl Bad_Index)"

definition has_frmw_name :: "'w bp_state \<Rightarrow> string \<Rightarrow> addr \<Rightarrow> bool" where
  "has_frmw_name s nm p =
     (case proxies s p of None \<Rightarrow> False | Some f \<Rightarrow> same_ignoring_case (frmw_name f) nm)"

definition GetFrameworkProxyByName :: "string \<Rightarrow> 'w bp_state \<Rightarrow> addr" where
  "GetFrameworkProxyByName frameworkName s =
     (case find (has_frmw_name s frameworkName) (framework_registry s) of None \<Rightarrow> null | Some p \<Rightarrow> p)"

text \<open>More than one framework under an indicator is a message and \<open>exit(-1)\<close>.\<close>

definition GetFrameworkProxyByInd :: "string \<Rightarrow> 'w bp_state \<Rightarrow> addr res" where
  "GetFrameworkProxyByInd frameworkIndicator s =
     (case map_of (frameworks_by_ind s) (to_lower frameworkIndicator) of
        None \<Rightarrow> Inr null
      | Some frmws \<Rightarrow>
          if 1 < length frmws then Inl Exit_Failure
          else if frmws = [] then Inl Bad_Index
          else Inr (hd frmws))"

definition AddFrmwIndicator :: "string \<Rightarrow> addr \<Rightarrow> 'w bp_state \<Rightarrow> 'w bp_state" where
  "AddFrmwIndicator indicator frmw s =
     (let indicator_normalized = to_lower indicator;
          frmws = (case map_of (frameworks_by_ind s) indicator_normalized of None \<Rightarrow> [] | Some ps \<Rightarrow> ps)
      in s\<lparr>frameworks_by_ind := map_put indicator_normalized (frmws @ [frmw]) (frameworks_by_ind s)\<rparr>)"

definition AddIndicatorsMap :: "string list \<Rightarrow> addr \<Rightarrow> 'w bp_state \<Rightarrow> 'w bp_state" where
  "AddIndicatorsMap indicators p s = fold (\<lambda>i. AddFrmwIndicator i p) indicators s"

definition new_frmw :: "int \<Rightarrow> string \<Rightarrow> string list \<Rightarrow> 'w frmw_api \<Rightarrow> 'w frmw_proxy" where
  "new_frmw i nm inds api =
     \<lparr>frmw_id = i, frmw_name = nm, frmw_indicators = inds, frmw_trace_mode = 0, top_level_components = [],
      m_connections = [], m_type_entries = [], m_type_names = [], m_registered_types = [],
      required_api = api, true_blocking = False, fake_blocking = True, command_backlog = []\<rparr>"

definition FrameworkProxyClass ::
  "int \<Rightarrow> string \<Rightarrow> string list \<Rightarrow> 'w frmw_api \<Rightarrow> 'w bp_state \<Rightarrow> addr \<times> 'w bp_state" where
  "FrameworkProxyClass i nm inds api s =
     (let p = bp_next s; s = set_proxy p (new_frmw i nm inds api) (s\<lparr>bp_next := Suc p\<rparr>)
      in (p, AddIndicatorsMap inds p s))"

definition addFramework :: "string \<Rightarrow> string list \<Rightarrow> 'w frmw_api \<Rightarrow> 'w bp_state \<Rightarrow> addr \<times> 'w bp_state" where
  "addFramework nm inds api s =
     (let (p, s) = FrameworkProxyClass (int (length (framework_registry s))) nm inds api s
      in (p, s\<lparr>framework_registry := framework_registry s @ [p]\<rparr>))"

definition BacklogCommands :: "string list \<Rightarrow> 'w frmw_proxy \<Rightarrow> 'w frmw_proxy" where
  "BacklogCommands commands f = f\<lparr>command_backlog := commands\<rparr>"

definition RegisterFramework ::
  "string \<Rightarrow> string list \<Rightarrow> 'w frmw_api option \<Rightarrow> 'w bp_state \<Rightarrow> (int \<times> 'w bp_state) res" where
  "RegisterFramework nm inds api s =
     (case api of
        None \<Rightarrow> Inr (-1, message Info ''Framework '' [nm, ''Required API tray pointer is null''] s)
      | Some a \<Rightarrow>
          let p = GetFrameworkProxyByName nm s
          in if p \<noteq> null then bind_res (proxy p s) (\<lambda>f. Inr (frmw_id f, s))
             else let (p, s) = addFramework nm inds a s
                  in bind_res (proxy p s) (\<lambda>f.
                       Inr (frmw_id f, set_proxy p (BacklogCommands (debug_backlog s) f) s)))"

section \<open>Service providers\<close>

definition RegisterCommonSrvFrmw :: "addr \<Rightarrow> 'w bp_state \<Rightarrow> 'w bp_state" where
  "RegisterCommonSrvFrmw frmw s = s\<lparr>common_frmw := frmw\<rparr>"

definition findServiceFrmw :: "string \<Rightarrow> 'w bp_state \<Rightarrow> addr res" where
  "findServiceFrmw name s =
     bind_res (proxy (common_frmw s) s) (\<lambda>f.
       Inr (if name = frmw_name f then common_frmw s else GetFrameworkProxyByName name s))"

text \<open>One of the four services: a name that is not null and not empty, and a framework of that name.\<close>

definition register_service ::
  "string option \<Rightarrow> (addr \<Rightarrow> 'w bp_state \<Rightarrow> 'w bp_state) \<Rightarrow> ('w bp_state \<Rightarrow> 'w bp_state) \<Rightarrow>
   'w bp_state \<Rightarrow> 'w bp_state res" where
  "register_service nm assign not_found s =
     (case nm of
        None \<Rightarrow> Inr s
      | Some n \<Rightarrow>
          if n = [] then Inr s
          else bind_res (findServiceFrmw n s) (\<lambda>p. Inr (if p \<noteq> null then assign p s else not_found s)))"

definition RegisterSrvProviders ::
  "string option \<Rightarrow> string option \<Rightarrow> string option \<Rightarrow> string option \<Rightarrow> 'w bp_state \<Rightarrow> 'w bp_state res" where
  "RegisterSrvProviders phase_nm wakeup_nm stopper_nm print_nm s =
     bind_res (register_service phase_nm (\<lambda>p s. s\<lparr>phase_srv := p\<rparr>)
       (WarningMsg ''BpInterconnect::RegisterSrvProviders() Phase service framework not found : %s''
          (case phase_nm of None \<Rightarrow> [] | Some n \<Rightarrow> [n])) s) (\<lambda>s.
     bind_res (register_service wakeup_nm (\<lambda>p s. s\<lparr>wakeup_srv := p\<rparr>) (\<lambda>s. s) s) (\<lambda>s.
     bind_res (register_service stopper_nm (\<lambda>p s. s\<lparr>stopper_srv := p\<rparr>) (\<lambda>s. s) s) (\<lambda>s.
     register_service print_nm (\<lambda>p s. s\<lparr>print_srv := p\<rparr>) (\<lambda>s. s) s)))"

text \<open>\<open>CommonServicesFramework\<close>, created before any framework is registered.\<close>

definition CommonServicesFramework :: "'w frmw_api \<Rightarrow> 'w bp_state \<Rightarrow> 'w bp_state res" where
  "CommonServicesFramework api s =
     (let (p, s) = FrameworkProxyClass (-1) ''Common Services'' [''Common Services''] api s
      in RegisterSrvProviders (Some ''Common Services'') (Some []) (Some []) (Some ''Common Services'')
           (RegisterCommonSrvFrmw p s))"

section \<open>Calls of a proxy into its adapter\<close>

definition NotifyCommand :: "addr \<Rightarrow> string \<Rightarrow> time \<Rightarrow> 'w bp_state \<Rightarrow> (int \<times> 'w bp_state) res" where
  "NotifyCommand p command t =
     frmw_call p (\<lambda>a. map_option (\<lambda>g. g command t) (notify_command_ptr (phase_fns a))) (-1)"

text \<open>A thrown exception is the answer \<open>False\<close>.\<close>

fun run_backlog :: "addr \<Rightarrow> string list \<Rightarrow> 'w bp_state \<Rightarrow> (bool \<times> 'w bp_state) res" where
  "run_backlog p [] s = Inr (True, s)"
| "run_backlog p (cmd # cmds) s =
     bind_res (NotifyCommand p cmd (UNIT_UNDEFINED, 0) s) (\<lambda>(r, s).
       if r = 0 then
         bind_res (proxy p s) (\<lambda>f.
           Inr (False, ErrorMsg ''Command '%s' request failed for framework %s'' [cmd, frmw_name f] s))
       else run_backlog p cmds s)"

definition ExecuteBacklogCommands :: "addr \<Rightarrow> 'w bp_state \<Rightarrow> (bool \<times> 'w bp_state) res" where
  "ExecuteBacklogCommands p s = bind_res (proxy p s) (\<lambda>f. run_backlog p (command_backlog f) s)"

definition Startup :: "addr \<Rightarrow> 'w bp_state \<Rightarrow> (bool \<times> 'w bp_state) res" where
  "Startup p s =
     bind_res (frmw_call p (\<lambda>a. startup_ptr (setup_fns a)) (-1) s) (\<lambda>(result, s).
       if result = 0 then Inr (False, s)
       else
         bind_res (ExecuteBacklogCommands p s) (\<lambda>(ok, s).
           if ok then bind_res (proxy p s) (\<lambda>f. Inr (True, set_proxy p (f\<lparr>command_backlog := []\<rparr>) s))
           else Inr (False, s)))"

definition InstantiateTopLevel :: "addr \<Rightarrow> string \<Rightarrow> string \<Rightarrow> 'w bp_state \<Rightarrow> (int \<times> 'w bp_state) res" where
  "InstantiateTopLevel p componentTypeName instanceName =
     frmw_call p (\<lambda>a. map_option (\<lambda>g. g componentTypeName instanceName) (construct_top_ptr (setup_fns a))) (-1)"

text \<open>Without the function the argument itself; with a null result the empty name.\<close>

definition GetTopComponentForArg :: "addr \<Rightarrow> string \<Rightarrow> 'w bp_state \<Rightarrow> string res" where
  "GetTopComponentForArg p arg s =
     bind_res (proxy p s) (\<lambda>f.
       case get_top_component_for_arg_ptr (setup_fns (required_api f)) of
         None \<Rightarrow> Inr arg
       | Some g \<Rightarrow> (case g arg (world s) of None \<Rightarrow> Inr [] | Some r \<Rightarrow> Inr r))"

text \<open>\<open>FrameworkProxyClass::SetTraceMode\<close> calls through the pointer without testing it.\<close>

definition frmw_SetTraceMode :: "addr \<Rightarrow> int \<Rightarrow> 'w bp_state \<Rightarrow> 'w bp_state res" where
  "frmw_SetTraceMode p mode s =
     bind_res (proxy p s) (\<lambda>f.
       if frmw_trace_mode f \<noteq> mode then
         (case set_trace_mode_ptr (setup_fns (required_api f)) of
            None \<Rightarrow> Inl Null_Deref
          | Some g \<Rightarrow> Inr (set_proxy p (f\<lparr>frmw_trace_mode := mode\<rparr>) (s\<lparr>world := g mode (world s)\<rparr>)))
       else Inr s)"

definition SetTraceMode :: "int \<Rightarrow> 'w bp_state \<Rightarrow> 'w bp_state res" where
  "SetTraceMode mode s =
     fold_res (\<lambda>p. frmw_SetTraceMode p mode) (framework_registry s) (s\<lparr>bp_trace_mode := mode\<rparr>)"

section \<open>Notifications to the other frameworks\<close>

text \<open>The loop over the registry that skips the framework with the caller's id.\<close>

definition other_frameworks ::
  "int \<Rightarrow> (addr \<Rightarrow> 'w bp_state \<Rightarrow> 'w bp_state res) \<Rightarrow> 'w bp_state \<Rightarrow> 'w bp_state res" where
  "other_frameworks frameworkId call s =
     fold_res (\<lambda>p s. bind_res (proxy p s) (\<lambda>f. if frmw_id f \<noteq> frameworkId then call p s else Inr s))
       (framework_registry s) s"

definition frmw_Synchronize :: "time \<Rightarrow> addr \<Rightarrow> 'w bp_state \<Rightarrow> 'w bp_state res" where
  "frmw_Synchronize t p = frmw_call_void p (\<lambda>a. map_option (\<lambda>g. g t) (synchronize_ptr (notify_fns a)))"

definition Synchronize :: "int \<Rightarrow> time \<Rightarrow> 'w bp_state \<Rightarrow> 'w bp_state res" where
  "Synchronize frameworkId t = other_frameworks frameworkId (frmw_Synchronize t)"

definition frmw_NotifyConfig ::
  "string \<Rightarrow> string \<Rightarrow> string \<Rightarrow> uint \<Rightarrow> stream \<Rightarrow> time \<Rightarrow> addr \<Rightarrow> 'w bp_state \<Rightarrow> 'w bp_state res" where
  "frmw_NotifyConfig cntxt instance_name field_name stream_size strm t p =
     frmw_call_void p (\<lambda>a. map_option (\<lambda>g. g cntxt instance_name field_name stream_size strm t)
       (notify_config_ptr (notify_fns a)))"

definition NotifyConfig ::
  "int \<Rightarrow> string \<Rightarrow> string \<Rightarrow> string \<Rightarrow> uint \<Rightarrow> stream \<Rightarrow> time \<Rightarrow> 'w bp_state \<Rightarrow> 'w bp_state res" where
  "NotifyConfig frameworkId cntxt instanceName field_name stream_size strm t =
     other_frameworks frameworkId (frmw_NotifyConfig cntxt instanceName field_name stream_size strm t)"

definition frmw_NotifyEvent ::
  "string \<Rightarrow> string \<Rightarrow> nat \<Rightarrow> uint \<Rightarrow> stream \<Rightarrow> time \<Rightarrow> addr \<Rightarrow> 'w bp_state \<Rightarrow> 'w bp_state res" where
  "frmw_NotifyEvent scope_name event_name action stream_size strm t p =
     frmw_call_void p (\<lambda>a. map_option (\<lambda>g. g scope_name event_name action stream_size strm t)
       (notify_event_ptr (notify_fns a)))"

definition NotifyEvent ::
  "int \<Rightarrow> string \<Rightarrow> string \<Rightarrow> nat \<Rightarrow> uint \<Rightarrow> stream \<Rightarrow> time \<Rightarrow> 'w bp_state \<Rightarrow> 'w bp_state res" where
  "NotifyEvent framework_id scope_name event_name action stream_size strm t =
     other_frameworks framework_id (frmw_NotifyEvent scope_name event_name action stream_size strm t)"

definition frmw_NotifyBarrier ::
  "string \<Rightarrow> string \<Rightarrow> nat \<Rightarrow> int \<Rightarrow> time \<Rightarrow> addr \<Rightarrow> 'w bp_state \<Rightarrow> 'w bp_state res" where
  "frmw_NotifyBarrier scope_name barrier_name action count t p =
     frmw_call_void p (\<lambda>a. map_option (\<lambda>g. g scope_name barrier_name action count t)
       (notify_barrier_ptr (notify_fns a)))"

definition NotifyBarrier ::
  "int \<Rightarrow> string \<Rightarrow> string \<Rightarrow> nat \<Rightarrow> int \<Rightarrow> time \<Rightarrow> 'w bp_state \<Rightarrow> 'w bp_state res" where
  "NotifyBarrier framework_id scope_name barrier_name action count t =
     other_frameworks framework_id (frmw_NotifyBarrier scope_name barrier_name action count t)"

section \<open>Time callbacks\<close>

definition frmw_RegisterTimeCallback ::
  "addr \<Rightarrow> int \<Rightarrow> time \<Rightarrow> nat \<Rightarrow> 'w bp_state \<Rightarrow> (int \<times> 'w bp_state) res" where
  "frmw_RegisterTimeCallback p targetFrameworkId t cb_data =
     frmw_call p (\<lambda>a. map_option (\<lambda>g. g targetFrameworkId t cb_data) (wakeup_register_ptr (notify_fns a))) 0"

definition frmw_RemoveTimeCallback :: "addr \<Rightarrow> int \<Rightarrow> 'w bp_state \<Rightarrow> (int \<times> 'w bp_state) res" where
  "frmw_RemoveTimeCallback p cb_handle =
     frmw_call p (\<lambda>a. map_option (\<lambda>g. g cb_handle) (wakeup_remove_ptr (notify_fns a))) 0"

definition frmw_NotifyTimeCallback :: "addr \<Rightarrow> time \<Rightarrow> nat \<Rightarrow> 'w bp_state \<Rightarrow> 'w bp_state res" where
  "frmw_NotifyTimeCallback p t cb_data =
     frmw_call_void p (\<lambda>a. map_option (\<lambda>g. g t cb_data) (notify_time_cb_ptr (notify_fns a)))"

definition RegisterTimeCallback ::
  "int \<Rightarrow> time \<Rightarrow> nat \<Rightarrow> 'w bp_state \<Rightarrow> (int \<times> 'w bp_state) res" where
  "RegisterTimeCallback frameworkId t cbData s =
     (if wakeup_srv s \<noteq> null then frmw_RegisterTimeCallback (wakeup_srv s) frameworkId t cbData s
      else Inr (0, ErrorMsg ''Unable to find any wake-up service provider'' [] s))"

definition RemoveTimeCallback :: "int \<Rightarrow> int \<Rightarrow> 'w bp_state \<Rightarrow> (int \<times> 'w bp_state) res" where
  "RemoveTimeCallback frameworkId cb_handle s =
     (if wakeup_srv s \<noteq> null then frmw_RemoveTimeCallback (wakeup_srv s) cb_handle s
      else Inr (0, ErrorMsg ''Unable to find any wake-up service provider'' [] s))"

definition NotifyTimeCallback :: "int \<Rightarrow> int \<Rightarrow> time \<Rightarrow> nat \<Rightarrow> 'w bp_state \<Rightarrow> 'w bp_state res" where
  "NotifyTimeCallback frameworkId targetFrameworkId t cbData s =
     bind_res (GetFramework targetFrameworkId s) (\<lambda>p.
       if p \<noteq> null then frmw_NotifyTimeCallback p t cbData s
       else Inr (ErrorMsg ''Unable to find a framework with id %d'' [] s))"

section \<open>What the registry keeps\<close>

text \<open>
  Framework ids are positions in the registry, every address in it is a live proxy, no two of
  them share a name (letter case aside), and the next address is free.
\<close>

definition registry_ok :: "'w bp_state \<Rightarrow> bool" where
  "registry_ok s \<longleftrightarrow>
     0 < bp_next s \<and> (\<forall>p \<in> dom (proxies s). 0 < p \<and> p < bp_next s) \<and>
     (\<forall>i < length (framework_registry s).
        \<exists>f. proxies s (framework_registry s ! i) = Some f \<and> frmw_id f = int i) \<and>
     sorted_wrt (\<lambda>p q. \<not> same_ignoring_case (frmw_name (the (proxies s p))) (frmw_name (the (proxies s q))))
       (framework_registry s)"

lemma registry_ok_nth:
  assumes "registry_ok s" and "i < length (framework_registry s)"
  obtains f where "proxies s (framework_registry s ! i) = Some f" and "frmw_id f = int i"
  using assms by (auto simp: registry_ok_def)

lemma registry_ok_in:
  assumes "registry_ok s" and "p \<in> set (framework_registry s)"
  obtains f where "proxies s p = Some f" and "p \<noteq> null" and "p < bp_next s"
    and "0 \<le> frmw_id f" and "nat (frmw_id f) < length (framework_registry s)"
    and "framework_registry s ! nat (frmw_id f) = p"
proof -
  obtain i where i: "i < length (framework_registry s)" "framework_registry s ! i = p"
    using assms(2) by (auto simp: in_set_conv_nth)
  obtain f where f: "proxies s p = Some f" "frmw_id f = int i"
    using registry_ok_nth [OF assms(1) i(1)] i(2) by auto
  moreover have "p \<noteq> null \<and> p < bp_next s" using assms(1) f(1) by (auto simp: registry_ok_def)
  ultimately show ?thesis using that i by auto
qed

lemma registry_ok_distinct: "registry_ok s \<Longrightarrow> distinct (framework_registry s)"
  unfolding distinct_conv_nth
  by (metis (no_types, lifting) nat_int option.inject registry_ok_nth)

lemma registry_proxy:
  "registry_ok s \<Longrightarrow> p \<in> set (framework_registry s) \<Longrightarrow> proxy p s = Inr (the (proxies s p))"
  by (erule registry_ok_in) (auto simp: proxy_def)

text \<open>A call to an adapter changes nothing but the adapters' own state.\<close>

definition call_world :: "'w bp_state \<Rightarrow> ('w frmw_api \<Rightarrow> ('w \<Rightarrow> 'w) option) \<Rightarrow> addr \<Rightarrow> 'w \<Rightarrow> 'w" where
  "call_world s fn p w = (case fn (required_api (the (proxies s p))) of None \<Rightarrow> w | Some g \<Rightarrow> g w)"

lemma frmw_call_void_world:
  assumes "registry_ok s" and "p \<in> set (framework_registry s)"
  shows "frmw_call_void p fn (s\<lparr>world := w\<rparr>) = Inr (s\<lparr>world := call_world s fn p w\<rparr>)"
proof -
  have "proxy p (s\<lparr>world := w\<rparr>) = Inr (the (proxies s p))"
    using registry_proxy [OF assms] by (simp add: proxy_def)
  then show ?thesis
    by (simp add: frmw_call_void_def call_world_def split: option.splits)
qed

definition others :: "'w bp_state \<Rightarrow> int \<Rightarrow> addr list" where
  "others s i = filter (\<lambda>p. frmw_id (the (proxies s p)) \<noteq> i) (framework_registry s)"

lemma other_frameworks_world:
  assumes ok: "registry_ok s"
  shows "other_frameworks i (\<lambda>p. frmw_call_void p fn) s =
           Inr (s\<lparr>world := fold (call_world s fn) (others s i) (world s)\<rparr>)"
proof -
  let ?step = "\<lambda>p s. bind_res (proxy p s) (\<lambda>f. if frmw_id f \<noteq> i then frmw_call_void p fn s else Inr s)"
  have step: "?step p (s\<lparr>world := w\<rparr>) =
      Inr (s\<lparr>world := if frmw_id (the (proxies s p)) \<noteq> i then call_world s fn p w else w\<rparr>)"
    if "p \<in> set (framework_registry s)" for p w
    using registry_proxy [OF ok that] frmw_call_void_world [OF ok that]
    by (simp add: proxy_def)
  have "fold_res ?step ps (s\<lparr>world := w\<rparr>) =
      Inr (s\<lparr>world := fold (call_world s fn) (filter (\<lambda>p. frmw_id (the (proxies s p)) \<noteq> i) ps) w\<rparr>)"
    if "set ps \<subseteq> set (framework_registry s)" for ps w
    using that
  proof (induction ps arbitrary: w)
    case (Cons p ps)
    then show ?case using step [of p w] by simp
  qed simp
  from this [of "framework_registry s" "world s"] show ?thesis
    by (simp add: other_frameworks_def others_def)
qed

text \<open>The other frameworks are all of the registry but the position of the caller.\<close>

lemma others_registry:
  assumes "registry_ok s"
  shows "others s (int i) = take i (framework_registry s) @ drop (Suc i) (framework_registry s)"
proof -
  have "filter (\<lambda>p. frmw_id (the (proxies s p)) \<noteq> int i) xs = take (i - k) xs @ drop (Suc i - k) xs"
    if "k \<le> i" and "\<forall>j < length xs. frmw_id (the (proxies s (xs ! j))) = int (k + j)" for k and xs :: "addr list"
    using that
  proof (induction xs arbitrary: k)
    case (Cons x xs)
    have x: "frmw_id (the (proxies s x)) = int k" using Cons.prems(2) by force
    have xs: "\<forall>j < length xs. frmw_id (the (proxies s (xs ! j))) = int (Suc k + j)"
    proof (intro allI impI)
      fix j assume "j < length xs"
      then show "frmw_id (the (proxies s (xs ! j))) = int (Suc k + j)"
        using Cons.prems(2) [rule_format, of "Suc j"] by simp
    qed
    show ?case
    proof (cases "k = i")
      case True
      have "\<forall>y \<in> set xs. frmw_id (the (proxies s y)) \<noteq> int i"
        using xs True by (auto simp: in_set_conv_nth)
      then show ?thesis using x True by (simp add: filter_id_conv)
    next
      case False
      then have "Suc k \<le> i" using Cons.prems(1) by simp
      from Cons.IH [OF this xs] show ?thesis using x False \<open>Suc k \<le> i\<close>
        by (simp add: Suc_diff_le take_Cons' drop_Cons' split: nat.splits)
    qed
  qed simp
  from this [of 0 "framework_registry s"] show ?thesis
    using assms registry_ok_nth by (fastforce simp: others_def)
qed

section \<open>Registration\<close>

lemma fold_AddFrmwIndicator:
  "\<exists>inds. fold (\<lambda>i. AddFrmwIndicator i p) is s = s\<lparr>frameworks_by_ind := inds\<rparr>"
proof (induction "is" arbitrary: s)
  case Nil
  have "s = s\<lparr>frameworks_by_ind := frameworks_by_ind s\<rparr>" by simp
  then show ?case unfolding fold.simps id_apply by (rule exI)
next
  case (Cons i "is")
  obtain inds where i: "AddFrmwIndicator i p s = s\<lparr>frameworks_by_ind := inds\<rparr>"
    by (simp add: AddFrmwIndicator_def Let_def)
  obtain inds' where "fold (\<lambda>i. AddFrmwIndicator i p) is (AddFrmwIndicator i p s) =
      (AddFrmwIndicator i p s)\<lparr>frameworks_by_ind := inds'\<rparr>" using Cons by blast
  then show ?case by (intro exI [of _ inds']) (simp add: i)
qed

lemma addFramework_eq:
  obtains inds' where "addFramework nm inds api s =
    (bp_next s, s\<lparr>proxies := (proxies s)(bp_next s \<mapsto> new_frmw (int (length (framework_registry s))) nm inds api),
       framework_registry := framework_registry s @ [bp_next s],
       frameworks_by_ind := inds', bp_next := Suc (bp_next s)\<rparr>)"
proof -
  let ?f = "new_frmw (int (length (framework_registry s))) nm inds api"
  let ?s = "set_proxy (bp_next s) ?f (s\<lparr>bp_next := Suc (bp_next s)\<rparr>)"
  obtain inds' where "fold (\<lambda>i. AddFrmwIndicator i (bp_next s)) inds ?s = ?s\<lparr>frameworks_by_ind := inds'\<rparr>"
    using fold_AddFrmwIndicator by blast
  then show ?thesis
    by (intro that [of inds'])
      (simp add: addFramework_def FrameworkProxyClass_def AddIndicatorsMap_def Let_def set_proxy_def)
qed

lemma GetFrameworkProxyByName_null:
  assumes "registry_ok s" and "GetFrameworkProxyByName nm s = null" and "p \<in> set (framework_registry s)"
  shows "\<not> same_ignoring_case (frmw_name (the (proxies s p))) nm"
proof (cases "find (has_frmw_name s nm) (framework_registry s)")
  case None
  obtain f where "proxies s p = Some f" using assms(1,3) by (rule registry_ok_in)
  then show ?thesis using None assms(3) by (auto simp: find_None_iff has_frmw_name_def)
next
  case (Some q)
  then have "q \<in> set (framework_registry s)" by (auto simp: find_Some_iff)
  then have "q \<noteq> null" using assms(1) by (auto elim: registry_ok_in)
  then show ?thesis using assms(2) Some by (simp add: GetFrameworkProxyByName_def)
qed

lemma GetFrameworkProxyByName_found:
  assumes "registry_ok s" and "GetFrameworkProxyByName nm s = p" and "p \<noteq> null"
  shows "p \<in> set (framework_registry s) \<and> same_ignoring_case (frmw_name (the (proxies s p))) nm"
proof -
  have f: "find (has_frmw_name s nm) (framework_registry s) = Some p"
    using assms by (auto simp: GetFrameworkProxyByName_def split: option.splits)
  then have "p \<in> set (framework_registry s)" by (auto simp: find_Some_iff)
  moreover have "has_frmw_name s nm p" using f by (auto simp: find_Some_iff)
  ultimately show ?thesis by (auto simp: has_frmw_name_def split: option.splits)
qed

text \<open>The first framework of the name is the only one.\<close>

lemma GetFrameworkProxyByName_unique:
  assumes ok: "registry_ok s" and p: "p \<in> set (framework_registry s)"
    and n: "same_ignoring_case (frmw_name (the (proxies s p))) nm"
  shows "GetFrameworkProxyByName nm s = p"
proof -
  have "GetFrameworkProxyByName nm s \<noteq> null"
    using GetFrameworkProxyByName_null [OF ok _ p] n by auto
  then obtain q where q: "GetFrameworkProxyByName nm s = q" "q \<in> set (framework_registry s)"
      "same_ignoring_case (frmw_name (the (proxies s q))) nm"
    using GetFrameworkProxyByName_found [OF ok] by blast
  have sym: "same_ignoring_case (frmw_name (the (proxies s p))) (frmw_name (the (proxies s q)))"
      "same_ignoring_case (frmw_name (the (proxies s q))) (frmw_name (the (proxies s p)))"
    using q(3) n by (simp_all add: same_ignoring_case_def)
  obtain i j where i: "i < length (framework_registry s)" "framework_registry s ! i = p"
    and j: "j < length (framework_registry s)" "framework_registry s ! j = q"
    using p q(2) by (auto simp: in_set_conv_nth)
  have "\<not> i < j" and "\<not> j < i"
    using ok i j sym unfolding registry_ok_def sorted_wrt_iff_nth_less by blast+
  then have "i = j" by simp
  then show ?thesis using i j q by simp
qed

lemma registry_ok_addFramework:
  assumes ok: "registry_ok s" and new: "GetFrameworkProxyByName nm s = null"
    and f: "addFramework nm inds api s = (p, s')"
  shows "registry_ok s'"
proof -
  let ?r = "framework_registry s" and ?a = "bp_next s"
  obtain inds' where s': "s' = s\<lparr>proxies := (proxies s)(?a \<mapsto> new_frmw (int (length ?r)) nm inds api),
      framework_registry := ?r @ [?a], frameworks_by_ind := inds', bp_next := Suc ?a\<rparr>"
    using addFramework_eq [of nm inds api s] f by auto
  have old: "x \<noteq> ?a" if "x \<in> set ?r" for x
    using ok that by (auto elim: registry_ok_in)
  have nth: "\<exists>f. proxies s' (framework_registry s' ! i) = Some f \<and> frmw_id f = int i"
    if "i < length (framework_registry s')" for i
  proof (cases "i = length ?r")
    case True
    then show ?thesis by (simp add: s' new_frmw_def)
  next
    case False
    then have i: "i < length ?r" using that by (simp add: s')
    obtain f where "proxies s (?r ! i) = Some f" "frmw_id f = int i" using ok i by (rule registry_ok_nth)
    then show ?thesis using i old [OF nth_mem [OF i]] by (simp add: s' nth_append)
  qed
  have names: "sorted_wrt (\<lambda>p q. \<not> same_ignoring_case (frmw_name (the (proxies s' p))) (frmw_name (the (proxies s' q))))
      (framework_registry s')"
  proof -
    have "sorted_wrt (\<lambda>p q. \<not> same_ignoring_case (frmw_name (the (proxies s' p))) (frmw_name (the (proxies s' q)))) ?r"
    proof (rule sorted_wrt_mono_rel)
      show "sorted_wrt (\<lambda>p q. \<not> same_ignoring_case (frmw_name (the (proxies s p))) (frmw_name (the (proxies s q)))) ?r"
        using ok by (simp add: registry_ok_def)
    qed (use old in \<open>simp add: s'\<close>)
    moreover have "\<not> same_ignoring_case (frmw_name (the (proxies s' p))) (frmw_name (the (proxies s' ?a)))"
      if "p \<in> set ?r" for p
      using GetFrameworkProxyByName_null [OF ok new that] old [OF that] by (simp add: s' new_frmw_def)
    ultimately show ?thesis by (simp add: s' sorted_wrt_append)
  qed
  have "\<forall>x \<in> dom (proxies s'). 0 < x \<and> x < bp_next s'" and "0 < bp_next s'"
    using ok by (auto simp: registry_ok_def s' less_Suc_eq domIff)
  then show ?thesis using nth names unfolding registry_ok_def by blast
qed

text \<open>Changing a proxy but for its id and name.\<close>

lemma registry_ok_set_proxy:
  assumes "registry_ok s" and "proxies s p = Some f" and "frmw_id g = frmw_id f" and "frmw_name g = frmw_name f"
  shows "registry_ok (set_proxy p g s)"
proof -
  have "frmw_name (the (((proxies s)(p \<mapsto> g)) q)) = frmw_name (the (proxies s q))" for q
    using assms by simp
  moreover have "dom ((proxies s)(p \<mapsto> g)) = dom (proxies s)" using assms(2) by auto
  moreover have "\<exists>f. ((proxies s)(p \<mapsto> g)) (framework_registry s ! i) = Some f \<and> frmw_id f = int i"
    if i: "i < length (framework_registry s)" for i
  proof -
    obtain h where "proxies s (framework_registry s ! i) = Some h" "frmw_id h = int i"
      using registry_ok_nth [OF assms(1) i] by blast
    then show ?thesis using assms(2,3) by (cases "framework_registry s ! i = p") auto
  qed
  ultimately show ?thesis using assms(1) unfolding registry_ok_def set_proxy_def by simp
qed

lemma RegisterFramework_registered:
  assumes ok: "registry_ok s" and reg: "RegisterFramework nm inds (Some api) s = Inr (i, s')"
  shows "registry_ok s' \<and> 0 \<le> i \<and>
         GetFramework i s' = Inr (GetFrameworkProxyByName nm s') \<and> GetFrameworkProxyByName nm s' \<noteq> null"
proof (cases "GetFrameworkProxyByName nm s = null")
  case False
  let ?p = "GetFrameworkProxyByName nm s"
  have p: "?p \<in> set (framework_registry s)"
    using GetFrameworkProxyByName_found [OF ok refl False] by blast
  then have "s' = s" and "i = frmw_id (the (proxies s ?p))"
    using reg False registry_proxy [OF ok p] by (auto simp: RegisterFramework_def Let_def)
  then show ?thesis using p ok False by (auto simp: GetFramework_def elim: registry_ok_in)
next
  case True
  let ?r = "framework_registry s"
  obtain inds' where add: "addFramework nm inds api s =
      (bp_next s, s\<lparr>proxies := (proxies s)(bp_next s \<mapsto> new_frmw (int (length ?r)) nm inds api),
        framework_registry := ?r @ [bp_next s], frameworks_by_ind := inds', bp_next := Suc (bp_next s)\<rparr>)"
    (is "_ = (_, ?t)") using addFramework_eq [of nm inds api s] by blast
  have pos: "bp_next s \<noteq> null" using ok by (simp add: registry_ok_def)
  let ?f = "new_frmw (int (length ?r)) nm inds api"
  have s': "s' = set_proxy (bp_next s) (BacklogCommands (debug_backlog ?t) ?f) ?t" and i: "i = int (length ?r)"
    using reg True add pos
    by (auto simp: RegisterFramework_def Let_def proxy_def deref_def new_frmw_def)
  have "registry_ok ?t" using registry_ok_addFramework [OF ok True add] .
  then have ok': "registry_ok s'" unfolding s'
    by (rule registry_ok_set_proxy [where f = ?f]) (simp_all add: BacklogCommands_def)
  have "GetFrameworkProxyByName nm s' = bp_next s"
    by (rule GetFrameworkProxyByName_unique [OF ok'])
      (simp_all add: s' set_proxy_def BacklogCommands_def new_frmw_def same_ignoring_case_def)
  then show ?thesis using ok' i pos by (simp add: GetFramework_def s' set_proxy_def)
qed

end
