(* ===== verification/Bp_View.thy ===== *)
theory Bp_View
  imports Bp_Registry
begin

text \<open>
  What a call leaves alone. A \<^emph>\<open>view\<close> is a part of the backplane's state, given as a function
  of it; a locale says which updates do not touch the view, and its lemmas say which operations
  do not. \<open>call_view\<close> is for the operations that write messages and call adapters, \<open>phase_view\<close>
  adds the bookkeeping of phases, \<open>command_view\<close> the stop requests and the backlog of commands.
  The lemmas about the operations of a component are in that component's theory.
\<close>

locale call_view =
  fixes view :: "'w bp_state \<Rightarrow> 'v"
  assumes view_log [simp]: "view (s\<lparr>log := l\<rparr>) = view s"
    and view_world [simp]: "view (s\<lparr>world := w\<rparr>) = view s"
begin

lemma view_message [simp]: "view (message l fmt args s) = view s"
  by (simp add: message_def)

lemma frmw_call_view: "frmw_call p fn u s = Inr (r, s') \<Longrightarrow> view s' = view s"
  unfolding frmw_call_def by (auto elim!: bind_res_InrE split: option.split_asm prod.split_asm)

lemma frmw_call_void_view: "frmw_call_void p fn s = Inr s' \<Longrightarrow> view s' = view s"
  by (auto simp: frmw_call_void_def bind_res_Inr_iff split: option.splits)

text \<open>A loop keeps what its body keeps.\<close>

lemma fold_res_view:
  assumes "fold_res f xs s = Inr s'" and "\<And>x s s'. f x s = Inr s' \<Longrightarrow> view s' = view s"
  shows "view s' = view s"
  by (rule fold_res_invariant [where I = "\<lambda>t. view t = view s", OF assms(1)]) (use assms(2) in auto)

lemma other_frameworks_view:
  assumes "other_frameworks i call s = Inr s'" and "\<And>p s s'. call p s = Inr s' \<Longrightarrow> view s' = view s"
  shows "view s' = view s"
  using assms(1) unfolding other_frameworks_def
  by (rule fold_res_view) (auto elim!: bind_res_InrE split: if_splits dest: assms(2))

lemma notifications_view:
  "Synchronize i t s = Inr s' \<Longrightarrow> view s' = view s"
  "NotifyConfig i cntxt inst field n strm t s = Inr s' \<Longrightarrow> view s' = view s"
  "NotifyEvent i scope ev act n strm t s = Inr s' \<Longrightarrow> view s' = view s"
  "NotifyBarrier i scope bar act cnt t s = Inr s' \<Longrightarrow> view s' = view s"
  unfolding Synchronize_def NotifyConfig_def NotifyEvent_def NotifyBarrier_def
    frmw_Synchronize_def frmw_NotifyConfig_def frmw_NotifyEvent_def frmw_NotifyBarrier_def
  by (auto elim!: other_frameworks_view frmw_call_void_view)

lemma callbacks_view:
  "RegisterTimeCallback i t d s = Inr (r, s') \<Longrightarrow> view s' = view s"
  "RemoveTimeCallback i h s = Inr (r, s') \<Longrightarrow> view s' = view s"
  "NotifyTimeCallback i j t d s = Inr s' \<Longrightarrow> view s' = view s"
  unfolding RegisterTimeCallback_def RemoveTimeCallback_def NotifyTimeCallback_def
    frmw_RegisterTimeCallback_def frmw_RemoveTimeCallback_def frmw_NotifyTimeCallback_def
  by (auto elim!: bind_res_InrE split: if_splits dest!: frmw_call_view frmw_call_void_view)

lemma NotifyCommand_view: "NotifyCommand p cmd t s = Inr (r, s') \<Longrightarrow> view s' = view s"
  unfolding NotifyCommand_def by (rule frmw_call_view)

lemma run_backlog_view: "run_backlog p cmds s = Inr (ok, s') \<Longrightarrow> view s' = view s"
proof (induction cmds arbitrary: s)
  case (Cons cmd cmds)
  then obtain r s1 where "NotifyCommand p cmd (UNIT_UNDEFINED, 0) s = Inr (r, s1)"
    by (auto elim!: bind_res_InrE)
  then show ?case using Cons NotifyCommand_view by (auto elim!: bind_res_InrE split: if_splits)
qed simp

end

locale phase_view = call_view +
  assumes view_current_phase_name [simp]: "view (s\<lparr>current_phase_name := n\<rparr>) = view s"
    and view_first_phase [simp]: "view (s\<lparr>first_phase := b\<rparr>) = view s"

locale command_view = phase_view +
  assumes view_stop_requests [simp]: "view (s\<lparr>stop_requests := rs\<rparr>) = view s"
    and view_stop_last_id [simp]: "view (s\<lparr>stop_last_id := m\<rparr>) = view s"
    and view_debug_backlog [simp]: "view (s\<lparr>debug_backlog := cmds\<rparr>) = view s"

text \<open>
  The views of setting up: of a framework's proxy they do not see its trace mode, backlog and
  list of tops (\<open>start_view\<close>), nor its table of connections (\<open>route_view\<close>), nor its type tables
  (\<open>type_view\<close>).
\<close>

locale start_view = call_view +
  assumes view_trace_mode: "proxies s p = Some f \<Longrightarrow> view (set_proxy p (f\<lparr>frmw_trace_mode := m\<rparr>) s) = view s"
    and view_command_backlog: "proxies s p = Some f \<Longrightarrow> view (set_proxy p (f\<lparr>command_backlog := cmds\<rparr>) s) = view s"
    and view_bp_trace_mode [simp]: "view (s\<lparr>bp_trace_mode := m\<rparr>) = view s"
begin

lemma frmw_SetTraceMode_view: "frmw_SetTraceMode p mode s = Inr s' \<Longrightarrow> view s' = view s"
proof -
  have key: "view (set_proxy p (f\<lparr>frmw_trace_mode := m\<rparr>) (s\<lparr>world := w\<rparr>)) = view s"
    if "proxy p s = Inr f" for f m w
    using view_trace_mode [of "s\<lparr>world := w\<rparr>" p f] proxy_InrD [OF that] by simp
  assume "frmw_SetTraceMode p mode s = Inr s'"
  then show ?thesis
    by (auto simp: frmw_SetTraceMode_def key elim!: bind_res_InrE split: if_splits option.splits)
qed

lemma SetTraceMode_view:
  assumes "SetTraceMode mode s = Inr s'"
  shows "view s' = view s"
  using fold_res_view [OF assms [unfolded SetTraceMode_def]] frmw_SetTraceMode_view by auto

lemma Startup_view:
  assumes "Startup p s = Inr (ok, s')"
  shows "view s' = view s"
proof -
  obtain r s1 where s1: "frmw_call p (\<lambda>a. startup_ptr (setup_fns a)) (-1) s = Inr (r, s1)"
    and rest: "(if r = 0 then Inr (False, s1)
       else bind_res (ExecuteBacklogCommands p s1) (\<lambda>(ok, s).
          if ok then bind_res (proxy p s) (\<lambda>f. Inr (True, set_proxy p (f\<lparr>command_backlog := []\<rparr>) s))
          else Inr (False, s))) = Inr (ok, s')"
    using assms unfolding Startup_def by (auto elim!: bind_res_InrE)
  show ?thesis
  proof (cases "r = 0")
    case False
    then obtain b s2 where "ExecuteBacklogCommands p s1 = Inr (b, s2)"
      and s': "(if b then bind_res (proxy p s2) (\<lambda>f. Inr (True, set_proxy p (f\<lparr>command_backlog := []\<rparr>) s2))
          else Inr (False, s2)) = Inr (ok, s')"
      using rest by (auto elim!: bind_res_InrE)
    then have "view s2 = view s1"
      unfolding ExecuteBacklogCommands_def by (auto elim!: bind_res_InrE dest!: run_backlog_view)
    moreover have "view s' = view s2"
      using s' by (auto elim!: bind_res_InrE split: if_splits dest!: proxy_InrD intro: view_command_backlog)
    ultimately show ?thesis using frmw_call_view [OF s1] by simp
  qed (use rest frmw_call_view [OF s1] in auto)
qed

end

text \<open>Choosing the service providers.\<close>

locale provider_view = call_view +
  assumes view_phase_srv [simp]: "view (s\<lparr>phase_srv := p\<rparr>) = view s"
    and view_wakeup_srv [simp]: "view (s\<lparr>wakeup_srv := p\<rparr>) = view s"
    and view_stopper_srv [simp]: "view (s\<lparr>stopper_srv := p\<rparr>) = view s"
    and view_print_srv [simp]: "view (s\<lparr>print_srv := p\<rparr>) = view s"
begin

lemma register_service_view:
  assumes "register_service nm assign none s = Inr s'"
    and "\<And>p. view (assign p s) = view s" and "view (none s) = view s"
  shows "view s' = view s"
  using assms by (auto simp: register_service_def elim!: bind_res_InrE split: option.splits if_splits)

lemma RegisterSrvProviders_view: "RegisterSrvProviders a b c d s = Inr s' \<Longrightarrow> view s' = view s"
proof -
  assume "RegisterSrvProviders a b c d s = Inr s'"
  then obtain s1 s2 s3 where
      "register_service a (\<lambda>p s. s\<lparr>phase_srv := p\<rparr>)
         (WarningMsg ''BpInterconnect::RegisterSrvProviders() Phase service framework not found : %s''
            (case a of None \<Rightarrow> [] | Some n \<Rightarrow> [n])) s = Inr s1"
      "register_service b (\<lambda>p s. s\<lparr>wakeup_srv := p\<rparr>) (\<lambda>s. s) s1 = Inr s2"
      "register_service c (\<lambda>p s. s\<lparr>stopper_srv := p\<rparr>) (\<lambda>s. s) s2 = Inr s3"
      "register_service d (\<lambda>p s. s\<lparr>print_srv := p\<rparr>) (\<lambda>s. s) s3 = Inr s'"
    unfolding RegisterSrvProviders_def by (auto elim!: bind_res_InrE)
  then have "view s1 = view s" "view s2 = view s1" "view s3 = view s2" "view s' = view s3"
    by - (erule register_service_view; simp)+
  then show ?thesis by simp
qed

end

text \<open>Making a new object, and the registry of ports.\<close>

locale allocation_view = call_view +
  assumes view_bp_next [simp]: "view (s\<lparr>bp_next := a\<rparr>) = view s"

locale ports_view = call_view +
  assumes view_port_registry [simp]: "view (s\<lparr>port_registry := ps\<rparr>) = view s"

end
