(* ===== verification/Bp_Types.thy ===== *)
theory Bp_Types
  imports Bp_View
begin

text \<open>
  Type identifiers: how a framework's type name becomes an id shared by all frameworks
  (\<open>bp_framework_proxy.cpp\<close>, \<open>bp_type_map.cpp\<close>, \<open>bp_base_interconnect.cpp\<close>). A name is
  matched explicitly by \<open>RegisterTypeMatch\<close> or, failing that, by its unqualified part. The id
  \<open>-1\<close> of the \<open>unsigned\<close> type means not found.
\<close>

section \<open>A framework's own tables\<close>

abbreviation no_type :: uint where
  "no_type \<equiv> - 1"

text \<open>The loop over the entries that looks for one short name; a second match fails the assertion.\<close>

fun short_scan :: "string \<Rightarrow> (string \<times> uint) list \<Rightarrow> uint \<Rightarrow> uint res" where
  "short_scan typeName [] found = Inr found"
| "short_scan typeName ((k, v) # es) found =
     (if GetShortName k = typeName then
        (if found \<noteq> no_type then Inl Assert_Failure else short_scan typeName es v)
      else short_scan typeName es found)"

definition FindTypeId :: "string \<Rightarrow> 'w frmw_proxy \<Rightarrow> uint res" where
  "FindTypeId typeName f =
     (case map_of (m_type_entries f) typeName of
        Some i \<Rightarrow> Inr i
      | None \<Rightarrow>
          if IsQualifiedName typeName then Inr no_type
          else short_scan typeName (m_type_entries f) no_type)"

definition AddRegisteredTypeEntry :: "string \<Rightarrow> addr \<Rightarrow> type_entry \<Rightarrow> 'w frmw_proxy \<Rightarrow> 'w frmw_proxy" where
  "AddRegisteredTypeEntry typeName entryp e f =
     f\<lparr>m_registered_types := map_put (te_id e) entryp (m_registered_types f),
       m_type_entries := map_put typeName (te_id e) (m_type_entries f),
       m_type_names := map_put (te_id e) typeName (m_type_names f)\<rparr>"

definition FindRegisteredTypeEntry :: "uint \<Rightarrow> 'w frmw_proxy \<Rightarrow> addr" where
  "FindRegisteredTypeEntry typeId f =
     (case map_of (m_registered_types f) typeId of None \<Rightarrow> null | Some e \<Rightarrow> e)"

section \<open>Ids shared by the frameworks\<close>

definition GetNextTypeId :: "'w bp_state \<Rightarrow> uint \<times> 'w bp_state" where
  "GetNextTypeId s = (next_type_id s, s\<lparr>next_type_id := next_type_id s + 1\<rparr>)"

definition GetUnregisteredTypeId :: "string \<Rightarrow> 'w bp_state \<Rightarrow> uint \<times> 'w bp_state" where
  "GetUnregisteredTypeId typeName s =
     (case map_of (unregistered_types s) typeName of
        Some i \<Rightarrow> (i, s)
      | None \<Rightarrow>
          let (i, s) = GetNextTypeId s
          in (i, s\<lparr>unregistered_types := map_put typeName i (unregistered_types s),
                   unregistered_type_names := map_put i typeName (unregistered_type_names s)\<rparr>))"

definition FindUnregisteredTypeName :: "uint \<Rightarrow> 'w bp_state \<Rightarrow> string res" where
  "FindUnregisteredTypeName typeId s =
     (case map_of (unregistered_type_names s) typeId of None \<Rightarrow> Inl Assert_Failure | Some n \<Rightarrow> Inr n)"

definition frmw_GetTypeId :: "addr \<Rightarrow> string \<Rightarrow> 'w bp_state \<Rightarrow> (uint \<times> 'w bp_state) res" where
  "frmw_GetTypeId p typeName s =
     bind_res (proxy p s) (\<lambda>f.
     bind_res (FindTypeId typeName f) (\<lambda>found.
       if found \<noteq> no_type then Inr (found, s)
       else
         let short_name = GetShortName typeName;
             typeId = (if IsQualifiedName typeName then
                         (case map_of (m_type_entries f) short_name of None \<Rightarrow> found | Some i \<Rightarrow> i)
                       else found)
         in if typeId \<noteq> no_type then Inr (typeId, s)
            else
              let (i, s) = GetUnregisteredTypeId short_name s
              in Inr (i, set_proxy p (f\<lparr>m_type_entries := map_put short_name i (m_type_entries f),
                                        m_type_names := map_put i typeName (m_type_names f)\<rparr>) s)))"

definition frmw_GetTypeName :: "addr \<Rightarrow> uint \<Rightarrow> bool \<Rightarrow> 'w bp_state \<Rightarrow> string res" where
  "frmw_GetTypeName p typeId getBaseName s =
     bind_res (proxy p s) (\<lambda>f.
     bind_res (case map_of (m_type_names f) typeId of
                 Some n \<Rightarrow> Inr n | None \<Rightarrow> FindUnregisteredTypeName typeId s) (\<lambda>typeName.
       Inr (if getBaseName then BpExtractBaseName typeName else typeName)))"

definition GetTypeIdByTypeName :: "int \<Rightarrow> string \<Rightarrow> 'w bp_state \<Rightarrow> (uint \<times> 'w bp_state) res" where
  "GetTypeIdByTypeName frameworkId typeName s =
     bind_res (GetFramework frameworkId s) (\<lambda>p. frmw_GetTypeId p typeName s)"

definition GetTypeNameByTypeId :: "int \<Rightarrow> uint \<Rightarrow> bool \<Rightarrow> 'w bp_state \<Rightarrow> string res" where
  "GetTypeNameByTypeId frameworkId typeId getBaseName s =
     bind_res (GetFramework frameworkId s) (\<lambda>p. frmw_GetTypeName p typeId getBaseName s)"

section \<open>Matching two types\<close>

definition AddFrmwEntry :: "addr \<Rightarrow> string \<Rightarrow> type_entry \<Rightarrow> type_entry" where
  "AddFrmwEntry frmw typeName e = e\<lparr>te_types := te_types e @ [(frmw, typeName)]\<rparr>"

definition FindFrmwEntry :: "addr \<Rightarrow> type_entry \<Rightarrow> (addr \<times> string) option" where
  "FindFrmwEntry frmw e = find (\<lambda>t. fst t = frmw) (te_types e)"

text \<open>Two names of one framework in an entry are an error message, and still both entered.\<close>

definition AddFrmwTypeEntry :: "addr \<Rightarrow> addr \<Rightarrow> string \<Rightarrow> 'w bp_state \<Rightarrow> 'w bp_state res" where
  "AddFrmwTypeEntry entryp frmw typeName s =
     bind_res (deref (type_map s) entryp) (\<lambda>e.
       let enter = (\<lambda>s. s\<lparr>type_map := (type_map s)(entryp \<mapsto> AddFrmwEntry frmw typeName e)\<rparr>)
       in case FindFrmwEntry frmw e of
            None \<Rightarrow> Inr (enter s)
          | Some t \<Rightarrow>
              if snd t = typeName then Inr s
              else Inr (enter (ErrorMsg ''Cannot match two types '%s' and '%s' within the same language''
                                 [snd t, typeName] s)))"

definition frmw_AddRegisteredTypeEntry :: "addr \<Rightarrow> string \<Rightarrow> addr \<Rightarrow> 'w bp_state \<Rightarrow> 'w bp_state res" where
  "frmw_AddRegisteredTypeEntry p typeName entryp s =
     bind_res (deref (type_map s) entryp) (\<lambda>e.
     bind_res (proxy p s) (\<lambda>f. Inr (set_proxy p (AddRegisteredTypeEntry typeName entryp e f) s)))"

definition registerNewTypeMatch :: "addr \<Rightarrow> string \<Rightarrow> addr \<Rightarrow> string \<Rightarrow> 'w bp_state \<Rightarrow> 'w bp_state res" where
  "registerNewTypeMatch t1Frmw t1Name t2Frmw t2Name s =
     (let (i, s) = GetNextTypeId s;
          entryp = bp_next s;
          e = AddFrmwEntry t2Frmw t2Name (AddFrmwEntry t1Frmw t1Name \<lparr>te_id = i, te_types = []\<rparr>);
          s = s\<lparr>bp_next := Suc entryp, type_map := (type_map s)(entryp \<mapsto> e)\<rparr>
      in bind_res (frmw_AddRegisteredTypeEntry t1Frmw t1Name entryp s)
           (frmw_AddRegisteredTypeEntry t2Frmw t2Name entryp))"

definition registered_or_assert :: "uint \<Rightarrow> 'w frmw_proxy \<Rightarrow> addr res" where
  "registered_or_assert typeId f =
     (let e = FindRegisteredTypeEntry typeId f in bind_res (assert_res (e \<noteq> null)) (\<lambda>_. Inr e))"

definition mergeTypeEntries :: "addr \<Rightarrow> addr \<Rightarrow> 'w bp_state \<Rightarrow> 'w bp_state res" where
  "mergeTypeEntries entry1 entry2 s = Inl Assert_Failure"

text \<open>The answer is \<open>False\<close> when one of the languages has no framework.\<close>

definition RegisterTypeMatch ::
  "string \<times> string \<Rightarrow> string \<times> string \<Rightarrow> 'w bp_state \<Rightarrow> (bool \<times> 'w bp_state) res" where
  "RegisterTypeMatch type1 type2 s =
     (let n1 = snd type1; n2 = snd type2 in
      bind_res (GetFrameworkProxyByInd (fst type1) s) (\<lambda>p1.
      if p1 = null then Inr (False, s) else
      bind_res (GetFrameworkProxyByInd (fst type2) s) (\<lambda>p2.
      if p2 = null then Inr (False, s) else
      bind_res (assert_res (p1 \<noteq> p2)) (\<lambda>_.
      bind_res (proxy p1 s) (\<lambda>f1. bind_res (proxy p2 s) (\<lambda>f2.
      bind_res (FindTypeId n1 f1) (\<lambda>t1. bind_res (FindTypeId n2 f2) (\<lambda>t2.
      bind_res
        (if t1 = no_type \<and> t2 = no_type then registerNewTypeMatch p1 n1 p2 n2 s
         else if t2 = no_type then
           bind_res (registered_or_assert t1 f1) (\<lambda>e1.
           bind_res (AddFrmwTypeEntry e1 p2 n2 s) (frmw_AddRegisteredTypeEntry p2 n2 e1))
         else if t1 = no_type then
           bind_res (registered_or_assert t2 f2) (\<lambda>e2.
           bind_res (AddFrmwTypeEntry e2 p1 n1 s) (frmw_AddRegisteredTypeEntry p1 n1 e2))
         else if t1 \<noteq> t2 then
           bind_res (registered_or_assert t1 f1) (\<lambda>e1.
           bind_res (registered_or_assert t2 f2) (\<lambda>e2. mergeTypeEntries e1 e2 s))
         else Inr s)
        (\<lambda>s. Inr (True, s))))))))))"

section \<open>What the scan finds\<close>

lemma short_scan_found: "short_scan t es i = Inr j \<Longrightarrow> i \<noteq> no_type \<Longrightarrow> j = i"
  by (induction t es i rule: short_scan.induct) (auto split: if_splits)

lemma short_scan_sound:
  "short_scan t es i = Inr j \<Longrightarrow> j \<noteq> i \<Longrightarrow> \<exists>k. (k, j) \<in> set es \<and> GetShortName k = t"
proof (induction t es i rule: short_scan.induct)
  case (2 t k v es i)
  then show ?case
    by (cases "GetShortName k = t"; cases "v = j") (auto split: if_splits)
qed simp

lemma short_scan_none:
  "short_scan t es no_type = Inr no_type \<Longrightarrow> (k, v) \<in> set es \<Longrightarrow> v \<noteq> no_type \<Longrightarrow> GetShortName k \<noteq> t"
proof (induction es)
  case (Cons e es)
  obtain a b where e: "e = (a, b)" by (cases e)
  show ?case using Cons short_scan_found [of t es b no_type]
    by (cases "b = no_type") (auto simp: e split: if_splits)
qed simp

lemma short_scan_absent:
  "(\<And>k v. (k, v) \<in> set es \<Longrightarrow> GetShortName k \<noteq> t) \<Longrightarrow> short_scan t es i = Inr i"
proof (induction es)
  case (Cons e es)
  obtain a b where e: "e = (a, b)" by (cases e)
  have "GetShortName a \<noteq> t" using Cons.prems [of a b] e by simp
  moreover have "short_scan t es i = Inr i"
  proof (rule Cons.IH)
    fix k v assume "(k, v) \<in> set es"
    then show "GetShortName k \<noteq> t" using Cons.prems [of k v] by simp
  qed
  ultimately show ?case by (simp add: e)
qed simp

lemma FindTypeId_exact: "map_of (m_type_entries f) n = Some i \<Longrightarrow> FindTypeId n f = Inr i"
  by (simp add: FindTypeId_def)

text \<open>Asking twice gives the same id and changes nothing the second time.\<close>

lemma frmw_GetTypeId_again:
  assumes i: "frmw_GetTypeId p n s = Inr (i, s')"
  shows "frmw_GetTypeId p n s' = Inr (i, s')"
proof -
  obtain f found where f: "proxy p s = Inr f" and found: "FindTypeId n f = Inr found"
    using i by (auto simp: frmw_GetTypeId_def bind_res_Inr_iff)
  let ?short = "GetShortName n"
  let ?typeId = "if IsQualifiedName n then
      (case map_of (m_type_entries f) ?short of None \<Rightarrow> found | Some i \<Rightarrow> i) else found"
  show ?thesis
  proof (cases "found \<noteq> no_type \<or> ?typeId \<noteq> no_type")
    case True
    then have "s' = s" using i f found by (auto simp: frmw_GetTypeId_def Let_def split: if_splits option.splits)
    then show ?thesis using i by simp
  next
    case False
    obtain s1 where u: "GetUnregisteredTypeId ?short s = (i, s1)"
      and s': "s' = set_proxy p (f\<lparr>m_type_entries := map_put ?short i (m_type_entries f),
                  m_type_names := map_put i n (m_type_names f)\<rparr>) s1" (is "_ = set_proxy p ?f _")
      using i f found False by (auto simp: frmw_GetTypeId_def Let_def split: prod.splits if_splits)
    have p: "p \<noteq> null" using f by (auto simp: proxy_def deref_def split: if_splits)
    have f': "proxy p s' = Inr ?f" using p by (simp add: s' set_proxy_def proxy_def)
    have short: "map_of (m_type_entries ?f) ?short = Some i" by (simp add: map_of_map_put)
    have u': "GetUnregisteredTypeId ?short s' = (i, s')"
      using u by (auto simp: GetUnregisteredTypeId_def GetNextTypeId_def s' set_proxy_def map_of_map_put
          split: option.splits prod.splits)
    have put: "map_put ?short i (map_put ?short i m) = map_put ?short i m" for m :: "(string \<times> uint) list"
      by (induction m) auto
    have put': "map_put i n (map_put i n m) = map_put i n m" for m :: "(uint \<times> string) list"
      by (induction m) auto
    have same: "set_proxy p (?f\<lparr>m_type_entries := map_put ?short i (m_type_entries ?f),
                  m_type_names := map_put i n (m_type_names ?f)\<rparr>) s' = s'"
      by (simp add: put put' s' set_proxy_def)
    show ?thesis
    proof (cases "IsQualifiedName n")
      case True
      have "n \<noteq> ?short" using True GetShortName_not_qualified [of n] by auto
      then have "FindTypeId n ?f = Inr found"
        using found True by (simp add: FindTypeId_def map_of_map_put split: option.splits)
      moreover have "found = no_type" using False by simp
      ultimately show ?thesis using f' short u' same True
        by (cases "i = no_type") (simp_all add: frmw_GetTypeId_def Let_def)
    next
      case notq: False
      then have n: "?short = n" by (rule GetShortName_simple)
      then have "FindTypeId n ?f = Inr i" using short by (simp add: FindTypeId_exact)
      then show ?thesis using f' u' same notq n
        by (cases "i = no_type") (simp_all add: frmw_GetTypeId_def Let_def)
    qed
  qed
qed

section \<open>The tables stay consistent\<close>

text \<open>
  The two tables of unregistered names are inverse to each other and hold short names only.
  Every id a framework knows was handed out before and is either the id of an explicitly matched
  entry or the id of the unregistered short name.
\<close>

definition unregistered_ok :: "'w bp_state \<Rightarrow> bool" where
  "unregistered_ok s \<longleftrightarrow>
     (\<forall>n i. map_of (unregistered_types s) n = Some i \<longleftrightarrow> map_of (unregistered_type_names s) i = Some n) \<and>
     (\<forall>n i. map_of (unregistered_types s) n = Some i \<longrightarrow> i < next_type_id s \<and> \<not> IsQualifiedName n)"

definition frmw_types_ok :: "'w bp_state \<Rightarrow> 'w frmw_proxy \<Rightarrow> bool" where
  "frmw_types_ok s f \<longleftrightarrow>
     (\<forall>i e. map_of (m_registered_types f) i = Some e \<longrightarrow>
        i < next_type_id s \<and> e \<noteq> null \<and> (\<exists>te. type_map s e = Some te \<and> te_id te = i)) \<and>
     (\<forall>n i. map_of (m_type_entries f) n = Some i \<longrightarrow>
        map_of (m_registered_types f) i \<noteq> None \<or> map_of (unregistered_types s) n = Some i) \<and>
     (\<forall>i n. map_of (m_type_names f) i = Some n \<longrightarrow>
        map_of (m_registered_types f) i \<noteq> None \<or> map_of (unregistered_types s) (GetShortName n) = Some i)"

definition types_ok :: "'w bp_state \<Rightarrow> bool" where
  "types_ok s \<longleftrightarrow>
     0 < bp_next s \<and> (\<forall>p \<in> dom (type_map s). p < bp_next s) \<and>
     unregistered_ok s \<and> (\<forall>p f. proxies s p = Some f \<longrightarrow> frmw_types_ok s f)"

lemma types_okI:
  assumes "0 < bp_next s" and "\<forall>p \<in> dom (type_map s). p < bp_next s" and "unregistered_ok s"
    and "\<And>p f. proxies s p = Some f \<Longrightarrow> frmw_types_ok s f"
  shows "types_ok s"
  using assms unfolding types_ok_def by blast

lemma types_ok_frmw: "types_ok s \<Longrightarrow> proxies s p = Some f \<Longrightarrow> frmw_types_ok s f"
  unfolding types_ok_def by blast

lemma types_ok_unregistered: "types_ok s \<Longrightarrow> unregistered_ok s"
  by (simp add: types_ok_def)

text \<open>Without an explicit match every entry is the id of an unregistered name.\<close>

lemma unmatched_entry:
  assumes "types_ok s" and "proxies s p = Some f" and "m_registered_types f = []"
  shows "map_of (m_type_entries f) n = Some i \<Longrightarrow> map_of (unregistered_types s) n = Some i"
    and "map_of (m_type_names f) i = Some n \<Longrightarrow> map_of (unregistered_types s) (GetShortName n) = Some i"
  using types_ok_frmw [OF assms(1,2)] assms(3) by (auto simp: frmw_types_ok_def)

lemma uint_less_Suc:
  assumes "(x::uint) \<noteq> no_type" and "y < x \<or> y = x"
  shows "y < x + 1"
proof -
  have "x < x + 1" using inc_less_eq_triv_imp [of x] assms(1) by (simp only: not_le [symmetric]) blast
  then show ?thesis using assms(2) by auto
qed

lemma uint_no_type: "(y::uint) < x \<Longrightarrow> y \<noteq> no_type"
  by (metis leD max_word_max)

text \<open>A framework keeps its property when ids and unregistered names are only added.\<close>

lemma frmw_types_ok_mono:
  assumes "frmw_types_ok s f"
    and "\<And>i. i < next_type_id s \<Longrightarrow> i < next_type_id s'"
    and "\<And>n i. map_of (unregistered_types s) n = Some i \<Longrightarrow> map_of (unregistered_types s') n = Some i"
    and "\<And>e te. type_map s e = Some te \<Longrightarrow> \<exists>te'. type_map s' e = Some te' \<and> te_id te' = te_id te"
  shows "frmw_types_ok s' f"
proof -
  note f = assms(1) [unfolded frmw_types_ok_def]
  have "i < next_type_id s' \<and> e \<noteq> null \<and> (\<exists>te. type_map s' e = Some te \<and> te_id te = i)"
    if "map_of (m_registered_types f) i = Some e" for i e
    using f that assms(2,4) by blast
  then show ?thesis using f assms(3) unfolding frmw_types_ok_def by blast
qed

text \<open>\<open>s'\<close> knows every unregistered name that \<open>s\<close> knows, under the same id.\<close>

definition extends :: "'w bp_state \<Rightarrow> 'w bp_state \<Rightarrow> bool" where
  "extends s s' \<longleftrightarrow>
     (\<forall>n i. map_of (unregistered_types s) n = Some i \<longrightarrow> map_of (unregistered_types s') n = Some i)"

lemma extends_refl [simp]: "extends s s"
  by (simp add: extends_def)

lemma GetUnregisteredTypeId_ok:
  assumes ok: "types_ok s" and next_id: "next_type_id s \<noteq> no_type"
    and n: "\<not> IsQualifiedName n" and u: "GetUnregisteredTypeId n s = (i, s')"
  shows "types_ok s' \<and> extends s s' \<and> map_of (unregistered_types s') n = Some i \<and> proxies s' = proxies s"
proof (cases "map_of (unregistered_types s) n")
  case (Some j)
  then show ?thesis using u ok by (simp add: GetUnregisteredTypeId_def)
next
  case None
  let ?i = "next_type_id s"
  have u': "unregistered_ok s" and old: "\<And>p f. proxies s p = Some f \<Longrightarrow> frmw_types_ok s f"
    using ok by (auto simp: types_ok_def)
  have i: "i = ?i" and s': "s' = s\<lparr>next_type_id := ?i + 1,
      unregistered_types := map_put n ?i (unregistered_types s),
      unregistered_type_names := map_put ?i n (unregistered_type_names s)\<rparr>"
    using u None by (auto simp: GetUnregisteredTypeId_def GetNextTypeId_def)
  have fresh: "map_of (unregistered_type_names s) ?i = None"
  proof (rule ccontr)
    assume "map_of (unregistered_type_names s) ?i \<noteq> None"
    then obtain m where "map_of (unregistered_types s) m = Some ?i" using u' by (auto simp: unregistered_ok_def)
    then show False using u' by (auto simp: unregistered_ok_def)
  qed
  have unnamed: "map_of (unregistered_type_names s) j \<noteq> Some n" for j
    using u' None unfolding unregistered_ok_def by fastforce
  have less: "y < ?i + 1" if "y < ?i \<or> y = ?i" for y
    using uint_less_Suc [OF next_id that] .
  have "unregistered_ok s'"
    using u' None fresh unnamed n less unfolding unregistered_ok_def by (simp add: s' map_of_map_put)
  moreover have "extends s s'" using None by (auto simp: extends_def s' map_of_map_put)
  moreover have "frmw_types_ok s' f" if f: "proxies s' p = Some f" for p f
  proof (rule frmw_types_ok_mono)
    show "frmw_types_ok s f" using f old by (simp add: s')
    show "\<And>n i. map_of (unregistered_types s) n = Some i \<Longrightarrow> map_of (unregistered_types s') n = Some i"
      using \<open>extends s s'\<close> by (simp add: extends_def)
  qed (use less in \<open>auto simp: s'\<close>)
  ultimately have "types_ok s'"
    using ok by (intro types_okI) (auto simp: types_ok_def s')
  then show ?thesis using \<open>extends s s'\<close> i by (simp add: s' map_of_map_put)
qed

text \<open>Asking for an id keeps the tables; a framework with no explicit match gets the id of the short name.\<close>

lemma types_ok_set_proxy:
  assumes "types_ok s" and "frmw_types_ok s f"
  shows "types_ok (set_proxy p f s)"
proof (rule types_okI)
  fix q g assume "proxies (set_proxy p f s) q = Some g"
  then have "frmw_types_ok s g" using assms by (auto simp: set_proxy_def types_ok_def split: if_splits)
  then show "frmw_types_ok (set_proxy p f s) g" by (simp add: frmw_types_ok_def set_proxy_def)
next
  show "unregistered_ok (set_proxy p f s)"
    using assms by (simp add: types_ok_def unregistered_ok_def set_proxy_def)
qed (use assms in \<open>auto simp: types_ok_def set_proxy_def\<close>)

lemma frmw_GetTypeId_ok:
  assumes ok: "types_ok s" and next_id: "next_type_id s \<noteq> no_type"
    and i: "frmw_GetTypeId p n s = Inr (i, s')"
  shows "types_ok s' \<and> extends s s'"
proof -
  obtain f found where f: "proxy p s = Inr f" and found: "FindTypeId n f = Inr found"
    using i by (auto simp: frmw_GetTypeId_def bind_res_Inr_iff)
  let ?short = "GetShortName n"
  let ?typeId = "if IsQualifiedName n then
      (case map_of (m_type_entries f) ?short of None \<Rightarrow> found | Some i \<Rightarrow> i) else found"
  show ?thesis
  proof (cases "found \<noteq> no_type \<or> ?typeId \<noteq> no_type")
    case True
    then have "s' = s" using i f found by (auto simp: frmw_GetTypeId_def Let_def split: if_splits option.splits)
    then show ?thesis using ok by simp
  next
    case False
    let ?f = "f\<lparr>m_type_entries := map_put ?short i (m_type_entries f),
               m_type_names := map_put i n (m_type_names f)\<rparr>"
    obtain s1 where u: "GetUnregisteredTypeId ?short s = (i, s1)" and s': "s' = set_proxy p ?f s1"
      using i f found False by (auto simp: frmw_GetTypeId_def Let_def split: prod.splits if_splits)
    have s1: "types_ok s1" "extends s s1" "map_of (unregistered_types s1) ?short = Some i" "proxies s1 = proxies s"
      using GetUnregisteredTypeId_ok [OF ok next_id GetShortName_not_qualified u] by auto
    then have "frmw_types_ok s1 f" using proxy_InrD [OF f] by (auto simp: types_ok_def)
    then have "frmw_types_ok s1 ?f" using s1(3) by (auto simp: frmw_types_ok_def map_of_map_put)
    then have "types_ok s'" unfolding s' by (rule types_ok_set_proxy [OF s1(1)])
    then show ?thesis using s1(2) by (simp add: s' extends_def set_proxy_def)
  qed
qed

text \<open>The id of a name in a framework that matched no type explicitly.\<close>

lemma unregistered_less:
  assumes "types_ok s" and "map_of (unregistered_types s) n = Some i"
  shows "i \<noteq> no_type \<and> \<not> IsQualifiedName n"
proof -
  have "i < next_type_id s \<and> \<not> IsQualifiedName n"
    using types_ok_unregistered [OF assms(1)] assms(2) unfolding unregistered_ok_def by blast
  then show ?thesis using uint_no_type by blast
qed

lemma frmw_GetTypeId_unregistered:
  assumes ok: "types_ok s" and next_id: "next_type_id s \<noteq> no_type"
    and f: "proxy p s = Inr f" and none: "m_registered_types f = []"
  shows "\<exists>i s' f'. frmw_GetTypeId p n s = Inr (i, s') \<and> proxies s' = (proxies s)(p \<mapsto> f') \<and>
           m_registered_types f' = [] \<and> framework_registry s' = framework_registry s \<and>
           map_of (unregistered_types s') (GetShortName n) = Some i"
proof -
  let ?short = "GetShortName n"
  note f_ok = proxy_InrD [OF f]
  have entries: "map_of (unregistered_types s) k = Some i" if "map_of (m_type_entries f) k = Some i" for k i
    using unmatched_entry [OF ok _ none] f_ok that by blast
  have same: "proxies s = (proxies s)(p \<mapsto> f)" using f_ok by (simp add: fun_upd_idem)
  have find_none: "FindTypeId k f = Inr no_type" if "map_of (m_type_entries f) k = None" for k
  proof (cases "IsQualifiedName k")
    case False
    have "GetShortName k' \<noteq> k" if k': "(k', v) \<in> set (m_type_entries f)" for k' v
    proof
      assume short: "GetShortName k' = k"
      obtain v' where "map_of (m_type_entries f) k' = Some v'"
        using k' by (metis (no_types) weak_map_of_SomeI)
      then have "\<not> IsQualifiedName k'" using entries unregistered_less [OF ok] by blast
      then show False using short GetShortName_simple k' \<open>map_of (m_type_entries f) k = None\<close>
        by (auto simp: map_of_eq_None_iff image_iff)
    qed
    then show ?thesis using that False by (simp add: FindTypeId_def short_scan_absent)
  qed (use that in \<open>simp add: FindTypeId_def\<close>)
  show ?thesis
  proof (cases "map_of (m_type_entries f) n")
    case (Some i)
    then have u: "map_of (unregistered_types s) n = Some i" by (rule entries)
    then have "i \<noteq> no_type" and short: "?short = n"
      using unregistered_less [OF ok u] by (simp_all add: GetShortName_simple)
    then have "frmw_GetTypeId p n s = Inr (i, s)"
      using f FindTypeId_exact [OF Some] by (simp add: frmw_GetTypeId_def)
    then show ?thesis using same none u short by auto
  next
    case None
    note find = find_none [OF None]
    show ?thesis
    proof (cases "map_of (m_type_entries f) ?short")
      case (Some i)
      then have u: "map_of (unregistered_types s) ?short = Some i" by (rule entries)
      then have "i \<noteq> no_type" using unregistered_less [OF ok] by blast
      moreover have "IsQualifiedName n" using Some None GetShortName_simple [of n] by (metis option.distinct(1))
      ultimately have "frmw_GetTypeId p n s = Inr (i, s)"
        using f find Some by (simp add: frmw_GetTypeId_def)
      then show ?thesis using same none u by auto
    next
      case short: None
      obtain i s1 where u: "GetUnregisteredTypeId ?short s = (i, s1)" by fastforce
      note s1 = GetUnregisteredTypeId_ok [OF ok next_id GetShortName_not_qualified u]
      have "framework_registry s1 = framework_registry s"
        using u by (auto simp: GetUnregisteredTypeId_def GetNextTypeId_def split: option.splits)
      moreover have "frmw_GetTypeId p n s = Inr (i, set_proxy p
          (f\<lparr>m_type_entries := map_put ?short i (m_type_entries f), m_type_names := map_put i n (m_type_names f)\<rparr>) s1)"
        using f find short u by (simp add: frmw_GetTypeId_def Let_def)
      ultimately show ?thesis using s1 none by (auto simp: set_proxy_def)
    qed
  qed
qed

text \<open>
  The name of an id in a framework with no explicit match: some name with the short name the id
  stands for.
\<close>

lemma frmw_GetTypeName_unregistered:
  assumes ok: "types_ok s" and f: "proxy p s = Inr f" and none: "m_registered_types f = []"
    and u: "map_of (unregistered_types s) n = Some i"
  shows "\<exists>m. frmw_GetTypeName p i False s = Inr m \<and> GetShortName m = n"
proof -
  have u': "unregistered_ok s" using ok by (simp add: types_ok_def)
  have inj: "n' = n" if "map_of (unregistered_types s) n' = Some i" for n'
    using u' u that unfolding unregistered_ok_def by (metis option.inject)
  show ?thesis
  proof (cases "map_of (m_type_names f) i")
    case (Some m)
    then have "map_of (unregistered_types s) (GetShortName m) = Some i"
      using unmatched_entry [OF ok _ none] proxy_InrD [OF f] by blast
    then show ?thesis using f Some inj by (simp add: frmw_GetTypeName_def)
  next
    case None
    have "map_of (unregistered_type_names s) i = Some n" using u u' by (simp add: unregistered_ok_def)
    moreover have "GetShortName n = n"
      using u u' unfolding unregistered_ok_def by (metis GetShortName_simple)
    ultimately show ?thesis using f None by (simp add: frmw_GetTypeName_def FindUnregisteredTypeName_def)
  qed
qed

section \<open>Explicit matches\<close>

lemma frmw_types_ok_AddRegistered:
  assumes "frmw_types_ok s f" and "te_id e < next_type_id s" and "a \<noteq> null" and "type_map s a = Some e"
  shows "frmw_types_ok s (AddRegisteredTypeEntry n a e f)"
  using assms by (auto simp: frmw_types_ok_def AddRegisteredTypeEntry_def map_of_map_put)

lemma frmw_AddRegisteredTypeEntry_ok:
  assumes "types_ok s" and "frmw_AddRegisteredTypeEntry p n a s = Inr s'"
    and "type_map s a = Some e" and "te_id e < next_type_id s"
  shows "types_ok s' \<and> type_map s' = type_map s \<and> next_type_id s' = next_type_id s \<and>
         frameworks_by_ind s' = frameworks_by_ind s \<and>
         (\<exists>f'. proxies s' = (proxies s)(p \<mapsto> f') \<and> map_of (m_type_entries f') n = Some (te_id e))"
proof -
  obtain f where a: "a \<noteq> null" and f: "proxy p s = Inr f"
    and s': "s' = set_proxy p (AddRegisteredTypeEntry n a e f) s"
    using assms(2,3) by (auto simp: frmw_AddRegisteredTypeEntry_def bind_res_Inr_iff deref_Inr_iff)
  have "frmw_types_ok s f" using assms(1) proxy_InrD [OF f] by (auto simp: types_ok_def)
  then have "types_ok s'"
    unfolding s' using assms a by (intro types_ok_set_proxy frmw_types_ok_AddRegistered)
  then show ?thesis by (auto simp: s' set_proxy_def AddRegisteredTypeEntry_def map_of_map_put)
qed

text \<open>Entering a second framework in an entry.\<close>

lemma AddFrmwTypeEntry_ok:
  assumes ok: "types_ok s" and add: "AddFrmwTypeEntry a p n s = Inr s'" and e: "type_map s a = Some e"
  shows "types_ok s' \<and> next_type_id s' = next_type_id s \<and> proxies s' = proxies s \<and>
         frameworks_by_ind s' = frameworks_by_ind s \<and> (\<exists>e'. type_map s' a = Some e' \<and> te_id e' = te_id e)"
proof -
  have kept: "proxies s' = proxies s" "next_type_id s' = next_type_id s" "bp_next s' = bp_next s"
      "frameworks_by_ind s' = frameworks_by_ind s" "unregistered_types s' = unregistered_types s"
      "unregistered_type_names s' = unregistered_type_names s"
    and tm: "type_map s' = type_map s \<or> type_map s' = (type_map s)(a \<mapsto> AddFrmwEntry p n e)"
    using add e
    by (auto simp: AddFrmwTypeEntry_def bind_res_Inr_iff deref_Inr_iff Let_def message_def
        split: option.splits if_splits)
  have entry: "\<exists>te'. type_map s' x = Some te' \<and> te_id te' = te_id te" if "type_map s x = Some te" for x te
    using tm that e by (auto simp: AddFrmwEntry_def)
  have "types_ok s'"
  proof (rule types_okI)
    show "unregistered_ok s'" "0 < bp_next s'"
      using ok kept by (auto simp: types_ok_def unregistered_ok_def)
    show "\<forall>p \<in> dom (type_map s'). p < bp_next s'"
    proof -
      have "dom (type_map s') = dom (type_map s)" using tm e by (auto split: if_splits)
      then show ?thesis using ok kept(3) by (simp add: types_ok_def)
    qed
    show "frmw_types_ok s' f" if "proxies s' q = Some f" for q f
      using types_ok_frmw [OF ok, of q f] that entry kept by (intro frmw_types_ok_mono [of s f s']) auto
  qed
  then show ?thesis using kept entry [OF e] by blast
qed

lemma registerNewTypeMatch_ok:
  assumes ok: "types_ok s" and next_id: "next_type_id s \<noteq> no_type" and p: "p1 \<noteq> p2"
    and reg: "registerNewTypeMatch p1 n1 p2 n2 s = Inr s'"
  shows "types_ok s' \<and> frameworks_by_ind s' = frameworks_by_ind s \<and>
         (\<exists>f1 f2. proxies s' p1 = Some f1 \<and> proxies s' p2 = Some f2 \<and>
            map_of (m_type_entries f1) n1 = Some (next_type_id s) \<and>
            map_of (m_type_entries f2) n2 = Some (next_type_id s))"
proof -
  let ?i = "next_type_id s" and ?a = "bp_next s"
  let ?e = "AddFrmwEntry p2 n2 (AddFrmwEntry p1 n1 \<lparr>te_id = ?i, te_types = []\<rparr>)"
  let ?t = "s\<lparr>next_type_id := ?i + 1, bp_next := Suc ?a, type_map := (type_map s)(?a \<mapsto> ?e)\<rparr>"
  have id: "te_id ?e = ?i" by (simp add: AddFrmwEntry_def)
  have less: "y < ?i + 1" if "y < ?i \<or> y = ?i" for y using uint_less_Suc [OF next_id that] .
  have fresh: "type_map s ?a = None" using ok by (auto simp: types_ok_def)
  have t: "types_ok ?t"
  proof (rule types_okI)
    show "unregistered_ok ?t" using types_ok_unregistered [OF ok] less by (simp add: unregistered_ok_def)
    show "\<forall>p \<in> dom (type_map ?t). p < bp_next ?t" using ok by (auto simp: types_ok_def less_Suc_eq)
    show "frmw_types_ok ?t f" if f: "proxies ?t q = Some f" for q f
    proof (rule frmw_types_ok_mono)
      show "frmw_types_ok s f" using types_ok_frmw [OF ok] f by simp
    qed (use less fresh in auto)
  qed simp
  obtain s1 where r1: "frmw_AddRegisteredTypeEntry p1 n1 ?a ?t = Inr s1"
    and r2: "frmw_AddRegisteredTypeEntry p2 n2 ?a s1 = Inr s'"
    using reg by (auto simp: registerNewTypeMatch_def GetNextTypeId_def Let_def bind_res_Inr_iff)
  have "type_map ?t ?a = Some ?e" and "te_id ?e < next_type_id ?t" using id less by simp_all
  note s1 = frmw_AddRegisteredTypeEntry_ok [OF t r1 this]
  have "type_map s1 ?a = Some ?e" and "te_id ?e < next_type_id s1" using s1 id less by simp_all
  note s2 = frmw_AddRegisteredTypeEntry_ok [OF conjunct1 [OF s1] r2 this]
  show ?thesis using s1 s2 p id by auto
qed

text \<open>Joining the entry of one type: the other framework takes over the id.\<close>

lemma join_match_ok:
  assumes ok: "types_ok s" and p: "proxy p s = Inr f" "p \<noteq> q"
    and e: "registered_or_assert i f = Inr a"
    and s': "bind_res (AddFrmwTypeEntry a q n s) (frmw_AddRegisteredTypeEntry q n a) = Inr s'"
  shows "types_ok s' \<and> frameworks_by_ind s' = frameworks_by_ind s \<and> proxies s' p = Some f \<and>
         (\<exists>g. proxies s' q = Some g \<and> map_of (m_type_entries g) n = Some i)"
proof -
  have "map_of (m_registered_types f) i = Some a" and "a \<noteq> null"
    using e by (auto simp: registered_or_assert_def Let_def FindRegisteredTypeEntry_def bind_res_Inr_iff
        split: option.splits)
  then obtain te where te: "type_map s a = Some te" "te_id te = i" and less: "i < next_type_id s"
    using types_ok_frmw [OF ok] proxy_InrD [OF p(1)] unfolding frmw_types_ok_def by blast
  obtain s1 where s1: "AddFrmwTypeEntry a q n s = Inr s1" and r: "frmw_AddRegisteredTypeEntry q n a s1 = Inr s'"
    using s' by (auto simp: bind_res_Inr_iff)
  obtain te' where te': "type_map s1 a = Some te'" "te_id te' = i"
    and ok1: "types_ok s1" "next_type_id s1 = next_type_id s" "proxies s1 = proxies s"
      "frameworks_by_ind s1 = frameworks_by_ind s"
    using AddFrmwTypeEntry_ok [OF ok s1 te(1)] te(2) by auto
  have "te_id te' < next_type_id s1" using te' less ok1(2) by simp
  from frmw_AddRegisteredTypeEntry_ok [OF ok1(1) r te'(1) this]
  show ?thesis using ok1 te'(2) p proxy_InrD [OF p(1)] by auto
qed

text \<open>After a match both names have one id.\<close>

lemma RegisterTypeMatch_ok:
  assumes ok: "types_ok s" and next_id: "next_type_id s \<noteq> no_type"
    and m: "RegisterTypeMatch (l1, n1) (l2, n2) s = Inr (True, s')"
  shows "types_ok s' \<and>
         (\<exists>p1 p2 f1 f2 i. GetFrameworkProxyByInd l1 s' = Inr p1 \<and> GetFrameworkProxyByInd l2 s' = Inr p2 \<and>
            p1 \<noteq> p2 \<and> proxy p1 s' = Inr f1 \<and> proxy p2 s' = Inr f2 \<and>
            FindTypeId n1 f1 = Inr i \<and> FindTypeId n2 f2 = Inr i \<and> i \<noteq> no_type)"
proof -
  obtain p1 p2 f1 f2 t1 t2 where p: "GetFrameworkProxyByInd l1 s = Inr p1" "GetFrameworkProxyByInd l2 s = Inr p2"
    and ne: "p1 \<noteq> p2" and f: "proxy p1 s = Inr f1" "proxy p2 s = Inr f2"
    and t: "FindTypeId n1 f1 = Inr t1" "FindTypeId n2 f2 = Inr t2"
    and s': "(if t1 = no_type \<and> t2 = no_type then registerNewTypeMatch p1 n1 p2 n2 s
         else if t2 = no_type then
           bind_res (registered_or_assert t1 f1) (\<lambda>e1.
           bind_res (AddFrmwTypeEntry e1 p2 n2 s) (frmw_AddRegisteredTypeEntry p2 n2 e1))
         else if t1 = no_type then
           bind_res (registered_or_assert t2 f2) (\<lambda>e2.
           bind_res (AddFrmwTypeEntry e2 p1 n1 s) (frmw_AddRegisteredTypeEntry p1 n1 e2))
         else if t1 \<noteq> t2 then
           bind_res (registered_or_assert t1 f1) (\<lambda>e1.
           bind_res (registered_or_assert t2 f2) (\<lambda>e2. mergeTypeEntries e1 e2 s))
         else Inr s) = Inr s'"
    using m unfolding RegisterTypeMatch_def Let_def fst_conv snd_conv
    by (auto simp: bind_res_Inr_iff [of _ "\<lambda>_. _"] simp del: if_split elim!: bind_res_InrE split: if_split_asm)
  have p': "p1 \<noteq> null" "p2 \<noteq> null" using f proxy_InrD by blast+
  have by_ind: "GetFrameworkProxyByInd l s' = GetFrameworkProxyByInd l s"
    if "frameworks_by_ind s' = frameworks_by_ind s" for l
    using that by (simp add: GetFrameworkProxyByInd_def)
  consider (new) "t1 = no_type" "t2 = no_type" | (one) "t1 \<noteq> no_type" "t2 = no_type"
    | (two) "t1 = no_type" "t2 \<noteq> no_type" | (both) "t1 \<noteq> no_type" "t2 \<noteq> no_type" by blast
  then show ?thesis
  proof cases
    case new
    with s' have "registerNewTypeMatch p1 n1 p2 n2 s = Inr s'" by simp
    from registerNewTypeMatch_ok [OF ok next_id ne this] p by_ind p' ne next_id
    show ?thesis by (auto simp: proxy_def FindTypeId_exact)
  next
    case one
    with s' obtain e1 where "registered_or_assert t1 f1 = Inr e1"
      and "bind_res (AddFrmwTypeEntry e1 p2 n2 s) (frmw_AddRegisteredTypeEntry p2 n2 e1) = Inr s'"
      by (auto elim: bind_res_InrE)
    from join_match_ok [OF ok f(1) ne this] p by_ind p' ne one t
    show ?thesis by (auto simp: proxy_def FindTypeId_exact)
  next
    case two
    with s' obtain e2 where "registered_or_assert t2 f2 = Inr e2"
      and "bind_res (AddFrmwTypeEntry e2 p1 n1 s) (frmw_AddRegisteredTypeEntry p1 n1 e2) = Inr s'"
      by (auto elim: bind_res_InrE)
    from join_match_ok [OF ok f(2) ne [symmetric] this] p by_ind p' ne two t
    show ?thesis by (auto simp: proxy_def FindTypeId_exact)
  next
    case both
    then have "s' = s" and "t1 = t2"
      using s' by (auto simp: mergeTypeEntries_def bind_res_Inr_iff split: if_splits)
    then show ?thesis using ok p f t ne both by blast
  qed
qed

section \<open>What type ids leave alone\<close>

locale types_view = allocation_view +
  assumes view_next_type_id [simp]: "view (s\<lparr>next_type_id := i\<rparr>) = view s"
    and view_unregistered_types [simp]: "view (s\<lparr>unregistered_types := u\<rparr>) = view s"
    and view_unregistered_type_names [simp]: "view (s\<lparr>unregistered_type_names := n\<rparr>) = view s"
    and view_type_map [simp]: "view (s\<lparr>type_map := m\<rparr>) = view s"
    and view_type_tables: "proxies s p = Some f \<Longrightarrow>
      view (set_proxy p (f\<lparr>m_type_entries := e, m_type_names := n, m_registered_types := r\<rparr>) s) = view s"
begin

lemma view_type_entries:
  "proxies s p = Some f \<Longrightarrow> view (set_proxy p (f\<lparr>m_type_entries := e, m_type_names := n\<rparr>) s) = view s"
  using view_type_tables [of s p f, where r = "m_registered_types f"] by simp

lemma GetNextTypeId_view [simp]: "view (snd (GetNextTypeId s)) = view s"
  by (simp add: GetNextTypeId_def)

lemma GetUnregisteredTypeId_view: "GetUnregisteredTypeId n s = (i, s') \<Longrightarrow> view s' = view s"
  by (auto simp: GetUnregisteredTypeId_def GetNextTypeId_def split: option.splits)

lemma frmw_GetTypeId_view:
  assumes "frmw_GetTypeId p n s = Inr (i, s')"
  shows "view s' = view s"
proof -
  obtain f where f: "proxy p s = Inr f" using assms by (auto simp: frmw_GetTypeId_def elim!: bind_res_InrE)
  have key: "view (set_proxy p (f\<lparr>m_type_entries := e, m_type_names := m\<rparr>) t) = view s"
    if "GetUnregisteredTypeId k s = (j, t)" for e m t k j
  proof -
    have "proxies t = proxies s"
      using that by (auto simp: GetUnregisteredTypeId_def GetNextTypeId_def split: option.splits)
    then show ?thesis
      using view_type_entries [of t p f] proxy_InrD [OF f] GetUnregisteredTypeId_view [OF that] by simp
  qed
  show ?thesis using assms f
    by (auto simp: frmw_GetTypeId_def Let_def key elim!: bind_res_InrE split: if_splits prod.splits)
qed

lemma frmw_AddRegisteredTypeEntry_view:
  assumes "frmw_AddRegisteredTypeEntry p n a s = Inr s'"
  shows "view s' = view s"
proof -
  obtain e f where "proxy p s = Inr f" and s': "s' = set_proxy p (AddRegisteredTypeEntry n a e f) s"
    using assms by (auto simp: frmw_AddRegisteredTypeEntry_def elim!: bind_res_InrE)
  moreover have "AddRegisteredTypeEntry n a e f = f\<lparr>m_type_entries := map_put n (te_id e) (m_type_entries f),
      m_type_names := map_put (te_id e) n (m_type_names f),
      m_registered_types := map_put (te_id e) a (m_registered_types f)\<rparr>"
    by (simp add: AddRegisteredTypeEntry_def)
  ultimately show ?thesis using view_type_tables [of s p f] proxy_InrD [of p s f] by simp
qed

lemma AddFrmwTypeEntry_view: "AddFrmwTypeEntry a p n s = Inr s' \<Longrightarrow> view s' = view s"
  by (auto simp: AddFrmwTypeEntry_def Let_def elim!: bind_res_InrE split: option.splits if_splits)

lemma registerNewTypeMatch_view: "registerNewTypeMatch p1 n1 p2 n2 s = Inr s' \<Longrightarrow> view s' = view s"
  by (auto simp: registerNewTypeMatch_def GetNextTypeId_def Let_def elim!: bind_res_InrE
      dest!: frmw_AddRegisteredTypeEntry_view)

lemma RegisterTypeMatch_view: "RegisterTypeMatch t1 t2 s = Inr (ok, s') \<Longrightarrow> view s' = view s"
  unfolding RegisterTypeMatch_def
  by (auto simp: Let_def mergeTypeEntries_def elim!: bind_res_InrE split: if_splits
      dest!: registerNewTypeMatch_view AddFrmwTypeEntry_view frmw_AddRegisteredTypeEntry_view)

lemma GetTypeIdByTypeName_view: "GetTypeIdByTypeName i n s = Inr (j, s') \<Longrightarrow> view s' = view s"
  unfolding GetTypeIdByTypeName_def by (auto elim!: bind_res_InrE dest!: frmw_GetTypeId_view)

end

text \<open>A call hands out one id at most.\<close>

definition one_id :: "'w bp_state \<Rightarrow> 'w bp_state \<Rightarrow> bool" where
  "one_id s s' \<longleftrightarrow> bp_next s \<le> bp_next s' \<and>
     (next_type_id s' = next_type_id s \<or> next_type_id s' = next_type_id s + 1)"

lemma frmw_GetTypeId_one: "frmw_GetTypeId p n s = Inr (i, s') \<Longrightarrow> one_id s s'"
  by (auto simp: frmw_GetTypeId_def GetUnregisteredTypeId_def GetNextTypeId_def one_id_def set_proxy_def Let_def
      elim!: bind_res_InrE split: if_splits option.splits)

lemma RegisterTypeMatch_one: "RegisterTypeMatch t1 t2 s = Inr (ok, s') \<Longrightarrow> one_id s s'"
proof -
  have add: "one_id t t'" "next_type_id t' = next_type_id t" "bp_next t' = bp_next t"
    if "frmw_AddRegisteredTypeEntry p n a t = Inr t'" for p n a and t t' :: "'a bp_state"
    using that by (auto simp: frmw_AddRegisteredTypeEntry_def set_proxy_def one_id_def elim!: bind_res_InrE)
  have entry: "next_type_id t' = next_type_id t" "bp_next t' = bp_next t"
    if "AddFrmwTypeEntry a p n t = Inr t'" for p n a and t t' :: "'a bp_state"
    using that by (auto simp: AddFrmwTypeEntry_def message_def Let_def elim!: bind_res_InrE split: option.splits if_splits)
  have new: "one_id t t'" if "registerNewTypeMatch p1 n1 p2 n2 t = Inr t'" for p1 n1 p2 n2 and t t' :: "'a bp_state"
    using that by (auto simp: registerNewTypeMatch_def GetNextTypeId_def Let_def one_id_def add elim!: bind_res_InrE)
  assume "RegisterTypeMatch t1 t2 s = Inr (ok, s')"
  then show ?thesis unfolding RegisterTypeMatch_def
    by (auto simp: Let_def mergeTypeEntries_def one_id_def add entry elim!: bind_res_InrE split: if_splits
        dest!: new)
qed

end
