(* ===== verification/Bp_Connect.thy ===== *)
theory Bp_Connect
  imports Bp_View
begin

text \<open>
  Connections between the ports of different frameworks: which framework owns a path, routes
  and the check of their directions, the peer of a connection, child junction nodes and the
  connection queries (\<open>bp_base_interconnect.cpp\<close>, \<open>bp_transaction_interconnect.cpp\<close>,
  \<open>bp_connection.cpp\<close>, \<open>bp_hierarchy.cpp\<close>, \<open>bp_query_interconnect.cpp\<close>).
\<close>

section \<open>Asking the adapter about a connector\<close>

definition GetConnectionBindKey :: "addr \<Rightarrow> string \<Rightarrow> 'w bp_state \<Rightarrow> int res" where
  "GetConnectionBindKey p path =
     frmw_query p (\<lambda>a. map_option (\<lambda>g. g path) (find_connector_id_by_name_ptr (setup_fns a))) (-1)"

definition GetConnectionIntfName :: "addr \<Rightarrow> int \<Rightarrow> 'w bp_state \<Rightarrow> string res" where
  "GetConnectionIntfName p bindKey =
     frmw_query p (\<lambda>a. map_option (\<lambda>g. g bindKey) (get_connector_intf_name_ptr (setup_fns a))) []"

definition kind_of_int :: "int \<Rightarrow> connector_kind" where
  "kind_of_int result =
     (if result = 0 then PORT else if result = 1 then EXPORT else if result = 2 then IMP
      else if result = 3 then INITIATOR_SOCKET else TARGET_SOCKET)"

text \<open>Without \<open>get_connector_type\<close> the code calls \<open>is_export_connector\<close> untested.\<close>

definition GetConnectionKind :: "addr \<Rightarrow> int \<Rightarrow> 'w bp_state \<Rightarrow> connector_kind res" where
  "GetConnectionKind p bindKey s =
     bind_res (proxy p s) (\<lambda>f.
       case get_connector_type_ptr (setup_fns (required_api f)) of
         Some g \<Rightarrow> Inr (kind_of_int (g bindKey (world s)))
       | None \<Rightarrow>
           (case is_export_connector_ptr (setup_fns (required_api f)) of
              None \<Rightarrow> Inl Null_Deref
            | Some g \<Rightarrow> Inr (if g bindKey (world s) \<noteq> 0 then EXPORT else PORT)))"

definition ExternalConnect :: "addr \<Rightarrow> int \<Rightarrow> 'w bp_state \<Rightarrow> 'w bp_state res" where
  "ExternalConnect p bindKey =
     frmw_call_void p (\<lambda>a. map_option (\<lambda>g. g bindKey) (external_connect_ptr (setup_fns a)))"

definition frmw_GetConnection :: "int \<Rightarrow> 'w frmw_proxy \<Rightarrow> addr" where
  "frmw_GetConnection bindKey f = (case map_of (m_connections f) bindKey of None \<Rightarrow> null | Some c \<Rightarrow> c)"

definition frmw_AddConnection :: "addr \<Rightarrow> int \<Rightarrow> 'w frmw_proxy \<Rightarrow> 'w frmw_proxy" where
  "frmw_AddConnection con bindKey f = f\<lparr>m_connections := map_put bindKey con (m_connections f)\<rparr>"

text \<open>The hook for checks of a framework's own; it accepts everything.\<close>

definition frmw_CheckConnection :: "addr \<Rightarrow> addr \<Rightarrow> bool" where
  "frmw_CheckConnection producer provider = True"

section \<open>The framework of a path\<close>

text \<open>The loop that keeps the longest child proxy whose path is a prefix.\<close>

fun longest_proxy :: "string \<Rightarrow> child_proxy list \<Rightarrow> nat \<Rightarrow> child_proxy option \<Rightarrow> child_proxy option" where
  "longest_proxy path [] longest found = found"
| "longest_proxy path (c # cs) longest found =
     (let prefix_len = length (cp_full_name c)
      in if longest < prefix_len \<and> BpPrefixCompare (cp_full_name c) path path_separators
         then longest_proxy path cs prefix_len (Some c)
         else longest_proxy path cs longest found)"

definition findChildProxyforPath :: "string \<Rightarrow> 'w bp_state \<Rightarrow> child_proxy option" where
  "findChildProxyforPath path s = longest_proxy path (child_proxy_registry s) 0 None"

definition top_is_prefix :: "'w bp_state \<Rightarrow> string \<Rightarrow> addr \<Rightarrow> bool" where
  "top_is_prefix s path a =
     (case tops s a of
        None \<Rightarrow> False
      | Some t \<Rightarrow> BpPrefixCompare (ta_instance (td_arg t)) path path_separators)"

definition no_framework_for :: "string \<Rightarrow> 'w bp_state \<Rightarrow> 'w bp_state" where
  "no_framework_for path =
     ErrorMsg ''Could not find a UVM-ML framework for connection name '%s' specified in UVM-ML connection function.''
       [path]"

definition findFrameworkForPath :: "string \<Rightarrow> 'w bp_state \<Rightarrow> (addr \<times> 'w bp_state) res" where
  "findFrameworkForPath path s =
     (case findChildProxyforPath path s of
        Some c \<Rightarrow>
          bind_res (GetFramework (cp_target c) s) (\<lambda>p.
          bind_res (GetConnectionBindKey p path s) (\<lambda>bind_key.
            if bind_key = -1 then
              bind_res (GetFramework (cp_parent c) s) (\<lambda>q.
              bind_res (GetConnectionBindKey q path s) (\<lambda>bind_key.
                if bind_key = -1 then Inr (null, no_framework_for path s) else Inr (q, s)))
            else Inr (p, s)))
      | None \<Rightarrow>
          if BpPrefixCompare (test_instance_name s) path path_separators then
            (if test_component s = null then
               Inr (null, ErrorMsg ''The instance name 'uvm_test_top' cannot be used in absence of a test component'' [] s)
             else bind_res (deref (tops s) (test_component s)) (\<lambda>t. Inr (td_frmw t, s)))
          else
            (case find (top_is_prefix s path) (top_level_registry s) of
               Some a \<Rightarrow> bind_res (deref (tops s) a) (\<lambda>t. Inr (td_frmw t, s))
             | None \<Rightarrow> Inr (null, no_framework_for path s)))"

section \<open>Connections\<close>

definition BpConnectionClass :: "addr \<Rightarrow> int \<Rightarrow> string \<Rightarrow> string \<Rightarrow> connector_kind \<Rightarrow> connection" where
  "BpConnectionClass frmw bindKey path intfName kind =
     \<lparr>c_frmw = frmw, c_bind_key = bindKey, c_path = path, c_intf = intfName, c_kind = kind,
      c_route = UNDEF, fanout = [], fanin = []\<rparr>"

definition has_path :: "'w bp_state \<Rightarrow> string \<Rightarrow> addr \<Rightarrow> bool" where
  "has_path s path a = (case connections s a of None \<Rightarrow> False | Some c \<Rightarrow> c_path c = path)"

definition FindConnectionByName :: "string \<Rightarrow> 'w bp_state \<Rightarrow> addr" where
  "FindConnectionByName path s =
     (case find (has_path s path) (port_registry s) of None \<Rightarrow> null | Some a \<Rightarrow> a)"

definition AddConnection :: "string \<Rightarrow> 'w bp_state \<Rightarrow> (addr \<times> 'w bp_state) res" where
  "AddConnection path s =
     bind_res (findFrameworkForPath path s) (\<lambda>(p, s).
       if p = null then Inr (null, s)
       else
         bind_res (GetConnectionBindKey p path s) (\<lambda>bind_key.
           if bind_key = -1 then
             Inr (null, ErrorMsg ''Path %s specified as argument to ML UVM connection function does not exist or has not been registered.'' [path] s)
           else
             bind_res (GetConnectionIntfName p bind_key s) (\<lambda>intf.
             bind_res (GetConnectionKind p bind_key s) (\<lambda>kind.
             bind_res (proxy p s) (\<lambda>f.
               let con = bp_next s
               in Inr (con, set_proxy p (frmw_AddConnection con bind_key f)
                    (s\<lparr>bp_next := Suc con,
                       connections := (connections s)(con \<mapsto> BpConnectionClass p bind_key path intf kind),
                       port_registry := port_registry s @ [con]\<rparr>)))))))"

definition CheckConnected :: "connection \<Rightarrow> addr \<Rightarrow> bool" where
  "CheckConnected producer providerp = (providerp \<in> set (fanout producer))"

definition AddFanout :: "addr \<Rightarrow> connection \<Rightarrow> connection" where
  "AddFanout providerp c = c\<lparr>fanout := fanout c @ [providerp]\<rparr>"

definition AddFanin :: "addr \<Rightarrow> connection \<Rightarrow> connection" where
  "AddFanin producerp c = c\<lparr>fanin := fanin c @ [producerp]\<rparr>"

text \<open>\<open>CheckCompatibility\<close> accepts every connection.\<close>

definition CheckCompatibility :: "connection \<Rightarrow> bool" where
  "CheckCompatibility c = True"

definition checkAllConnections :: "'w bp_state \<Rightarrow> bool" where
  "checkAllConnections s =
     fold (\<lambda>a result. result \<and> (case connections s a of None \<Rightarrow> True | Some c \<Rightarrow> CheckCompatibility c))
       (port_registry s) True"

definition CheckInRange :: "string \<Rightarrow> connection \<Rightarrow> bool" where
  "CheckInRange root_name c =
     (let path = c_path c; n = length root_name
      in take n path = root_name \<and> (n = length path \<or> take 1 (drop n path) = ''.''))"

section \<open>Directions\<close>

text \<open>\<open>operator >\<close>: the producer cannot produce for the provider.\<close>

definition wrong_order :: "connection \<Rightarrow> connection \<Rightarrow> bool res" where
  "wrong_order producer provider =
     bind_res (assert_res (c_route producer = c_route provider)) (\<lambda>_.
       Inr (case c_kind producer of
              PORT \<Rightarrow> False
            | EXPORT \<Rightarrow> c_kind provider = PORT
            | IMP \<Rightarrow> True
            | INITIATOR_SOCKET \<Rightarrow> c_kind provider \<noteq> TARGET_SOCKET
            | TARGET_SOCKET \<Rightarrow> True))"

text \<open>The interface names that differ and still fit.\<close>

definition intf_fits :: "string \<Rightarrow> string \<Rightarrow> bool" where
  "intf_fits producer provider \<longleftrightarrow>
     (producer \<in> {''tlm_blocking_put'', ''tlm_nonblocking_put''} \<and> provider = ''tlm_put'') \<or>
     (producer \<in> {''tlm_blocking_get'', ''tlm_nonblocking_get''} \<and> provider = ''tlm_get'') \<or>
     (producer \<in> {''tlm_blocking_peek'', ''tlm_nonblocking_peek''} \<and> provider = ''tlm_peek'') \<or>
     (producer \<in> {''tlm_blocking_transport'', ''tlm_nonblocking_transport''} \<and> provider = ''tlm_transport'') \<or>
     (producer \<in> {''tlm_blocking_get_peek'', ''tlm_nonblocking_get_peek''} \<and> provider = ''tlm_get_peek'') \<or>
     (producer \<in> {''tlm_blocking_get'', ''tlm_blocking_peek''} \<and> provider = ''tlm_blocking_get_peek'') \<or>
     (producer \<in> {''tlm_nonblocking_get'', ''tlm_nonblocking_peek''} \<and> provider = ''tlm_nonblocking_get_peek'') \<or>
     (producer \<in> {''tlm_blocking_put'', ''tlm_blocking_get'', ''tlm_blocking_peek''} \<and>
        provider \<in> {''tlm_blocking_master'', ''tlm_blocking_slave''}) \<or>
     (producer \<in> {''tlm_nonblocking_put'', ''tlm_nonblocking_get'', ''tlm_nonblocking_peek''} \<and>
        provider \<in> {''tlm_nonblocking_master'', ''tlm_nonblocking_slave''}) \<or>
     (producer \<in> {''tlm_blocking_put'', ''tlm_nonblocking_put'', ''tlm_put'', ''tlm_blocking_get'',
                  ''tlm_nonblocking_get'', ''tlm_get'', ''tlm_peek'', ''tlm_blocking_peek'',
                  ''tlm_nonblocking_peek''} \<and>
        provider \<in> {''tlm_master'', ''tlm_slave''})"

definition route_name :: "route_type \<Rightarrow> string" where
  "route_name r = (if r = TLM1 then ''TLM1'' else ''TLM2'')"

definition mismatch :: "string \<Rightarrow> string \<Rightarrow> 'w bp_state \<Rightarrow> 'w bp_state" where
  "mismatch x y =
     ErrorMsg ''Mismatching ML connection. The 1st argument is '%s' and the 2nd argument is '%s' '' [x, y]"

definition checkConnectionDirections ::
  "connection \<Rightarrow> connection \<Rightarrow> 'w bp_state \<Rightarrow> (bool \<times> 'w bp_state) res" where
  "checkConnectionDirections producer provider s =
     (if c_route producer \<noteq> c_route provider then
        Inr (False, mismatch (route_name (c_route producer)) (route_name (c_route provider)) s)
      else if c_intf producer \<noteq> c_intf provider \<and> \<not> intf_fits (c_intf producer) (c_intf provider) then
        Inr (False, mismatch (c_intf producer @ '' interface in '' @ c_path producer)
                      (c_intf provider @ '' interface in '' @ c_path provider) s)
      else
        bind_res (wrong_order producer provider) (\<lambda>wrong.
          if wrong then
            Inr (False, ErrorMsg ''Incorrect order of arguments for UVM ML connection function. Arguments are %s and %s''
                          [c_path producer, c_path provider] s)
          else Inr (True, s)))"

section \<open>Routes\<close>

definition set_conn :: "addr \<Rightarrow> connection \<Rightarrow> 'w bp_state \<Rightarrow> 'w bp_state" where
  "set_conn a c s = s\<lparr>connections := (connections s)(a \<mapsto> c)\<rparr>"

definition conn :: "addr \<Rightarrow> 'w bp_state \<Rightarrow> connection res" where
  "conn a s = deref (connections s) a"

definition find_or_add :: "string \<Rightarrow> 'w bp_state \<Rightarrow> (addr \<times> 'w bp_state) res" where
  "find_or_add path s =
     (let c = FindConnectionByName path s in if c = null then AddConnection path s else Inr (c, s))"

text \<open>Through the pointers: a route from a connection to itself writes twice to one object.\<close>

definition link :: "addr \<Rightarrow> addr \<Rightarrow> 'w bp_state \<Rightarrow> 'w bp_state res" where
  "link producerp providerp s =
     bind_res (conn producerp s) (\<lambda>c.
     let s = set_conn producerp (AddFanout providerp c) s in
     bind_res (conn providerp s) (\<lambda>d. Inr (set_conn providerp (AddFanin producerp d) s)))"

definition connect_both :: "connection \<Rightarrow> connection \<Rightarrow> 'w bp_state \<Rightarrow> 'w bp_state res" where
  "connect_both producer provider s =
     bind_res (ExternalConnect (c_frmw producer) (c_bind_key producer) s)
       (ExternalConnect (c_frmw provider) (c_bind_key provider))"

definition RegisterRoute :: "int \<Rightarrow> string \<Rightarrow> string \<Rightarrow> 'w bp_state \<Rightarrow> (bool \<times> 'w bp_state) res" where
  "RegisterRoute frameworkId producerPath providerPath s =
     bind_res (find_or_add producerPath s) (\<lambda>(a, s).
       if a = null then Inr (False, s) else
     bind_res (find_or_add providerPath s) (\<lambda>(b, s).
       if b = null then Inr (False, s) else
     bind_res (conn a s) (\<lambda>producer. bind_res (conn b s) (\<lambda>provider.
       if CheckConnected producer b then
         bind_res (connect_both producer provider s) (\<lambda>s. Inr (True, s))
       else
         bind_res (checkConnectionDirections producer provider s) (\<lambda>(ok, s).
           if \<not> ok \<or> \<not> frmw_CheckConnection a b \<or> \<not> frmw_CheckConnection a b then Inr (False, s)
           else
             bind_res (link a b s) (\<lambda>s.
             bind_res (connect_both producer provider s) (\<lambda>s. Inr (True, s))))))))"

section \<open>Peers\<close>

definition conn_GetSingleProvider :: "connection \<Rightarrow> addr" where
  "conn_GetSingleProvider c = (if length (fanout c) \<noteq> 1 then null else hd (fanout c))"

definition conn_GetSingleProducer :: "connection \<Rightarrow> addr" where
  "conn_GetSingleProducer c = (if length (fanin c) \<noteq> 1 then null else hd (fanin c))"

definition GetSingleProvider :: "int \<Rightarrow> int \<Rightarrow> 'w bp_state \<Rightarrow> addr res" where
  "GetSingleProvider frameworkId producerBindKey s =
     bind_res (GetFramework frameworkId s) (\<lambda>p.
     bind_res (proxy p s) (\<lambda>f.
     let producerp = frmw_GetConnection producerBindKey f in
     bind_res (assert_res (producerp \<noteq> null)) (\<lambda>_.
     bind_res (conn producerp s) (\<lambda>producer.
     let providerp = conn_GetSingleProvider producer in
     bind_res (assert_res (providerp \<noteq> null)) (\<lambda>_. Inr providerp)))))"

definition GetSingleProducer :: "int \<Rightarrow> int \<Rightarrow> 'w bp_state \<Rightarrow> addr res" where
  "GetSingleProducer frameworkId providerBindKey s =
     bind_res (GetFramework frameworkId s) (\<lambda>p.
     bind_res (proxy p s) (\<lambda>f.
     let providerp = frmw_GetConnection providerBindKey f in
     bind_res (assert_res (providerp \<noteq> null)) (\<lambda>_.
     bind_res (conn providerp s) (\<lambda>provider.
     let producerp = conn_GetSingleProducer provider in
     bind_res (assert_res (producerp \<noteq> null)) (\<lambda>_. Inr producerp)))))"

definition GetConnectorSize :: "int \<Rightarrow> int \<Rightarrow> 'w bp_state \<Rightarrow> (int \<times> 'w bp_state) res" where
  "GetConnectorSize frameworkId connector_id s =
     bind_res (GetFramework frameworkId s) (\<lambda>p.
       if p = null then Inr (-1, ErrorMsg ''Framework was not found, ID is %d'' [] s)
       else
         bind_res (proxy p s) (\<lambda>f.
           let c = frmw_GetConnection connector_id f
           in if c \<noteq> null then bind_res (conn c s) (\<lambda>con. Inr (size_to_int (length (fanout con)), s))
              else Inr (0, s)))"

section \<open>Child junction nodes\<close>

definition BpChildProxyClass :: "string \<Rightarrow> string \<Rightarrow> int \<Rightarrow> int \<Rightarrow> child_proxy" where
  "BpChildProxyClass instanceName parentFullName targetFrameworkId parentFrameworkId =
     \<lparr>cp_target = targetFrameworkId, cp_parent = parentFrameworkId,
      cp_full_name = parentFullName @ ''.'' @ instanceName\<rparr>"

definition frmw_CreateChildJunctionNode ::
  "addr \<Rightarrow> string \<Rightarrow> string \<Rightarrow> string \<Rightarrow> int \<Rightarrow> int \<Rightarrow> 'w bp_state \<Rightarrow> (int \<times> 'w bp_state) res" where
  "frmw_CreateChildJunctionNode p componentTypeName instanceName parentFullName parentFrameworkId parentNodeId =
     frmw_call p (\<lambda>a. map_option (\<lambda>g. g componentTypeName instanceName parentFullName parentFrameworkId parentNodeId)
       (create_child_junction_node_ptr (setup_fns a))) (-1)"

definition CreateChildJunctionNode ::
  "int \<Rightarrow> string \<Rightarrow> string \<Rightarrow> string \<Rightarrow> string \<Rightarrow> int \<Rightarrow> 'w bp_state \<Rightarrow> (int \<times> 'w bp_state) res" where
  "CreateChildJunctionNode frameworkId targetInd componentTypeName instanceName parentFullName parentNodeId s =
     bind_res (GetFrameworkProxyByInd targetInd s) (\<lambda>p.
       if p = null then Inr (-1, ErrorMsg ''No framework with name '%s' has been registered'' [targetInd] s)
       else
         bind_res (frmw_CreateChildJunctionNode p componentTypeName instanceName parentFullName
                     frameworkId parentNodeId s) (\<lambda>(result, s).
           if 0 \<le> result then
             bind_res (proxy p s) (\<lambda>f.
               Inr (result, s\<lparr>child_proxy_registry := child_proxy_registry s @
                      [BpChildProxyClass instanceName parentFullName (frmw_id f) frameworkId]\<rparr>))
           else Inr (result, s)))"

section \<open>Queries\<close>

text \<open>A handle is a position in the port registry.\<close>

fun position :: "addr \<Rightarrow> addr list \<Rightarrow> nat \<Rightarrow> nat option" where
  "position a [] h = None"
| "position a (b # bs) h = (if b = a then Some h else position a bs (Suc h))"

definition handle_conn :: "int \<Rightarrow> 'w bp_state \<Rightarrow> connection res" where
  "handle_conn handle s =
     (if 0 \<le> handle \<and> handle < int (length (port_registry s))
      then conn (port_registry s ! nat handle) s else Inl Bad_Index)"

definition FindConnectionHandle :: "int \<Rightarrow> int \<Rightarrow> 'w bp_state \<Rightarrow> int res" where
  "FindConnectionHandle frameworkId bindKey s =
     bind_res (GetFramework frameworkId s) (\<lambda>p.
     bind_res (proxy p s) (\<lambda>f.
       Inr (case position (frmw_GetConnection bindKey f) (port_registry s) 0 of
              None \<Rightarrow> -1 | Some h \<Rightarrow> int h)))"

definition QueryFanoutSize :: "int \<Rightarrow> 'w bp_state \<Rightarrow> int res" where
  "QueryFanoutSize handle s = bind_res (handle_conn handle s) (\<lambda>c. Inr (size_to_int (length (fanout c))))"

definition handle_of_nth :: "nat \<Rightarrow> addr list \<Rightarrow> 'w bp_state \<Rightarrow> int res" where
  "handle_of_nth i peers s =
     (if i < length peers then
        (case position (peers ! i) (port_registry s) 0 of
           None \<Rightarrow> Inl Assert_Failure | Some h \<Rightarrow> Inr (int h))
      else Inl Bad_Index)"

definition QueryFanoutHandle :: "int \<Rightarrow> nat \<Rightarrow> 'w bp_state \<Rightarrow> int res" where
  "QueryFanoutHandle handle i s = bind_res (handle_conn handle s) (\<lambda>c. handle_of_nth i (fanout c) s)"

definition QueryFaninSize :: "int \<Rightarrow> 'w bp_state \<Rightarrow> int res" where
  "QueryFaninSize handle s = bind_res (handle_conn handle s) (\<lambda>c. Inr (size_to_int (length (fanin c))))"

definition QueryFaninHandle :: "int \<Rightarrow> nat \<Rightarrow> 'w bp_state \<Rightarrow> int res" where
  "QueryFaninHandle handle i s = bind_res (handle_conn handle s) (\<lambda>c. handle_of_nth i (fanin c) s)"

definition QueryFrameworkName :: "int \<Rightarrow> 'w bp_state \<Rightarrow> string res" where
  "QueryFrameworkName handle s =
     bind_res (handle_conn handle s) (\<lambda>c. bind_res (proxy (c_frmw c) s) (\<lambda>f. Inr (frmw_name f)))"

definition QueryFrameworkIndicators :: "int \<Rightarrow> 'w bp_state \<Rightarrow> string list res" where
  "QueryFrameworkIndicators handle s =
     bind_res (handle_conn handle s) (\<lambda>c. bind_res (proxy (c_frmw c) s) (\<lambda>f. Inr (frmw_indicators f)))"

definition QueryConnectionPath :: "int \<Rightarrow> 'w bp_state \<Rightarrow> string res" where
  "QueryConnectionPath handle s = bind_res (handle_conn handle s) (\<lambda>c. Inr (c_path c))"

section \<open>The longest child proxy\<close>

lemma longest_proxy_None:
  "longest_proxy path cs n found = None \<longleftrightarrow>
     found = None \<and>
     (\<forall>c \<in> set cs. BpPrefixCompare (cp_full_name c) path path_separators \<longrightarrow> length (cp_full_name c) \<le> n)"
  by (induction cs arbitrary: n found) (auto simp: Let_def)

lemma longest_proxy_Some:
  assumes "longest_proxy path cs n found = Some c"
    and "\<And>c0. found = Some c0 \<Longrightarrow> length (cp_full_name c0) = n \<and> BpPrefixCompare (cp_full_name c0) path path_separators"
    and "found = None \<Longrightarrow> n = 0"
  shows "(c \<in> set cs \<or> found = Some c) \<and> BpPrefixCompare (cp_full_name c) path path_separators \<and>
         n \<le> length (cp_full_name c) \<and>
         (\<forall>d \<in> set cs. BpPrefixCompare (cp_full_name d) path path_separators \<longrightarrow>
            length (cp_full_name d) \<le> length (cp_full_name c))"
  using assms
proof (induction cs arbitrary: n found)
  case Nil
  then show ?case by auto
next
  case (Cons d cs)
  let ?take = "n < length (cp_full_name d) \<and> BpPrefixCompare (cp_full_name d) path path_separators"
  show ?case
  proof (cases ?take)
    case True
    then have "longest_proxy path cs (length (cp_full_name d)) (Some d) = Some c"
      using Cons.prems(1) by simp
    from Cons.IH [OF this] True show ?thesis by auto
  next
    case False
    then have "longest_proxy path cs n found = Some c" using Cons.prems(1) by (auto simp: Let_def split: if_splits)
    from Cons.IH [OF this Cons.prems(2,3)] False show ?thesis by auto
  qed
qed

lemma findChildProxyforPath_Some:
  assumes "findChildProxyforPath path s = Some c"
  shows "c \<in> set (child_proxy_registry s) \<and> BpPrefixCompare (cp_full_name c) path path_separators \<and>
         (\<forall>d \<in> set (child_proxy_registry s). BpPrefixCompare (cp_full_name d) path path_separators \<longrightarrow>
            length (cp_full_name d) \<le> length (cp_full_name c))"
  using longest_proxy_Some [OF assms [unfolded findChildProxyforPath_def]] by simp

section \<open>The connection graph\<close>

abbreviation cn :: "'w bp_state \<Rightarrow> addr \<Rightarrow> connection" where
  "cn s a \<equiv> the (connections s a)"

text \<open>
  Registered connections are live and have distinct paths. Fan-out and fan-in of any connection
  are without duplicates and mirror each other, lead to live connections, and from a registered
  one to registered ones. Each framework's table of connections leads to live connections of
  that framework under their bind keys; it outlives a cleanup of the registry.
\<close>

definition graph_ok :: "addr list \<Rightarrow> (addr \<rightharpoonup> connection) \<Rightarrow> bool" where
  "graph_ok reg cs \<longleftrightarrow>
     distinct reg \<and> set reg \<subseteq> dom cs \<and>
     (\<forall>a \<in> set reg. \<forall>b \<in> set reg. c_path (the (cs a)) = c_path (the (cs b)) \<longrightarrow> a = b) \<and>
     (\<forall>a \<in> set reg. set (fanout (the (cs a))) \<subseteq> set reg \<and> set (fanin (the (cs a))) \<subseteq> set reg) \<and>
     (\<forall>a \<in> dom cs. c_route (the (cs a)) = UNDEF \<and>
        distinct (fanout (the (cs a))) \<and> set (fanout (the (cs a))) \<subseteq> dom cs \<and>
        distinct (fanin (the (cs a))) \<and> set (fanin (the (cs a))) \<subseteq> dom cs) \<and>
     (\<forall>a \<in> dom cs. \<forall>b \<in> dom cs. b \<in> set (fanout (the (cs a))) \<longleftrightarrow> a \<in> set (fanin (the (cs b))))"

definition tables_ok :: "'w bp_state \<Rightarrow> bool" where
  "tables_ok s \<longleftrightarrow>
     (\<forall>p f k a. proxies s p = Some f \<longrightarrow> map_of (m_connections f) k = Some a \<longrightarrow>
        a \<in> dom (connections s) \<and> c_frmw (cn s a) = p \<and> c_bind_key (cn s a) = k)"

definition conn_ok :: "'w bp_state \<Rightarrow> bool" where
  "conn_ok s \<longleftrightarrow>
     (\<forall>a \<in> dom (connections s). 0 < a \<and> a < bp_next s) \<and> 0 < bp_next s \<and>
     graph_ok (port_registry s) (connections s) \<and> tables_ok s"

lemma conn_ok_log [simp]: "conn_ok (s\<lparr>log := l\<rparr>) = conn_ok s"
  by (simp add: conn_ok_def tables_ok_def)

lemma conn_ok_world [simp]: "conn_ok (s\<lparr>world := w\<rparr>) = conn_ok s"
  by (simp add: conn_ok_def tables_ok_def)

lemma has_path_log [simp]: "has_path (s\<lparr>log := l\<rparr>) = has_path s"
  by (simp add: fun_eq_iff has_path_def)

lemma graph_ok_cn:
  assumes "graph_ok reg cs" and "a \<in> set reg"
  shows "\<exists>c. cs a = Some c \<and> c_route c = UNDEF"
proof -
  note g = assms(1) [unfolded graph_ok_def]
  have a: "a \<in> dom cs" using g assms(2) by blast
  then obtain c where c: "cs a = Some c" by blast
  moreover have "c_route (the (cs a)) = UNDEF" using g a by blast
  ultimately show ?thesis by simp
qed

lemma registered_live: "conn_ok s \<Longrightarrow> a \<in> set (port_registry s) \<Longrightarrow> a \<noteq> null \<and> a < bp_next s"
  unfolding conn_ok_def graph_ok_def by blast

text \<open>A new connection has no peers yet.\<close>

lemma graph_ok_new:
  assumes g: "graph_ok reg cs" and a: "a \<notin> dom cs" and c: "c_route c = UNDEF" "fanout c = []" "fanin c = []"
    and path: "\<forall>b \<in> set reg. c_path (the (cs b)) \<noteq> c_path c"
  shows "graph_ok (reg @ [a]) (cs(a \<mapsto> c))"
proof -
  let ?cs = "cs(a \<mapsto> c)"
  note g' = g [unfolded graph_ok_def]
  have reg: "set reg \<subseteq> dom cs" "a \<notin> set reg" using g' a by auto
  have old: "?cs b = cs b" if "b \<in> dom cs" for b using that a by auto
  have old': "?cs b = cs b" if "b \<in> set reg" for b using that reg old by blast
  have no: "a \<notin> set (fanout (the (cs b)))" "a \<notin> set (fanin (the (cs b)))" if "b \<in> dom cs" for b
    using g' that a by blast+
  have dom: "dom ?cs = insert a (dom cs)" by simp
  show ?thesis unfolding graph_ok_def
  proof (intro conjI)
    show "distinct (reg @ [a])" using g' reg by simp
    show "set (reg @ [a]) \<subseteq> dom ?cs" using reg(1) by auto
    show "\<forall>x \<in> set (reg @ [a]). \<forall>y \<in> set (reg @ [a]). c_path (the (?cs x)) = c_path (the (?cs y)) \<longrightarrow> x = y"
    proof (intro ballI impI)
      fix x y assume xy: "x \<in> set (reg @ [a])" "y \<in> set (reg @ [a])" "c_path (the (?cs x)) = c_path (the (?cs y))"
      consider "x \<in> set reg" "y \<in> set reg" | "x = a" "y = a" | "x = a" "y \<in> set reg" | "x \<in> set reg" "y = a"
        using xy by auto
      then show "x = y"
      proof cases
        case 1
        then show ?thesis using g' xy(3) old' by metis
      next
        case 3
        then show ?thesis using path xy(3) old' [of y] by (metis fun_upd_same option.sel)
      next
        case 4
        then show ?thesis using path xy(3) old' [of x] by (metis fun_upd_same option.sel)
      qed simp
    qed
    show "\<forall>x \<in> set (reg @ [a]). set (fanout (the (?cs x))) \<subseteq> set (reg @ [a]) \<and>
        set (fanin (the (?cs x))) \<subseteq> set (reg @ [a])"
    proof
      fix x assume x: "x \<in> set (reg @ [a])"
      show "set (fanout (the (?cs x))) \<subseteq> set (reg @ [a]) \<and> set (fanin (the (?cs x))) \<subseteq> set (reg @ [a])"
      proof (cases "x = a")
        case False
        then have "x \<in> set reg" using x by simp
        then show ?thesis unfolding old' [OF \<open>x \<in> set reg\<close>] using g' by auto
      qed (simp add: c)
    qed
    show "\<forall>x \<in> dom ?cs. c_route (the (?cs x)) = UNDEF \<and>
        distinct (fanout (the (?cs x))) \<and> set (fanout (the (?cs x))) \<subseteq> dom ?cs \<and>
        distinct (fanin (the (?cs x))) \<and> set (fanin (the (?cs x))) \<subseteq> dom ?cs"
    proof
      fix x assume x: "x \<in> dom ?cs"
      show "c_route (the (?cs x)) = UNDEF \<and>
        distinct (fanout (the (?cs x))) \<and> set (fanout (the (?cs x))) \<subseteq> dom ?cs \<and>
        distinct (fanin (the (?cs x))) \<and> set (fanin (the (?cs x))) \<subseteq> dom ?cs"
      proof (cases "x = a")
        case False
        then have "x \<in> dom cs" using x by simp
        then show ?thesis unfolding old [OF \<open>x \<in> dom cs\<close>] dom using g' by blast
      qed (simp add: c)
    qed
    show "\<forall>x \<in> dom ?cs. \<forall>y \<in> dom ?cs. y \<in> set (fanout (the (?cs x))) \<longleftrightarrow> x \<in> set (fanin (the (?cs y)))"
    proof (intro ballI)
      fix x y assume xy: "x \<in> dom ?cs" "y \<in> dom ?cs"
      consider "x \<in> dom cs" "y \<in> dom cs" | "x = a" "y = a" | "x = a" "y \<in> dom cs" | "x \<in> dom cs" "y = a"
        using xy dom by blast
      then show "y \<in> set (fanout (the (?cs x))) \<longleftrightarrow> x \<in> set (fanin (the (?cs y)))"
      proof cases
        case 1
        then show ?thesis unfolding old [OF 1(1)] old [OF 1(2)] using g' by blast
      next
        case 2
        then show ?thesis using c by simp
      next
        case 3
        then show ?thesis unfolding old [OF 3(2)] using c no [OF 3(2)] by simp
      next
        case 4
        then show ?thesis unfolding old [OF 4(1)] using c no [OF 4(1)] by simp
      qed
    qed
  qed
qed

text \<open>A new edge, written at its two ends.\<close>

definition edge :: "addr \<Rightarrow> addr \<Rightarrow> (addr \<rightharpoonup> connection) \<Rightarrow> (addr \<rightharpoonup> connection)" where
  "edge a b cs =
     (let cs' = cs(a \<mapsto> AddFanout b (the (cs a))) in cs'(b \<mapsto> AddFanin a (the (cs' b))))"

lemma edge_apply:
  assumes "cs a = Some c" and "cs b = Some d"
  shows "fanout (the (edge a b cs x)) = fanout (the (cs x)) @ (if x = a then [b] else [])"
    and "fanin (the (edge a b cs x)) = fanin (the (cs x)) @ (if x = b then [a] else [])"
    and "c_path (the (edge a b cs x)) = c_path (the (cs x))"
    and "c_route (the (edge a b cs x)) = c_route (the (cs x))"
    and "c_frmw (the (edge a b cs x)) = c_frmw (the (cs x))"
    and "c_bind_key (the (edge a b cs x)) = c_bind_key (the (cs x))"
    and "dom (edge a b cs) = dom cs"
  using assms by (auto simp: edge_def Let_def AddFanout_def AddFanin_def dom_def)

lemma graph_ok_edge:
  assumes ok: "graph_ok reg cs" and a: "a \<in> set reg" and b: "b \<in> set reg"
    and new: "b \<notin> set (fanout (the (cs a)))"
  shows "graph_ok reg (edge a b cs)"
proof -
  obtain c d where "cs a = Some c" "cs b = Some d" using graph_ok_cn [OF ok] a b by blast
  note e = edge_apply [OF this]
  have ab: "a \<in> dom cs" "b \<in> dom cs" using \<open>cs a = Some c\<close> \<open>cs b = Some d\<close> by auto
  note g = ok [unfolded graph_ok_def]
  have "a \<notin> set (fanin (the (cs b)))" using g ab new by blast
  then show ?thesis using g a b ab new unfolding graph_ok_def e by auto
qed

section \<open>Registering a route keeps the graph\<close>

lemma FindConnectionByName_found:
  assumes "conn_ok s" and "FindConnectionByName path s = a" and "a \<noteq> null"
  shows "a \<in> set (port_registry s) \<and> c_path (cn s a) = path"
proof -
  have "find (has_path s path) (port_registry s) = Some a"
    using assms by (auto simp: FindConnectionByName_def split: option.splits)
  then have "a \<in> set (port_registry s) \<and> has_path s path a" by (auto simp: find_Some_iff)
  then show ?thesis by (auto simp: has_path_def split: option.splits)
qed

lemma FindConnectionByName_unique:
  assumes ok: "conn_ok s" and a: "a \<in> set (port_registry s)" and path: "c_path (cn s a) = path"
  shows "FindConnectionByName path s = a"
proof -
  have g: "graph_ok (port_registry s) (connections s)" using ok by (simp add: conn_ok_def)
  have hp: "has_path s path a" using graph_ok_cn [OF g a] path by (auto simp: has_path_def)
  then obtain b where b: "find (has_path s path) (port_registry s) = Some b"
    using a by (cases "find (has_path s path) (port_registry s)") (auto simp: find_None_iff)
  then have "b \<in> set (port_registry s)" and "c_path (cn s b) = path"
    by (auto simp: find_Some_iff has_path_def split: option.splits)
  then have "b = a" using g a path by (auto simp: graph_ok_def)
  then show ?thesis using b by (simp add: FindConnectionByName_def)
qed

lemma FindConnectionByName_null:
  assumes "conn_ok s" and "FindConnectionByName path s = null" and "a \<in> set (port_registry s)"
  shows "c_path (cn s a) \<noteq> path"
  using FindConnectionByName_unique [OF assms(1,3)] assms registered_live [OF assms(1,3)] by auto

lemma findFrameworkForPath_log:
  assumes "findFrameworkForPath path s = Inr (p, s')"
  shows "\<exists>l. s' = s\<lparr>log := l\<rparr>"
proof -
  have same: "\<exists>l. s = s\<lparr>log := l\<rparr>" by (rule exI [of _ "log s"]) simp
  have msg: "\<exists>l. message x y z s = s\<lparr>log := l\<rparr>" for x y z by (auto simp: message_def)
  show ?thesis
    using assms same msg unfolding findFrameworkForPath_def no_framework_for_def
    by (auto simp: bind_res_Inr_iff simp del: if_split_asm split: option.splits if_splits)
qed

lemma AddConnection_ok:
  assumes ok: "conn_ok s" and new: "FindConnectionByName path s = null"
    and add: "AddConnection path s = Inr (a, s')"
  shows "conn_ok s' \<and> (\<forall>b \<in> set (port_registry s). b \<in> set (port_registry s') \<and> connections s' b = connections s b) \<and>
         (a \<noteq> null \<longrightarrow> a \<in> set (port_registry s') \<and> c_path (cn s' a) = path)"
proof -
  obtain p s1 where f: "findFrameworkForPath path s = Inr (p, s1)"
    and rest: "(if p = null then Inr (null, s1)
       else
         bind_res (GetConnectionBindKey p path s1) (\<lambda>bind_key.
           if bind_key = -1 then
             Inr (null, ErrorMsg ''Path %s specified as argument to ML UVM connection function does not exist or has not been registered.'' [path] s1)
           else
             bind_res (GetConnectionIntfName p bind_key s1) (\<lambda>intf.
             bind_res (GetConnectionKind p bind_key s1) (\<lambda>kind.
             bind_res (proxy p s1) (\<lambda>f.
               let con = bp_next s1
               in Inr (con, set_proxy p (frmw_AddConnection con bind_key f)
                    (s1\<lparr>bp_next := Suc con,
                       connections := (connections s1)(con \<mapsto> BpConnectionClass p bind_key path intf kind),
                       port_registry := port_registry s1 @ [con]\<rparr>))))))) = Inr (a, s')"
    using add unfolding AddConnection_def by (auto elim!: bind_res_InrE)
  obtain l where l: "s1 = s\<lparr>log := l\<rparr>" using findFrameworkForPath_log [OF f] by blast
  then have ok1: "conn_ok s1" and new1: "FindConnectionByName path s1 = null"
    using ok new has_path_log [of l s] by (simp_all add: FindConnectionByName_def)
  show ?thesis
  proof (cases "a = null")
    case True
    then have "\<exists>l. s' = s\<lparr>log := l\<rparr>"
      using rest ok1 by (auto simp: l message_def Let_def conn_ok_def bind_res_Inr_iff split: if_splits)
    then show ?thesis using ok True by auto
  next
    case False
    then obtain bind_key intf kind f where f: "proxy p s1 = Inr f" and a: "a = bp_next s1"
      and s': "s' = set_proxy p (frmw_AddConnection a bind_key f)
         (s1\<lparr>bp_next := Suc a, connections := (connections s1)(a \<mapsto> BpConnectionClass p bind_key path intf kind),
            port_registry := port_registry s1 @ [a]\<rparr>)"
      using rest by (auto simp: bind_res_Inr_iff Let_def split: if_splits)
    let ?c = "BpConnectionClass p bind_key path intf kind"
    have fresh: "a \<notin> dom (connections s1)" using ok1 a unfolding conn_ok_def by blast
    have reg: "set (port_registry s1) \<subseteq> dom (connections s1)" using ok1 by (simp add: conn_ok_def graph_ok_def)
    have "graph_ok (port_registry s1 @ [a]) ((connections s1)(a \<mapsto> ?c))"
      using ok1 fresh FindConnectionByName_null [OF ok1 new1]
      by (intro graph_ok_new) (auto simp: conn_ok_def BpConnectionClass_def)
    moreover have "tables_ok s'"
    proof -
      have t: "tables_ok s1" using ok1 by (simp add: conn_ok_def)
      have "x \<noteq> a" if "x \<in> dom (connections s1)" for x using fresh that by auto
      moreover have "map_of (m_connections g) k \<noteq> Some a" if "proxies s1 q = Some g" for g k q
        using t fresh that unfolding tables_ok_def by blast
      moreover have "\<exists>c. connections s1 x = Some c" if "proxies s1 q = Some g" "map_of (m_connections g) k = Some x" for q g k x
        using t that unfolding tables_ok_def by blast
      ultimately show ?thesis using t proxy_InrD [OF f] unfolding tables_ok_def s'
        by (auto simp: set_proxy_def frmw_AddConnection_def map_of_map_put BpConnectionClass_def split: if_splits)
    qed
    moreover have "\<forall>x \<in> dom (connections s1). 0 < x \<and> x < Suc a"
      using ok1 less_SucI unfolding a conn_ok_def by blast
    ultimately have "conn_ok s'" using ok1 a
      by (auto simp: conn_ok_def s' set_proxy_def)
    then show ?thesis using fresh reg by (auto simp: s' l set_proxy_def BpConnectionClass_def)
  qed
qed

lemma find_or_add_ok:
  assumes ok: "conn_ok s" and f: "find_or_add path s = Inr (a, s')"
  shows "conn_ok s' \<and> (\<forall>b \<in> set (port_registry s). b \<in> set (port_registry s') \<and> connections s' b = connections s b) \<and>
         (a \<noteq> null \<longrightarrow> a \<in> set (port_registry s') \<and> c_path (cn s' a) = path)"
proof (cases "FindConnectionByName path s = null")
  case True
  then show ?thesis using AddConnection_ok [OF ok True] f by (simp add: find_or_add_def)
next
  case False
  then have "s' = s" and "a = FindConnectionByName path s" using f by (auto simp: find_or_add_def)
  then show ?thesis using ok FindConnectionByName_found [OF ok refl False] by simp
qed

lemma link_ok:
  assumes ok: "conn_ok s" and a: "a \<in> set (port_registry s)" and b: "b \<in> set (port_registry s)"
    and new: "b \<notin> set (fanout (cn s a))"
  shows "link a b s = Inr (s\<lparr>connections := edge a b (connections s)\<rparr>) \<and>
         conn_ok (s\<lparr>connections := edge a b (connections s)\<rparr>)"
proof -
  have g: "graph_ok (port_registry s) (connections s)" using ok by (simp add: conn_ok_def)
  obtain c d where c: "connections s a = Some c" "connections s b = Some d"
    using graph_ok_cn [OF g] a b by blast
  note e = edge_apply [OF this]
  have "a \<noteq> null" "b \<noteq> null" using registered_live [OF ok] a b by auto
  then have "link a b s = Inr (s\<lparr>connections := edge a b (connections s)\<rparr>)"
    using c by (auto simp: link_def conn_def set_conn_def edge_def Let_def)
  moreover have "conn_ok (s\<lparr>connections := edge a b (connections s)\<rparr>)"
    using ok graph_ok_edge [OF g a b new] by (simp add: conn_ok_def tables_ok_def e)
  ultimately show ?thesis by blast
qed

lemma frmw_call_void_frame: "frmw_call_void p fn s = Inr s' \<Longrightarrow> \<exists>w. s' = s\<lparr>world := w\<rparr>"
proof -
  have same: "\<exists>w. s = s\<lparr>world := w\<rparr>" by (rule exI [of _ "world s"]) simp
  assume "frmw_call_void p fn s = Inr s'"
  then show ?thesis using same by (auto simp: frmw_call_void_def bind_res_Inr_iff split: option.splits)
qed

lemma connect_both_frame: "connect_both c d s = Inr s' \<Longrightarrow> \<exists>w. s' = s\<lparr>world := w\<rparr>"
  by (auto simp: connect_both_def ExternalConnect_def bind_res_Inr_iff dest!: frmw_call_void_frame)

lemma checkConnectionDirections_frame:
  assumes "checkConnectionDirections c d s = Inr (ok, s')"
  shows "\<exists>l. s' = s\<lparr>log := l\<rparr>"
proof -
  have same: "\<exists>l. s = s\<lparr>log := l\<rparr>" by (rule exI [of _ "log s"]) simp
  show ?thesis
    using assms same
    by (auto simp: checkConnectionDirections_def mismatch_def message_def bind_res_Inr_iff split: if_splits)
qed

text \<open>The order check cannot fail its assertion: route types are never set.\<close>

lemma wrong_order_total:
  assumes "conn_ok s" and "a \<in> set (port_registry s)" and "b \<in> set (port_registry s)"
  shows "wrong_order (cn s a) (cn s b) \<noteq> Inl e"
proof -
  have g: "graph_ok (port_registry s) (connections s)" using assms(1) by (simp add: conn_ok_def)
  have "c_route (cn s a) = UNDEF" "c_route (cn s b) = UNDEF"
    using graph_ok_cn [OF g assms(2)] graph_ok_cn [OF g assms(3)] by auto
  then show ?thesis by (simp add: wrong_order_def)
qed

lemma RegisterRoute_ok:
  assumes ok: "conn_ok s" and r: "RegisterRoute i x y s = Inr (ret, s')"
  shows "conn_ok s' \<and>
         (ret \<longrightarrow> (let a = FindConnectionByName x s'; b = FindConnectionByName y s' in
            a \<in> set (port_registry s') \<and> b \<in> set (port_registry s') \<and> b \<in> set (fanout (cn s' a)) \<and>
            c_path (cn s' a) = x \<and> c_path (cn s' b) = y))"
proof -
  obtain a s1 where a: "find_or_add x s = Inr (a, s1)" using r by (auto simp: RegisterRoute_def elim!: bind_res_InrE)
  note s1 = find_or_add_ok [OF ok a]
  show ?thesis
  proof (cases "a = null")
    case True
    then show ?thesis using r a s1 by (simp add: RegisterRoute_def)
  next
    case False
    obtain b s2 where b: "find_or_add y s1 = Inr (b, s2)"
      using r a False by (auto simp: RegisterRoute_def elim!: bind_res_InrE)
    note s2 = find_or_add_ok [OF conjunct1 [OF s1] b]
    show ?thesis
    proof (cases "b = null")
      case True
      then show ?thesis using r a b s2 False by (simp add: RegisterRoute_def)
    next
      case bn: False
      have ok2: "conn_ok s2" and ab: "a \<in> set (port_registry s2)" "b \<in> set (port_registry s2)"
        and paths: "c_path (cn s2 a) = x" "c_path (cn s2 b) = y"
        using s1 s2 False bn by auto
      have g: "graph_ok (port_registry s2) (connections s2)" using ok2 by (simp add: conn_ok_def)
      obtain c d where c: "connections s2 a = Some c" "connections s2 b = Some d"
        using graph_ok_cn [OF g] ab by blast
      then have cn: "conn a s2 = Inr c" "conn b s2 = Inr d" using False bn by (simp_all add: conn_def)
      have found: "FindConnectionByName x s3 = a \<and> FindConnectionByName y s3 = b"
        if "conn_ok s3" "port_registry s3 = port_registry s2" "c_path (cn s3 a) = x" "c_path (cn s3 b) = y" for s3
        using that ab FindConnectionByName_unique by metis
      show ?thesis
      proof (cases "CheckConnected c b")
        case True
        then have "connect_both c d s2 = Inr s'" and "ret"
          using r a b cn False bn by (auto simp: RegisterRoute_def bind_res_Inr_iff)
        then obtain w where s': "s' = s2\<lparr>world := w\<rparr>" using connect_both_frame by blast
        have "conn_ok s'" using ok2 s' by simp
        then show ?thesis
          using found [of s'] paths ab c True by (simp add: s' CheckConnected_def Let_def)
      next
        case notc: False
        obtain good s3 where dir: "checkConnectionDirections c d s2 = Inr (good, s3)"
          using r a b cn False bn notc by (auto simp: RegisterRoute_def elim!: bind_res_InrE)
        then obtain l where s3: "s3 = s2\<lparr>log := l\<rparr>" using checkConnectionDirections_frame by blast
        show ?thesis
        proof (cases good)
          case False
          then have "s' = s3" and "\<not> ret"
            using r a b cn \<open>a \<noteq> null\<close> bn notc dir by (auto simp: RegisterRoute_def)
          then show ?thesis using ok2 s3 by simp
        next
          case True
          obtain s4 where link: "link a b s3 = Inr s4" and con: "connect_both c d s4 = Inr s'" and "ret"
            using r a b cn False bn notc dir True
            by (auto simp: RegisterRoute_def frmw_CheckConnection_def bind_res_Inr_iff)
          have "conn_ok s3" "a \<in> set (port_registry s3)" "b \<in> set (port_registry s3)" "b \<notin> set (fanout (cn s3 a))"
            using ok2 ab notc c by (simp_all add: s3 CheckConnected_def)
          from link_ok [OF this] link have s4: "s4 = s3\<lparr>connections := edge a b (connections s3)\<rparr>" "conn_ok s4"
            by auto
          obtain w where s': "s' = s4\<lparr>world := w\<rparr>" using connect_both_frame [OF con] by blast
          have "connections s3 a = Some c" "connections s3 b = Some d" using c by (simp_all add: s3)
          note e = edge_apply [OF this]
          have "conn_ok s'" using s4(2) s' by simp
          moreover have "port_registry s' = port_registry s2" "connections s' = edge a b (connections s2)"
            by (simp_all add: s' s4(1) s3)
          moreover from this have "c_path (cn s' a) = x" "c_path (cn s' b) = y" "b \<in> set (fanout (cn s' a))"
            using paths edge_apply [OF c] by simp_all
          ultimately show ?thesis using found [of s'] ab by (simp add: Let_def)
        qed
      qed
    qed
  qed
qed

section \<open>What routes and child junction nodes leave alone\<close>

locale junction_view = call_view +
  assumes view_child_proxy_registry [simp]: "view (s\<lparr>child_proxy_registry := cs\<rparr>) = view s"
begin

lemma CreateChildJunctionNode_view:
  "CreateChildJunctionNode i ind ty inst parent j s = Inr (r, s') \<Longrightarrow> view s' = view s"
  unfolding CreateChildJunctionNode_def frmw_CreateChildJunctionNode_def
  by (auto elim!: bind_res_InrE split: if_splits dest!: frmw_call_view)

lemma GetConnectorSize_view: "GetConnectorSize i k s = Inr (r, s') \<Longrightarrow> view s' = view s"
  unfolding GetConnectorSize_def by (auto simp: Let_def elim!: bind_res_InrE split: if_splits)

end

locale route_view = allocation_view + ports_view +
  assumes view_connections [simp]: "view (s\<lparr>connections := cs\<rparr>) = view s"
    and view_m_connections: "proxies s p = Some f \<Longrightarrow> view (set_proxy p (f\<lparr>m_connections := t\<rparr>) s) = view s"
begin

lemma AddConnection_view:
  assumes "AddConnection path s = Inr (a, s')"
  shows "view s' = view s"
proof -
  obtain p s1 where f: "findFrameworkForPath path s = Inr (p, s1)" using assms
    by (auto simp: AddConnection_def elim!: bind_res_InrE)
  then have s1: "view s1 = view s" using findFrameworkForPath_log [OF f] by auto
  have key: "view (set_proxy p (frmw_AddConnection c k f)
        (s1\<lparr>bp_next := n, connections := cs, port_registry := ps\<rparr>)) = view s1"
    if "proxy p s1 = Inr f" for c k f n cs ps
    using view_m_connections [of "s1\<lparr>bp_next := n, connections := cs, port_registry := ps\<rparr>" p f] proxy_InrD [OF that]
    by (simp add: frmw_AddConnection_def)
  show ?thesis using assms f s1
    by (auto simp: AddConnection_def Let_def key elim!: bind_res_InrE split: if_splits)
qed

lemma find_or_add_view: "find_or_add path s = Inr (a, s') \<Longrightarrow> view s' = view s"
  by (auto simp: find_or_add_def Let_def split: if_splits dest: AddConnection_view)

lemma link_view: "link a b s = Inr s' \<Longrightarrow> view s' = view s"
  by (auto simp: link_def Let_def set_conn_def elim!: bind_res_InrE)

lemma RegisterRoute_view: "RegisterRoute i x y s = Inr (ok, s') \<Longrightarrow> view s' = view s"
  unfolding RegisterRoute_def
  by (auto elim!: bind_res_InrE split: if_splits
      dest!: find_or_add_view link_view connect_both_frame checkConnectionDirections_frame)

end

lemma RegisterRoute_next:
  assumes "RegisterRoute i x y s = Inr (ok, s')"
  shows "bp_next s \<le> bp_next s'"
proof -
  have add: "bp_next t \<le> bp_next t'" if "find_or_add path t = Inr (a, t')" for path a and t t' :: "'a bp_state"
    using that
    by (auto simp: find_or_add_def Let_def AddConnection_def set_proxy_def message_def elim!: bind_res_InrE
        split: if_splits dest!: findFrameworkForPath_log)
  show ?thesis using assms unfolding RegisterRoute_def
    by (auto simp: link_def Let_def set_conn_def elim!: bind_res_InrE split: if_splits
        dest!: add connect_both_frame checkConnectionDirections_frame)
qed

end
