(* ===== verification/Bp_Transport.thy ===== *)
theory Bp_Transport
  imports Bp_Connect
begin

text \<open>
  Transactions: the TLM1 and TLM2 calls of a producer, dispatched to the adapter of the other
  end of its connection (\<open>bp_transaction_interconnect.cpp\<close>, \<open>bp_framework_proxy.cpp\<close>). An
  adapter that lacks a function gives the default result of the proxy. A buffer passed by
  reference is an argument and, updated, part of the result.
\<close>

section \<open>The calls of a proxy, TLM1\<close>

definition frmw_NbPut :: "addr \<Rightarrow> int \<Rightarrow> uint \<Rightarrow> stream \<Rightarrow> time \<Rightarrow> 'w bp_state \<Rightarrow> (int \<times> 'w bp_state) res" where
  "frmw_NbPut p bindKey streamSize strm t =
     frmw_call p (\<lambda>a. map_option (\<lambda>g. g bindKey streamSize strm t) (try_put_ptr (tlm1_fns a))) 0"

definition frmw_CanPut :: "addr \<Rightarrow> int \<Rightarrow> time \<Rightarrow> 'w bp_state \<Rightarrow> (int \<times> 'w bp_state) res" where
  "frmw_CanPut p bindKey t =
     frmw_call p (\<lambda>a. map_option (\<lambda>g. g bindKey t) (can_put_ptr (tlm1_fns a))) 0"

definition frmw_NbGet ::
  "addr \<Rightarrow> int \<Rightarrow> uint \<Rightarrow> stream \<Rightarrow> time \<Rightarrow> 'w bp_state \<Rightarrow> ((int \<times> uint \<times> stream) \<times> 'w bp_state) res" where
  "frmw_NbGet p bindKey streamSize strm t =
     frmw_call p (\<lambda>a. map_option (\<lambda>g. g bindKey streamSize strm t) (try_get_ptr (tlm1_fns a)))
       (0, streamSize, strm)"

definition frmw_CanGet :: "addr \<Rightarrow> int \<Rightarrow> time \<Rightarrow> 'w bp_state \<Rightarrow> (int \<times> 'w bp_state) res" where
  "frmw_CanGet p bindKey t =
     frmw_call p (\<lambda>a. map_option (\<lambda>g. g bindKey t) (can_get_ptr (tlm1_fns a))) 0"

definition frmw_NbPeek ::
  "addr \<Rightarrow> int \<Rightarrow> uint \<Rightarrow> stream \<Rightarrow> time \<Rightarrow> 'w bp_state \<Rightarrow> ((int \<times> uint \<times> stream) \<times> 'w bp_state) res" where
  "frmw_NbPeek p bindKey streamSize strm t =
     frmw_call p (\<lambda>a. map_option (\<lambda>g. g bindKey streamSize strm t) (try_peek_ptr (tlm1_fns a)))
       (0, streamSize, strm)"

definition frmw_CanPeek :: "addr \<Rightarrow> int \<Rightarrow> time \<Rightarrow> 'w bp_state \<Rightarrow> (int \<times> 'w bp_state) res" where
  "frmw_CanPeek p bindKey t =
     frmw_call p (\<lambda>a. map_option (\<lambda>g. g bindKey t) (can_peek_ptr (tlm1_fns a))) 0"

definition frmw_Write :: "addr \<Rightarrow> int \<Rightarrow> uint \<Rightarrow> stream \<Rightarrow> time \<Rightarrow> 'w bp_state \<Rightarrow> 'w bp_state res" where
  "frmw_Write p bindKey streamSize strm t =
     frmw_call_void p (\<lambda>a. map_option (\<lambda>g. g bindKey streamSize strm t) (write_ptr (tlm2_fns a)))"

text \<open>True blocking puts and transports are not implemented: an error message and \<open>assert(false)\<close>.\<close>

definition frmw_Put ::
  "addr \<Rightarrow> int \<Rightarrow> uint \<Rightarrow> stream \<Rightarrow> time \<Rightarrow> 'w bp_state \<Rightarrow> ((int \<times> time) \<times> 'w bp_state) res" where
  "frmw_Put p bindKey streamSize strm t s = bind_res (proxy p s) (\<lambda>f. Inl Assert_Failure)"

definition frmw_RequestPut ::
  "addr \<Rightarrow> int \<Rightarrow> int \<Rightarrow> int \<Rightarrow> uint \<Rightarrow> stream \<Rightarrow> time \<Rightarrow> 'w bp_state \<Rightarrow> (int \<times> 'w bp_state) res" where
  "frmw_RequestPut p bindKey requestId caller streamSize strm t =
     frmw_call p (\<lambda>a. map_option (\<lambda>g. g bindKey requestId caller streamSize strm t) (put_request_ptr (tlm1_fns a))) 1"

definition frmw_Get ::
  "addr \<Rightarrow> int \<Rightarrow> uint \<Rightarrow> stream \<Rightarrow> time \<Rightarrow> 'w bp_state \<Rightarrow> ((int \<times> uint \<times> stream \<times> time) \<times> 'w bp_state) res" where
  "frmw_Get p bindKey streamSize strm t =
     frmw_call p (\<lambda>a. map_option (\<lambda>g. g bindKey streamSize strm t) (get_ptr (tlm1_fns a))) (0, streamSize, strm, t)"

definition frmw_RequestGet ::
  "addr \<Rightarrow> int \<Rightarrow> int \<Rightarrow> int \<Rightarrow> time \<Rightarrow> 'w bp_state \<Rightarrow> (int \<times> 'w bp_state) res" where
  "frmw_RequestGet p bindKey requestId caller t =
     frmw_call p (\<lambda>a. map_option (\<lambda>g. g bindKey requestId caller t) (get_request_ptr (tlm1_fns a))) 1"

definition frmw_GetRequested ::
  "addr \<Rightarrow> int \<Rightarrow> int \<Rightarrow> stream \<Rightarrow> 'w bp_state \<Rightarrow> ((uint \<times> stream) \<times> 'w bp_state) res" where
  "frmw_GetRequested p bindKey requestId strm =
     frmw_call p (\<lambda>a. map_option (\<lambda>g. g bindKey requestId strm) (get_requested_ptr (tlm1_fns a))) (1, strm)"

definition frmw_Peek ::
  "addr \<Rightarrow> int \<Rightarrow> uint \<Rightarrow> stream \<Rightarrow> time \<Rightarrow> 'w bp_state \<Rightarrow> ((int \<times> uint \<times> stream \<times> time) \<times> 'w bp_state) res" where
  "frmw_Peek p bindKey streamSize strm t =
     frmw_call p (\<lambda>a. map_option (\<lambda>g. g bindKey streamSize strm t) (peek_ptr (tlm1_fns a))) (0, streamSize, strm, t)"

definition frmw_RequestPeek ::
  "addr \<Rightarrow> int \<Rightarrow> int \<Rightarrow> int \<Rightarrow> time \<Rightarrow> 'w bp_state \<Rightarrow> (int \<times> 'w bp_state) res" where
  "frmw_RequestPeek p bindKey requestId caller t =
     frmw_call p (\<lambda>a. map_option (\<lambda>g. g bindKey requestId caller t) (peek_request_ptr (tlm1_fns a))) 1"

definition frmw_PeekRequested ::
  "addr \<Rightarrow> int \<Rightarrow> int \<Rightarrow> stream \<Rightarrow> 'w bp_state \<Rightarrow> ((uint \<times> stream) \<times> 'w bp_state) res" where
  "frmw_PeekRequested p bindKey requestId strm =
     frmw_call p (\<lambda>a. map_option (\<lambda>g. g bindKey requestId strm) (peek_requested_ptr (tlm1_fns a))) (1, strm)"

definition frmw_TransportTLM1 ::
  "addr \<Rightarrow> int \<Rightarrow> uint \<Rightarrow> stream \<Rightarrow> uint \<Rightarrow> stream \<Rightarrow> time \<Rightarrow>
   'w bp_state \<Rightarrow> ((int \<times> uint \<times> stream \<times> time) \<times> 'w bp_state) res" where
  "frmw_TransportTLM1 p bindKey reqSize req respSize resp t s = bind_res (proxy p s) (\<lambda>f. Inl Assert_Failure)"

definition frmw_RequestTransportTLM1 ::
  "addr \<Rightarrow> int \<Rightarrow> int \<Rightarrow> int \<Rightarrow> uint \<Rightarrow> stream \<Rightarrow> uint \<Rightarrow> stream \<Rightarrow> time \<Rightarrow>
   'w bp_state \<Rightarrow> ((int \<times> uint \<times> stream) \<times> 'w bp_state) res" where
  "frmw_RequestTransportTLM1 p bindKey requestId caller reqSize req respSize resp t =
     frmw_call p (\<lambda>a. map_option (\<lambda>g. g bindKey requestId caller reqSize req respSize resp t)
       (transport_request_ptr (tlm2_fns a))) (1, respSize, resp)"

definition frmw_TransportTLM1Response ::
  "addr \<Rightarrow> int \<Rightarrow> int \<Rightarrow> stream \<Rightarrow> 'w bp_state \<Rightarrow> ((int \<times> stream) \<times> 'w bp_state) res" where
  "frmw_TransportTLM1Response p bindKey requestId resp =
     frmw_call p (\<lambda>a. map_option (\<lambda>g. g bindKey requestId resp) (transport_response_ptr (tlm2_fns a))) (1, resp)"

definition frmw_NbTransportTLM1 ::
  "addr \<Rightarrow> int \<Rightarrow> uint \<Rightarrow> stream \<Rightarrow> uint \<Rightarrow> stream \<Rightarrow> time \<Rightarrow>
   'w bp_state \<Rightarrow> ((int \<times> uint \<times> stream) \<times> 'w bp_state) res" where
  "frmw_NbTransportTLM1 p bindKey reqSize req respSize resp t =
     frmw_call p (\<lambda>a. map_option (\<lambda>g. g bindKey reqSize req respSize resp t) (nb_transport_ptr (tlm2_fns a)))
       (0, respSize, resp)"

definition frmw_NotifyEndBlocking :: "addr \<Rightarrow> int \<Rightarrow> time \<Rightarrow> 'w bp_state \<Rightarrow> 'w bp_state res" where
  "frmw_NotifyEndBlocking p requestId t =
     frmw_call_void p (\<lambda>a. map_option (\<lambda>g. g requestId t) (notify_end_blocking_ptr (tlm2_fns a)))"

section \<open>The calls of a proxy, TLM2\<close>

definition frmw_BTransportTLM2 ::
  "addr \<Rightarrow> int \<Rightarrow> uint \<Rightarrow> stream \<Rightarrow> time \<Rightarrow> time \<Rightarrow>
   'w bp_state \<Rightarrow> ((int \<times> uint \<times> stream \<times> time \<times> time) \<times> 'w bp_state) res" where
  "frmw_BTransportTLM2 p bindKey streamSize strm delay t s = bind_res (proxy p s) (\<lambda>f. Inl Assert_Failure)"

definition frmw_RequestBTransportTLM2 ::
  "addr \<Rightarrow> int \<Rightarrow> int \<Rightarrow> int \<Rightarrow> uint \<Rightarrow> stream \<Rightarrow> time \<Rightarrow> time \<Rightarrow> 'w bp_state \<Rightarrow> (int \<times> 'w bp_state) res" where
  "frmw_RequestBTransportTLM2 p bindKey requestId caller streamSize strm delay t =
     frmw_call p (\<lambda>a. map_option (\<lambda>g. g bindKey requestId caller streamSize strm delay t)
       (tlm2_b_request_ptr (tlm2_fns a))) 1"

definition frmw_BTransportTLM2Response ::
  "addr \<Rightarrow> int \<Rightarrow> int \<Rightarrow> uint \<Rightarrow> stream \<Rightarrow> 'w bp_state \<Rightarrow> ((int \<times> uint \<times> stream) \<times> 'w bp_state) res" where
  "frmw_BTransportTLM2Response p bindKey requestId streamSize strm =
     frmw_call p (\<lambda>a. map_option (\<lambda>g. g bindKey requestId streamSize strm) (tlm2_b_response_ptr (tlm2_fns a)))
       (1, streamSize, strm)"

definition frmw_NbTransportFwTLM2 ::
  "addr \<Rightarrow> int \<Rightarrow> uint \<Rightarrow> stream \<Rightarrow> tlm_phase \<Rightarrow> uint \<Rightarrow> time \<Rightarrow> time \<Rightarrow>
   'w bp_state \<Rightarrow> ((tlm_sync \<times> uint \<times> stream \<times> tlm_phase \<times> time) \<times> 'w bp_state) res" where
  "frmw_NbTransportFwTLM2 p bindKey streamSize strm phase transactionId delay t =
     frmw_call p (\<lambda>a. map_option (\<lambda>g. g bindKey streamSize strm phase transactionId delay t)
       (tlm2_nb_fw_ptr (tlm2_fns a))) (TLM2_COMPLETED, streamSize, strm, phase, delay)"

definition frmw_NbTransportBwTLM2 ::
  "addr \<Rightarrow> int \<Rightarrow> uint \<Rightarrow> stream \<Rightarrow> tlm_phase \<Rightarrow> uint \<Rightarrow> time \<Rightarrow> time \<Rightarrow>
   'w bp_state \<Rightarrow> ((tlm_sync \<times> uint \<times> stream \<times> tlm_phase \<times> time) \<times> 'w bp_state) res" where
  "frmw_NbTransportBwTLM2 p bindKey streamSize strm phase transactionId delay t =
     frmw_call p (\<lambda>a. map_option (\<lambda>g. g bindKey streamSize strm phase transactionId delay t)
       (tlm2_nb_bw_ptr (tlm2_fns a))) (TLM2_COMPLETED, streamSize, strm, phase, delay)"

definition frmw_TransportDbgTLM2 ::
  "addr \<Rightarrow> int \<Rightarrow> uint \<Rightarrow> stream \<Rightarrow> time \<Rightarrow> 'w bp_state \<Rightarrow> ((uint \<times> uint \<times> stream) \<times> 'w bp_state) res" where
  "frmw_TransportDbgTLM2 p bindKey streamSize strm t =
     frmw_call p (\<lambda>a. map_option (\<lambda>g. g bindKey streamSize strm t) (tlm2_dbg_ptr (tlm2_fns a)))
       (0, streamSize, strm)"

definition frmw_TurnOffTransactionMapping :: "addr \<Rightarrow> string \<Rightarrow> 'w bp_state \<Rightarrow> 'w bp_state res" where
  "frmw_TurnOffTransactionMapping p socketName =
     frmw_call_void p (\<lambda>a. map_option (\<lambda>g. g socketName) (tlm2_turn_off_ptr (tlm2_fns a)))"

section \<open>Blocking calls\<close>

definition FrameworksCompatibleBlocking :: "'w frmw_proxy \<Rightarrow> 'w frmw_proxy \<Rightarrow> bool" where
  "FrameworksCompatibleBlocking f g \<longleftrightarrow>
     (true_blocking f \<and> true_blocking g) \<or> (fake_blocking f \<and> fake_blocking g)"

text \<open>The arguments a blocking call passes by reference; a call uses those it needs.\<close>

record blocking_args =
  b_size :: uint
  b_stream :: stream
  b_resp_size :: uint
  b_resp :: stream
  b_delay :: time
  b_time :: time

text \<open>The subclasses of \<open>BlockingCallRequestor\<close>, with their two virtual functions.\<close>

datatype requestor =
  PutRequestor | GetRequestor | PeekRequestor | TransportTLM1Requestor | BTransportTLM2Requestor

fun DoIt ::
  "requestor \<Rightarrow> connection \<Rightarrow> blocking_args \<Rightarrow> 'w bp_state \<Rightarrow> ((int \<times> blocking_args) \<times> 'w bp_state) res" where
  "DoIt PutRequestor provider b s =
     bind_res (frmw_Put (c_frmw provider) (c_bind_key provider) (b_size b) (b_stream b) (b_time b) s)
       (\<lambda>((r, t), s). Inr ((r, b\<lparr>b_time := t\<rparr>), s))"
| "DoIt GetRequestor provider b s =
     bind_res (frmw_Get (c_frmw provider) (c_bind_key provider) (b_size b) (b_stream b) (b_time b) s)
       (\<lambda>((r, n, x, t), s). Inr ((r, b\<lparr>b_size := n, b_stream := x, b_time := t\<rparr>), s))"
| "DoIt PeekRequestor provider b s =
     bind_res (frmw_Peek (c_frmw provider) (c_bind_key provider) (b_size b) (b_stream b) (b_time b) s)
       (\<lambda>((r, n, x, t), s). Inr ((r, b\<lparr>b_size := n, b_stream := x, b_time := t\<rparr>), s))"
| "DoIt TransportTLM1Requestor provider b s =
     bind_res (frmw_TransportTLM1 (c_frmw provider) (c_bind_key provider) (b_size b) (b_stream b)
                 (b_resp_size b) (b_resp b) (b_time b) s)
       (\<lambda>((r, n, x, t), s). Inr ((r, b\<lparr>b_resp_size := n, b_resp := x, b_time := t\<rparr>), s))"
| "DoIt BTransportTLM2Requestor provider b s =
     bind_res (frmw_BTransportTLM2 (c_frmw provider) (c_bind_key provider) (b_size b) (b_stream b)
                 (b_delay b) (b_time b) s)
       (\<lambda>((r, n, x, d, t), s). Inr ((r, b\<lparr>b_size := n, b_stream := x, b_delay := d, b_time := t\<rparr>), s))"

fun RequestIt ::
  "requestor \<Rightarrow> connection \<Rightarrow> int \<Rightarrow> int \<Rightarrow> blocking_args \<Rightarrow>
   'w bp_state \<Rightarrow> ((int \<times> blocking_args) \<times> 'w bp_state) res" where
  "RequestIt PutRequestor provider requestId caller b s =
     bind_res (frmw_RequestPut (c_frmw provider) (c_bind_key provider) requestId caller
                 (b_size b) (b_stream b) (b_time b) s)
       (\<lambda>(r, s). Inr ((r, b), s))"
| "RequestIt GetRequestor provider requestId caller b s =
     bind_res (frmw_RequestGet (c_frmw provider) (c_bind_key provider) requestId caller (b_time b) s)
       (\<lambda>(r, s). Inr ((r, b), s))"
| "RequestIt PeekRequestor provider requestId caller b s =
     bind_res (frmw_RequestPeek (c_frmw provider) (c_bind_key provider) requestId caller (b_time b) s)
       (\<lambda>(r, s). Inr ((r, b), s))"
| "RequestIt TransportTLM1Requestor provider requestId caller b s =
     bind_res (frmw_RequestTransportTLM1 (c_frmw provider) (c_bind_key provider) requestId caller
                 (b_size b) (b_stream b) (b_resp_size b) (b_resp b) (b_time b) s)
       (\<lambda>((r, n, x), s). Inr ((r, b\<lparr>b_resp_size := n, b_resp := x\<rparr>), s))"
| "RequestIt BTransportTLM2Requestor provider requestId caller b s =
     bind_res (frmw_RequestBTransportTLM2 (c_frmw provider) (c_bind_key provider) requestId caller
                 (b_size b) (b_stream b) (b_delay b) (b_time b) s)
       (\<lambda>(r, s). Inr ((r, b), s))"

text \<open>The result: return value, the arguments afterwards, and \<open>useTrueBlocking\<close>.\<close>

definition RequestBlockingCall ::
  "requestor \<Rightarrow> int \<Rightarrow> int \<Rightarrow> int \<Rightarrow> blocking_args \<Rightarrow>
   'w bp_state \<Rightarrow> ((int \<times> blocking_args \<times> bool) \<times> 'w bp_state) res" where
  "RequestBlockingCall q caller producerBindKey requestId b s =
     bind_res (GetSingleProvider caller producerBindKey s) (\<lambda>providerp.
     bind_res (conn providerp s) (\<lambda>provider.
     bind_res (GetFramework caller s) (\<lambda>p. bind_res (proxy p s) (\<lambda>f.
     bind_res (proxy (c_frmw provider) s) (\<lambda>g.
     bind_res (assert_res (FrameworksCompatibleBlocking f g)) (\<lambda>_.
       if true_blocking f \<and> true_blocking g then
         bind_res (DoIt q provider b s) (\<lambda>((r, b), s). Inr ((r, b, True), s))
       else
         bind_res (RequestIt q provider requestId caller b s) (\<lambda>((r, b), s). Inr ((r, b, False), s))))))))"

section \<open>The dispatch\<close>

text \<open>Most calls go to the single provider of the caller's connection, one goes to the producer.\<close>

definition to_provider ::
  "int \<Rightarrow> int \<Rightarrow> (addr \<Rightarrow> int \<Rightarrow> 'w bp_state \<Rightarrow> ('a \<times> 'w bp_state) res) \<Rightarrow> 'w bp_state \<Rightarrow> ('a \<times> 'w bp_state) res" where
  "to_provider frameworkId producerBindKey call s =
     bind_res (GetSingleProvider frameworkId producerBindKey s) (\<lambda>a.
     bind_res (conn a s) (\<lambda>provider. call (c_frmw provider) (c_bind_key provider) s))"

definition to_producer ::
  "int \<Rightarrow> int \<Rightarrow> (addr \<Rightarrow> int \<Rightarrow> 'w bp_state \<Rightarrow> ('a \<times> 'w bp_state) res) \<Rightarrow> 'w bp_state \<Rightarrow> ('a \<times> 'w bp_state) res" where
  "to_producer frameworkId providerBindKey call s =
     bind_res (GetSingleProducer frameworkId providerBindKey s) (\<lambda>a.
     bind_res (conn a s) (\<lambda>producer. call (c_frmw producer) (c_bind_key producer) s))"

definition NbPut :: "int \<Rightarrow> int \<Rightarrow> uint \<Rightarrow> stream \<Rightarrow> time \<Rightarrow> 'w bp_state \<Rightarrow> (int \<times> 'w bp_state) res" where
  "NbPut frameworkId producerBindKey streamSize strm t =
     to_provider frameworkId producerBindKey (\<lambda>p k. frmw_NbPut p k streamSize strm t)"

definition CanPut :: "int \<Rightarrow> int \<Rightarrow> time \<Rightarrow> 'w bp_state \<Rightarrow> (int \<times> 'w bp_state) res" where
  "CanPut frameworkId producerBindKey t =
     to_provider frameworkId producerBindKey (\<lambda>p k. frmw_CanPut p k t)"

definition NbGet ::
  "int \<Rightarrow> int \<Rightarrow> uint \<Rightarrow> stream \<Rightarrow> time \<Rightarrow> 'w bp_state \<Rightarrow> ((int \<times> uint \<times> stream) \<times> 'w bp_state) res" where
  "NbGet frameworkId producerBindKey streamSize strm t =
     to_provider frameworkId producerBindKey (\<lambda>p k. frmw_NbGet p k streamSize strm t)"

definition CanGet :: "int \<Rightarrow> int \<Rightarrow> time \<Rightarrow> 'w bp_state \<Rightarrow> (int \<times> 'w bp_state) res" where
  "CanGet frameworkId producerBindKey t =
     to_provider frameworkId producerBindKey (\<lambda>p k. frmw_CanGet p k t)"

definition NbPeek ::
  "int \<Rightarrow> int \<Rightarrow> uint \<Rightarrow> stream \<Rightarrow> time \<Rightarrow> 'w bp_state \<Rightarrow> ((int \<times> uint \<times> stream) \<times> 'w bp_state) res" where
  "NbPeek frameworkId producerBindKey streamSize strm t =
     to_provider frameworkId producerBindKey (\<lambda>p k. frmw_NbPeek p k streamSize strm t)"

definition CanPeek :: "int \<Rightarrow> int \<Rightarrow> time \<Rightarrow> 'w bp_state \<Rightarrow> (int \<times> 'w bp_state) res" where
  "CanPeek frameworkId producerBindKey t =
     to_provider frameworkId producerBindKey (\<lambda>p k. frmw_CanPeek p k t)"

definition Write :: "int \<Rightarrow> int \<Rightarrow> uint \<Rightarrow> stream \<Rightarrow> time \<Rightarrow> 'w bp_state \<Rightarrow> 'w bp_state res" where
  "Write frameworkId producerBindKey streamSize strm t s =
     bind_res (GetFramework frameworkId s) (\<lambda>p.
     bind_res (proxy p s) (\<lambda>f.
     let a = frmw_GetConnection producerBindKey f in
     bind_res (assert_res (a \<noteq> null)) (\<lambda>_.
     bind_res (conn a s) (\<lambda>producer.
       fold_res (\<lambda>b s. bind_res (conn b s) (\<lambda>c. frmw_Write (c_frmw c) (c_bind_key c) streamSize strm t s))
         (fanout producer) s))))"

definition Put ::
  "int \<Rightarrow> int \<Rightarrow> uint \<Rightarrow> stream \<Rightarrow> time \<Rightarrow> 'w bp_state \<Rightarrow> ((int \<times> time) \<times> 'w bp_state) res" where
  "Put frameworkId producerBindKey streamSize strm t =
     to_provider frameworkId producerBindKey (\<lambda>p k. frmw_Put p k streamSize strm t)"

definition blocking_call :: "uint \<Rightarrow> stream \<Rightarrow> time \<Rightarrow> blocking_args" where
  "blocking_call n x t =
     \<lparr>b_size = n, b_stream = x, b_resp_size = 0, b_resp = [], b_delay = (UNIT_UNDEFINED, 0), b_time = t\<rparr>"

text \<open>The result of a request: return value and \<open>done\<close>, with the buffers where the call writes them.\<close>

definition RequestPut ::
  "int \<Rightarrow> int \<Rightarrow> int \<Rightarrow> uint \<Rightarrow> stream \<Rightarrow> time \<Rightarrow> 'w bp_state \<Rightarrow> ((int \<times> bool) \<times> 'w bp_state) res" where
  "RequestPut frameworkId producerBindKey requestId streamSize strm t s =
     bind_res (RequestBlockingCall PutRequestor frameworkId producerBindKey requestId
                 (blocking_call streamSize strm t) s)
       (\<lambda>((r, b, true_b), s). Inr ((r, true_b), s))"

definition Get ::
  "int \<Rightarrow> int \<Rightarrow> uint \<Rightarrow> stream \<Rightarrow> time \<Rightarrow> 'w bp_state \<Rightarrow> ((int \<times> uint \<times> stream \<times> time) \<times> 'w bp_state) res" where
  "Get frameworkId producerBindKey streamSize strm t =
     to_provider frameworkId producerBindKey (\<lambda>p k. frmw_Get p k streamSize strm t)"

definition RequestGet ::
  "int \<Rightarrow> int \<Rightarrow> int \<Rightarrow> uint \<Rightarrow> stream \<Rightarrow> time \<Rightarrow>
   'w bp_state \<Rightarrow> ((int \<times> bool \<times> uint \<times> stream \<times> time) \<times> 'w bp_state) res" where
  "RequestGet frameworkId producerBindKey requestId streamSize strm t s =
     bind_res (RequestBlockingCall GetRequestor frameworkId producerBindKey requestId
                 (blocking_call streamSize strm t) s)
       (\<lambda>((r, b, true_b), s). Inr ((r, true_b, b_size b, b_stream b, b_time b), s))"

definition GetRequested ::
  "int \<Rightarrow> int \<Rightarrow> int \<Rightarrow> stream \<Rightarrow> 'w bp_state \<Rightarrow> ((uint \<times> stream) \<times> 'w bp_state) res" where
  "GetRequested frameworkId producerBindKey requestId strm =
     to_provider frameworkId producerBindKey (\<lambda>p k. frmw_GetRequested p k requestId strm)"

definition Peek ::
  "int \<Rightarrow> int \<Rightarrow> uint \<Rightarrow> stream \<Rightarrow> time \<Rightarrow> 'w bp_state \<Rightarrow> ((int \<times> uint \<times> stream \<times> time) \<times> 'w bp_state) res" where
  "Peek frameworkId producerBindKey streamSize strm t =
     to_provider frameworkId producerBindKey (\<lambda>p k. frmw_Peek p k streamSize strm t)"

definition RequestPeek ::
  "int \<Rightarrow> int \<Rightarrow> int \<Rightarrow> uint \<Rightarrow> stream \<Rightarrow> time \<Rightarrow>
   'w bp_state \<Rightarrow> ((int \<times> bool \<times> uint \<times> stream \<times> time) \<times> 'w bp_state) res" where
  "RequestPeek frameworkId producerBindKey requestId streamSize strm t s =
     bind_res (RequestBlockingCall PeekRequestor frameworkId producerBindKey requestId
                 (blocking_call streamSize strm t) s)
       (\<lambda>((r, b, true_b), s). Inr ((r, true_b, b_size b, b_stream b, b_time b), s))"

definition PeekRequested ::
  "int \<Rightarrow> int \<Rightarrow> int \<Rightarrow> stream \<Rightarrow> 'w bp_state \<Rightarrow> ((uint \<times> stream) \<times> 'w bp_state) res" where
  "PeekRequested frameworkId producerBindKey requestId strm =
     to_provider frameworkId producerBindKey (\<lambda>p k. frmw_PeekRequested p k requestId strm)"

definition TransportTLM1 ::
  "int \<Rightarrow> int \<Rightarrow> uint \<Rightarrow> stream \<Rightarrow> uint \<Rightarrow> stream \<Rightarrow> time \<Rightarrow>
   'w bp_state \<Rightarrow> ((int \<times> uint \<times> stream \<times> time) \<times> 'w bp_state) res" where
  "TransportTLM1 frameworkId producerBindKey reqSize req respSize resp t =
     to_provider frameworkId producerBindKey (\<lambda>p k. frmw_TransportTLM1 p k reqSize req respSize resp t)"

definition RequestTransportTLM1 ::
  "int \<Rightarrow> int \<Rightarrow> int \<Rightarrow> uint \<Rightarrow> stream \<Rightarrow> uint \<Rightarrow> stream \<Rightarrow> time \<Rightarrow>
   'w bp_state \<Rightarrow> ((int \<times> bool \<times> uint \<times> stream \<times> time) \<times> 'w bp_state) res" where
  "RequestTransportTLM1 frameworkId producerBindKey requestId reqSize req respSize resp t s =
     bind_res (RequestBlockingCall TransportTLM1Requestor frameworkId producerBindKey requestId
                 ((blocking_call reqSize req t)\<lparr>b_resp_size := respSize, b_resp := resp\<rparr>) s)
       (\<lambda>((r, b, true_b), s). Inr ((r, true_b, b_resp_size b, b_resp b, b_time b), s))"

definition TransportTLM1Response ::
  "int \<Rightarrow> int \<Rightarrow> int \<Rightarrow> stream \<Rightarrow> 'w bp_state \<Rightarrow> ((int \<times> stream) \<times> 'w bp_state) res" where
  "TransportTLM1Response frameworkId producerBindKey requestId resp =
     to_provider frameworkId producerBindKey (\<lambda>p k. frmw_TransportTLM1Response p k requestId resp)"

definition NbTransportTLM1 ::
  "int \<Rightarrow> int \<Rightarrow> uint \<Rightarrow> stream \<Rightarrow> uint \<Rightarrow> stream \<Rightarrow> time \<Rightarrow>
   'w bp_state \<Rightarrow> ((int \<times> uint \<times> stream) \<times> 'w bp_state) res" where
  "NbTransportTLM1 frameworkId producerBindKey reqSize req respSize resp t =
     to_provider frameworkId producerBindKey (\<lambda>p k. frmw_NbTransportTLM1 p k reqSize req respSize resp t)"

definition BTransportTLM2 ::
  "int \<Rightarrow> int \<Rightarrow> uint \<Rightarrow> stream \<Rightarrow> time \<Rightarrow> time \<Rightarrow>
   'w bp_state \<Rightarrow> ((int \<times> uint \<times> stream \<times> time \<times> time) \<times> 'w bp_state) res" where
  "BTransportTLM2 frameworkId initiatorBindKey streamSize strm delay t =
     to_provider frameworkId initiatorBindKey (\<lambda>p k. frmw_BTransportTLM2 p k streamSize strm delay t)"

definition RequestBTransportTLM2 ::
  "int \<Rightarrow> int \<Rightarrow> int \<Rightarrow> uint \<Rightarrow> stream \<Rightarrow> time \<Rightarrow> time \<Rightarrow>
   'w bp_state \<Rightarrow> ((int \<times> bool \<times> uint \<times> stream \<times> time \<times> time) \<times> 'w bp_state) res" where
  "RequestBTransportTLM2 frameworkId initiatorBindKey requestId streamSize strm delay t s =
     bind_res (RequestBlockingCall BTransportTLM2Requestor frameworkId initiatorBindKey requestId
                 ((blocking_call streamSize strm t)\<lparr>b_delay := delay\<rparr>) s)
       (\<lambda>((r, b, true_b), s). Inr ((r, true_b, b_size b, b_stream b, b_delay b, b_time b), s))"

definition BTransportTLM2Response ::
  "int \<Rightarrow> int \<Rightarrow> int \<Rightarrow> uint \<Rightarrow> stream \<Rightarrow> 'w bp_state \<Rightarrow> ((int \<times> uint \<times> stream) \<times> 'w bp_state) res" where
  "BTransportTLM2Response frameworkId initiatorBindKey requestId streamSize strm =
     to_provider frameworkId initiatorBindKey (\<lambda>p k. frmw_BTransportTLM2Response p k requestId streamSize strm)"

definition NbTransportFwTLM2 ::
  "int \<Rightarrow> int \<Rightarrow> uint \<Rightarrow> stream \<Rightarrow> tlm_phase \<Rightarrow> uint \<Rightarrow> time \<Rightarrow> time \<Rightarrow>
   'w bp_state \<Rightarrow> ((tlm_sync \<times> uint \<times> stream \<times> tlm_phase \<times> time) \<times> 'w bp_state) res" where
  "NbTransportFwTLM2 frameworkId initiatorBindKey streamSize strm phase transactionId delay t =
     to_provider frameworkId initiatorBindKey
       (\<lambda>p k. frmw_NbTransportFwTLM2 p k streamSize strm phase transactionId delay t)"

definition NbTransportBwTLM2 ::
  "int \<Rightarrow> int \<Rightarrow> uint \<Rightarrow> stream \<Rightarrow> tlm_phase \<Rightarrow> uint \<Rightarrow> time \<Rightarrow> time \<Rightarrow>
   'w bp_state \<Rightarrow> ((tlm_sync \<times> uint \<times> stream \<times> tlm_phase \<times> time) \<times> 'w bp_state) res" where
  "NbTransportBwTLM2 frameworkId targetBindKey streamSize strm phase transactionId delay t =
     to_producer frameworkId targetBindKey
       (\<lambda>p k. frmw_NbTransportBwTLM2 p k streamSize strm phase transactionId delay t)"

definition TransportDbgTLM2 ::
  "int \<Rightarrow> int \<Rightarrow> uint \<Rightarrow> stream \<Rightarrow> time \<Rightarrow> 'w bp_state \<Rightarrow> ((uint \<times> uint \<times> stream) \<times> 'w bp_state) res" where
  "TransportDbgTLM2 frameworkId targetBindKey streamSize strm t =
     to_provider frameworkId targetBindKey (\<lambda>p k. frmw_TransportDbgTLM2 p k streamSize strm t)"

definition AssignTransactionId :: "int \<Rightarrow> 'w bp_state \<Rightarrow> uint \<times> 'w bp_state" where
  "AssignTransactionId frameworkId s = (transaction_id s, s\<lparr>transaction_id := transaction_id s + 1\<rparr>)"

definition TurnOffTransactionMapping :: "int \<Rightarrow> string \<Rightarrow> 'w bp_state \<Rightarrow> 'w bp_state res" where
  "TurnOffTransactionMapping frameworkId socketName s =
     bind_res (conn (FindConnectionByName socketName s) s) (\<lambda>c.
       frmw_TurnOffTransactionMapping (c_frmw c) socketName s)"

definition NotifyEndBlocking :: "int \<Rightarrow> int \<Rightarrow> time \<Rightarrow> 'w bp_state \<Rightarrow> 'w bp_state res" where
  "NotifyEndBlocking frameworkId requestId t s =
     bind_res (GetFramework frameworkId s) (\<lambda>p. frmw_NotifyEndBlocking p requestId t s)"

section \<open>A transaction changes only the adapters' state\<close>

lemmas frmw_tlm_defs =
  frmw_NbPut_def frmw_CanPut_def frmw_NbGet_def frmw_CanGet_def frmw_NbPeek_def frmw_CanPeek_def
  frmw_Write_def frmw_Put_def frmw_RequestPut_def frmw_Get_def frmw_RequestGet_def
  frmw_GetRequested_def frmw_Peek_def frmw_RequestPeek_def frmw_PeekRequested_def
  frmw_TransportTLM1_def frmw_RequestTransportTLM1_def frmw_TransportTLM1Response_def
  frmw_NbTransportTLM1_def frmw_NotifyEndBlocking_def frmw_BTransportTLM2_def
  frmw_RequestBTransportTLM2_def frmw_BTransportTLM2Response_def frmw_NbTransportFwTLM2_def
  frmw_NbTransportBwTLM2_def frmw_TransportDbgTLM2_def frmw_TurnOffTransactionMapping_def

lemmas provider_call_defs =
  NbPut_def CanPut_def NbGet_def CanGet_def NbPeek_def CanPeek_def Put_def Get_def GetRequested_def
  Peek_def PeekRequested_def TransportTLM1_def TransportTLM1Response_def NbTransportTLM1_def
  BTransportTLM2_def BTransportTLM2Response_def NbTransportFwTLM2_def NbTransportBwTLM2_def
  TransportDbgTLM2_def

context call_view
begin

lemma to_provider_view:
  assumes "to_provider i k call s = Inr (r, s')" and "\<And>p k s r s'. call p k s = Inr (r, s') \<Longrightarrow> view s' = view s"
  shows "view s' = view s"
  using assms unfolding to_provider_def by (auto elim!: bind_res_InrE)

lemma to_producer_view:
  assumes "to_producer i k call s = Inr (r, s')" and "\<And>p k s r s'. call p k s = Inr (r, s') \<Longrightarrow> view s' = view s"
  shows "view s' = view s"
  using assms unfolding to_producer_def by (auto elim!: bind_res_InrE)

lemma provider_calls_view:
  "NbPut i k n x t s = Inr (r1, s') \<Longrightarrow> view s' = view s"
  "CanPut i k t s = Inr (r1, s') \<Longrightarrow> view s' = view s"
  "NbGet i k n x t s = Inr (r2, s') \<Longrightarrow> view s' = view s"
  "CanGet i k t s = Inr (r1, s') \<Longrightarrow> view s' = view s"
  "NbPeek i k n x t s = Inr (r2, s') \<Longrightarrow> view s' = view s"
  "CanPeek i k t s = Inr (r1, s') \<Longrightarrow> view s' = view s"
  "GetRequested i k q x s = Inr (r3, s') \<Longrightarrow> view s' = view s"
  "PeekRequested i k q x s = Inr (r3, s') \<Longrightarrow> view s' = view s"
  "TransportTLM1Response i k q x s = Inr (r4, s') \<Longrightarrow> view s' = view s"
  "NbTransportTLM1 i k n x m y t s = Inr (r2, s') \<Longrightarrow> view s' = view s"
  "BTransportTLM2Response i k q n x s = Inr (r2, s') \<Longrightarrow> view s' = view s"
  "NbTransportFwTLM2 i k n x ph trx d t s = Inr (r5, s') \<Longrightarrow> view s' = view s"
  "NbTransportBwTLM2 i k n x ph trx d t s = Inr (r5, s') \<Longrightarrow> view s' = view s"
  "TransportDbgTLM2 i k n x t s = Inr (r6, s') \<Longrightarrow> view s' = view s"
  unfolding provider_call_defs frmw_tlm_defs
  by (erule to_provider_view to_producer_view, erule frmw_call_view)+

lemma DoIt_view: "DoIt q c b s = Inr (r, s') \<Longrightarrow> view s' = view s"
  by (cases q) (auto simp: frmw_tlm_defs elim!: bind_res_InrE dest!: frmw_call_view)

lemma RequestIt_view: "RequestIt q c i j b s = Inr (r, s') \<Longrightarrow> view s' = view s"
  by (cases q) (auto simp: frmw_tlm_defs elim!: bind_res_InrE dest!: frmw_call_view)

lemma RequestBlockingCall_view: "RequestBlockingCall q i k j b s = Inr (r, s') \<Longrightarrow> view s' = view s"
  unfolding RequestBlockingCall_def
  by (auto elim!: bind_res_InrE split: if_splits dest!: DoIt_view RequestIt_view)

lemma requests_view:
  "RequestPut i k q n x t s = Inr (r1, s') \<Longrightarrow> view s' = view s"
  "RequestGet i k q n x t s = Inr (r2, s') \<Longrightarrow> view s' = view s"
  "RequestPeek i k q n x t s = Inr (r2, s') \<Longrightarrow> view s' = view s"
  "RequestTransportTLM1 i k q n x m y t s = Inr (r2, s') \<Longrightarrow> view s' = view s"
  "RequestBTransportTLM2 i k q n x d t s = Inr (r3, s') \<Longrightarrow> view s' = view s"
  unfolding RequestPut_def RequestGet_def RequestPeek_def RequestTransportTLM1_def RequestBTransportTLM2_def
  by (auto elim!: bind_res_InrE dest!: RequestBlockingCall_view)

lemma Write_view: "Write i k n x t s = Inr s' \<Longrightarrow> view s' = view s"
  unfolding Write_def Let_def frmw_tlm_defs
  by (auto elim!: bind_res_InrE fold_res_view frmw_call_void_view)

lemma other_tlm_view:
  "TurnOffTransactionMapping i nm s = Inr s' \<Longrightarrow> view s' = view s"
  "NotifyEndBlocking i q t s = Inr s' \<Longrightarrow> view s' = view s"
  unfolding TurnOffTransactionMapping_def NotifyEndBlocking_def frmw_tlm_defs
  by (auto elim!: bind_res_InrE frmw_call_void_view)

end

end
