(* ===== verification/Bp_Stop.thy ===== *)
theory Bp_Stop
  imports Bp_View
begin

text \<open>
  Stop requests: \<open>BpStopRequestClass\<close> of \<open>bp_debug.cpp\<close> and \<open>bp_debug.h\<close>, with the calls
  into the phase and stopper services it needs (\<open>bp_base_interconnect.cpp\<close>,
  \<open>bp_framework_proxy.cpp\<close>). The service of the common framework itself is
  \<open>uvm_ml_phase_service.cpp\<close>; its function table is filled in \<open>common_services_framework.cpp\<close>.
\<close>

section \<open>Calls into the services\<close>

definition build_phases :: "string list" where
  "build_phases = [''build'', ''connect'', ''resolve_bindings'', ''end_of_elaboration'', ''start_of_simulation'']"

definition final_phases :: "string list" where
  "final_phases = [''extract'', ''check'', ''report'', ''final'']"

definition runtime_phases :: "string list" where
  "runtime_phases = [''run'', ''reset'', ''configure'', ''main'', ''shutdown'']"

definition srvc_check_phase :: "string \<Rightarrow> int" where
  "srvc_check_phase phaseName =
     (if phaseName \<in> set (build_phases @ final_phases @ runtime_phases) then 1 else 0)"

text \<open>
  The service provider is the common framework, which asks its phase service (a null pointer
  before phasing starts), or another framework's adapter.
\<close>

definition frmw_PhaseSrvCheckPhase :: "addr \<Rightarrow> string \<Rightarrow> 'w bp_state \<Rightarrow> int res" where
  "frmw_PhaseSrvCheckPhase p phaseName s =
     (if p = common_frmw s then
        (case phase_service s of None \<Rightarrow> Inl Null_Deref | Some ps \<Rightarrow> Inr (srvc_check_phase phaseName))
      else frmw_query p (\<lambda>a. map_option (\<lambda>g. g phaseName) (phase_srv_check_phase_ptr (phase_fns a))) (-1) s)"

text \<open>The common framework leaves this function out of its table.\<close>

definition frmw_PhaseSrvCheckFuturePhase :: "addr \<Rightarrow> string \<Rightarrow> phase_action \<Rightarrow> 'w bp_state \<Rightarrow> int res" where
  "frmw_PhaseSrvCheckFuturePhase p phaseName phaseAction s =
     (if p = common_frmw s then Inr (-1)
      else frmw_query p (\<lambda>a. map_option (\<lambda>g. g phaseName phaseAction)
             (phase_srv_check_future_phase_ptr (phase_fns a))) (-1) s)"

definition PhaseSrvCheckPhase :: "string \<Rightarrow> 'w bp_state \<Rightarrow> (int \<times> 'w bp_state) res" where
  "PhaseSrvCheckPhase phaseName s =
     (if phase_srv s \<noteq> null then
        bind_res (frmw_PhaseSrvCheckPhase (phase_srv s) phaseName s) (\<lambda>r. Inr (r, s))
      else Inr (0, ErrorMsg ''BpInterconnect::PhaseSrvCheckPhase no service provider phase = %s'' [phaseName] s))"

definition PhaseSrvCheckFuturePhase :: "string \<Rightarrow> phase_action \<Rightarrow> 'w bp_state \<Rightarrow> (int \<times> 'w bp_state) res" where
  "PhaseSrvCheckFuturePhase phaseName phaseAction s =
     (if phase_srv s \<noteq> null then
        bind_res (frmw_PhaseSrvCheckFuturePhase (phase_srv s) phaseName phaseAction s) (\<lambda>r. Inr (r, s))
      else Inr (0, ErrorMsg ''BpInterconnect::PhaseSrvCheckFuturePhase no service provider phase = %s'' [phaseName] s))"

definition StopSrvRequest :: "addr \<Rightarrow> 'w bp_state \<Rightarrow> 'w bp_state res" where
  "StopSrvRequest p = frmw_call_void p (\<lambda>a. stopper_request_ptr (phase_fns a))"

definition StopPhase :: "'w bp_state \<Rightarrow> 'w bp_state res" where
  "StopPhase s =
     (if stopper_srv s \<noteq> null then StopSrvRequest (stopper_srv s) s
      else Inr (ErrorMsg ''Unable to find any stopper service provider'' [] s))"

section \<open>The requests\<close>

definition PrintMessage :: "string \<Rightarrow> string list \<Rightarrow> 'w bp_state \<Rightarrow> 'w bp_state" where
  "PrintMessage = message Info"

definition matches :: "string \<Rightarrow> phase_action \<Rightarrow> stop_request \<Rightarrow> bool" where
  "matches phase_name phase_action r \<longleftrightarrow> sr_phase r = phase_name \<and> sr_action r = phase_action"

text \<open>The constructor of \<open>bp_stop_request_struct\<close> numbers the request.\<close>

definition bp_stop_request_struct ::
  "string \<Rightarrow> phase_action \<Rightarrow> bool \<Rightarrow> 'w bp_state \<Rightarrow> stop_request \<times> 'w bp_state" where
  "bp_stop_request_struct nm a c s =
     (let n = stop_last_id s + 1
      in (\<lparr>sr_id = sint n, sr_phase = nm, sr_action = a, sr_checked = c\<rparr>, s\<lparr>stop_last_id := n\<rparr>))"

definition CheckStopRequest :: "string \<Rightarrow> phase_action \<Rightarrow> 'w bp_state \<Rightarrow> bool \<times> 'w bp_state" where
  "CheckStopRequest phase_name phase_action s =
     (case find (matches phase_name phase_action) (stop_requests s) of
        None \<Rightarrow> (False, s)
      | Some r \<Rightarrow>
          let beginOrEnd = (case sr_action r of PHASE_STARTED \<Rightarrow> ''begin'' | PHASE_ENDED \<Rightarrow> ''end'' | _ \<Rightarrow> [])
          in (True, PrintMessage ''UVM-ML: Stopping at phase %s %s'' [sr_phase r, beginOrEnd] s))"

definition PrintStop :: "stop_request \<Rightarrow> 'w bp_state \<Rightarrow> 'w bp_state" where
  "PrintStop r =
     PrintMessage ''UVM-ML: Stop #%d %s %s''
       [sr_phase r, if sr_action r = PHASE_STARTED then ''begin'' else ''end'']"

definition CheckPhaseName :: "stop_request \<Rightarrow> 'w bp_state \<Rightarrow> 'w bp_state res" where
  "CheckPhaseName r s =
     (if sr_checked r then Inr s
      else bind_res (PhaseSrvCheckPhase (sr_phase r) s) (\<lambda>(ok, s).
        Inr (if ok = 0 then
               ErrorMsg ''CheckPhaseName found stop request with unsupported phase '%s' '' [sr_phase r] s
             else s)))"

text \<open>The part after the two checks against the phase service.\<close>

definition add_request :: "string \<Rightarrow> phase_action \<Rightarrow> 'w bp_state \<Rightarrow> bool \<times> 'w bp_state" where
  "add_request phase_name phase_action s =
     (if phase_action \<noteq> PHASE_STARTED \<and> phase_action \<noteq> PHASE_ENDED then
        (False, ErrorMsg ''Invalid phase action (must be either 'begin' or 'end')'' [] s)
      else if \<exists>r \<in> set (stop_requests s). matches phase_name phase_action r then (True, s)
      else
        let (r, s) = bp_stop_request_struct phase_name phase_action (first_phase s) s
        in (True, s\<lparr>stop_requests := stop_requests s @ [r]\<rparr>))"

definition RequestStopPhase :: "string \<Rightarrow> phase_action \<Rightarrow> 'w bp_state \<Rightarrow> (bool \<times> 'w bp_state) res" where
  "RequestStopPhase phase_name phase_action s =
     (if first_phase s then
        bind_res (PhaseSrvCheckPhase phase_name s) (\<lambda>(ok, s).
          if ok = 0 then
            Inr (False, ErrorMsg ''Could not set stop on unrecognized phase '%s' '' [phase_name] s)
          else
            bind_res (PhaseSrvCheckFuturePhase phase_name phase_action s) (\<lambda>(ok, s).
              if ok = 0 then
                Inr (False, ErrorMsg ''Could not set stop on phase that passed '%s' '' [phase_name] s)
              else Inr (add_request phase_name phase_action s)))
      else Inr (add_request phase_name phase_action s))"

text \<open>Removing the first element with a property.\<close>

fun remove_first :: "('a \<Rightarrow> bool) \<Rightarrow> 'a list \<Rightarrow> 'a list" where
  "remove_first P [] = []"
| "remove_first P (x # xs) = (if P x then xs else x # remove_first P xs)"

definition CancelStopPhase :: "string \<Rightarrow> phase_action \<Rightarrow> 'w bp_state \<Rightarrow> 'w bp_state" where
  "CancelStopPhase phase_name phase_action s =
     (if \<exists>r \<in> set (stop_requests s). matches phase_name phase_action r then
        s\<lparr>stop_requests := remove_first (matches phase_name phase_action) (stop_requests s)\<rparr>
      else ErrorMsg ''Request to be canceled was not found'' [] s)"

definition ListStopRequests :: "'w bp_state \<Rightarrow> 'w bp_state" where
  "ListStopRequests s = fold PrintStop (stop_requests s) s"

text \<open>\<open>atoi\<close>: white space, a sign, decimal digits; no digit gives 0.\<close>

definition atoi :: "string \<Rightarrow> int res" where
  "atoi x =
     (let t = skip_ws x;
          neg = (t \<noteq> [] \<and> hd t = CHR ''-'');
          d = (if t \<noteq> [] \<and> (hd t = CHR ''-'' \<or> hd t = CHR ''+'') then tl t else t);
          n = int (digits_value 10 0 (takeWhile (is_digit 10) d));
          v = (if neg then - n else n)
      in if - 2147483648 \<le> v \<and> v < 2147483648 then Inr v else Inl Int_Overflow)"

definition DeleteStopRequest :: "string \<Rightarrow> 'w bp_state \<Rightarrow> 'w bp_state res" where
  "DeleteStopRequest index s =
     bind_res (atoi index) (\<lambda>i.
       if 0 < i \<and> i \<le> sint (stop_last_id s) then
         (if nat i \<le> length (stop_requests s)
          then Inr (s\<lparr>stop_requests := take (nat i - 1) (stop_requests s) @ drop (nat i) (stop_requests s)\<rparr>)
          else Inl Bad_Iterator)
       else Inr (ErrorMsg ''Illegal index value in delete command'' [] s))"

definition GetPhaseRequest :: "'w bp_state \<Rightarrow> 'w bp_state" where
  "GetPhaseRequest s =
     (if phase_srv s \<noteq> null then
        (if current_phase_name s = [] then PrintMessage ''UVM-ML: Phasing has not been started yet'' [] s
         else PrintMessage ''UVM-ML: Current phase is %s'' [current_phase_name s] s)
      else ErrorMsg ''Phasing service provider is not available'' [] s)"

fun erase_front :: "nat \<Rightarrow> 'a list \<Rightarrow> 'a list" where
  "erase_front 0 xs = xs"
| "erase_front (Suc n) xs = erase_front n (tl xs)"

definition CancelPhaseRequests :: "'w bp_state \<Rightarrow> 'w bp_state" where
  "CancelPhaseRequests s = s\<lparr>stop_requests := erase_front (length (stop_requests s)) (stop_requests s)\<rparr>"

section \<open>What the requests mean\<close>

text \<open>No phase and action is requested twice, and numbers grow.\<close>

definition stops_ok :: "'w bp_state \<Rightarrow> bool" where
  "stops_ok s \<longleftrightarrow> distinct (map (\<lambda>r. (sr_phase r, sr_action r)) (stop_requests s)) \<and>
     (\<forall>r \<in> set (stop_requests s). sr_action r = PHASE_STARTED \<or> sr_action r = PHASE_ENDED)"

text \<open>The set of requested stops.\<close>

definition stops :: "'w bp_state \<Rightarrow> (string \<times> phase_action) set" where
  "stops s = (\<lambda>r. (sr_phase r, sr_action r)) ` set (stop_requests s)"

lemma matches_iff: "matches n a r \<longleftrightarrow> (sr_phase r, sr_action r) = (n, a)"
  by (auto simp: matches_def)

lemma ex_matches: "(\<exists>r \<in> set (stop_requests s). matches n a r) \<longleftrightarrow> (n, a) \<in> stops s"
  by (auto simp: stops_def matches_def)

lemma CheckStopRequest_iff: "fst (CheckStopRequest n a s) \<longleftrightarrow> (n, a) \<in> stops s"
proof (cases "find (matches n a) (stop_requests s)")
  case None
  then have "\<not> (\<exists>r \<in> set (stop_requests s). matches n a r)" by (simp add: find_None_iff)
  then show ?thesis using None ex_matches [of s n a] by (simp add: CheckStopRequest_def)
next
  case (Some r)
  then have "\<exists>r \<in> set (stop_requests s). matches n a r" by (auto simp: find_Some_iff)
  then show ?thesis using Some ex_matches [of s n a] by (simp add: CheckStopRequest_def Let_def)
qed

lemma add_request_ok:
  assumes "stops_ok s" and "add_request n a s = (ok, s')"
  shows "stops_ok s' \<and> (ok \<longleftrightarrow> a = PHASE_STARTED \<or> a = PHASE_ENDED) \<and>
         stops s' = (if ok then insert (n, a) (stops s) else stops s)"
proof (cases "a \<noteq> PHASE_STARTED \<and> a \<noteq> PHASE_ENDED")
  case True
  then show ?thesis using assms by (auto simp: add_request_def message_def stops_ok_def stops_def)
next
  case a: False
  show ?thesis
  proof (cases "(n, a) \<in> stops s")
    case True
    then show ?thesis using assms a ex_matches [of s n a] by (auto simp: add_request_def)
  next
    case False
    then have "ok" and "stop_requests s' = stop_requests s @ [\<lparr>sr_id = sint (stop_last_id s + 1), sr_phase = n,
        sr_action = a, sr_checked = first_phase s\<rparr>]"
      using assms a ex_matches [of s n a] by (auto simp: add_request_def bp_stop_request_struct_def Let_def)
    then show ?thesis using assms(1) a False by (auto simp: stops_ok_def stops_def)
  qed
qed

lemma remove_first_matches:
  "distinct (map f xs) \<Longrightarrow> remove_first (\<lambda>x. f x = k) xs = filter (\<lambda>x. f x \<noteq> k) xs"
proof (induction xs)
  case (Cons x xs)
  show ?case
  proof (cases "f x = k")
    case True
    then have "\<forall>y \<in> set xs. f y \<noteq> k" using Cons.prems True by (metis distinct.simps(2) image_eqI list.set_map list.simps(9))
    then show ?thesis using True by simp
  qed (use Cons in simp)
qed simp

lemma CancelStopPhase_ok:
  assumes "stops_ok s"
  shows "stops_ok (CancelStopPhase n a s) \<and> stops (CancelStopPhase n a s) = stops s - {(n, a)}"
proof (cases "(n, a) \<in> stops s")
  case True
  have "matches n a = (\<lambda>r. (sr_phase r, sr_action r) = (n, a))" by (simp add: fun_eq_iff matches_iff)
  then have "CancelStopPhase n a s =
      s\<lparr>stop_requests := filter (\<lambda>r. (sr_phase r, sr_action r) \<noteq> (n, a)) (stop_requests s)\<rparr>"
    using True assms ex_matches [of s n a]
      remove_first_matches [of "\<lambda>r. (sr_phase r, sr_action r)" "stop_requests s" "(n, a)"]
    by (simp add: CancelStopPhase_def stops_ok_def)
  then show ?thesis using assms by (auto simp: stops_ok_def stops_def distinct_map_filter)
next
  case False
  then show ?thesis using assms ex_matches [of s n a]
    by (auto simp: CancelStopPhase_def message_def stops_ok_def stops_def)
qed

lemma erase_front_all: "erase_front (length xs) xs = []"
  by (induction xs) simp_all

lemma CancelPhaseRequests_none: "stops (CancelPhaseRequests s) = {}"
  by (simp add: CancelPhaseRequests_def stops_def erase_front_all)

end
