(* ===== verification/Bp_Phase.thy ===== *)
theory Bp_Phase
  imports Bp_Stop Bp_Connect
begin

text \<open>
  Phasing: how a phase notification reaches the frameworks and the top components
  (\<open>bp_base_interconnect.cpp\<close>, \<open>bp_top_descriptor.cpp\<close>), and the schedule of the common
  framework's phase service (\<open>uvm_ml_phase_service.cpp\<close>, \<open>common_services_framework.cpp\<close>).
\<close>

section \<open>Calls of a proxy\<close>

definition frmw_TransmitPhase ::
  "addr \<Rightarrow> int \<Rightarrow> string \<Rightarrow> string \<Rightarrow> phase_action \<Rightarrow> 'w bp_state \<Rightarrow> (int \<times> 'w bp_state) res" where
  "frmw_TransmitPhase p targetId phaseGroup phaseName phaseAction =
     frmw_call p (\<lambda>a. map_option (\<lambda>g. g targetId phaseGroup phaseName phaseAction)
       (transmit_phase_ptr (phase_fns a))) (-1)"

definition frmw_NotifyPhase ::
  "addr \<Rightarrow> string \<Rightarrow> string \<Rightarrow> phase_action \<Rightarrow> 'w bp_state \<Rightarrow> (int \<times> 'w bp_state) res" where
  "frmw_NotifyPhase p phaseGroup phaseName phaseAction =
     frmw_call p (\<lambda>a. map_option (\<lambda>g. g phaseGroup phaseName phaseAction)
       (notify_phase_ptr (phase_fns a))) (-1)"

text \<open>The count of participants is written through a pointer, or left as it is.\<close>

definition frmw_NotifyRuntimePhase ::
  "addr \<Rightarrow> string \<Rightarrow> string \<Rightarrow> phase_action \<Rightarrow> time \<Rightarrow>
   'w bp_state \<Rightarrow> ((int \<times> uint option) \<times> 'w bp_state) res" where
  "frmw_NotifyRuntimePhase p phaseGroup phaseName phaseAction t =
     frmw_call p (\<lambda>a. map_option (\<lambda>g. g phaseGroup phaseName phaseAction t)
       (notify_runtime_phase_ptr (phase_fns a))) (-1, None)"

definition top_TransmitPhase ::
  "top_descriptor \<Rightarrow> string \<Rightarrow> string \<Rightarrow> phase_action \<Rightarrow> 'w bp_state \<Rightarrow> (int \<times> 'w bp_state) res" where
  "top_TransmitPhase d phaseGroup phaseName phaseAction =
     frmw_TransmitPhase (td_frmw d) (td_id d) phaseGroup phaseName phaseAction"

section \<open>Notification of a phase that takes no time\<close>

text \<open>A loop over the frameworks, or the tops, that ends at the first result 0.\<close>

fun notify_frameworks ::
  "string \<Rightarrow> string \<Rightarrow> phase_action \<Rightarrow> addr list \<Rightarrow> int \<Rightarrow> 'w bp_state \<Rightarrow> (int \<times> 'w bp_state) res" where
  "notify_frameworks grp ph act [] result s = Inr (result, s)"
| "notify_frameworks grp ph act (p # ps) result s =
     bind_res (frmw_NotifyPhase p grp ph act s) (\<lambda>(result, s).
       if result = 0 then
         bind_res (proxy p s) (\<lambda>f.
           Inr (result, ErrorMsg ''BpInterconnect::NotifyPhase(): framework = %s[%0d] returned with error.''
                          [frmw_name f] s))
       else notify_frameworks grp ph act ps result s)"

fun notify_tops ::
  "string \<Rightarrow> string \<Rightarrow> phase_action \<Rightarrow> addr list \<Rightarrow> int \<Rightarrow> 'w bp_state \<Rightarrow> (int \<times> 'w bp_state) res" where
  "notify_tops grp ph act [] result s = Inr (result, s)"
| "notify_tops grp ph act (a # as) result s =
     bind_res (deref (tops s) a) (\<lambda>d.
     bind_res (top_TransmitPhase d grp ph act s) (\<lambda>(result, s).
       if result = 0 then
         Inr (result, ErrorMsg ''BpInterconnect::NotifyPhase(): top = %s[%s] returned with error.''
                        [ta_instance (td_arg d), ta_indicator (td_arg d)] s)
       else notify_tops grp ph act as result s))"

text \<open>What precedes the notifications: pending stop requests.\<close>

definition first_phase_checks :: "'w bp_state \<Rightarrow> 'w bp_state res" where
  "first_phase_checks s =
     (if first_phase s then Inr s
      else fold_res CheckPhaseName (stop_requests s) (s\<lparr>first_phase := True\<rparr>))"

definition stop_if_requested :: "string \<Rightarrow> phase_action \<Rightarrow> 'w bp_state \<Rightarrow> 'w bp_state res" where
  "stop_if_requested phaseName phaseAction s =
     (let (pending, s) = CheckStopRequest phaseName phaseAction s
      in if pending then StopPhase (s\<lparr>current_phase_name := phaseName\<rparr>) else Inr s)"

text \<open>\<open>checkAllConnections\<close> is called before \<open>start_of_simulation\<close>; its answer is dropped.\<close>

definition NotifyPhase ::
  "uint \<Rightarrow> string \<Rightarrow> string \<Rightarrow> phase_action \<Rightarrow> 'w bp_state \<Rightarrow> (int \<times> 'w bp_state) res" where
  "NotifyPhase frameworkId phaseGroup phaseName phaseAction s =
     bind_res (first_phase_checks s) (\<lambda>s.
     bind_res (stop_if_requested phaseName phaseAction s) (\<lambda>s.
     bind_res (if phaseAction = PHASE_STARTED \<or> phaseAction = PHASE_EXECUTING
               then notify_frameworks phaseGroup phaseName phaseAction (framework_registry s) 1 s
               else Inr (1, s)) (\<lambda>(result, s).
       if result = 0 then Inr (result, s)
       else
         bind_res (notify_tops phaseGroup phaseName phaseAction (top_level_registry s) result s) (\<lambda>(result, s).
           if result = 0 then Inr (result, s)
           else if phaseAction = PHASE_READY_TO_END \<or> phaseAction = PHASE_ENDED
           then notify_frameworks phaseGroup phaseName phaseAction (framework_registry s) result s
           else Inr (result, s)))))"

definition TransmitPhase ::
  "uint \<Rightarrow> string \<Rightarrow> int \<Rightarrow> string \<Rightarrow> string \<Rightarrow> phase_action \<Rightarrow> 'w bp_state \<Rightarrow> (int \<times> 'w bp_state) res" where
  "TransmitPhase frameworkId target_frmw_ind targetId phaseGroup phaseName phaseAction s =
     bind_res (GetFrameworkProxyByInd target_frmw_ind s) (\<lambda>p.
       if p = null then
         Inr (0, ErrorMsg ''No framework with name '%s' has been registered'' [target_frmw_ind] s)
       else
         bind_res (frmw_TransmitPhase p targetId phaseGroup phaseName phaseAction s) (\<lambda>(result, s).
           if result = 0 then
             bind_res (proxy p s) (\<lambda>f.
               Inr (result, ErrorMsg ''BpInterconnect::TransmitPhase(): %s[%0d] framework returned with error for target_id = %0d.''
                              [frmw_name f] s))
           else Inr (result, s)))"

section \<open>Notification of a runtime phase\<close>

fun notify_runtime ::
  "string \<Rightarrow> string \<Rightarrow> phase_action \<Rightarrow> time \<Rightarrow> addr list \<Rightarrow> uint \<Rightarrow> int \<Rightarrow>
   'w bp_state \<Rightarrow> ((int \<times> uint) \<times> 'w bp_state) res" where
  "notify_runtime grp ph act t [] acc result s = Inr ((result, acc), s)"
| "notify_runtime grp ph act t (p # ps) acc result s =
     bind_res (frmw_NotifyRuntimePhase p grp ph act t s) (\<lambda>((result, n), s).
       notify_runtime grp ph act t ps (acc + (case n of None \<Rightarrow> 0 | Some k \<Rightarrow> k)) result s)"

definition NotifyRuntimePhase ::
  "uint \<Rightarrow> string \<Rightarrow> string \<Rightarrow> phase_action \<Rightarrow> time \<Rightarrow> 'w bp_state \<Rightarrow> ((int \<times> uint) \<times> 'w bp_state) res" where
  "NotifyRuntimePhase frameworkId phaseGroup phaseName phaseAction t s =
     bind_res (stop_if_requested phaseName phaseAction (s\<lparr>current_phase_name := phaseName\<rparr>)) (\<lambda>s.
       notify_runtime phaseGroup phaseName phaseAction t (framework_registry s) 0 0 s)"

section \<open>The phase service\<close>

definition UvmMlPhaseService :: phase_service where
  "UvmMlPhaseService =
     \<lparr>participate = (\<lambda>_. 0), participate_done = (\<lambda>_. 0), ps_current_phase = [], ps_time = (UNIT_FS, 0)\<rparr>"

text \<open>\<open>m_uvm_runtime_next_phase\<close>; a phase outside the table gives the empty name.\<close>

definition uvm_runtime_next_phase :: "string \<Rightarrow> string" where
  "uvm_runtime_next_phase ph =
     (if ph = ''reset'' then ''configure'' else if ph = ''configure'' then ''main''
      else if ph = ''main'' then ''shutdown'' else [])"

definition GetPhaseService :: "'w bp_state \<Rightarrow> 'w bp_state" where
  "GetPhaseService s =
     (case phase_service s of None \<Rightarrow> s\<lparr>phase_service := Some UvmMlPhaseService\<rparr> | Some ps \<Rightarrow> s)"

definition with_service ::
  "(phase_service \<Rightarrow> phase_service) \<Rightarrow> 'w bp_state \<Rightarrow> 'w bp_state res" where
  "with_service f s =
     (case phase_service s of
        None \<Rightarrow> Inl Null_Deref | Some ps \<Rightarrow> Inr (s\<lparr>phase_service := Some (f ps)\<rparr>))"

definition service :: "'w bp_state \<Rightarrow> phase_service res" where
  "service s = (case phase_service s of None \<Rightarrow> Inl Null_Deref | Some ps \<Rightarrow> Inr ps)"

text \<open>The results of the three notifications are not used.\<close>

definition ExecutePhase :: "string \<Rightarrow> string \<Rightarrow> 'w bp_state \<Rightarrow> 'w bp_state res" where
  "ExecutePhase phaseGroup phaseName s =
     bind_res (with_service (\<lambda>ps. ps\<lparr>ps_current_phase := phaseName\<rparr>) s) (\<lambda>s.
     bind_res (NotifyPhase 0 phaseGroup phaseName PHASE_STARTED s) (\<lambda>(_, s).
     bind_res (NotifyPhase 0 phaseGroup phaseName PHASE_EXECUTING s) (\<lambda>(_, s).
     bind_res (NotifyPhase 0 phaseGroup phaseName PHASE_ENDED s) (\<lambda>(_, s). Inr s))))"

definition ExecutePhaseRuntime :: "string \<Rightarrow> string \<Rightarrow> 'w bp_state \<Rightarrow> 'w bp_state res" where
  "ExecutePhaseRuntime phaseGroup phaseName s =
     bind_res (with_service (\<lambda>ps. ps\<lparr>ps_current_phase := phaseName\<rparr>) s) (\<lambda>s.
     bind_res (service s) (\<lambda>ps.
     bind_res (NotifyRuntimePhase 0 phaseGroup phaseName PHASE_STARTED (ps_time ps) s) (\<lambda>(_, s).
     bind_res (NotifyRuntimePhase 0 phaseGroup phaseName PHASE_EXECUTING (ps_time ps) s) (\<lambda>((_, n), s).
       with_service (\<lambda>ps. ps\<lparr>participate := (participate ps)(phaseName := n)\<rparr>) s))))"

definition service_StartPhasing :: "'w bp_state \<Rightarrow> 'w bp_state res" where
  "service_StartPhasing s =
     bind_res (fold_res (ExecutePhase ''common'') build_phases s) (\<lambda>s.
     bind_res (ExecutePhaseRuntime ''common'' ''run'' s) (ExecutePhaseRuntime ''uvm'' ''reset''))"

definition end_phase :: "string \<Rightarrow> string \<Rightarrow> 'w bp_state \<Rightarrow> 'w bp_state res" where
  "end_phase phaseGroup phaseName s =
     bind_res (service s) (\<lambda>ps.
     bind_res (NotifyRuntimePhase 0 phaseGroup phaseName PHASE_READY_TO_END (ps_time ps) s) (\<lambda>(_, s).
     bind_res (NotifyRuntimePhase 0 phaseGroup phaseName PHASE_ENDED (ps_time ps) s) (\<lambda>(_, s). Inr s)))"

definition phase_complete :: "string \<Rightarrow> phase_service \<Rightarrow> bool" where
  "phase_complete ph ps \<longleftrightarrow> participate_done ps ph = participate ps ph"

definition count_done :: "string \<Rightarrow> time \<Rightarrow> phase_service \<Rightarrow> phase_service" where
  "count_done ph t ps =
     ps\<lparr>ps_time := (if fst t \<noteq> UNIT_UNDEFINED then t else ps_time ps),
        participate_done := (participate_done ps)(ph := participate_done ps ph + 1)\<rparr>"

definition srvc_notify_phase_done :: "uint \<Rightarrow> string \<Rightarrow> string \<Rightarrow> time \<Rightarrow> 'w bp_state \<Rightarrow> 'w bp_state res" where
  "srvc_notify_phase_done frameworkId phaseGroup phaseName t s =
     bind_res (with_service (count_done phaseName t) s) (\<lambda>s.
     bind_res (service s) (\<lambda>ps.
     bind_res
       (if phaseName \<noteq> ''run'' \<and> phase_complete phaseName ps then
          bind_res (end_phase phaseGroup phaseName s) (\<lambda>s.
            if uvm_runtime_next_phase phaseName \<noteq> [] then
              ExecutePhaseRuntime ''uvm'' (uvm_runtime_next_phase phaseName) s
            else Inr s)
        else Inr s) (\<lambda>s.
     bind_res (service s) (\<lambda>ps.
       if phase_complete ''run'' ps \<and> phase_complete ''shutdown'' ps then
         bind_res (end_phase ''common'' ''run'' s) (fold_res (ExecutePhase ''common'') final_phases)
       else Inr s))))"

section \<open>The interconnect's calls into the service\<close>

definition frmw_StartPhasing :: "addr \<Rightarrow> 'w bp_state \<Rightarrow> 'w bp_state res" where
  "frmw_StartPhasing p s =
     (if p = common_frmw s then service_StartPhasing (GetPhaseService s)
      else frmw_call_void p (\<lambda>a. phase_srv_start_ptr (phase_fns a)) s)"

definition StartPhasing :: "'w bp_state \<Rightarrow> 'w bp_state res" where
  "StartPhasing s =
     (if phase_srv s \<noteq> null then frmw_StartPhasing (phase_srv s) s
      else Inr (ErrorMsg ''BpInterconnect::StartPhasing() - No phase service registered.'' [] s))"

definition frmw_PhaseSrvNotifyPhaseDone ::
  "addr \<Rightarrow> uint \<Rightarrow> string \<Rightarrow> string \<Rightarrow> time \<Rightarrow> 'w bp_state \<Rightarrow> 'w bp_state res" where
  "frmw_PhaseSrvNotifyPhaseDone p frameworkId phaseGroup phaseName t s =
     (if p = common_frmw s then srvc_notify_phase_done frameworkId phaseGroup phaseName t s
      else frmw_call_void p (\<lambda>a. map_option (\<lambda>g. g frameworkId phaseGroup phaseName t)
             (phase_srv_notify_phase_done_ptr (phase_fns a))) s)"

definition PhaseSrvNotifyPhaseDone ::
  "uint \<Rightarrow> string \<Rightarrow> string \<Rightarrow> time \<Rightarrow> 'w bp_state \<Rightarrow> 'w bp_state res" where
  "PhaseSrvNotifyPhaseDone frameworkId phaseGroup phaseName t s =
     (if phase_srv s \<noteq> null then frmw_PhaseSrvNotifyPhaseDone (phase_srv s) frameworkId phaseGroup phaseName t s
      else Inr (ErrorMsg ''BpInterconnect::PhaseSrvNotifyPhaseDone() - No phase service registered.'' [] s))"

section \<open>The order of the calls\<close>

text \<open>
  A reference for \<open>NotifyPhase\<close>: the adapters' calls as a list of functions on their state,
  run in order up to the first that answers 0.
\<close>

fun run_calls :: "('w \<Rightarrow> int \<times> 'w) list \<Rightarrow> int \<Rightarrow> 'w \<Rightarrow> int \<times> 'w" where
  "run_calls [] r w = (r, w)"
| "run_calls (c # cs) r w = (let (r, w) = c w in if r = 0 then (r, w) else run_calls cs r w)"

lemma run_calls_append:
  "r \<noteq> 0 \<Longrightarrow> run_calls (cs @ ds) r w =
     (let (r, w) = run_calls cs r w in if r = 0 then (r, w) else run_calls ds r w)"
  by (induction cs arbitrary: r w) (auto simp: Let_def split: prod.splits)

definition or_default :: "('w \<Rightarrow> int \<times> 'w) option \<Rightarrow> 'w \<Rightarrow> int \<times> 'w" where
  "or_default g = (case g of None \<Rightarrow> (\<lambda>w. (-1, w)) | Some g \<Rightarrow> g)"

definition frmw_phase_call ::
  "'w bp_state \<Rightarrow> string \<Rightarrow> string \<Rightarrow> phase_action \<Rightarrow> addr \<Rightarrow> 'w \<Rightarrow> int \<times> 'w" where
  "frmw_phase_call s grp ph act p =
     or_default (map_option (\<lambda>g. g grp ph act) (notify_phase_ptr (phase_fns (required_api (the (proxies s p))))))"

definition top_phase_call ::
  "'w bp_state \<Rightarrow> string \<Rightarrow> string \<Rightarrow> phase_action \<Rightarrow> addr \<Rightarrow> 'w \<Rightarrow> int \<times> 'w" where
  "top_phase_call s grp ph act a =
     or_default (map_option (\<lambda>g. g (td_id (the (tops s a))) grp ph act)
       (transmit_phase_ptr (phase_fns (required_api (the (proxies s (td_frmw (the (tops s a)))))))))"

definition phase_calls ::
  "'w bp_state \<Rightarrow> string \<Rightarrow> string \<Rightarrow> phase_action \<Rightarrow> ('w \<Rightarrow> int \<times> 'w) list" where
  "phase_calls s grp ph act =
     (let fs = map (frmw_phase_call s grp ph act) (framework_registry s);
          ts = map (top_phase_call s grp ph act) (top_level_registry s)
      in if act = PHASE_STARTED \<or> act = PHASE_EXECUTING then fs @ ts else ts @ fs)"

text \<open>Registered tops are live and belong to live frameworks.\<close>

definition tops_ok :: "'w bp_state \<Rightarrow> bool" where
  "tops_ok s \<longleftrightarrow>
     (\<forall>a \<in> set (top_level_registry s). a \<noteq> null \<and>
        (\<exists>d. tops s a = Some d \<and> td_frmw d \<noteq> null \<and> proxies s (td_frmw d) \<noteq> None))"

lemma frmw_NotifyPhase_call:
  assumes "p \<noteq> null" and "proxies s p \<noteq> None" and "proxies t = proxies s"
  shows "frmw_NotifyPhase p grp ph act t =
     (case frmw_phase_call s grp ph act p (world t) of (r, w) \<Rightarrow> Inr (r, t\<lparr>world := w\<rparr>))"
  using assms
  by (auto simp: frmw_NotifyPhase_def frmw_phase_call_def or_default_def frmw_call_def proxy_def split: option.splits)

lemma top_TransmitPhase_call:
  assumes "tops s a = Some d" and "td_frmw d \<noteq> null" and "proxies s (td_frmw d) \<noteq> None" and "proxies t = proxies s"
  shows "top_TransmitPhase d grp ph act t =
     (case top_phase_call s grp ph act a (world t) of (r, w) \<Rightarrow> Inr (r, t\<lparr>world := w\<rparr>))"
  using assms
  by (auto simp: top_TransmitPhase_def frmw_TransmitPhase_def top_phase_call_def or_default_def frmw_call_def proxy_def
      split: option.splits)

lemma message_log_world:
  "message a b c (s\<lparr>log := l, world := w\<rparr>) = s\<lparr>log := l @ [(a, b, c)], world := w\<rparr>"
  by (simp add: message_def)

lemma notify_frameworks_run:
  assumes "\<forall>p \<in> set ps. p \<noteq> null \<and> proxies s p \<noteq> None"
  shows "\<exists>l'. notify_frameworks grp ph act ps r (s\<lparr>log := l, world := w\<rparr>) =
     (case run_calls (map (frmw_phase_call s grp ph act) ps) r w of
        (r, w) \<Rightarrow> Inr (r, s\<lparr>log := l', world := w\<rparr>))"
  using assms
proof (induction ps arbitrary: r l w)
  case Nil
  show ?case by (rule exI [of _ l]) simp
next
  case (Cons p ps)
  let ?t = "s\<lparr>log := l, world := w\<rparr>"
  obtain r1 w1 where c: "frmw_phase_call s grp ph act p w = (r1, w1)" by fastforce
  have p: "p \<noteq> null" "proxies s p \<noteq> None" using Cons.prems by auto
  then obtain f where f: "proxies s p = Some f" by blast
  have call: "frmw_NotifyPhase p grp ph act ?t = Inr (r1, s\<lparr>log := l, world := w1\<rparr>)"
    using frmw_NotifyPhase_call [OF p, of ?t] c by simp
  show ?case
  proof (cases "r1 = 0")
    case True
    moreover have "proxy p (s\<lparr>log := l, world := w1\<rparr>) = Inr f" using p f by (simp add: proxy_def)
    ultimately show ?thesis by (simp add: call c message_log_world) blast
  next
    case False
    then show ?thesis using Cons.IH [of r1 w1 l] Cons.prems by (simp add: call c)
  qed
qed

lemma notify_tops_run:
  assumes "\<forall>a \<in> set as. a \<noteq> null \<and> (\<exists>d. tops s a = Some d \<and> td_frmw d \<noteq> null \<and> proxies s (td_frmw d) \<noteq> None)"
  shows "\<exists>l'. notify_tops grp ph act as r (s\<lparr>log := l, world := w\<rparr>) =
     (case run_calls (map (top_phase_call s grp ph act) as) r w of
        (r, w) \<Rightarrow> Inr (r, s\<lparr>log := l', world := w\<rparr>))"
  using assms
proof (induction "as" arbitrary: r l w)
  case Nil
  show ?case by (rule exI [of _ l]) simp
next
  case (Cons a "as")
  let ?t = "s\<lparr>log := l, world := w\<rparr>"
  obtain r1 w1 where c: "top_phase_call s grp ph act a w = (r1, w1)" by fastforce
  obtain d where d: "a \<noteq> null" "tops s a = Some d" "td_frmw d \<noteq> null" "proxies s (td_frmw d) \<noteq> None"
    using Cons.prems by auto
  have call: "top_TransmitPhase d grp ph act ?t = Inr (r1, s\<lparr>log := l, world := w1\<rparr>)"
    using top_TransmitPhase_call [OF d(2-4), of ?t] c by simp
  show ?case
  proof (cases "r1 = 0")
    case True
    then show ?thesis using d by (simp add: call c message_log_world) blast
  next
    case False
    then show ?thesis using Cons.IH [of r1 w1 l] Cons.prems d by (simp add: call c)
  qed
qed

text \<open>Without a pending stop, and past the first phase, \<open>NotifyPhase\<close> is the list of calls.\<close>

lemma NotifyPhase_run:
  assumes ok: "registry_ok s" "tops_ok s" and no_stop: "first_phase s" "(ph, act) \<notin> stops s"
  shows "\<exists>l. NotifyPhase i grp ph act s =
     (case run_calls (phase_calls s grp ph act) 1 (world s) of
        (r, w) \<Rightarrow> Inr (r, s\<lparr>log := l, world := w\<rparr>))"
proof -
  let ?fs = "map (frmw_phase_call s grp ph act) (framework_registry s)"
    and ?ts = "map (top_phase_call s grp ph act) (top_level_registry s)"
  have stop: "stop_if_requested ph act s = Inr s"
    using CheckStopRequest_iff [of ph act s] no_stop(2)
    by (auto simp: stop_if_requested_def CheckStopRequest_def Let_def split: option.splits)
  have fr: "\<forall>p \<in> set (framework_registry s). p \<noteq> null \<and> proxies s p \<noteq> None"
    using ok(1) by (auto elim: registry_ok_in)
  have tp: "\<forall>a \<in> set (top_level_registry s). a \<noteq> null \<and>
      (\<exists>d. tops s a = Some d \<and> td_frmw d \<noteq> null \<and> proxies s (td_frmw d) \<noteq> None)"
    using ok(2) by (simp add: tops_ok_def)
  have same: "s = s\<lparr>log := log s, world := world s\<rparr>" by simp
  show ?thesis
  proof (cases "act = PHASE_STARTED \<or> act = PHASE_EXECUTING")
    case True
    obtain r1 w1 where c1: "run_calls ?fs 1 (world s) = (r1, w1)" by fastforce
    obtain l1 where n1: "notify_frameworks grp ph act (framework_registry s) 1 s = Inr (r1, s\<lparr>log := l1, world := w1\<rparr>)"
      using notify_frameworks_run [OF fr
        , where grp = grp and ph = ph and act = act and r = 1 and l = "log s" and w = "world s"] same c1 by auto
    have calls: "phase_calls s grp ph act = ?fs @ ?ts" using True by (simp add: phase_calls_def)
    show ?thesis
    proof (cases "r1 = 0")
      case r1: True
      then show ?thesis using True n1 c1 stop no_stop(1)
        by (auto simp: NotifyPhase_def first_phase_checks_def calls run_calls_append)
    next
      case r1: False
      obtain r2 w2 where c2: "run_calls ?ts r1 w1 = (r2, w2)" by fastforce
      obtain l2 where n2: "notify_tops grp ph act (top_level_registry s) r1 (s\<lparr>log := l1, world := w1\<rparr>) =
          Inr (r2, s\<lparr>log := l2, world := w2\<rparr>)"
        using notify_tops_run [OF tp
        , where grp = grp and ph = ph and act = act and r = r1 and l = l1 and w = w1] c2 by auto
      show ?thesis using True n1 n2 c1 c2 r1 stop no_stop(1)
        by (auto simp: NotifyPhase_def first_phase_checks_def calls run_calls_append intro!: exI [of _ l2])
    qed
  next
    case False
    then have act: "act = PHASE_READY_TO_END \<or> act = PHASE_ENDED" by (cases act) auto
    obtain r1 w1 where c1: "run_calls ?ts 1 (world s) = (r1, w1)" by fastforce
    obtain l1 where n1: "notify_tops grp ph act (top_level_registry s) 1 s = Inr (r1, s\<lparr>log := l1, world := w1\<rparr>)"
      using notify_tops_run [OF tp
        , where grp = grp and ph = ph and act = act and r = 1 and l = "log s" and w = "world s"] same c1 by auto
    have calls: "phase_calls s grp ph act = ?ts @ ?fs" using False by (simp add: phase_calls_def)
    show ?thesis
    proof (cases "r1 = 0")
      case r1: True
      then show ?thesis using False n1 c1 stop no_stop(1)
        by (auto simp: NotifyPhase_def first_phase_checks_def calls run_calls_append)
    next
      case r1: False
      obtain r2 w2 where c2: "run_calls ?fs r1 w1 = (r2, w2)" by fastforce
      obtain l2 where n2: "notify_frameworks grp ph act (framework_registry s) r1 (s\<lparr>log := l1, world := w1\<rparr>) =
          Inr (r2, s\<lparr>log := l2, world := w2\<rparr>)"
        using notify_frameworks_run [OF fr
        , where grp = grp and ph = ph and act = act and r = r1 and l = l1 and w = w1] c2 by auto
      show ?thesis using False act n1 n2 c1 c2 r1 stop no_stop(1)
        by (auto simp: NotifyPhase_def first_phase_checks_def calls run_calls_append intro!: exI [of _ l2])
    qed
  qed
qed

section \<open>Counting the participants\<close>

definition runtime_call ::
  "'w bp_state \<Rightarrow> string \<Rightarrow> string \<Rightarrow> phase_action \<Rightarrow> time \<Rightarrow> addr \<Rightarrow> 'w \<Rightarrow> (int \<times> uint option) \<times> 'w" where
  "runtime_call s grp ph act t p =
     (case notify_runtime_phase_ptr (phase_fns (required_api (the (proxies s p)))) of
        None \<Rightarrow> (\<lambda>w. ((-1, None), w)) | Some g \<Rightarrow> g grp ph act t)"

text \<open>The sum of what the calls of a list report, and the adapters' state after them.\<close>

fun run_counts :: "('w \<Rightarrow> (int \<times> uint option) \<times> 'w) list \<Rightarrow> 'w \<Rightarrow> uint \<times> 'w" where
  "run_counts [] w = (0, w)"
| "run_counts (c # cs) w =
     (let ((_, n), w) = c w; (k, w) = run_counts cs w in ((case n of None \<Rightarrow> 0 | Some m \<Rightarrow> m) + k, w))"

lemma notify_runtime_run:
  assumes "\<forall>p \<in> set ps. p \<noteq> null \<and> proxies s p \<noteq> None"
  shows "\<exists>r'. notify_runtime grp ph act t ps acc r (s\<lparr>world := w\<rparr>) =
     (case run_counts (map (runtime_call s grp ph act t) ps) w of
        (k, w) \<Rightarrow> Inr ((r', acc + k), s\<lparr>world := w\<rparr>))"
  using assms
proof (induction ps arbitrary: acc r w)
  case (Cons p ps)
  obtain r1 n w1 where c: "runtime_call s grp ph act t p w = ((r1, n), w1)" by (metis surj_pair)
  obtain f where "p \<noteq> null" "proxies s p = Some f" using Cons.prems by auto
  then have call: "frmw_NotifyRuntimePhase p grp ph act t (s\<lparr>world := w\<rparr>) = Inr ((r1, n), s\<lparr>world := w1\<rparr>)"
    using c by (auto simp: frmw_NotifyRuntimePhase_def frmw_call_def proxy_def runtime_call_def split: option.splits)
  show ?case
    using Cons.IH [of "acc + (case n of None \<Rightarrow> 0 | Some m \<Rightarrow> m)" r1 w1] Cons.prems
    by (auto simp: call c add.assoc split: prod.splits)
qed simp

lemma NotifyRuntimePhase_run:
  assumes ok: "registry_ok s" and no_stop: "(ph, act) \<notin> stops s"
  shows "\<exists>r. NotifyRuntimePhase i grp ph act t s =
     (case run_counts (map (runtime_call s grp ph act t) (framework_registry s)) (world s) of
        (k, w) \<Rightarrow> Inr ((r, k), s\<lparr>current_phase_name := ph, world := w\<rparr>))"
proof -
  let ?s = "s\<lparr>current_phase_name := ph\<rparr>"
  have "stop_if_requested ph act ?s = Inr ?s"
    using CheckStopRequest_iff [of ph act ?s] no_stop
    by (auto simp: stop_if_requested_def CheckStopRequest_def Let_def stops_def split: option.splits)
  moreover have "\<forall>p \<in> set (framework_registry s). p \<noteq> null \<and> proxies ?s p \<noteq> None"
    using ok by (auto elim: registry_ok_in)
  from notify_runtime_run [OF this, where acc = 0 and r = 0 and w = "world s"]
  obtain r' where "notify_runtime grp ph act t (framework_registry s) 0 0 (?s\<lparr>world := world s\<rparr>) =
      (case run_counts (map (runtime_call ?s grp ph act t) (framework_registry s)) (world s) of
        (k, w) \<Rightarrow> Inr ((r', 0 + k), ?s\<lparr>world := w\<rparr>))" by blast
  moreover have "runtime_call ?s = runtime_call s" by (simp add: fun_eq_iff runtime_call_def)
  ultimately show ?thesis by (auto simp: NotifyRuntimePhase_def split: prod.splits)
qed

section \<open>What notifications leave alone\<close>

context phase_view
begin

lemma StopPhase_view: "StopPhase s = Inr s' \<Longrightarrow> view s' = view s"
  by (auto simp: StopPhase_def StopSrvRequest_def split: if_splits dest: frmw_call_void_view)

lemma stop_if_requested_view: "stop_if_requested ph act s = Inr s' \<Longrightarrow> view s' = view s"
  by (auto simp: stop_if_requested_def CheckStopRequest_def Let_def PrintMessage_def
      split: option.splits dest!: StopPhase_view)

lemma CheckPhaseName_view: "CheckPhaseName r s = Inr s' \<Longrightarrow> view s' = view s"
  by (auto simp: CheckPhaseName_def PhaseSrvCheckPhase_def bind_res_Inr_iff split: if_splits)

lemma first_phase_checks_view: "first_phase_checks s = Inr s' \<Longrightarrow> view s' = view s"
proof (cases "first_phase s")
  case False
  assume "first_phase_checks s = Inr s'"
  then have "fold_res CheckPhaseName (stop_requests s) (s\<lparr>first_phase := True\<rparr>) = Inr s'"
    using False by (simp add: first_phase_checks_def)
  then have "view s' = view (s\<lparr>first_phase := True\<rparr>)" by (rule fold_res_view) (rule CheckPhaseName_view)
  then show ?thesis by simp
qed (simp add: first_phase_checks_def)

lemma notify_frameworks_view:
  "notify_frameworks grp ph act ps r s = Inr (r', s') \<Longrightarrow> view s' = view s"
proof (induction ps arbitrary: r s)
  case (Cons p ps)
  then obtain r1 s1 where "frmw_NotifyPhase p grp ph act s = Inr (r1, s1)" by (auto elim: bind_res_InrE)
  moreover from this have "view s1 = view s"
    by (auto simp: frmw_NotifyPhase_def dest: frmw_call_view)
  ultimately show ?case using Cons
    by (auto simp: bind_res_Inr_iff split: if_splits)
qed simp

lemma notify_tops_view:
  "notify_tops grp ph act as r s = Inr (r', s') \<Longrightarrow> view s' = view s"
proof (induction "as" arbitrary: r s)
  case (Cons a "as")
  then obtain d r1 s1 where d: "deref (tops s) a = Inr d" "top_TransmitPhase d grp ph act s = Inr (r1, s1)"
    by (auto elim!: bind_res_InrE)
  moreover from d(2) have "view s1 = view s"
    by (auto simp: top_TransmitPhase_def frmw_TransmitPhase_def dest: frmw_call_view)
  ultimately show ?case using Cons by (auto split: if_splits)
qed simp

lemma NotifyPhase_view: "NotifyPhase i grp ph act s = Inr (r, s') \<Longrightarrow> view s' = view s"
  unfolding NotifyPhase_def
  by (auto elim!: bind_res_InrE split: if_splits
      dest!: first_phase_checks_view stop_if_requested_view notify_frameworks_view notify_tops_view)

lemma TransmitPhase_view: "TransmitPhase i ind j grp ph act s = Inr (r, s') \<Longrightarrow> view s' = view s"
  unfolding TransmitPhase_def frmw_TransmitPhase_def
  by (auto elim!: bind_res_InrE split: if_splits dest!: frmw_call_view)

lemma notify_runtime_view:
  "notify_runtime grp ph act t ps acc r s = Inr (x, s') \<Longrightarrow> view s' = view s"
proof (induction ps arbitrary: acc r s)
  case (Cons p ps)
  then obtain r1 n s1 where "frmw_NotifyRuntimePhase p grp ph act t s = Inr ((r1, n), s1)"
    by (auto elim!: bind_res_InrE)
  moreover from this have "view s1 = view s"
    by (auto simp: frmw_NotifyRuntimePhase_def dest: frmw_call_view)
  ultimately show ?case using Cons by auto
qed simp

lemma NotifyRuntimePhase_view:
  "NotifyRuntimePhase i grp ph act t s = Inr (x, s') \<Longrightarrow> view s' = view s"
  unfolding NotifyRuntimePhase_def
  by (auto elim!: bind_res_InrE dest!: stop_if_requested_view notify_runtime_view)

end

interpretation service: phase_view phase_service
  by unfold_locales simp_all

section \<open>The service as a machine of its own\<close>

definition enter_phase :: "string \<Rightarrow> phase_service \<Rightarrow> phase_service" where
  "enter_phase ph ps = ps\<lparr>ps_current_phase := ph\<rparr>"

definition enter_runtime :: "string \<Rightarrow> uint \<Rightarrow> phase_service \<Rightarrow> phase_service" where
  "enter_runtime ph n ps = ps\<lparr>ps_current_phase := ph, participate := (participate ps)(ph := n)\<rparr>"

text \<open>One done notification, \<open>n\<close> the participants of the next runtime phase if one starts.\<close>

definition service_step :: "string \<Rightarrow> time \<Rightarrow> uint \<Rightarrow> phase_service \<Rightarrow> phase_service" where
  "service_step ph t n ps =
     (let ps = count_done ph t ps;
          ps = (if ph \<noteq> ''run'' \<and> phase_complete ph ps \<and> uvm_runtime_next_phase ph \<noteq> []
                then enter_runtime (uvm_runtime_next_phase ph) n ps else ps)
      in if phase_complete ''run'' ps \<and> phase_complete ''shutdown'' ps
         then enter_phase ''final'' ps else ps)"

lemma ExecutePhase_service:
  assumes "phase_service s = Some ps" and "ExecutePhase grp ph s = Inr s'"
  shows "phase_service s' = Some (enter_phase ph ps)"
  using assms unfolding ExecutePhase_def
  by (auto simp: with_service_def enter_phase_def elim!: bind_res_InrE dest!: service.NotifyPhase_view)

lemma ExecutePhases_service:
  assumes "phase_service s = Some ps" and "fold_res (ExecutePhase grp) phs s = Inr s'" and "phs \<noteq> []"
  shows "phase_service s' = Some (enter_phase (last phs) ps)"
  using assms
proof (induction phs arbitrary: s ps)
  case (Cons ph phs)
  then obtain s1 where s1: "ExecutePhase grp ph s = Inr s1" "fold_res (ExecutePhase grp) phs s1 = Inr s'"
    by (auto elim: bind_res_InrE)
  have p1: "phase_service s1 = Some (enter_phase ph ps)"
    using ExecutePhase_service [OF Cons.prems(1) s1(1)] .
  show ?case
  proof (cases "phs = []")
    case False
    then show ?thesis using Cons.IH [OF p1 s1(2)] by (simp add: enter_phase_def)
  qed (use p1 s1 in simp)
qed simp

lemma ExecutePhaseRuntime_service:
  assumes "phase_service s = Some ps" and "ExecutePhaseRuntime grp ph s = Inr s'"
  shows "\<exists>n. phase_service s' = Some (enter_runtime ph n ps)"
proof -
  obtain s2 n where s2: "phase_service s2 = Some (ps\<lparr>ps_current_phase := ph\<rparr>)"
    and s': "with_service (\<lambda>ps. ps\<lparr>participate := (participate ps)(ph := n)\<rparr>) s2 = Inr s'"
    using assms unfolding ExecutePhaseRuntime_def
    by (auto simp: with_service_def service_def elim!: bind_res_InrE dest!: service.NotifyRuntimePhase_view)
  then have "phase_service s' = Some (enter_runtime ph n ps)"
    by (auto simp: with_service_def enter_runtime_def)
  then show ?thesis by blast
qed

lemma end_phase_service: "end_phase grp ph s = Inr s' \<Longrightarrow> phase_service s' = phase_service s"
  unfolding end_phase_def by (auto elim!: bind_res_InrE dest!: service.NotifyRuntimePhase_view)

lemma srvc_notify_phase_done_step:
  assumes ps: "phase_service s = Some ps" and d: "srvc_notify_phase_done i grp ph t s = Inr s'"
  shows "\<exists>n. phase_service s' = Some (service_step ph t n ps)"
proof -
  let ?s1 = "s\<lparr>phase_service := Some (count_done ph t ps)\<rparr>" and ?p1 = "count_done ph t ps"
  let ?next = "uvm_runtime_next_phase ph"
  obtain s2 p2 where mid: "(if ph \<noteq> ''run'' \<and> phase_complete ph ?p1 then
        bind_res (end_phase grp ph ?s1) (\<lambda>s. if ?next \<noteq> [] then ExecutePhaseRuntime ''uvm'' ?next s else Inr s)
      else Inr ?s1) = Inr s2"
    and p2: "phase_service s2 = Some p2"
    and fin: "(if phase_complete ''run'' p2 \<and> phase_complete ''shutdown'' p2 then
        bind_res (end_phase ''common'' ''run'' s2) (fold_res (ExecutePhase ''common'') final_phases)
      else Inr s2) = Inr s'"
    using d ps unfolding srvc_notify_phase_done_def
    by (auto simp: with_service_def service_def elim!: bind_res_InrE split: option.splits)
  obtain n where n: "p2 = (if ph \<noteq> ''run'' \<and> phase_complete ph ?p1 \<and> ?next \<noteq> []
      then enter_runtime ?next n ?p1 else ?p1)"
  proof (cases "ph \<noteq> ''run'' \<and> phase_complete ph ?p1")
    case False
    then show ?thesis using mid p2 that by auto
  next
    case True
    then obtain s3 where s3: "end_phase grp ph ?s1 = Inr s3"
        "(if ?next \<noteq> [] then ExecutePhaseRuntime ''uvm'' ?next s3 else Inr s3) = Inr s2"
      using mid by (auto elim!: bind_res_InrE simp del: if_split_asm)
    then have "phase_service s3 = Some ?p1" using end_phase_service by fastforce
    then show ?thesis using s3(2) p2 True that ExecutePhaseRuntime_service [of s3 ?p1 "''uvm''" ?next s2]
      by (auto split: if_splits)
  qed
  have step: "service_step ph t n ps =
      (if phase_complete ''run'' p2 \<and> phase_complete ''shutdown'' p2 then enter_phase ''final'' p2 else p2)"
    by (simp only: service_step_def Let_def n)
  show ?thesis
  proof (cases "phase_complete ''run'' p2 \<and> phase_complete ''shutdown'' p2")
    case False
    then have "phase_service s' = Some (service_step ph t n ps)"
      using fin p2 by (simp only: step if_False) simp
    then show ?thesis by blast
  next
    case True
    then obtain s3 where s3: "end_phase ''common'' ''run'' s2 = Inr s3"
        "fold_res (ExecutePhase ''common'') final_phases s3 = Inr s'"
      using fin by (auto elim: bind_res_InrE)
    have "phase_service s3 = Some p2" using end_phase_service [OF s3(1)] p2 by simp
    from ExecutePhases_service [OF this s3(2)] have "phase_service s' = Some (enter_phase ''final'' p2)"
      by (simp add: final_phases_def)
    then have "phase_service s' = Some (service_step ph t n ps)"
      using True by (simp only: step if_True simp_thms)
    then show ?thesis by blast
  qed
qed

lemma service_StartPhasing_step:
  assumes "phase_service s = Some ps" and "service_StartPhasing s = Inr s'"
  shows "\<exists>m n. phase_service s' = Some (enter_runtime ''reset'' n (enter_runtime ''run'' m ps))"
proof -
  obtain s1 s2 where s: "fold_res (ExecutePhase ''common'') build_phases s = Inr s1"
      "ExecutePhaseRuntime ''common'' ''run'' s1 = Inr s2" "ExecutePhaseRuntime ''uvm'' ''reset'' s2 = Inr s'"
    using assms(2) by (auto simp: service_StartPhasing_def elim!: bind_res_InrE)
  have "phase_service s1 = Some (enter_phase (last build_phases) ps)"
    by (rule ExecutePhases_service [OF assms(1) s(1)]) (simp add: build_phases_def)
  from ExecutePhaseRuntime_service [OF this s(2)] obtain m where
    "phase_service s2 = Some (enter_runtime ''run'' m (enter_phase (last build_phases) ps))" by blast
  from ExecutePhaseRuntime_service [OF this s(3)] show ?thesis
    by (auto simp: enter_runtime_def enter_phase_def)
qed

section \<open>What the schedule leaves alone\<close>

locale schedule_view = phase_view +
  assumes view_phase_service [simp]: "view (s\<lparr>phase_service := ps\<rparr>) = view s"
begin

lemma with_service_view: "with_service f s = Inr s' \<Longrightarrow> view s' = view s"
  by (auto simp: with_service_def split: option.splits)

lemma ExecutePhase_view: "ExecutePhase grp ph s = Inr s' \<Longrightarrow> view s' = view s"
  unfolding ExecutePhase_def by (auto elim!: bind_res_InrE dest!: with_service_view NotifyPhase_view)

lemma ExecutePhaseRuntime_view: "ExecutePhaseRuntime grp ph s = Inr s' \<Longrightarrow> view s' = view s"
  unfolding ExecutePhaseRuntime_def
  by (auto elim!: bind_res_InrE dest!: with_service_view NotifyRuntimePhase_view)

lemma ExecutePhases_view: "fold_res (ExecutePhase grp) phs s = Inr s' \<Longrightarrow> view s' = view s"
  by (rule fold_res_view) (auto dest: ExecutePhase_view)

lemma GetPhaseService_view [simp]: "view (GetPhaseService s) = view s"
  by (simp add: GetPhaseService_def split: option.splits)

lemma StartPhasing_view: "StartPhasing s = Inr s' \<Longrightarrow> view s' = view s"
  unfolding StartPhasing_def frmw_StartPhasing_def service_StartPhasing_def
  by (auto elim!: bind_res_InrE split: if_splits
      dest!: ExecutePhases_view ExecutePhaseRuntime_view frmw_call_void_view)

lemma end_phase_view: "end_phase grp ph s = Inr s' \<Longrightarrow> view s' = view s"
  unfolding end_phase_def by (auto elim!: bind_res_InrE dest!: NotifyRuntimePhase_view)

lemma srvc_notify_phase_done_view: "srvc_notify_phase_done i grp ph t s = Inr s' \<Longrightarrow> view s' = view s"
  unfolding srvc_notify_phase_done_def
  by (auto elim!: bind_res_InrE split: if_splits
      dest!: with_service_view end_phase_view ExecutePhaseRuntime_view ExecutePhases_view)

lemma PhaseSrvNotifyPhaseDone_view: "PhaseSrvNotifyPhaseDone i grp ph t s = Inr s' \<Longrightarrow> view s' = view s"
  unfolding PhaseSrvNotifyPhaseDone_def frmw_PhaseSrvNotifyPhaseDone_def
  by (auto split: if_splits dest!: srvc_notify_phase_done_view frmw_call_void_view)

end

end
