(* ===== verification/Bp_Tops.thy ===== *)
theory Bp_Tops
  imports Bp_Phase
begin

text \<open>
  Root components: the \<open>-uvmtop\<close> and \<open>-uvmtest\<close> arguments, the registry of tops, elaboration,
  and the cleanups between tests (\<open>bp_base_interconnect.cpp\<close>, \<open>bp_top_descriptor.cpp\<close>). A thrown
  \<open>int\<close> is the answer \<open>False\<close>.
\<close>

section \<open>Command line arguments\<close>

text \<open>\<open>SERROR\<close> hands the text to the simulator's callback, or prints it.\<close>

abbreviation SERROR :: "string \<Rightarrow> string list \<Rightarrow> 'w bp_state \<Rightarrow> 'w bp_state" where
  "SERROR \<equiv> message Error"

definition BpTopDescriptorBaseClass :: "string \<Rightarrow> string \<Rightarrow> string \<Rightarrow> bool \<Rightarrow> top_arg" where
  "BpTopDescriptorBaseClass ind comp_id inst is_test =
     \<lparr>ta_indicator = ind, ta_identifier = comp_id, ta_instance = inst, ta_test = is_test\<rparr>"

definition missing_colon :: "string \<Rightarrow> 'w bp_state \<Rightarrow> 'w bp_state" where
  "missing_colon arg = ErrorMsg ''colon delimiter missing in %s'' [arg]"

definition identifyTestComponent :: "string \<Rightarrow> 'w bp_state \<Rightarrow> bool \<times> 'w bp_state" where
  "identifyTestComponent arg s =
     (if top_arguments s \<noteq> [] then
        (False, ErrorMsg ''cannot define %s as the test component because the test component is already defined'' [arg] s)
      else
        case ParseArgument arg of
          None \<Rightarrow> (False, missing_colon arg s)
        | Some (ind, comp_id, inst) \<Rightarrow>
            if comp_id = [] then
              (False, SERROR ''Empty test component name in the -uvmtest command line argument'' [] s)
            else if ind = [] then
              (False, SERROR ''Empty language identifier in the -uvmtest command line argument'' [] s)
            else if inst \<noteq> [] \<and> inst \<noteq> test_instance_name s then
              (False, ErrorMsg ''uvmtest argument instance name identifier '%s' is not allowed. The only supported test instance name is uvm_test_top'' [inst] s)
            else
              (True, s\<lparr>top_arguments := top_arguments s @
                        [BpTopDescriptorBaseClass ind comp_id (test_instance_name s) True]\<rparr>))"

definition when_msg :: "bool \<Rightarrow> ('w bp_state \<Rightarrow> 'w bp_state) \<Rightarrow> 'w bp_state \<Rightarrow> 'w bp_state" where
  "when_msg b f s = (if b then f s else s)"

text \<open>Only a missing colon ends it; the other errors are messages and the top is entered all the same.\<close>

definition identifyTopComponent :: "string \<Rightarrow> 'w bp_state \<Rightarrow> bool \<times> 'w bp_state" where
  "identifyTopComponent arg s =
     (case ParseArgument arg of
        None \<Rightarrow> (False, missing_colon arg s)
      | Some (ind, comp_id, inst) \<Rightarrow>
          let s = when_msg (comp_id = []) (SERROR ''Empty top component name in the -uvmtop command line argument'' []) s;
              s = when_msg (ind = []) (SERROR ''Empty language identifier in the -uvmtop command line argument'' []) s;
              inst = (if inst = [] then comp_id else inst);
              s = when_msg (\<exists>a \<in> set (top_arguments s). ta_instance a = inst)
                    (SERROR ''Multiple -uvmtop arguments with the same name: '' [inst]) s
          in (True, s\<lparr>top_arguments := top_arguments s @
                       [BpTopDescriptorBaseClass ind comp_id inst (inst = test_instance_name s)]\<rparr>))"

fun identify_tops :: "string list \<Rightarrow> 'w bp_state \<Rightarrow> bool \<times> 'w bp_state" where
  "identify_tops [] s = (True, s)"
| "identify_tops (arg # args) s =
     (let (ok, s) = identifyTopComponent arg s in if ok then identify_tops args s else (False, s))"

definition ProcessTopsAndTests :: "string list \<Rightarrow> string list \<Rightarrow> 'w bp_state \<Rightarrow> bool \<times> 'w bp_state" where
  "ProcessTopsAndTests args tests s =
     (if elaboration_passed s then (True, ErrorMsg ''ProcessTopsAndTests called after elaboration'' [] s)
      else if 1 < length tests then (False, SERROR ''Multiple -uvmtest arguments'' [] s)
      else
        let (ok, s) = (if length tests = 1 then identifyTestComponent (hd tests) s else (True, s))
        in if ok then identify_tops args s else (False, s))"

text \<open>The answer of \<open>Bootstrap\<close> is whether the provided tray, or a null pointer, is returned.\<close>

definition Bootstrap :: "string list \<Rightarrow> string list \<Rightarrow> 'w bp_state \<Rightarrow> bool \<times> 'w bp_state" where
  "Bootstrap args tests s =
     (let s = s\<lparr>cmd_line_tops := args, cmd_line_tests := tests\<rparr>
      in if args \<noteq> [] \<or> tests \<noteq> [] then
           (let (ok, s) = ProcessTopsAndTests args tests s
            in if ok then (True, s) else (False, ErrorMsg ''Command line argument parsing failed'' [] s))
         else (True, s))"

section \<open>The registry of tops\<close>

text \<open>A second test component fails the assertion.\<close>

definition AddTopLevel :: "addr \<Rightarrow> 'w bp_state \<Rightarrow> 'w bp_state res" where
  "AddTopLevel topp s =
     bind_res (deref (tops s) topp) (\<lambda>d.
     let s = s\<lparr>top_level_registry := top_level_registry s @ [topp]\<rparr> in
       if ta_test (td_arg d) then
         bind_res (assert_res (test_component s = null)) (\<lambda>_. Inr (s\<lparr>test_component := topp\<rparr>))
       else Inr s)"

definition PushTopLevel :: "addr \<Rightarrow> addr \<Rightarrow> 'w bp_state \<Rightarrow> 'w bp_state res" where
  "PushTopLevel p topp s =
     bind_res (proxy p s) (\<lambda>f.
       Inr (set_proxy p (f\<lparr>top_level_components := top_level_components f @ [topp]\<rparr>) s))"

definition BpTopDescriptorClass :: "top_arg \<Rightarrow> addr \<Rightarrow> int \<Rightarrow> 'w bp_state \<Rightarrow> addr \<times> 'w bp_state" where
  "BpTopDescriptorClass a frmw i s =
     (bp_next s, s\<lparr>bp_next := Suc (bp_next s),
                   tops := (tops s)(bp_next s \<mapsto> \<lparr>td_arg = a, td_frmw = frmw, td_id = i\<rparr>)\<rparr>)"

text \<open>\<open>FrameworkProxyClass::AddTopLevel\<close>, for a top given on the command line.\<close>

definition frmw_AddTopLevel :: "addr \<Rightarrow> top_arg \<Rightarrow> 'w bp_state \<Rightarrow> 'w bp_state res" where
  "frmw_AddTopLevel p a s =
     (let (topp, s) = BpTopDescriptorClass a p (-1) s
      in bind_res (AddTopLevel topp s) (PushTopLevel p topp))"

definition top_has_instance :: "'w bp_state \<Rightarrow> string \<Rightarrow> addr \<Rightarrow> bool" where
  "top_has_instance s inst a = (case tops s a of None \<Rightarrow> False | Some d \<Rightarrow> ta_instance (td_arg d) = inst)"

definition AddRootNode :: "int \<Rightarrow> int \<Rightarrow> string \<Rightarrow> string \<Rightarrow> 'w bp_state \<Rightarrow> (int \<times> 'w bp_state) res" where
  "AddRootNode frameworkId topComponentId compIdentifier instanceName s =
     bind_res (GetFramework frameworkId s) (\<lambda>p.
     bind_res (proxy p s) (\<lambda>f.
       case find (top_has_instance s instanceName) (top_level_registry s) of
         Some a \<Rightarrow>
           bind_res (deref (tops s) a) (\<lambda>d.
             if td_frmw d = p then Inr (0, s)
             else Inr (-1, SERROR ''multiple top levels with the same name in different languages: top name is '%s' '' [instanceName] s))
       | None \<Rightarrow>
           let a = BpTopDescriptorBaseClass (frmw_name f) compIdentifier instanceName
                     (instanceName = test_instance_name s);
               (topp, s) = BpTopDescriptorClass a p topComponentId s
           in bind_res (PushTopLevel p topp s) (\<lambda>s. bind_res (AddTopLevel topp s) (\<lambda>s. Inr (1, s)))))"

section \<open>Elaboration\<close>

text \<open>Resolving the arguments; the adapter may rename a top.\<close>

definition SetFrameworkTopLevelComponent :: "nat \<Rightarrow> 'w bp_state \<Rightarrow> 'w bp_state res" where
  "SetFrameworkTopLevelComponent j s =
     (let a = top_arguments s ! j in
      bind_res (GetFrameworkProxyByInd (ta_indicator a) s) (\<lambda>p.
        if p = null then
          Inr (SERROR ''-uvmtest or -uvmtop argument '%s' has been specified in language '%s', but no adapter for that language has been registered''
                 [ta_identifier a, ta_indicator a] s)
        else
          bind_res (GetTopComponentForArg p (ta_identifier a) s) (\<lambda>topName.
            if topName \<noteq> [] then
              let a = (if topName \<noteq> ta_identifier a then a\<lparr>ta_instance := topName\<rparr> else a)
              in frmw_AddTopLevel p a (s\<lparr>top_arguments := (top_arguments s)[j := a]\<rparr>)
            else Inr s)))"

definition setComponentFrameworks :: "'w bp_state \<Rightarrow> 'w bp_state res" where
  "setComponentFrameworks s = fold_res SetFrameworkTopLevelComponent [0..<length (top_arguments s)] s"

definition Instantiate :: "addr \<Rightarrow> 'w bp_state \<Rightarrow> (int \<times> 'w bp_state) res" where
  "Instantiate topp s =
     bind_res (deref (tops s) topp) (\<lambda>d.
       if td_id d = -1 then
         bind_res (InstantiateTopLevel (td_frmw d) (ta_identifier (td_arg d)) (ta_instance (td_arg d)) s)
           (\<lambda>(i, s). Inr (i, s\<lparr>tops := (tops s)(topp \<mapsto> d\<lparr>td_id := i\<rparr>)\<rparr>))
       else Inr (td_id d, s))"

fun instantiate_tops :: "addr list \<Rightarrow> 'w bp_state \<Rightarrow> (bool \<times> 'w bp_state) res" where
  "instantiate_tops [] s = Inr (True, s)"
| "instantiate_tops (a # as) s =
     bind_res (Instantiate a s) (\<lambda>(i, s). if i < 0 then Inr (False, s) else instantiate_tops as s)"

fun startup_frameworks :: "addr list \<Rightarrow> 'w bp_state \<Rightarrow> (bool \<times> 'w bp_state) res" where
  "startup_frameworks [] s = Inr (True, s)"
| "startup_frameworks (p # ps) s =
     bind_res (Startup p s) (\<lambda>(ok, s). if ok then startup_frameworks ps s else Inr (False, s))"

text \<open>\<open>cbInfo\<close> tells a call as bootstrap callback, \<open>debug_mode\<close> the variable \<open>UVM_ML_DEBUG_MODE\<close>.\<close>

definition Elaborate :: "bool \<Rightarrow> bool \<Rightarrow> 'w bp_state \<Rightarrow> (int \<times> 'w bp_state) res" where
  "Elaborate debug_mode cbInfo s =
     (if elaboration_passed s then
        Inr (0, WarningMsg ''BpInterconnect::Elaborate() - Elaborate called after elaboration time has passed.'' [] s)
      else if cbInfo \<and> top_arguments s = [] then Inr (0, s)
      else
        bind_res (if debug_mode then SetTraceMode 1 (s\<lparr>elaboration_passed := True\<rparr>)
                  else Inr (s\<lparr>elaboration_passed := True\<rparr>)) (\<lambda>s.
        bind_res (setComponentFrameworks s) (\<lambda>s.
        bind_res (startup_frameworks (framework_registry s) s) (\<lambda>(ok, s).
          if \<not> ok then Inr (0, ErrorMsg ''Elaborate failed'' [] s)
          else
            bind_res (instantiate_tops (top_level_registry s) s) (\<lambda>(ok, s).
              if \<not> ok then Inr (0, s)
              else bind_res (StartPhasing s) (\<lambda>s. Inr (1, s)))))))"

section \<open>Cleanups\<close>

text \<open>\<open>vector::resize\<close> cuts the list or fills it with null pointers.\<close>

definition resize :: "nat \<Rightarrow> addr list \<Rightarrow> addr list" where
  "resize n xs = take n xs @ replicate (n - length xs) null"

definition keep_static_tops :: "'w bp_state \<Rightarrow> 'w bp_state" where
  "keep_static_tops s =
     (if first_time_prerun_cleanup s then
        s\<lparr>top_level_static_size := length (top_level_registry s), first_time_prerun_cleanup := False\<rparr>
      else if top_level_static_size s \<noteq> 0 then
        s\<lparr>top_level_registry := resize (top_level_static_size s) (top_level_registry s)\<rparr>
      else s\<lparr>top_level_registry := []\<rparr>)"

definition PreRunCleanup :: "'w bp_state \<Rightarrow> 'w bp_state" where
  "PreRunCleanup s =
     (let s = keep_static_tops (s\<lparr>port_registry := [], child_proxy_registry := [], elaboration_passed := False\<rparr>);
          s = s\<lparr>test_component := null, test_instance_name := ''uvm_test_top'', top_arguments := []\<rparr>
      in if cmd_line_tops s \<noteq> [] \<or> cmd_line_tests s \<noteq> [] then
           (let (ok, s) = ProcessTopsAndTests (cmd_line_tops s) (cmd_line_tests s) s
            in if ok then s else ErrorMsg ''Command line argument parsing failed during reset'' [] s)
         else s)"

definition BpDebugClass_Reset :: "'w bp_state \<Rightarrow> 'w bp_state" where
  "BpDebugClass_Reset s = s\<lparr>debug_backlog := []\<rparr>"

definition Reset :: "'w bp_state \<Rightarrow> 'w bp_state" where
  "Reset s =
     (let s = s\<lparr>framework_registry := [], frameworks_by_ind := [], cmd_line_tops := [], cmd_line_tests := []\<rparr>;
          s = BpDebugClass_Reset (PreRunCleanup s)
      in s\<lparr>first_time_prerun_cleanup := True, top_level_static_size := 0, top_level_registry := []\<rparr>)"

section \<open>Running a test\<close>

text \<open>\<open>bp_run_test\<close> (\<open>bp_provided.cpp\<close>): empty names are left out, a null or empty test is none.\<close>

definition bp_run_test ::
  "bool \<Rightarrow> int \<Rightarrow> string list \<Rightarrow> string option \<Rightarrow> 'w bp_state \<Rightarrow> (int \<times> 'w bp_state) res" where
  "bp_run_test debug_mode framework_id args test s =
     (let topStr = filter (\<lambda>t. t \<noteq> []) args;
          testStr = (case test of None \<Rightarrow> [] | Some t \<Rightarrow> if t = [] then [] else [t]);
          (ok, s) = ProcessTopsAndTests topStr testStr (PreRunCleanup s)
      in if ok then Elaborate debug_mode False s else Inr (0, s))"

section \<open>What the tops leave alone\<close>

locale arguments_view = call_view +
  assumes view_top_arguments [simp]: "view (s\<lparr>top_arguments := args\<rparr>) = view s"
    and view_cmd_line [simp]: "view (s\<lparr>cmd_line_tops := xs, cmd_line_tests := ys\<rparr>) = view s"
begin

lemma identifyTestComponent_view: "identifyTestComponent arg s = (ok, s') \<Longrightarrow> view s' = view s"
  by (auto simp: identifyTestComponent_def missing_colon_def split: if_splits option.splits)

lemma when_msg_view [simp]: "view (when_msg b (message l x y) s) = view s"
  by (simp add: when_msg_def)

lemma identifyTopComponent_view: "identifyTopComponent arg s = (ok, s') \<Longrightarrow> view s' = view s"
  by (auto simp: identifyTopComponent_def missing_colon_def Let_def split: option.splits)

lemma identify_tops_view: "identify_tops args s = (ok, s') \<Longrightarrow> view s' = view s"
proof (induction args arbitrary: s)
  case (Cons arg args)
  then show ?case
    by (auto split: prod.splits if_splits dest!: identifyTopComponent_view)
qed simp

lemma ProcessTopsAndTests_view: "ProcessTopsAndTests args tests s = (ok, s') \<Longrightarrow> view s' = view s"
  by (auto simp: ProcessTopsAndTests_def split: if_splits prod.splits
      dest!: identifyTestComponent_view identify_tops_view)

lemma Bootstrap_view: "Bootstrap args tests s = (ok, s') \<Longrightarrow> view s' = view s"
  by (auto simp: Bootstrap_def Let_def split: if_splits prod.splits dest!: ProcessTopsAndTests_view)

end

context start_view
begin

lemma startup_frameworks_view: "startup_frameworks ps s = Inr (ok, s') \<Longrightarrow> view s' = view s"
proof (induction ps arbitrary: s)
  case (Cons p ps)
  then show ?case by (auto elim!: bind_res_InrE split: if_splits dest!: Startup_view)
qed simp

end

locale tops_view = start_view + schedule_view + arguments_view + allocation_view +
  assumes view_tops [simp]: "view (s\<lparr>tops := ts\<rparr>) = view s"
    and view_top_level_registry [simp]: "view (s\<lparr>top_level_registry := as\<rparr>) = view s"
    and view_test_component [simp]: "view (s\<lparr>test_component := a\<rparr>) = view s"
    and view_elaboration_passed [simp]: "view (s\<lparr>elaboration_passed := b\<rparr>) = view s"
    and view_top_level_components: "proxies s p = Some f \<Longrightarrow>
      view (set_proxy p (f\<lparr>top_level_components := cs\<rparr>) s) = view s"
begin

lemma AddTopLevel_view: "AddTopLevel a s = Inr s' \<Longrightarrow> view s' = view s"
  by (auto simp: AddTopLevel_def Let_def elim!: bind_res_InrE split: if_splits)

lemma PushTopLevel_view: "PushTopLevel p a s = Inr s' \<Longrightarrow> view s' = view s"
  by (auto simp: PushTopLevel_def elim!: bind_res_InrE dest!: proxy_InrD intro: view_top_level_components)

lemma frmw_AddTopLevel_view: "frmw_AddTopLevel p a s = Inr s' \<Longrightarrow> view s' = view s"
  unfolding frmw_AddTopLevel_def BpTopDescriptorClass_def
  by (auto elim!: bind_res_InrE dest!: AddTopLevel_view PushTopLevel_view)

lemma AddRootNode_view: "AddRootNode i j c inst s = Inr (r, s') \<Longrightarrow> view s' = view s"
  unfolding AddRootNode_def BpTopDescriptorClass_def
  by (auto simp: Let_def elim!: bind_res_InrE split: option.splits if_splits dest!: AddTopLevel_view PushTopLevel_view)

lemma setComponentFrameworks_view: "setComponentFrameworks s = Inr s' \<Longrightarrow> view s' = view s"
  unfolding setComponentFrameworks_def
  by (erule fold_res_view)
    (auto simp: SetFrameworkTopLevelComponent_def Let_def elim!: bind_res_InrE split: if_splits
      dest!: frmw_AddTopLevel_view)

lemma Instantiate_view: "Instantiate a s = Inr (i, s') \<Longrightarrow> view s' = view s"
  unfolding Instantiate_def InstantiateTopLevel_def
  by (auto elim!: bind_res_InrE split: if_splits dest!: frmw_call_view)

lemma instantiate_tops_view: "instantiate_tops as s = Inr (ok, s') \<Longrightarrow> view s' = view s"
proof (induction "as" arbitrary: s)
  case (Cons a "as")
  then show ?case by (auto elim!: bind_res_InrE split: if_splits dest!: Instantiate_view)
qed simp

lemma Elaborate_view: "Elaborate debug_mode cb s = Inr (r, s') \<Longrightarrow> view s' = view s"
  unfolding Elaborate_def
  by (auto elim!: bind_res_InrE split: if_splits dest!: SetTraceMode_view setComponentFrameworks_view
      startup_frameworks_view instantiate_tops_view StartPhasing_view)

end

locale cleanup_view = tops_view + junction_view + ports_view +
  assumes view_first_time [simp]: "view (s\<lparr>first_time_prerun_cleanup := b\<rparr>) = view s"
    and view_static_size [simp]: "view (s\<lparr>top_level_static_size := n\<rparr>) = view s"
    and view_test_instance_name [simp]: "view (s\<lparr>test_instance_name := nm\<rparr>) = view s"
begin

lemma PreRunCleanup_view [simp]: "view (PreRunCleanup s) = view s"
  unfolding PreRunCleanup_def keep_static_tops_def
  by (auto simp: Let_def split: prod.splits dest!: ProcessTopsAndTests_view)

lemma bp_run_test_view: "bp_run_test debug_mode i args test s = Inr (r, s') \<Longrightarrow> view s' = view s"
  unfolding bp_run_test_def
  by (auto simp: Let_def split: prod.splits if_splits dest!: ProcessTopsAndTests_view Elaborate_view)

end

end
