(* ===== verification/Bp_Tree.thy ===== *)
theory Bp_Tree
  imports Bp_Stop
begin

text \<open>
  The command \<open>print_tree\<close> (\<open>BpCommandPrintTree\<close> in \<open>bp_debug.cpp\<close>): the walk over the components
  the adapters report, with one line for each component. The recursion over the adapters'
  answers need not end, so it takes fuel and out of fuel is \<open>None\<close>; with a depth that is not
  \<open>all\<close> it always ends (\<open>PrintTree_Execute_finishes\<close>). The order of the lines is that of a preorder walk.
\<close>

section \<open>What the adapters tell about components\<close>

definition GetNumChildren :: "addr \<Rightarrow> string \<Rightarrow> 'w bp_state \<Rightarrow> int res" where
  "GetNumChildren p componentName =
     frmw_query p (\<lambda>a. map_option (\<lambda>g. g componentName) (get_num_children_ptr (tree_fns a))) (-1)"

definition GetChildName :: "addr \<Rightarrow> string \<Rightarrow> int \<Rightarrow> 'w bp_state \<Rightarrow> string res" where
  "GetChildName p parentName num =
     frmw_query p (\<lambda>a. map_option (\<lambda>g. g parentName num) (get_child_name_ptr (tree_fns a))) []"

definition GetComponentTypeName :: "addr \<Rightarrow> string \<Rightarrow> 'w bp_state \<Rightarrow> string res" where
  "GetComponentTypeName p componentName =
     frmw_query p (\<lambda>a. map_option (\<lambda>g. g componentName) (get_component_type_name_ptr (tree_fns a))) []"

text \<open>The result \<open>-1\<close> of a missing function counts as true.\<close>

definition IsPort :: "addr \<Rightarrow> string \<Rightarrow> 'w bp_state \<Rightarrow> bool res" where
  "IsPort p componentName s =
     bind_res (frmw_query p (\<lambda>a. map_option (\<lambda>g. g componentName) (is_port_ptr (tree_fns a))) (-1) s)
       (\<lambda>r. Inr (r \<noteq> 0))"

section \<open>The options\<close>

record print_tree_values =
  pt_depth :: int
  pt_full_path :: bool
  pt_port :: bool
  pt_type :: bool
  pt_root :: string

definition print_tree_defaults :: print_tree_values where
  "print_tree_defaults =
     \<lparr>pt_depth = 3, pt_full_path = True, pt_port = False, pt_type = False, pt_root = []\<rparr>"

definition count_dots :: "string \<Rightarrow> int" where
  "count_dots nm = int (length (filter (\<lambda>c. c = CHR ''.'') nm))"

text \<open>\<open>m_val.depth-1+root_level\<close> in \<open>int\<close>.\<close>

definition level_limit :: "print_tree_values \<Rightarrow> int \<Rightarrow> int res" where
  "level_limit v root_level =
     (let n = pt_depth v - 1 + root_level
      in if - 2147483648 \<le> n \<and> n < 2147483648 then Inr n else Inl Int_Overflow)"

section \<open>Which components are walked\<close>

text \<open>The first child proxy of that name, with its first indicator and its framework.\<close>

definition IsChildProxy :: "string \<Rightarrow> 'w bp_state \<Rightarrow> (string \<times> int) option res" where
  "IsChildProxy current_name s =
     (case find (\<lambda>c. cp_full_name c = current_name) (child_proxy_registry s) of
        None \<Rightarrow> Inr None
      | Some c \<Rightarrow>
          bind_res (GetFramework (cp_target c) s) (\<lambda>p. bind_res (proxy p s) (\<lambda>f.
            case frmw_indicators f of [] \<Rightarrow> Inl Bad_Index | ind # _ \<Rightarrow> Inr (Some (ind, cp_target c)))))"

definition IsComponentToTraverse ::
  "print_tree_values \<Rightarrow> addr \<Rightarrow> string \<Rightarrow> 'w bp_state \<Rightarrow> bool res" where
  "IsComponentToTraverse v p child_name s =
     (if pt_port v then Inr True
      else bind_res (IsChildProxy child_name s) (\<lambda>c.
        if c \<noteq> None then Inr True else bind_res (IsPort p child_name s) (\<lambda>b. Inr (\<not> b))))"

fun any_child :: "print_tree_values \<Rightarrow> addr \<Rightarrow> string \<Rightarrow> nat list \<Rightarrow> 'w bp_state \<Rightarrow> bool res" where
  "any_child v p current_name [] s = Inr False"
| "any_child v p current_name (i # is) s =
     bind_res (GetChildName p current_name (int i) s) (\<lambda>child_name.
       if child_name = [] then any_child v p current_name is s
       else bind_res (IsComponentToTraverse v p child_name s) (\<lambda>b.
         if b then Inr True else any_child v p current_name is s))"

definition HasChildrenToTraverse :: "print_tree_values \<Rightarrow> addr \<Rightarrow> string \<Rightarrow> 'w bp_state \<Rightarrow> bool res" where
  "HasChildrenToTraverse v p current_name s =
     bind_res (GetNumChildren p current_name s) (\<lambda>num.
       if num \<le> 0 then Inr False else any_child v p current_name [0..<nat num] s)"

section \<open>The line of a component\<close>

text \<open>\<open>s.substr(0, s.size()-n)\<close>; a difference below 0 wraps and leaves the string whole.\<close>

definition cut :: "nat \<Rightarrow> string \<Rightarrow> string" where
  "cut n x = (if n \<le> length x then take (length x - n) x else x)"

definition last_name :: "string \<Rightarrow> string" where
  "last_name x = rev (takeWhile (\<lambda>c. c \<noteq> CHR ''.'') (rev x))"

definition tree_line ::
  "print_tree_values \<Rightarrow> string \<Rightarrow> string \<Rightarrow> string \<Rightarrow> nat \<Rightarrow> string \<Rightarrow> string" where
  "tree_line v current_name fname prefix len typ =
     (let short = take len fname
      in short @ '':'' @ replicate (len - length short) CHR '' '' @
         (if pt_full_path v then current_name else prefix @ last_name current_name) @
         (if pt_type v then '' ['' @ typ @ '']'' else []))"

text \<open>The line is printed for the components under the root; the result says if it was cut by the depth.\<close>

definition print_component ::
  "print_tree_values \<Rightarrow> int \<Rightarrow> nat \<Rightarrow> string \<Rightarrow> addr \<Rightarrow> string \<Rightarrow> string \<Rightarrow> int \<Rightarrow> bool \<Rightarrow> bool \<Rightarrow>
   'w bp_state \<Rightarrow> (bool \<times> 'w bp_state) res" where
  "print_component v root_level len current_name p fname prefix level skip_proxy unshown s =
     (if (pt_root v = [] \<or> BpPrefixCompare (pt_root v) current_name path_separators) \<and> \<not> skip_proxy then
        bind_res (if pt_type v then GetComponentTypeName p current_name s else Inr []) (\<lambda>typ.
        bind_res
          (if pt_depth v = -1 then Inr False
           else bind_res (level_limit v root_level) (\<lambda>n.
             if level = n then HasChildrenToTraverse v p current_name s else Inr False)) (\<lambda>truncated.
        let msg = tree_line v current_name fname prefix len typ in
          Inr (unshown \<or> truncated,
            PrintMessage (if truncated then msg @ '' .../ ...'' else msg) [] s)))
      else Inr (unshown, s))"

section \<open>The walk\<close>

definition bind_fuel :: "'a res option \<Rightarrow> ('a \<Rightarrow> 'b res option) \<Rightarrow> 'b res option" where
  "bind_fuel x f = (case x of None \<Rightarrow> None | Some (Inl e) \<Rightarrow> Some (Inl e) | Some (Inr a) \<Rightarrow> f a)"

lemma bind_fuel_simps [simp]:
  "bind_fuel None f = None" "bind_fuel (Some (Inl e)) f = Some (Inl e)" "bind_fuel (Some (Inr a)) f = f a"
  by (simp_all add: bind_fuel_def)

text \<open>The loop over the children; \<open>rec\<close> is the recursive call with a component, its framework
  and framework name, the prefix and \<open>skip_proxy\<close>. The answer \<open>False\<close> ends the walk.\<close>

fun print_children ::
  "(string \<Rightarrow> addr \<Rightarrow> string \<Rightarrow> string \<Rightarrow> bool \<Rightarrow> bool \<Rightarrow> 'w bp_state \<Rightarrow>
     ((bool \<times> bool) \<times> 'w bp_state) res option) \<Rightarrow>
   print_tree_values \<Rightarrow> string \<Rightarrow> addr \<Rightarrow> string \<Rightarrow> nat \<Rightarrow> nat list \<Rightarrow> string \<Rightarrow> bool \<Rightarrow>
   'w bp_state \<Rightarrow> ((bool \<times> bool) \<times> 'w bp_state) res option" where
  "print_children rec v current_name p fname num [] prefix unshown s = Some (Inr ((True, unshown), s))"
| "print_children rec v current_name p fname num (i # is) prefix unshown s =
     bind_fuel (Some (GetChildName p current_name (int i) s)) (\<lambda>child_name.
       if child_name = [] then print_children rec v current_name p fname num is prefix unshown s
       else
         let prefix = (if Suc i = num then cut 3 prefix @ [CHR 92, CHR ''_'', CHR ''_''] else prefix) in
         bind_fuel (Some (IsComponentToTraverse v p child_name s)) (\<lambda>walk.
           if \<not> walk then print_children rec v current_name p fname num is prefix unshown s
           else
             bind_fuel (Some (IsChildProxy child_name s)) (\<lambda>c.
             bind_fuel
               (case c of
                  Some (target_name, target_index) \<Rightarrow>
                    bind_fuel (Some (GetFramework target_index s)) (\<lambda>target.
                    bind_fuel (rec child_name target target_name prefix False unshown s) (\<lambda>((ok, unshown), s).
                      if \<not> ok then Some (Inr ((False, unshown), s))
                      else rec child_name p fname prefix True unshown s))
                | None \<Rightarrow> rec child_name p fname prefix False unshown s) (\<lambda>((ok, unshown), s).
               if \<not> ok then Some (Inr ((False, unshown), s))
               else print_children rec v current_name p fname num is prefix unshown s))))"

definition prefix_of_children :: "string \<Rightarrow> string" where
  "prefix_of_children prefix =
     (let prefix = (if 3 \<le> length prefix \<and> drop (length prefix - 3) prefix = [CHR 92, CHR ''_'', CHR ''_'']
                    then cut 3 prefix @ ''   '' else prefix)
      in if prefix = [] then ''|__'' else cut 2 prefix @ ''  |__'')"

fun PrintSubtree ::
  "nat \<Rightarrow> print_tree_values \<Rightarrow> int \<Rightarrow> nat \<Rightarrow> string \<Rightarrow> addr \<Rightarrow> string \<Rightarrow> string \<Rightarrow> int \<Rightarrow> bool \<Rightarrow> bool \<Rightarrow>
   'w bp_state \<Rightarrow> ((bool \<times> bool) \<times> 'w bp_state) res option" where
  "PrintSubtree 0 v root_level len current_name p fname prefix level skip_proxy unshown s = None"
| "PrintSubtree (Suc fuel) v root_level len current_name p fname prefix level skip_proxy unshown s =
     bind_fuel (Some (print_component v root_level len current_name p fname prefix level skip_proxy unshown s))
       (\<lambda>(unshown, s).
     bind_fuel (Some (GetNumChildren p current_name s)) (\<lambda>num.
       if num = -1 then
         bind_fuel (Some (IsChildProxy current_name s)) (\<lambda>c.
           if c = None then
             Some (Inr ((False, unshown),
               PrintMessage ''*** ERROR Could not find number of children for %s'' [current_name] s))
           else Some (Inr ((True, unshown), s)))
       else if num = 0 then Some (Inr ((True, unshown), s))
       else
         bind_fuel (Some (if pt_depth v = -1 then Inr True
                          else bind_res (level_limit v root_level) (\<lambda>n. Inr (level < n)))) (\<lambda>deeper.
           if \<not> deeper then Some (Inr ((True, unshown), s))
           else
             print_children
               (\<lambda>child q fname prefix skip_proxy unshown s.
                  PrintSubtree fuel v root_level len child q fname prefix (level + 1) skip_proxy unshown s)
               v current_name p fname (nat num) [0..<nat num] (prefix_of_children prefix) unshown s)))"

section \<open>The command\<close>

text \<open>The longest framework name, at least 1.\<close>

definition name_len :: "'w bp_state \<Rightarrow> nat res" where
  "name_len s =
     bind_res (fold_res (\<lambda>a len.
       bind_res (deref (tops s) a) (\<lambda>d. bind_res (proxy (td_frmw d) s) (\<lambda>f.
         Inr (max (max len (length (ta_indicator (td_arg d)))) (length (frmw_name f))))))
       (top_level_registry s) 1) (\<lambda>len.
     fold_res (\<lambda>c len.
       bind_res (GetFramework (cp_target c) s) (\<lambda>p. bind_res (proxy p s) (\<lambda>f.
         case frmw_indicators f of [] \<Rightarrow> Inl Bad_Index | ind # _ \<Rightarrow> Inr (max len (length ind)))))
       (child_proxy_registry s) len)"

fun print_tops ::
  "nat \<Rightarrow> print_tree_values \<Rightarrow> int \<Rightarrow> nat \<Rightarrow> addr list \<Rightarrow> bool \<Rightarrow>
   'w bp_state \<Rightarrow> ((bool \<times> bool) \<times> 'w bp_state) res option" where
  "print_tops fuel v root_level len [] unshown s = Some (Inr ((True, unshown), s))"
| "print_tops fuel v root_level len (a # as) unshown s =
     bind_fuel (Some (deref (tops s) a)) (\<lambda>d.
     let top_name = ta_instance (td_arg d);
         root = takeWhile (\<lambda>c. c \<noteq> CHR ''.'') (pt_root v)
     in if pt_root v = [] \<or> BpPrefixCompare root top_name path_separators then
          bind_fuel (PrintSubtree fuel v root_level len top_name (td_frmw d) (ta_indicator (td_arg d)) [] 0
                       False unshown s) (\<lambda>((ok, unshown), s).
            if \<not> ok then Some (Inr ((False, unshown), s))
            else print_tops fuel v root_level len as unshown s)
        else print_tops fuel v root_level len as unshown s)"

text \<open>The result is whether the command succeeded; \<open>depth_supplied\<close> only changes the note.\<close>

definition PrintTree_Execute ::
  "nat \<Rightarrow> bool \<Rightarrow> print_tree_values \<Rightarrow> 'w bp_state \<Rightarrow> (bool \<times> 'w bp_state) res option" where
  "PrintTree_Execute fuel depth_supplied v s =
     bind_fuel (Some (name_len s)) (\<lambda>len.
     bind_fuel (print_tops fuel v (count_dots (pt_root v)) len (top_level_registry s) False s)
       (\<lambda>((ok, unshown), s).
         if \<not> ok then Some (Inr (False, s))
         else if unshown then
           Some (Inr (True, PrintMessage
             ''Note: the full tree depth is bigger than %d%s, childen of the components followed by '.../ ...' mark are not shown''
             [if depth_supplied then [] else '' (default value)''] s))
         else Some (Inr (True, s))))"

section \<open>The walk ends\<close>

definition finishes :: "'a res option \<Rightarrow> bool" where
  "finishes x \<longleftrightarrow> x \<noteq> None"

lemma finishes_Some [simp]: "finishes (Some x)"
  by (simp add: finishes_def)

lemma finishes_bind [intro]:
  "finishes x \<Longrightarrow> (\<And>a. x = Some (Inr a) \<Longrightarrow> finishes (f a)) \<Longrightarrow> finishes (bind_fuel x f)"
  by (cases x) (auto simp: bind_fuel_def finishes_def split: sum.split)

lemma print_children_finishes:
  assumes r: "\<And>child q f pre sk u s. finishes (rec child q f pre sk u s)"
  shows "finishes (print_children rec v cur p f num is pre u s)"
proof (induction "is" arbitrary: pre u s num)
  case (Cons i "is")
  show ?case unfolding print_children.simps Let_def
    by (auto intro!: finishes_bind r Cons.IH split: option.split prod.split)
qed simp

lemma PrintSubtree_finishes:
  fixes s :: "'w bp_state"
  assumes "pt_depth v \<noteq> -1" and "0 < fuel" and "pt_depth v - 1 + root_level - level < int fuel"
  shows "finishes (PrintSubtree fuel v root_level len cur p f pre level sk u s)"
  using assms
proof (induction fuel arbitrary: cur p f pre level sk u s)
  case (Suc fuel)
  have rec: "finishes (PrintSubtree fuel v root_level len child q g pre' (level + 1) sk' u' s')"
    if "level_limit v root_level = Inr n" "level < n" for n child q g pre' sk' u' and s' :: "'w bp_state"
  proof (rule Suc.IH)
    have "n = pt_depth v - 1 + root_level" using that(1) by (simp add: level_limit_def Let_def split: if_splits)
    then show "0 < fuel" "pt_depth v - 1 + root_level - (level + 1) < int fuel" using that(2) Suc.prems(3) by auto
  qed (rule Suc.prems(1))
  show ?case unfolding PrintSubtree.simps using Suc.prems(1)
    by (auto intro!: finishes_bind print_children_finishes rec simp: bind_res_Inr_iff split: prod.split)
qed simp

lemma print_tops_finishes:
  assumes "pt_depth v \<noteq> -1" and "0 < fuel" and "pt_depth v - 1 + root_level < int fuel"
  shows "finishes (print_tops fuel v root_level len as u s)"
proof (induction "as" arbitrary: u s)
  case (Cons a "as")
  show ?case unfolding print_tops.simps Let_def using assms
    by (auto intro!: finishes_bind PrintSubtree_finishes Cons.IH split: prod.split)
qed simp

lemma PrintTree_Execute_finishes:
  assumes "pt_depth v \<noteq> -1" and "0 < fuel" and "pt_depth v - 1 + count_dots (pt_root v) < int fuel"
  shows "finishes (PrintTree_Execute fuel b v s)"
  unfolding PrintTree_Execute_def
  by (auto intro!: finishes_bind print_tops_finishes assms split: prod.split)

section \<open>The lines of a tree\<close>

text \<open>A hierarchy, as an adapter describes it to the walk, and its preorder.\<close>

datatype component = Component (component_name: string) (components: "component list")

fun preorder :: "component \<Rightarrow> string list" where
  "preorder (Component nm cs) = nm # concat (map preorder cs)"

fun describes :: "print_tree_values \<Rightarrow> 'w bp_state \<Rightarrow> addr \<Rightarrow> component \<Rightarrow> bool" where
  "describes v s p (Component nm cs) \<longleftrightarrow>
     nm \<noteq> [] \<and> IsChildProxy nm s = Inr None \<and> IsComponentToTraverse v p nm s = Inr True \<and>
     GetNumChildren p nm s = Inr (int (length cs)) \<and>
     (\<forall>i < length cs. GetChildName p nm (int i) s = Inr (component_name (cs ! i))) \<and>
     (\<forall>c \<in> set cs. describes v s p c)"

lemma tree_log [simp]:
  "GetFramework i (s\<lparr>log := l\<rparr>) = GetFramework i s"
  "proxy p (s\<lparr>log := l\<rparr>) = proxy p s"
  "frmw_query p fn u (s\<lparr>log := l\<rparr>) = frmw_query p fn u s"
  by (simp_all add: GetFramework_def proxy_def frmw_query_def cong: option.case_cong)

lemma IsComponentToTraverse_log [simp]:
  "IsChildProxy nm (s\<lparr>log := l\<rparr>) = IsChildProxy nm s"
  "IsComponentToTraverse v p nm (s\<lparr>log := l\<rparr>) = IsComponentToTraverse v p nm s"
  by (simp_all add: IsChildProxy_def IsComponentToTraverse_def IsPort_def cong: option.case_cong if_cong)

lemma Get_log [simp]:
  "GetNumChildren p nm (s\<lparr>log := l\<rparr>) = GetNumChildren p nm s"
  "GetChildName p nm i (s\<lparr>log := l\<rparr>) = GetChildName p nm i s"
  by (simp_all add: GetNumChildren_def GetChildName_def)

text \<open>With full paths and no type names a line is the padded framework name and the path.\<close>

definition path_line :: "string \<Rightarrow> nat \<Rightarrow> string \<Rightarrow> message" where
  "path_line fname len nm =
     (Info, take len fname @ '':'' @ replicate (len - length fname) CHR '' '' @ nm, [])"

definition all_paths :: "print_tree_values \<Rightarrow> bool" where
  "all_paths v \<longleftrightarrow> pt_depth v = -1 \<and> pt_full_path v \<and> \<not> pt_type v \<and> pt_root v = []"

fun depth_of :: "component \<Rightarrow> nat" where
  "depth_of (Component nm cs) = Suc (foldr (\<lambda>c n. max (depth_of c) n) cs 0)"

lemma depth_of_child: "c \<in> set cs \<Longrightarrow> depth_of c \<le> foldr (\<lambda>c n. max (depth_of c) n) cs 0"
  by (induction cs) (auto simp: le_max_iff_disj)

lemma print_children_preorder:
  assumes "\<And>c pre l. c \<in> set cs \<Longrightarrow>
      rec (component_name c) p f pre False u (s\<lparr>log := l\<rparr>) =
        Some (Inr ((True, u), s\<lparr>log := l @ map (path_line f len) (preorder c)\<rparr>))"
    and "\<forall>c \<in> set cs. describes v s p c"
    and "is = [k..<k + length cs]"
    and "\<forall>i < length cs. GetChildName p nm (int (k + i)) s = Inr (component_name (cs ! i))"
  shows "print_children rec v nm p f num is pre u (s\<lparr>log := l\<rparr>) =
     Some (Inr ((True, u), s\<lparr>log := l @ map (path_line f len) (concat (map preorder cs))\<rparr>))"
  using assms
proof (induction cs arbitrary: "is" k pre l)
  case (Cons c cs)
  define ks where "ks = [Suc k..<Suc k + length cs]"
  have "is": "is = k # ks" using Cons.prems(3) by (simp add: ks_def upt_conv_Cons del: upt_Suc)
  have c: "describes v s p c" using Cons.prems(2) by simp
  then have d: "component_name c \<noteq> []" "IsChildProxy (component_name c) s = Inr None"
    "IsComponentToTraverse v p (component_name c) s = Inr True" by (cases c; simp)+
  have nm: "GetChildName p nm (int k) s = Inr (component_name c)" using Cons.prems(4) by (auto dest: spec [of _ 0])
  have "\<forall>i < length cs. GetChildName p nm (int (Suc k + i)) s = Inr (component_name (cs ! i))"
  proof (intro allI impI)
    fix i assume "i < length cs"
    then show "GetChildName p nm (int (Suc k + i)) s = Inr (component_name (cs ! i))"
      using Cons.prems(4) [THEN spec, of "Suc i"] by simp
  qed
  then have IH: "print_children rec v nm p f num ks pre' u (s\<lparr>log := l'\<rparr>) =
     Some (Inr ((True, u), s\<lparr>log := l' @ map (path_line f len) (concat (map preorder cs))\<rparr>))" for pre' l'
    using Cons.prems(1,2) by (intro Cons.IH [where k = "Suc k"]) (simp_all add: ks_def del: upt_Suc)
  show ?case unfolding "is" print_children.simps Let_def
    by (simp add: nm d Cons.prems(1) IH)
qed simp

lemma PrintSubtree_preorder:
  assumes "all_paths v" and "describes v s p t" and "depth_of t \<le> fuel"
  shows "PrintSubtree fuel v r len (component_name t) p f pre level False u (s\<lparr>log := l\<rparr>) =
     Some (Inr ((True, u), s\<lparr>log := l @ map (path_line f len) (preorder t)\<rparr>))"
  using assms
proof (induction fuel arbitrary: t pre level l)
  case 0
  then show ?case by (cases t) simp
next
  case (Suc fuel)
  obtain nm cs where t: "t = Component nm cs" by (cases t)
  have v: "pt_depth v = -1" "pt_full_path v" "\<not> pt_type v" "pt_root v = []"
    using Suc.prems(1) by (simp_all add: all_paths_def)
  have line: "print_component v r len nm p f pre level False u (s\<lparr>log := l\<rparr>) =
      Inr (u, s\<lparr>log := l @ [path_line f len nm]\<rparr>)"
    by (simp add: print_component_def v tree_line_def path_line_def PrintMessage_def message_def Let_def min_def)
  have num: "GetNumChildren p nm s = Inr (int (length cs))" using Suc.prems(2) t by simp
  have "PrintSubtree fuel v r len (component_name c) p f pre' level' False u (s\<lparr>log := l'\<rparr>) =
     Some (Inr ((True, u), s\<lparr>log := l' @ map (path_line f len) (preorder c)\<rparr>))" if "c \<in> set cs" for c pre' level' l'
    using Suc.prems that depth_of_child [OF that] by (intro Suc.IH) (auto simp: t)
  then have "print_children (\<lambda>child q fname pre' sk u s. PrintSubtree fuel v r len child q fname pre' (level + 1) sk u s)
      v nm p f num' [0..<length cs] pre'' u (s\<lparr>log := l'\<rparr>) =
     Some (Inr ((True, u), s\<lparr>log := l' @ map (path_line f len) (concat (map preorder cs))\<rparr>))" for num' pre'' l'
    using Suc.prems(2) by (intro print_children_preorder [where k = 0]) (auto simp: t)
  then show ?case by (auto simp: t line num v)
qed

text \<open>The tops in the order of their registry, each with its tree.\<close>

definition top_tree :: "print_tree_values \<Rightarrow> 'w bp_state \<Rightarrow> addr \<Rightarrow> component \<Rightarrow> bool" where
  "top_tree v s a t \<longleftrightarrow>
     (case deref (tops s) a of
        Inl e \<Rightarrow> False
      | Inr d \<Rightarrow> ta_instance (td_arg d) = component_name t \<and> describes v s (td_frmw d) t)"

definition tree_lines :: "'w bp_state \<Rightarrow> nat \<Rightarrow> addr \<Rightarrow> component \<Rightarrow> message list" where
  "tree_lines s len a t = map (path_line (ta_indicator (td_arg (the (tops s a)))) len) (preorder t)"

lemma print_tops_preorder:
  assumes "all_paths v" and "list_all2 (top_tree v s) as ts" and "\<forall>t \<in> set ts. depth_of t \<le> fuel"
  shows "print_tops fuel v r len as u (s\<lparr>log := l\<rparr>) =
     Some (Inr ((True, u), s\<lparr>log := l @ concat (map2 (tree_lines s len) as ts)\<rparr>))"
  using assms(2,3)
proof (induction "as" ts arbitrary: l rule: list_all2_induct)
  case (Cons a "as" t ts)
  obtain d where d: "deref (tops s) a = Inr d" "ta_instance (td_arg d) = component_name t"
    "describes v s (td_frmw d) t"
    using Cons.hyps by (auto simp: top_tree_def split: sum.splits)
  then have the: "the (tops s a) = d" by (simp add: deref_Inr_iff)
  have "pt_root v = []" using assms(1) by (simp add: all_paths_def)
  then show ?case
    using d PrintSubtree_preorder [OF assms(1) d(3), of fuel] Cons
    by (simp add: tree_lines_def the)
qed simp

lemma PrintTree_Execute_preorder:
  assumes "all_paths v" and "list_all2 (top_tree v s) (top_level_registry s) ts"
    and "\<forall>t \<in> set ts. depth_of t \<le> fuel" and "name_len s = Inr len"
  shows "PrintTree_Execute fuel b v s =
     Some (Inr (True, s\<lparr>log := log s @ concat (map2 (tree_lines s len) (top_level_registry s) ts)\<rparr>))"
  using print_tops_preorder [OF assms(1-3), of "count_dots (pt_root v)" len False "log s"] assms(4)
  by (simp add: PrintTree_Execute_def)

section \<open>Printing changes nothing but the log\<close>

context call_view
begin

lemma view_PrintMessage [simp]: "view (PrintMessage fmt args s) = view s"
  by (simp add: PrintMessage_def)

lemma print_component_view:
  "print_component v rl len cur p f pre lv sk u s = Inr (r, s') \<Longrightarrow> view s' = view s"
  unfolding print_component_def by (auto simp: bind_res_Inr_iff Let_def split: if_splits)

lemma bind_fuel_SomeE:
  assumes "bind_fuel x f = Some (Inr y)"
  obtains a where "x = Some (Inr a)" and "f a = Some (Inr y)"
  using assms by (auto simp: bind_fuel_def split: option.splits sum.splits)

lemma print_children_view:
  assumes r: "\<And>child q f pre sk u s x s'. rec child q f pre sk u s = Some (Inr (x, s')) \<Longrightarrow> view s' = view s"
  shows "print_children rec v cur p f num is pre u s = Some (Inr (x, s')) \<Longrightarrow> view s' = view s"
proof (induction "is" arbitrary: pre u s num)
  case (Cons i "is")
  show ?case using Cons.prems
    by (auto simp: Let_def elim!: bind_fuel_SomeE split: if_splits option.split_asm prod.split_asm
        dest!: r Cons.IH)
qed simp

lemma PrintSubtree_view:
  "PrintSubtree fuel v rl len cur p f pre lv sk u s = Some (Inr (x, s')) \<Longrightarrow> view s' = view s"
proof (induction fuel arbitrary: cur p f pre lv sk u s x s')
  case (Suc fuel)
  show ?case using Suc.prems
    by (auto elim!: bind_fuel_SomeE split: if_splits
        dest!: print_component_view print_children_view [rotated] Suc.IH)
qed simp

lemma print_tops_view:
  "print_tops fuel v rl len as u s = Some (Inr (x, s')) \<Longrightarrow> view s' = view s"
proof (induction "as" arbitrary: u s)
  case (Cons a "as")
  show ?case using Cons.prems
    by (auto simp: Let_def elim!: bind_fuel_SomeE split: if_splits dest!: PrintSubtree_view Cons.IH)
qed simp

lemma PrintTree_Execute_view:
  "PrintTree_Execute fuel d v s = Some (Inr (ok, s')) \<Longrightarrow> view s' = view s"
  unfolding PrintTree_Execute_def
  by (auto elim!: bind_fuel_SomeE split: if_splits dest!: print_tops_view)

end

end
