(* ===== verification/Bp_Command.thy ===== *)
theory Bp_Command
  imports Bp_Tree Bp_Connect
begin

text \<open>
  The debug commands of the backplane (\<open>bp_debug.cpp\<close>, \<open>bp_debug.h\<close>) and the parsing of their
  options (\<open>bp_command_options.cpp\<close>). The command objects are the constructors of \<open>command\<close> and
  their virtual functions are functions on it. The C library's \<open>getopt_long_only\<close> is a parameter:
  for an option table and the words of a command line, the options it finds and the value that
  ends the loop. Help texts are represented by the command's name; debug traces are left out.
\<close>

section \<open>Option tables\<close>

record option_descr =
  od_options :: "(string \<times> bool) list"
  od_short :: string
  od_lengths :: "nat list list"

text \<open>An option is its name and whether it takes an argument.\<close>

definition OptionsDescriptor :: "(string \<times> bool) list \<Rightarrow> string \<Rightarrow> bool \<Rightarrow> option_descr" where
  "OptionsDescriptor opts optstring appendHelp =
     (if appendHelp then
        \<lparr>od_options = opts @ [(''help'', False)], od_short = optstring, od_lengths = replicate (length opts) [] @ [[1]]\<rparr>
      else \<lparr>od_options = opts, od_short = optstring, od_lengths = replicate (length opts) []\<rparr>)"

definition AddLegalLength :: "nat \<Rightarrow> nat \<Rightarrow> option_descr \<Rightarrow> option_descr" where
  "AddLegalLength index n d = d\<lparr>od_lengths := (od_lengths d)[index := n # od_lengths d ! index]\<rparr>"

definition IsLegalAbbreviation :: "option_descr \<Rightarrow> nat \<Rightarrow> string \<Rightarrow> bool res" where
  "IsLegalAbbreviation d option_index abbreviated =
     (let stripped = dropWhile (\<lambda>c. c = CHR ''-'') abbreviated;
          n = (if stripped = [] then length abbreviated else length stripped)
      in if option_index < length (od_options d) \<and> option_index < length (od_lengths d)
         then Inr (n = length (fst (od_options d ! option_index)) \<or> n \<in> set (od_lengths d ! option_index))
         else Inl Bad_Index)"

definition BpPrintTreeCommandOptions :: option_descr where
  "BpPrintTreeCommandOptions =
     AddLegalLength 0 1 (AddLegalLength 1 1 (AddLegalLength 1 5 (AddLegalLength 1 10
       (AddLegalLength 2 1 (AddLegalLength 3 1 (AddLegalLength 4 1
         (OptionsDescriptor
            [(''depth'', True), (''short_paths'', False), (''ports'', False), (''type'', False), (''root'', True)]
            '':0:1234:h'' True)))))))"

definition BpPrintConnectionsCommandOptions :: option_descr where
  "BpPrintConnectionsCommandOptions =
     AddLegalLength 0 1 (AddLegalLength 1 1
       (OptionsDescriptor [(''type'', False), (''root'', True)] '':01:h'' True))"

definition BpTraceRegisterCommandOptions :: option_descr where
  "BpTraceRegisterCommandOptions = OptionsDescriptor [(''on'', False), (''off'', False)] '':01h'' True"

datatype mandatory_option = STOP_AT | REMOVE_STOP | GET | LIST_STOP | RUN | HELP | OPTION_H

definition phase_variants :: "mandatory_option list" where
  "phase_variants = [STOP_AT, REMOVE_STOP, GET, LIST_STOP, RUN, HELP, OPTION_H]"

fun BpPhaseCommandOptions :: "mandatory_option \<Rightarrow> option_descr" where
  "BpPhaseCommandOptions STOP_AT =
     OptionsDescriptor [(''stop_at'', False), (''begin'', True), (''end'', True), (''build_done'', False)] '':01:2:3h'' True"
| "BpPhaseCommandOptions REMOVE_STOP =
     OptionsDescriptor [(''remove_stop'', False), (''begin'', True), (''end'', True), (''all'', False)] '':01:2:3h'' True"
| "BpPhaseCommandOptions GET = OptionsDescriptor [(''get'', False)] '':0h'' True"
| "BpPhaseCommandOptions LIST_STOP = OptionsDescriptor [(''list_stop'', False)] '':0h'' True"
| "BpPhaseCommandOptions RUN = OptionsDescriptor [(''run'', True)] '':0:h'' True"
| "BpPhaseCommandOptions HELP = OptionsDescriptor [] '':h'' True"
| "BpPhaseCommandOptions OPTION_H = OptionsDescriptor [(''h'', False)] '':h'' False"

section \<open>Commands\<close>

record print_connections_values =
  pc_type :: bool
  pc_root :: string

record phase_values =
  ph_mandatory :: bool
  ph_phase :: string
  ph_end :: bool
  ph_all :: bool

datatype trace_switch = ON | OFF | SWITCH_UNKNOWN

text \<open>The command objects with the values their options have set; \<open>Phase\<close> also has the variant
  of the command and the framework it came from, \<open>TraceRegister\<close> the line to be broadcast.\<close>

datatype command =
  PrintTree print_tree_values
| PrintConnections print_connections_values
| Phase mandatory_option int phase_values
| TraceRegister trace_switch string

definition print_connections_defaults :: print_connections_values where
  "print_connections_defaults = \<lparr>pc_type = False, pc_root = []\<rparr>"

text \<open>\<open>unknown\<close> and \<open>begin\<close> are both 0.\<close>

definition phase_defaults :: phase_values where
  "phase_defaults = \<lparr>ph_mandatory = False, ph_phase = [], ph_end = False, ph_all = False\<rparr>"

fun GetOptions :: "command \<Rightarrow> option_descr" where
  "GetOptions (PrintTree v) = BpPrintTreeCommandOptions"
| "GetOptions (PrintConnections v) = BpPrintConnectionsCommandOptions"
| "GetOptions (Phase m i v) = BpPhaseCommandOptions m"
| "GetOptions (TraceRegister w x) = BpTraceRegisterCommandOptions"

fun Name :: "command \<Rightarrow> string" where
  "Name (PrintTree v) = ''uvm_ml print_tree''"
| "Name (PrintConnections v) = ''uvm_ml print_connections''"
| "Name (Phase m i v) = ''uvm_ml phase''"
| "Name (TraceRegister w x) = ''uvm_ml trace_register[_tlm]''"

definition ReportError :: "string \<Rightarrow> string \<Rightarrow> 'w bp_state \<Rightarrow> 'w bp_state" where
  "ReportError nm msg = ErrorMsg (CHR 0x22 # nm @ CHR 0x22 # '' parsing error: '' @ msg) []"

section \<open>Options of a command\<close>

text \<open>\<open>strtol\<close> in base 10 with its error; the value is clamped to \<open>long\<close>.\<close>

definition strtol :: "string \<Rightarrow> int \<times> bool" where
  "strtol x =
     (let t = skip_ws x;
          neg = (t \<noteq> [] \<and> hd t = CHR ''-'');
          d = (if t \<noteq> [] \<and> (hd t = CHR ''-'' \<or> hd t = CHR ''+'') then tl t else t);
          n = int (digits_value 10 0 (takeWhile (is_digit 10) d));
          v = (if neg then - n else n)
      in if v < - (2 ^ 63) then (- (2 ^ 63), True)
         else if 2 ^ 63 \<le> v then (2 ^ 63 - 1, True) else (v, False))"

definition to_int32 :: "int \<Rightarrow> int" where
  "to_int32 n = sint (word_of_int n :: 32 word)"

definition set_depth :: "string \<Rightarrow> print_tree_values \<Rightarrow> 'w bp_state \<Rightarrow> (bool \<times> command) \<times> 'w bp_state" where
  "set_depth arg v s =
     (if arg = ''all'' then ((True, PrintTree (v\<lparr>pt_depth := -1\<rparr>)), s)
      else
        let (levels, err) = strtol arg
        in if err \<or> levels \<le> 0 then
             ((False, PrintTree v),
              ReportError (Name (PrintTree v)) (''wrong argument of option -depth '' @ CHR 0x22 # arg @ [CHR 0x22]) s)
           else ((True, PrintTree (v\<lparr>pt_depth := to_int32 levels\<rparr>)), s))"

definition AmbiguousPhaseParameter :: "mandatory_option \<Rightarrow> phase_values \<Rightarrow> 'w bp_state \<Rightarrow> bool \<times> 'w bp_state" where
  "AmbiguousPhaseParameter m v s =
     (if ph_phase v \<noteq> [] then
        (case m of
           STOP_AT \<Rightarrow> (True, ReportError ''uvm_ml phase'' ''only 1 -stop_at parameter allowed'' s)
         | REMOVE_STOP \<Rightarrow> (True, ReportError ''uvm_ml phase'' ''only 1 -remove_stop parameter allowed'' s)
         | _ \<Rightarrow> (False, s))
      else (False, s))"

definition phase_argument ::
  "nat \<Rightarrow> string \<Rightarrow> mandatory_option \<Rightarrow> int \<Rightarrow> phase_values \<Rightarrow> 'w bp_state \<Rightarrow> (bool \<times> command) \<times> 'w bp_state" where
  "phase_argument optIndex arg m i v s =
     (let (ambiguous, s) = AmbiguousPhaseParameter m v s
      in if ambiguous then ((False, Phase m i v), s)
         else if m = STOP_AT \<or> m = REMOVE_STOP then
           ((True, Phase m i (v\<lparr>ph_phase := arg, ph_end := (optIndex \<noteq> 1)\<rparr>)), s)
         else if m = RUN then
           (if i \<noteq> -1 then
              ((False, Phase m i v),
               WarningMsg ''Specman 'run' command cannot be used in the mixed language UVM mode and it is ignored.'' [] s)
            else ((True, Phase m i (v\<lparr>ph_phase := arg, ph_end := False, ph_mandatory := True\<rparr>)), s))
         else ((False, Phase m i v), s))"

fun SetOptionArgument :: "nat \<Rightarrow> string \<Rightarrow> command \<Rightarrow> 'w bp_state \<Rightarrow> (bool \<times> command) \<times> 'w bp_state" where
  "SetOptionArgument optIndex arg (PrintTree v) s =
     (if optIndex = 0 then set_depth arg v s
      else if optIndex = 4 then ((True, PrintTree (v\<lparr>pt_root := arg\<rparr>)), s)
      else ((False, PrintTree v), s))"
| "SetOptionArgument optIndex arg (PrintConnections v) s = ((True, PrintConnections (v\<lparr>pc_root := arg\<rparr>)), s)"
| "SetOptionArgument optIndex arg (Phase m i v) s = phase_argument optIndex arg m i v s"
| "SetOptionArgument optIndex arg (TraceRegister w x) s = ((True, TraceRegister w x), s)"

definition phase_option ::
  "nat \<Rightarrow> mandatory_option \<Rightarrow> int \<Rightarrow> phase_values \<Rightarrow> 'w bp_state \<Rightarrow> (bool \<times> command) \<times> 'w bp_state" where
  "phase_option optIndex m i v s =
     (if optIndex = 0 then ((True, Phase m i (v\<lparr>ph_mandatory := True\<rparr>)), s)
      else
        let (ambiguous, s) = AmbiguousPhaseParameter m v s
        in if ambiguous then ((False, Phase m i v), s)
           else if m = STOP_AT then ((True, Phase m i (v\<lparr>ph_phase := ''build'', ph_end := True\<rparr>)), s)
           else if m = REMOVE_STOP then ((True, Phase m i (v\<lparr>ph_all := True\<rparr>)), s)
           else ((False, Phase m i v), s))"

fun SetTheOption :: "nat \<Rightarrow> command \<Rightarrow> 'w bp_state \<Rightarrow> (bool \<times> command) \<times> 'w bp_state" where
  "SetTheOption optIndex (PrintTree v) s =
     (if optIndex = 1 then ((True, PrintTree (v\<lparr>pt_full_path := False\<rparr>)), s)
      else if optIndex = 2 then ((True, PrintTree (v\<lparr>pt_port := True\<rparr>)), s)
      else if optIndex = 3 then ((True, PrintTree (v\<lparr>pt_type := True\<rparr>)), s)
      else ((False, PrintTree v), s))"
| "SetTheOption optIndex (PrintConnections v) s = ((True, PrintConnections (v\<lparr>pc_type := True\<rparr>)), s)"
| "SetTheOption optIndex (Phase m i v) s = phase_option optIndex m i v s"
| "SetTheOption optIndex (TraceRegister w x) s =
     (if w \<noteq> SWITCH_UNKNOWN then
        ((False, TraceRegister w x),
         ReportError (Name (TraceRegister w x)) ''only 1 trace_register parameter allowed'' s)
      else if optIndex = 0 then ((True, TraceRegister ON x), s)
      else if optIndex = 1 then ((True, TraceRegister OFF x), s)
      else ((False, TraceRegister w x), s))"

definition no_argument_for :: "string option \<Rightarrow> bool" where
  "no_argument_for arg = (case arg of None \<Rightarrow> True | Some a \<Rightarrow> take 1 a = ''-'')"

fun MissedArgumentError :: "nat \<Rightarrow> string option \<Rightarrow> command \<Rightarrow> 'w bp_state \<Rightarrow> bool \<times> 'w bp_state" where
  "MissedArgumentError optIndex arg (PrintTree v) s =
     (False,
      if optIndex = 0 \<and> no_argument_for arg then
        ReportError (Name (PrintTree v)) ''missing value parameter for depth option (must be a positive integer or 'all')'' s
      else if optIndex = 4 \<and> no_argument_for arg then
        ReportError (Name (PrintTree v)) ''missing path parameter for -root option'' s
      else s)"
| "MissedArgumentError optIndex arg (PrintConnections v) s =
     (False,
      if optIndex = 1 \<and> no_argument_for arg then
        ReportError (Name (PrintConnections v)) ''missing value parameter for depth option (must be a positive integer or 'all')'' s
      else s)"
| "MissedArgumentError optIndex arg (Phase m i v) s =
     (False,
      if optIndex = 0 then ReportError (Name (Phase m i v)) ''no phase parameter supplied for the option -run'' s
      else if optIndex = 1 then ReportError (Name (Phase m i v)) ''no phase parameter supplied for the option -begin'' s
      else if optIndex = 2 then ReportError (Name (Phase m i v)) ''no phase parameter supplied for the option -end'' s
      else s)"
| "MissedArgumentError optIndex arg (TraceRegister w x) s = (True, s)"

definition phase_consistent :: "mandatory_option \<Rightarrow> phase_values \<Rightarrow> 'w bp_state \<Rightarrow> bool \<times> 'w bp_state" where
  "phase_consistent m v s =
     (if \<not> ph_mandatory v then (False, s)
      else
        case m of
          STOP_AT \<Rightarrow>
            if ph_phase v \<noteq> [] then (True, s)
            else (False, ReportError ''uvm_ml phase''
                    ''could not stop at unspecified phase. Please provide a phase parameter to the option -stop_at'' s)
        | REMOVE_STOP \<Rightarrow>
            if ph_all v \<or> ph_phase v \<noteq> [] then (True, s)
            else (False, ReportError ''uvm_ml phase''
                    ''could not remove breakpoint at unspecified phase. Please provide a phase parameter to the option -remove_stop'' s)
        | RUN \<Rightarrow> (ph_phase v \<noteq> [], s)
        | GET \<Rightarrow> (True, s)
        | LIST_STOP \<Rightarrow> (True, s)
        | HELP \<Rightarrow> (True, s)
        | OPTION_H \<Rightarrow> (False, s))"

fun QueryOptionsConsistency :: "command \<Rightarrow> 'w bp_state \<Rightarrow> (bool \<times> command) \<times> 'w bp_state" where
  "QueryOptionsConsistency (PrintTree v) s = ((True, PrintTree v), s)"
| "QueryOptionsConsistency (PrintConnections v) s = ((True, PrintConnections v), s)"
| "QueryOptionsConsistency (Phase m i v) s =
     (let (ok, s) = phase_consistent m v s in ((ok, Phase m i v), s))"
| "QueryOptionsConsistency (TraceRegister w x) s =
     ((True, TraceRegister w (if w = SWITCH_UNKNOWN then x @ '' -on'' else x)), s)"

section \<open>Parsing\<close>

text \<open>
  What \<open>getopt_long_only\<close> returns while it returns 0: the index of the option, its argument, and
  the position of the next word; then the value that ends the loop, with \<open>optopt\<close> and \<open>optarg\<close>.
\<close>

record getopt_event =
  ge_index :: nat
  ge_arg :: "string option"
  ge_pos :: nat

record getopt_run =
  gr_events :: "getopt_event list"
  gr_opt :: int
  gr_optopt :: nat
  gr_optarg :: "string option"

type_synonym getopt = "option_descr \<Rightarrow> string list \<Rightarrow> getopt_run"

datatype parse_status = ASKED_FOR_HELP | PARSE_FAILURE | PARSE_SUCCESS

datatype loop_end = ERROR_WITH_OPTION | DUPLICATED_OPTION | GETOPT_END

definition GetTokens :: "string \<Rightarrow> string list" where
  "GetTokens command_with_argument = words_of command_with_argument"

definition ParsingErrorMessage :: "string \<Rightarrow> nat \<Rightarrow> string list \<Rightarrow> string" where
  "ParsingErrorMessage err last_pos tokens =
     (let pos = (if length tokens \<le> last_pos then length tokens - 1 else last_pos)
      in err @ '' '' @ CHR 0x27 # tokens ! pos @ CHR 0x27 # '' at the position '' @ show_base 10 (Suc pos))"

definition ParsingError :: "string \<Rightarrow> string \<Rightarrow> nat \<Rightarrow> string list \<Rightarrow> command \<Rightarrow> 'w bp_state \<Rightarrow> 'w bp_state" where
  "ParsingError err err2 last_pos tokens c =
     ReportError (Name c) (ParsingErrorMessage err last_pos tokens @ ''. '' @ err2)"

definition PrintSyntaxOptions ::
  "string \<Rightarrow> bool \<Rightarrow> nat \<Rightarrow> string list \<Rightarrow> option_descr \<Rightarrow> 'w bp_state \<Rightarrow> 'w bp_state" where
  "PrintSyntaxOptions err hasArgOnly last_pos tokens d =
     (let errstr = ParsingErrorMessage err last_pos tokens;
          opts = map (\<lambda>(nm, a). CHR ''-'' # nm) (filter (\<lambda>(nm, a). \<not> hasArgOnly \<or> a) (od_options d))
      in if hasArgOnly \<and> opts = [] then
           ErrorMsg (errstr @ ''  No argument is expected for any of this command options'') []
         else
           ErrorMsg (errstr @ (if hasArgOnly then ''  Perhaps you meant to specify either: ''
                               else ''  The only options allowed for this command are: '') @ join '', '' opts) [])"

text \<open>\<open>optind\<close> is only moved back on the way to an error, which ends the loop.\<close>

definition HandleTheOption ::
  "option_descr \<Rightarrow> string list \<Rightarrow> nat \<Rightarrow> getopt_event \<Rightarrow> command \<Rightarrow> 'w bp_state \<Rightarrow> ((bool \<times> command) \<times> 'w bp_state) res" where
  "HandleTheOption d tokens last_pos e c s =
     (if length (od_options d) \<le> ge_index e then Inl Bad_Index
      else
        let ((result, c), s) =
          (if snd (od_options d ! ge_index e) then
             (case ge_arg e of
                Some arg \<Rightarrow>
                  if take 1 arg = ''-'' then
                    (let (result, s) = MissedArgumentError (ge_index e) (Some arg) c s in ((result, c), s))
                  else SetOptionArgument (ge_index e) arg c s
              | None \<Rightarrow> (let (result, s) = MissedArgumentError (ge_index e) None c s in ((result, c), s)))
           else SetTheOption (ge_index e) c s)
        in if \<not> result then Inr ((False, c), s)
           else if length tokens \<le> last_pos then Inl Bad_Index
           else bind_res (IsLegalAbbreviation d (ge_index e) (tokens ! last_pos)) (\<lambda>legal.
             if legal then Inr ((True, c), s)
             else Inr ((False, c),
               ParsingError ''illegal option abbreviation'' (''Suggest: -'' @ fst (od_options d ! ge_index e))
                 last_pos tokens c s)))"

text \<open>The state of the loop: the options supplied so far and the last position.\<close>

fun DoParseLoop ::
  "option_descr \<Rightarrow> string list \<Rightarrow> getopt_event list \<Rightarrow> bool list \<Rightarrow> nat \<Rightarrow> command \<Rightarrow>
   'w bp_state \<Rightarrow> ((loop_end \<times> bool list \<times> nat \<times> command) \<times> 'w bp_state) res" where
  "DoParseLoop d tokens [] supplied last_pos c s = Inr ((GETOPT_END, supplied, last_pos, c), s)"
| "DoParseLoop d tokens (e # es) supplied last_pos c s =
     (if length supplied \<le> ge_index e then Inl Bad_Index
      else if \<not> supplied ! ge_index e then
        bind_res (HandleTheOption d tokens last_pos e c s) (\<lambda>((ok, c), s).
          if \<not> ok then Inr ((ERROR_WITH_OPTION, supplied, last_pos, c), s)
          else DoParseLoop d tokens es (supplied[ge_index e := True]) (ge_pos e) c s)
      else
        let optionStr = CHR ''-'' # fst (od_options d ! ge_index e)
        in Inr ((DUPLICATED_OPTION, supplied, last_pos, c),
             ParsingError (''second occurrence of the option '' @ optionStr)
               (''Only one '' @ optionStr @ '' option is allowed'') last_pos tokens c s))"

text \<open>\<open>'h'\<close> is 104, \<open>'?'\<close> is 63 and \<open>':'\<close> is 58. The last of them always fails: the assignment to
  \<open>status\<close> is written as a comparison.\<close>

definition HandleParseEndCondition ::
  "option_descr \<Rightarrow> string list \<Rightarrow> getopt_run \<Rightarrow> loop_end \<Rightarrow> nat \<Rightarrow> command \<Rightarrow> 'w bp_state \<Rightarrow> parse_status \<times> 'w bp_state" where
  "HandleParseEndCondition d tokens g e last_pos c s =
     (if e \<noteq> GETOPT_END then (PARSE_FAILURE, s)
      else if gr_opt g = -3 \<or> gr_opt g = -2 then (PARSE_FAILURE, s)
      else if gr_opt g = -1 then
        (if last_pos = length tokens then (PARSE_SUCCESS, s)
         else (PARSE_FAILURE, PrintSyntaxOptions ''unknown parameter'' True last_pos tokens d s))
      else if gr_opt g = 104 then (ASKED_FOR_HELP, s)
      else if gr_opt g = 63 then (PARSE_FAILURE, PrintSyntaxOptions ''unknown option'' False last_pos tokens d s)
      else if gr_opt g = 58 then (PARSE_FAILURE, snd (MissedArgumentError (gr_optopt g) (gr_optarg g) c s))
      else (PARSE_FAILURE, ErrorMsg ''fatal error - unknown option character %o'' [] s))"

definition ParseCheckSyntax ::
  "getopt \<Rightarrow> string \<Rightarrow> command \<Rightarrow> 'w bp_state \<Rightarrow> ((parse_status \<times> bool list \<times> command) \<times> 'w bp_state) res" where
  "ParseCheckSyntax getopt cmd c s =
     (let tokens = GetTokens cmd; d = GetOptions c; g = getopt d tokens in
      bind_res
        (if 1 < length tokens then
           bind_res (DoParseLoop d tokens (gr_events g) (replicate (length (od_options d)) False) 1 c s)
             (\<lambda>((e, supplied, last_pos, c), s).
               let (status, s) = HandleParseEndCondition d tokens g e last_pos c s
               in Inr ((status, supplied, c), s))
         else Inr ((PARSE_SUCCESS, [], c), s)) (\<lambda>((status, supplied, c), s).
      if status = PARSE_SUCCESS then
        (let ((ok, c), s) = QueryOptionsConsistency c s
         in Inr ((if ok then PARSE_SUCCESS else PARSE_FAILURE, supplied, c), s))
      else Inr ((status, supplied, c), s)))"

section \<open>Which command\<close>

datatype match_result = MISMATCH | MATCH_CMD_INVALID_OPTIONS | HELP_OPTION | MATCH

text \<open>The first occurrence of a string in another.\<close>

fun find_sub :: "string \<Rightarrow> string \<Rightarrow> nat option" where
  "find_sub pat [] = (if pat = [] then Some 0 else None)"
| "find_sub pat (c # x) =
     (if take (length pat) (c # x) = pat then Some 0 else map_option Suc (find_sub pat x))"

definition LookupOption :: "string \<Rightarrow> mandatory_option \<Rightarrow> bool" where
  "LookupOption cmd m =
     (let optionStr = '' -'' @ fst (hd (od_options (BpPhaseCommandOptions m)))
      in case find_sub optionStr cmd of
           None \<Rightarrow> False
         | Some pos \<Rightarrow>
             length cmd = pos + length optionStr \<or> take 1 (drop (pos + length optionStr) cmd) = '' '')"

definition valid_phase_options :: string where
  "valid_phase_options =
     '': '' @ join '', '' (map (\<lambda>m. CHR ''-'' # fst (hd (od_options (BpPhaseCommandOptions m)))) (butlast phase_variants))"

text \<open>The variant is kept only when exactly one is found.\<close>

definition MatchMandatoryOption ::
  "string \<Rightarrow> 'w bp_state \<Rightarrow> (match_result \<times> mandatory_option option) \<times> 'w bp_state" where
  "MatchMandatoryOption cmd s =
     (case filter (LookupOption cmd) phase_variants of
        [] \<Rightarrow> ((MATCH_CMD_INVALID_OPTIONS, None),
               ReportError ''uvm_ml phase''
                 (''illegal parameter. Legal parameters (only 1 is allowed)'' @ valid_phase_options) s)
      | [m] \<Rightarrow> ((if m = HELP \<or> m = OPTION_H then HELP_OPTION else MATCH, Some m), s)
      | m # n # _ \<Rightarrow>
          if n = HELP \<or> n = OPTION_H then ((HELP_OPTION, None), s)
          else ((MATCH_CMD_INVALID_OPTIONS, None),
                ReportError ''uvm_ml phase''
                  (''single action parameter required. Legal parameters (only 1 is allowed)'' @ valid_phase_options) s))"

definition MatchesCommandName :: "string \<Rightarrow> string \<Rightarrow> bool" where
  "MatchesCommandName nm cmd = BpPrefixCompare nm cmd '' ''"

text \<open>A word of the length of \<open>trace_register\<close> matches too, whatever it is.\<close>

definition TraceRegister_MatchCommand :: "string \<Rightarrow> bool" where
  "TraceRegister_MatchCommand cmd =
     (MatchesCommandName ''trace_register_tlm'' cmd \<or> length (GetToken cmd 0) = length ''trace_register'')"

datatype predefined = PRINT_TREE | PRINT_CONNECTIONS | PHASE "mandatory_option option" | TRACE_REGISTER

text \<open>\<open>trace_register\<close> does not set its match result, which has the value \<open>indeterminate\<close>.\<close>

definition GetCommand ::
  "match_result \<Rightarrow> string \<Rightarrow> 'w bp_state \<Rightarrow> (predefined \<times> match_result) option \<times> 'w bp_state" where
  "GetCommand indeterminate cmd s =
     (if MatchesCommandName ''print_tree'' cmd then (Some (PRINT_TREE, MATCH), s)
      else if MatchesCommandName ''print_connections'' cmd then (Some (PRINT_CONNECTIONS, MATCH), s)
      else if MatchesCommandName ''phase'' cmd then
        (let ((r, m), s) = MatchMandatoryOption cmd s in (Some (PHASE m, r), s))
      else if TraceRegister_MatchCommand cmd then (Some (TRACE_REGISTER, indeterminate), s)
      else (None, s))"

definition is_alpha :: "char \<Rightarrow> bool" where
  "is_alpha c =
     (let n = (of_char c :: nat) in (65 \<le> n \<and> n \<le> 90) \<or> (97 \<le> n \<and> n \<le> 122))"

definition GenericCmdHelpRequired :: "string \<Rightarrow> 'w bp_state \<Rightarrow> bool \<times> 'w bp_state" where
  "GenericCmdHelpRequired cmd s =
     (let basename = GetToken cmd 0
      in if basename = [] then (True, s)
         else if basename = ''-help'' \<or> basename = ''-h'' then (True, s)
         else if \<not> is_alpha (hd basename) then
           (True, ErrorMsg ''Invalid UVM-ML debugging command: %s'' [cmd] s)
         else (False, s))"

section \<open>Execution\<close>

datatype exec_status = UNRECOGNIZED | FAILURE | SUCCESS

definition AddBacklogCommand :: "string \<Rightarrow> 'w bp_state \<Rightarrow> 'w bp_state" where
  "AddBacklogCommand cmd s = s\<lparr>debug_backlog := debug_backlog s @ [cmd]\<rparr>"

text \<open>The loop of \<open>DoBroadcastCommand\<close>; \<open>None\<close> is its return on a failure.\<close>

fun broadcast_loop ::
  "string \<Rightarrow> time \<Rightarrow> addr list \<Rightarrow> exec_status \<Rightarrow> 'w bp_state \<Rightarrow> (exec_status option \<times> 'w bp_state) res" where
  "broadcast_loop cmd t [] status s = Inr (Some status, s)"
| "broadcast_loop cmd t (p # ps) status s =
     (if p = null then
        broadcast_loop cmd t ps status (ErrorMsg ''Failed to get framework (%d) for the command %s'' [cmd] s)
      else
        bind_res (NotifyCommand p cmd t s) (\<lambda>(r, s).
          if r = 0 then
            bind_res (proxy p s) (\<lambda>f.
              Inr (None, ErrorMsg ''Command '%s' request failed for framework %s'' [cmd, frmw_name f] s))
          else broadcast_loop cmd t ps (if r = 1 then SUCCESS else status) s))"

definition DoBroadcastCommand ::
  "string \<Rightarrow> time \<Rightarrow> bool \<Rightarrow> 'w bp_state \<Rightarrow> (exec_status \<times> 'w bp_state) res" where
  "DoBroadcastCommand cmd t addBacklog s =
     bind_res (broadcast_loop cmd t (framework_registry s) UNRECOGNIZED s) (\<lambda>(status, s).
       case status of
         None \<Rightarrow> Inr (FAILURE, s)
       | Some status \<Rightarrow>
           Inr (status, if addBacklog \<and> \<not> elaboration_passed s then AddBacklogCommand cmd s else s))"

text \<open>Evaluated for the debug trace: the framework a command came from must exist.\<close>

definition CommandOriginated :: "int \<Rightarrow> 'w bp_state \<Rightarrow> string res" where
  "CommandOriginated frameworkId s =
     (if frameworkId = -1 then Inr ''interactively''
      else bind_res (GetFramework frameworkId s) (\<lambda>p. bind_res (proxy p s) (\<lambda>f.
        Inr (''by '' @ frmw_name f @ '' adapter''))))"

definition GetTypeName :: "connection \<Rightarrow> 'w bp_state \<Rightarrow> string res" where
  "GetTypeName c s =
     bind_res (GetComponentTypeName (c_frmw c) (c_path c) s) (\<lambda>t. Inr ('' ['' @ t @ '']''))"

definition pair_end :: "connection \<Rightarrow> bool \<Rightarrow> 'w bp_state \<Rightarrow> string res" where
  "pair_end c show_type s =
     bind_res (proxy (c_frmw c) s) (\<lambda>f.
     bind_res (if show_type then GetTypeName c s else Inr []) (\<lambda>t.
       Inr (frmw_name f @ '':'' @ c_path c @ t)))"

text \<open>The flag says whether the heading has been printed.\<close>

definition PrintPair ::
  "connection \<Rightarrow> connection \<Rightarrow> string \<Rightarrow> bool \<Rightarrow> bool \<times> 'w bp_state \<Rightarrow> (bool \<times> 'w bp_state) res" where
  "PrintPair src trg arrow show_type = (\<lambda>(printed, s).
     let s = (if printed then s else PrintMessage ''List of UVM-ML connections: '' [] s) in
     bind_res (pair_end src show_type s) (\<lambda>x.
     let s = PrintMessage x [] s in
     bind_res (pair_end trg show_type s) (\<lambda>y. Inr (True, PrintMessage (arrow @ y) [] s))))"

definition print_edge ::
  "print_connections_values \<Rightarrow> addr \<Rightarrow> addr \<Rightarrow> bool \<times> 'w bp_state \<Rightarrow> (bool \<times> 'w bp_state) res" where
  "print_edge v a b = (\<lambda>(printed, s).
     bind_res (conn a s) (\<lambda>it. bind_res (conn b s) (\<lambda>ot.
       if pc_root v = [] \<or> CheckInRange (pc_root v) it then PrintPair it ot ''    -> '' (pc_type v) (printed, s)
       else if CheckInRange (pc_root v) ot then PrintPair ot it ''    <- '' (pc_type v) (printed, s)
       else Inr (printed, s))))"

definition PrintConnections_Execute :: "print_connections_values \<Rightarrow> 'w bp_state \<Rightarrow> 'w bp_state res" where
  "PrintConnections_Execute v s =
     bind_res
       (fold_res (\<lambda>a x. bind_res (conn a (snd x)) (\<lambda>it. fold_res (print_edge v a) (fanout it) x))
          (port_registry s) (False, s)) (\<lambda>(printed, s).
     Inr (if printed then s else PrintMessage ''No UVM-ML connections found.'' [] s))"

definition Phase_Execute ::
  "mandatory_option \<Rightarrow> phase_values \<Rightarrow> 'w bp_state \<Rightarrow> (exec_status \<times> 'w bp_state) res" where
  "Phase_Execute m v s =
     (let phase_action = (if ph_end v then PHASE_ENDED else PHASE_STARTED) in
      case m of
        STOP_AT \<Rightarrow> bind_res (RequestStopPhase (ph_phase v) phase_action s) (\<lambda>(ok, s).
          Inr (if ok then SUCCESS else FAILURE, s))
      | RUN \<Rightarrow> bind_res (RequestStopPhase (ph_phase v) phase_action s) (\<lambda>(ok, s).
          Inr (if ok then SUCCESS else FAILURE, s))
      | REMOVE_STOP \<Rightarrow>
          Inr (SUCCESS, if ph_all v then CancelPhaseRequests s else CancelStopPhase (ph_phase v) phase_action s)
      | GET \<Rightarrow> Inr (SUCCESS, GetPhaseRequest s)
      | LIST_STOP \<Rightarrow> Inr (SUCCESS, ListStopRequests s)
      | _ \<Rightarrow> Inr (SUCCESS, s))"

text \<open>\<open>TraceResult\<close> reports an unrecognised broadcast; a custom command is not backlogged.\<close>

definition TraceResult :: "bool \<Rightarrow> string \<Rightarrow> exec_status \<Rightarrow> 'w bp_state \<Rightarrow> 'w bp_state" where
  "TraceResult custom cmd status s =
     (if status \<noteq> UNRECOGNIZED then s
      else if \<not> elaboration_passed s then
        WarningMsg (if custom then ''No framework had recognized command request: %s''
          else ''No framework had recognized the command request: %s it will be backlogged until the beginning of pre-run phases and it will be tried on each framework that registers itself by that time'') [cmd] s
      else ErrorMsg (if custom then ''No framework had recognized command request '%s'; it might be misspelled''
          else ''No framework had recognized the command request: %s'') [cmd] s)"

definition broadcast :: "bool \<Rightarrow> string \<Rightarrow> time \<Rightarrow> 'w bp_state \<Rightarrow> (exec_status \<times> 'w bp_state) res" where
  "broadcast custom cmd t s =
     bind_res (DoBroadcastCommand cmd t (\<not> custom) s) (\<lambda>(status, s). Inr (status, TraceResult custom cmd status s))"

fun Execute ::
  "nat \<Rightarrow> bool list \<Rightarrow> time \<Rightarrow> command \<Rightarrow> 'w bp_state \<Rightarrow> (exec_status \<times> 'w bp_state) res option" where
  "Execute fuel supplied t (PrintTree v) s =
     bind_fuel (PrintTree_Execute fuel (supplied \<noteq> [] \<and> hd supplied) v s) (\<lambda>(ok, s).
       Some (Inr (if ok then SUCCESS else FAILURE, s)))"
| "Execute fuel supplied t (PrintConnections v) s =
     Some (bind_res (PrintConnections_Execute v s) (\<lambda>s. Inr (SUCCESS, s)))"
| "Execute fuel supplied t (Phase m i v) s = Some (Phase_Execute m v s)"
| "Execute fuel supplied t (TraceRegister w x) s = Some (broadcast False x t s)"

text \<open>\<open>ResetAndInit\<close>: the object of the matched command with its defaults.\<close>

fun ResetAndInit :: "predefined \<Rightarrow> string \<Rightarrow> int \<Rightarrow> command option" where
  "ResetAndInit PRINT_TREE cmd frameworkId = Some (PrintTree print_tree_defaults)"
| "ResetAndInit PRINT_CONNECTIONS cmd frameworkId = Some (PrintConnections print_connections_defaults)"
| "ResetAndInit (PHASE m) cmd frameworkId = map_option (\<lambda>m. Phase m frameworkId phase_defaults) m"
| "ResetAndInit TRACE_REGISTER cmd frameworkId = Some (TraceRegister SWITCH_UNKNOWN cmd)"

fun predefined_name :: "predefined \<Rightarrow> string" where
  "predefined_name PRINT_TREE = ''uvm_ml print_tree''"
| "predefined_name PRINT_CONNECTIONS = ''uvm_ml print_connections''"
| "predefined_name (PHASE m) = ''uvm_ml phase''"
| "predefined_name TRACE_REGISTER = ''uvm_ml trace_register[_tlm]''"

definition PrintCmdHelp :: "string \<Rightarrow> 'w bp_state \<Rightarrow> 'w bp_state" where
  "PrintCmdHelp nm = PrintMessage nm []"

definition PrintGenericCommandHelp :: "'w bp_state \<Rightarrow> 'w bp_state" where
  "PrintGenericCommandHelp s =
     PrintMessage (join '', '' (map predefined_name [PRINT_TREE, PRINT_CONNECTIONS, PHASE None, TRACE_REGISTER])) []
       (PrintMessage ''Usage: uvm_ml <command>| -h | -help The predefined commands are: '' [] s)"

text \<open>The two things the code reads that are not its own: \<open>getopt\<close> and an indeterminate value.\<close>

record command_env =
  ce_getopt :: getopt
  ce_indeterminate :: match_result

definition execute_predefined ::
  "command_env \<Rightarrow> nat \<Rightarrow> int \<Rightarrow> string \<Rightarrow> time \<Rightarrow> command \<Rightarrow> 'w bp_state \<Rightarrow> (exec_status \<times> 'w bp_state) res option" where
  "execute_predefined env fuel frameworkId cmd t c s =
     bind_fuel (Some (ParseCheckSyntax (ce_getopt env) cmd c s)) (\<lambda>((status, supplied, c), s).
       case status of
         PARSE_FAILURE \<Rightarrow> Some (Inr (FAILURE, s))
       | ASKED_FOR_HELP \<Rightarrow> Some (Inr (SUCCESS, PrintCmdHelp (Name c) s))
       | PARSE_SUCCESS \<Rightarrow>
           bind_fuel (Some (CommandOriginated frameworkId s)) (\<lambda>_. Execute fuel supplied t c s))"

definition ExecuteCommand ::
  "command_env \<Rightarrow> nat \<Rightarrow> int \<Rightarrow> string \<Rightarrow> time \<Rightarrow> 'w bp_state \<Rightarrow> (exec_status \<times> 'w bp_state) res option" where
  "ExecuteCommand env fuel frameworkId cmd t s =
     (let (found, s) = GetCommand (ce_indeterminate env) cmd s in
      case found of
        Some (p, r) \<Rightarrow>
          if r = MATCH_CMD_INVALID_OPTIONS then Some (Inr (FAILURE, s))
          else if r = HELP_OPTION then Some (Inr (SUCCESS, PrintCmdHelp (predefined_name p) s))
          else
            (case ResetAndInit p cmd frameworkId of
               None \<Rightarrow> Some (Inl Bad_Index)
             | Some c \<Rightarrow> execute_predefined env fuel frameworkId cmd t c s)
      | None \<Rightarrow>
          (let (help, s) = GenericCmdHelpRequired cmd s in
           if help then Some (Inr (SUCCESS, PrintGenericCommandHelp s))
           else bind_fuel (Some (CommandOriginated frameworkId s)) (\<lambda>_. Some (broadcast True cmd t s))))"

section \<open>What the commands leave alone\<close>

context call_view
begin

lemma view_ReportError [simp]: "view (ReportError nm msg s) = view s"
  by (simp add: ReportError_def)

lemma AmbiguousPhaseParameter_view: "AmbiguousPhaseParameter m v s = (b, s') \<Longrightarrow> view s' = view s"
  by (auto simp: AmbiguousPhaseParameter_def split: if_splits mandatory_option.splits)

lemma set_depth_view: "set_depth arg v s = (x, s') \<Longrightarrow> view s' = view s"
  by (auto simp: set_depth_def split: if_split_asm prod.split_asm)

lemma phase_argument_view: "phase_argument j arg m i v s = (x, s') \<Longrightarrow> view s' = view s"
  by (cases "AmbiguousPhaseParameter m v s")
    (auto simp: phase_argument_def split: if_split_asm dest!: AmbiguousPhaseParameter_view)

lemma phase_option_view: "phase_option j m i v s = (x, s') \<Longrightarrow> view s' = view s"
  by (cases "AmbiguousPhaseParameter m v s")
    (auto simp: phase_option_def split: if_split_asm dest!: AmbiguousPhaseParameter_view)

lemma SetOptionArgument_view: "SetOptionArgument j arg c s = (x, s') \<Longrightarrow> view s' = view s"
  by (cases c) (auto split: if_split_asm dest: set_depth_view phase_argument_view)

lemma SetTheOption_view: "SetTheOption j c s = (x, s') \<Longrightarrow> view s' = view s"
  by (cases c) (auto split: if_split_asm dest: phase_option_view)

lemma MissedArgumentError_view: "MissedArgumentError j arg c s = (b, s') \<Longrightarrow> view s' = view s"
  by (cases c) (auto split: if_splits)

lemma QueryOptionsConsistency_view: "QueryOptionsConsistency c s = (x, s') \<Longrightarrow> view s' = view s"
  by (cases c) (auto simp: phase_consistent_def split: if_splits mandatory_option.splits prod.splits)

lemma HandleTheOption_view: "HandleTheOption d tokens pos e c s = Inr (x, s') \<Longrightarrow> view s' = view s"
  unfolding HandleTheOption_def
  by (auto simp: Let_def ParsingError_def elim!: bind_res_InrE
      split: if_splits option.splits prod.splits
      dest!: MissedArgumentError_view SetOptionArgument_view SetTheOption_view)

lemma DoParseLoop_view: "DoParseLoop d tokens es given pos c s = Inr (x, s') \<Longrightarrow> view s' = view s"
proof (induction es arbitrary: given pos c s)
  case (Cons e es)
  show ?case using Cons.prems
    by (auto simp: Let_def ParsingError_def elim!: bind_res_InrE split: if_splits
        dest!: HandleTheOption_view Cons.IH)
qed simp

lemma HandleParseEndCondition_view: "HandleParseEndCondition d tokens g e pos c s = (x, s') \<Longrightarrow> view s' = view s"
  using MissedArgumentError_view [of "gr_optopt g" "gr_optarg g" c s, OF surjective_pairing]
  by (auto simp: HandleParseEndCondition_def PrintSyntaxOptions_def Let_def split: if_splits)

lemma ParseCheckSyntax_view: "ParseCheckSyntax getopt cmd c s = Inr (x, s') \<Longrightarrow> view s' = view s"
  unfolding ParseCheckSyntax_def
  by (auto simp: Let_def elim!: bind_res_InrE split: if_splits prod.splits
      dest!: DoParseLoop_view HandleParseEndCondition_view QueryOptionsConsistency_view)

lemma GetCommand_view: "GetCommand r cmd s = (x, s') \<Longrightarrow> view s' = view s"
  by (auto simp: GetCommand_def MatchMandatoryOption_def split: if_splits prod.splits list.splits)

lemma GenericCmdHelpRequired_view: "GenericCmdHelpRequired cmd s = (b, s') \<Longrightarrow> view s' = view s"
  by (auto simp: GenericCmdHelpRequired_def Let_def split: if_splits)

lemma broadcast_loop_view: "broadcast_loop cmd t ps st s = Inr (x, s') \<Longrightarrow> view s' = view s"
proof (induction ps arbitrary: st s)
  case (Cons p ps)
  show ?case using Cons.prems
    by (auto elim!: bind_res_InrE split: if_splits dest!: NotifyCommand_view Cons.IH)
qed simp

lemma PrintPair_view: "PrintPair c d ar ty x = Inr y \<Longrightarrow> view (snd y) = view (snd x)"
  by (cases x) (auto simp: PrintPair_def Let_def elim!: bind_res_InrE split: if_splits)

lemma print_edge_view: "print_edge v a b x = Inr y \<Longrightarrow> view (snd y) = view (snd x)"
  unfolding print_edge_def
  by (cases x) (auto elim!: bind_res_InrE split: if_splits dest!: PrintPair_view)

lemma PrintConnections_Execute_view: "PrintConnections_Execute v s = Inr s' \<Longrightarrow> view s' = view s"
proof -
  assume "PrintConnections_Execute v s = Inr s'"
  then obtain y where y: "fold_res (\<lambda>a x. bind_res (conn a (snd x)) (\<lambda>it. fold_res (print_edge v a) (fanout it) x))
      (port_registry s) (False, s) = Inr y" and s': "view s' = view (snd y)"
    unfolding PrintConnections_Execute_def by (auto elim!: bind_res_InrE split: if_splits)
  have edges: "view (snd x') = view (snd x)" if "fold_res (print_edge v a) bs x = Inr x'" for a bs x x'
    by (rule fold_res_invariant [where I = "\<lambda>z. view (snd z) = view (snd x)", OF that])
      (auto dest: print_edge_view)
  have "view (snd y) = view s"
  proof (rule fold_res_invariant [where I = "\<lambda>z. view (snd z) = view s", OF y])
    fix a x x' assume "view (snd x) = view s" and "bind_res (conn a (snd x)) (\<lambda>it. fold_res (print_edge v a) (fanout it) x) = Inr x'"
    then show "view (snd x') = view s" by (auto elim!: bind_res_InrE dest!: edges)
  qed simp
  then show ?thesis using s' by simp
qed

lemma StopRequests_log_view:
  "view (GetPhaseRequest s) = view s" "view (ListStopRequests s) = view s"
proof -
  show "view (GetPhaseRequest s) = view s" by (simp add: GetPhaseRequest_def)
  have "view (fold PrintStop rs t) = view t" for rs t
    by (induction rs arbitrary: t) (auto simp: PrintStop_def)
  then show "view (ListStopRequests s) = view s" by (simp add: ListStopRequests_def)
qed

lemma PhaseSrvCheck_view:
  "PhaseSrvCheckPhase n s = Inr (r, s') \<Longrightarrow> view s' = view s"
  "PhaseSrvCheckFuturePhase n a s = Inr (r, s') \<Longrightarrow> view s' = view s"
  unfolding PhaseSrvCheckPhase_def PhaseSrvCheckFuturePhase_def
  by (auto elim!: bind_res_InrE split: if_splits)

end

context command_view
begin

lemma add_request_view: "add_request n a s = (b, s') \<Longrightarrow> view s' = view s"
  by (auto simp: add_request_def bp_stop_request_struct_def Let_def split: if_splits)

lemma RequestStopPhase_view: "RequestStopPhase n a s = Inr (b, s') \<Longrightarrow> view s' = view s"
  unfolding RequestStopPhase_def
  by (auto elim!: bind_res_InrE split: if_splits dest!: PhaseSrvCheck_view add_request_view)

lemma CancelStopPhase_view [simp]: "view (CancelStopPhase n a s) = view s"
  by (simp add: CancelStopPhase_def)

lemma CancelPhaseRequests_view [simp]: "view (CancelPhaseRequests s) = view s"
  by (simp add: CancelPhaseRequests_def)

lemma Phase_Execute_view: "Phase_Execute m v s = Inr (x, s') \<Longrightarrow> view s' = view s"
  by (cases m) (auto simp: Phase_Execute_def Let_def StopRequests_log_view elim!: bind_res_InrE
      split: if_splits dest!: RequestStopPhase_view)

lemma broadcast_view: "broadcast custom cmd t s = Inr (x, s') \<Longrightarrow> view s' = view s"
  unfolding broadcast_def DoBroadcastCommand_def TraceResult_def AddBacklogCommand_def
  by (auto elim!: bind_res_InrE split: if_splits option.splits dest!: broadcast_loop_view)

lemma Execute_view: "Execute fuel given t c s = Some (Inr (x, s')) \<Longrightarrow> view s' = view s"
  by (cases c) (auto elim!: bind_fuel_SomeE bind_res_InrE
      dest!: PrintTree_Execute_view PrintConnections_Execute_view Phase_Execute_view broadcast_view)

lemma ExecuteCommand_view: "ExecuteCommand env fuel i cmd t s = Some (Inr (x, s')) \<Longrightarrow> view s' = view s"
  unfolding ExecuteCommand_def execute_predefined_def PrintCmdHelp_def PrintGenericCommandHelp_def
  by (auto simp: Let_def elim!: bind_fuel_SomeE
      split: if_splits prod.splits option.splits parse_status.splits
      dest!: GetCommand_view ParseCheckSyntax_view GenericCmdHelpRequired_view Execute_view broadcast_view)

end

end
