(* ===== verification/Bp_Provided.thy ===== *)
theory Bp_Provided
  imports Bp_Types Bp_Transport Bp_Tops Bp_Command
begin

text \<open>
  The functions the backplane gives to the adapters (\<open>bp_provided.cpp\<close>) and the two entry points
  of a simulator, \<open>uvm_ml_bp_bootstrap\<close> and \<open>uvm_ml_bp_elaborate\<close>. An argument passed by pointer
  is an argument and, where the function writes it, part of the result. A list of C strings that
  ends at a null pointer or at an empty string is the list of the strings before that one.
  Debug traces are left out.
\<close>

section \<open>Start and setup\<close>

text \<open>The state when the static members have been initialised, before the first call.\<close>

definition initial_state :: "'w \<Rightarrow> 'w bp_state" where
  "initial_state w =
     \<lparr>proxies = (\<lambda>_. None), framework_registry = [], frameworks_by_ind = [], connections = (\<lambda>_. None),
      port_registry = [], tops = (\<lambda>_. None), top_level_registry = [], top_arguments = [],
      test_component = null, test_instance_name = ''uvm_test_top'', child_proxy_registry = [],
      type_map = (\<lambda>_. None), next_type_id = 0, unregistered_types = [], unregistered_type_names = [],
      elaboration_passed = False, bp_trace_mode = 0, phase_srv = null, wakeup_srv = null,
      stopper_srv = null, print_srv = null, common_frmw = null, cmd_line_tops = [], cmd_line_tests = [],
      first_time_prerun_cleanup = True, top_level_static_size = 0, stop_requests = [], stop_last_id = 0,
      current_phase_name = [], first_phase = False, transaction_id = 0, debug_backlog = [],
      pack_max_size = -1, phase_service = None, bp_next = 1, log = [], world = w\<rparr>"

text \<open>
  The table of the common framework: all null but its phase and print services, which are not
  functions of an adapter and are modelled where they are called.
\<close>

definition getRequiredApi :: "'w frmw_api" where
  "getRequiredApi =
     \<lparr>setup_fns = \<lparr>set_trace_mode_ptr = None, startup_ptr = None, construct_top_ptr = None,
        get_top_component_for_arg_ptr = None, create_child_junction_node_ptr = None,
        find_connector_id_by_name_ptr = None, get_connector_intf_name_ptr = None,
        get_connector_type_ptr = None, is_export_connector_ptr = None, external_connect_ptr = None\<rparr>,
      phase_fns = \<lparr>transmit_phase_ptr = None, notify_phase_ptr = None, notify_runtime_phase_ptr = None,
        phase_srv_start_ptr = None, phase_srv_notify_phase_done_ptr = None, phase_srv_check_phase_ptr = None,
        phase_srv_check_future_phase_ptr = None, stopper_request_ptr = None, notify_command_ptr = None\<rparr>,
      tlm1_fns = \<lparr>try_put_ptr = None, can_put_ptr = None, put_request_ptr = None, get_ptr = None,
        get_request_ptr = None, get_requested_ptr = None, try_get_ptr = None, can_get_ptr = None,
        peek_ptr = None, peek_request_ptr = None, peek_requested_ptr = None, try_peek_ptr = None,
        can_peek_ptr = None\<rparr>,
      tlm2_fns = \<lparr>transport_request_ptr = None, transport_response_ptr = None, nb_transport_ptr = None,
        write_ptr = None, notify_end_blocking_ptr = None, tlm2_b_request_ptr = None,
        tlm2_b_response_ptr = None, tlm2_nb_fw_ptr = None, tlm2_nb_bw_ptr = None, tlm2_dbg_ptr = None,
        tlm2_turn_off_ptr = None\<rparr>,
      notify_fns = \<lparr>synchronize_ptr = None, notify_config_ptr = None, notify_event_ptr = None,
        notify_barrier_ptr = None, notify_time_cb_ptr = None, wakeup_register_ptr = None,
        wakeup_remove_ptr = None\<rparr>,
      tree_fns = \<lparr>get_num_children_ptr = None, get_child_name_ptr = None,
        get_component_type_name_ptr = None, is_port_ptr = None\<rparr>\<rparr>"

text \<open>\<open>GetCommonSrvFrmw\<close> makes the common framework while the library is loaded.\<close>

definition GetCommonSrvFrmw :: "'w bp_state \<Rightarrow> 'w bp_state res" where
  "GetCommonSrvFrmw = CommonServicesFramework getRequiredApi"

text \<open>The environment of a call: two shell variables, and what the commands read.\<close>

record bp_env =
  uvm_ml_debug_mode :: bool
  unilang_debug_mode :: bool
  cmd_env :: command_env

definition c_strings :: "string list \<Rightarrow> string list" where
  "c_strings = takeWhile (\<lambda>x. x \<noteq> [])"

definition uvm_ml_bp_bootstrap ::
  "bp_env \<Rightarrow> string list option \<Rightarrow> string list option \<Rightarrow> 'w bp_state \<Rightarrow> (bool \<times> 'w bp_state) res" where
  "uvm_ml_bp_bootstrap env uvmTops uvmTests s =
     bind_res (if unilang_debug_mode env then SetTraceMode 1 s else Inr s) (\<lambda>s.
       let args = (case uvmTops of None \<Rightarrow> [] | Some xs \<Rightarrow> c_strings xs);
           tests = (case uvmTests of None \<Rightarrow> [] | Some xs \<Rightarrow> c_strings xs)
       in Inr (Bootstrap args tests s))"

definition uvm_ml_bp_elaborate :: "bp_env \<Rightarrow> bool \<Rightarrow> 'w bp_state \<Rightarrow> (int \<times> 'w bp_state) res" where
  "uvm_ml_bp_elaborate env cbInfo = Elaborate (uvm_ml_debug_mode env) cbInfo"

definition bp_set_trace_mode :: "int \<Rightarrow> 'w bp_state \<Rightarrow> 'w bp_state res" where
  "bp_set_trace_mode = SetTraceMode"

definition bp_register_framework ::
  "bp_env \<Rightarrow> string \<Rightarrow> string list \<Rightarrow> 'w frmw_api option \<Rightarrow> 'w bp_state \<Rightarrow> (int \<times> 'w bp_state) res" where
  "bp_register_framework env framework_name framework_indicators framework_api s =
     bind_res (RegisterFramework framework_name (c_strings framework_indicators) framework_api s) (\<lambda>(i, s).
     bind_res (if uvm_ml_debug_mode env then SetTraceMode 1 s else Inr s) (\<lambda>s. Inr (i, s)))"

text \<open>The ids of a root node are passed as \<open>unsigned\<close> and read as \<open>int\<close>.\<close>

definition bp_add_root_node ::
  "uint \<Rightarrow> uint \<Rightarrow> string \<Rightarrow> string \<Rightarrow> 'w bp_state \<Rightarrow> (int \<times> 'w bp_state) res" where
  "bp_add_root_node adapter_id top_level_id comp_nm instance_name =
     AddRootNode (sint adapter_id) (sint top_level_id) comp_nm instance_name"

definition bp_reset :: "'w bp_state \<Rightarrow> 'w bp_state" where
  "bp_reset = Reset"

definition bp_interconnect_get_trace_mode :: "'w bp_state \<Rightarrow> int" where
  "bp_interconnect_get_trace_mode s = bp_trace_mode s"

definition bp_synchronize :: "int \<Rightarrow> time \<Rightarrow> 'w bp_state \<Rightarrow> 'w bp_state res" where
  "bp_synchronize = Synchronize"

definition bp_connect :: "uint \<Rightarrow> string \<Rightarrow> string \<Rightarrow> 'w bp_state \<Rightarrow> (uint \<times> 'w bp_state) res" where
  "bp_connect framework_id path1 path2 s =
     bind_res (RegisterRoute (sint framework_id) path1 path2 s) (\<lambda>(ok, s). Inr (if ok then 1 else 0, s))"

definition bp_get_connector_size :: "int \<Rightarrow> int \<Rightarrow> 'w bp_state \<Rightarrow> (int \<times> 'w bp_state) res" where
  "bp_get_connector_size = GetConnectorSize"

definition bp_create_child_junction_node ::
  "int \<Rightarrow> string \<Rightarrow> string \<Rightarrow> string \<Rightarrow> string \<Rightarrow> int \<Rightarrow> 'w bp_state \<Rightarrow> (int \<times> 'w bp_state) res" where
  "bp_create_child_junction_node framework_id target_framework_indicator component_type_name
     instance_name parent_full_name parent_junction_node_id =
     CreateChildJunctionNode framework_id target_framework_indicator component_type_name
       instance_name parent_full_name parent_junction_node_id"

definition bp_get_pack_max_size :: "int \<Rightarrow> 'w bp_state \<Rightarrow> int" where
  "bp_get_pack_max_size framework_id s = pack_max_size s"

definition bp_set_pack_max_size :: "int \<Rightarrow> int \<Rightarrow> 'w bp_state \<Rightarrow> 'w bp_state" where
  "bp_set_pack_max_size framework_id n s = s\<lparr>pack_max_size := n\<rparr>"

definition bp_register_srv_providers ::
  "uint \<Rightarrow> string option \<times> string option \<times> string option \<times> string option \<Rightarrow> 'w bp_state \<Rightarrow> 'w bp_state res" where
  "bp_register_srv_providers framework_id = (\<lambda>(phase_nm, wakeup_nm, stopper_nm, print_nm).
     RegisterSrvProviders phase_nm wakeup_nm stopper_nm print_nm)"

section \<open>Types\<close>

definition bp_get_type_id_from_name :: "int \<Rightarrow> string \<Rightarrow> 'w bp_state \<Rightarrow> (uint \<times> 'w bp_state) res" where
  "bp_get_type_id_from_name framework_id type_name = GetTypeIdByTypeName framework_id type_name"

definition bp_get_type_name_from_id :: "int \<Rightarrow> uint \<Rightarrow> 'w bp_state \<Rightarrow> string res" where
  "bp_get_type_name_from_id framework_id type_id = GetTypeNameByTypeId framework_id type_id True"

definition bp_set_match_types :: "int \<Rightarrow> string \<Rightarrow> string \<Rightarrow> 'w bp_state \<Rightarrow> (int \<times> 'w bp_state) res" where
  "bp_set_match_types framework_id type1 type2 s =
     bind_res (ParseTypeName type1) (\<lambda>bpType1.
     bind_res (ParseTypeName type2) (\<lambda>bpType2.
     bind_res (RegisterTypeMatch bpType1 bpType2 s) (\<lambda>(ok, s). Inr (if ok then 1 else 0, s))))"

section \<open>Transactions\<close>

text \<open>The true blocking calls are a message and \<open>assert(false)\<close>.\<close>

definition not_implemented :: "string \<Rightarrow> 'w bp_state \<Rightarrow> ('a \<times> 'w bp_state) res" where
  "not_implemented nm s = Inl Assert_Failure"

definition bp_nb_put :: "int \<Rightarrow> int \<Rightarrow> uint \<Rightarrow> stream \<Rightarrow> time \<Rightarrow> 'w bp_state \<Rightarrow> (int \<times> 'w bp_state) res" where
  "bp_nb_put = NbPut"

definition bp_can_put :: "int \<Rightarrow> int \<Rightarrow> time \<Rightarrow> 'w bp_state \<Rightarrow> (int \<times> 'w bp_state) res" where
  "bp_can_put = CanPut"

definition bp_put :: "int \<Rightarrow> int \<Rightarrow> uint \<Rightarrow> stream \<Rightarrow> time \<Rightarrow> 'w bp_state \<Rightarrow> (int \<times> 'w bp_state) res" where
  "bp_put framework_id producer_id stream_size strm t = not_implemented ''Put not implemented''"

definition as_uint :: "bool \<Rightarrow> uint" where
  "as_uint b = (if b then 1 else 0)"

definition bp_request_put ::
  "int \<Rightarrow> int \<Rightarrow> int \<Rightarrow> uint \<Rightarrow> stream \<Rightarrow> time \<Rightarrow> 'w bp_state \<Rightarrow> ((int \<times> uint) \<times> 'w bp_state) res" where
  "bp_request_put framework_id producer_id call_id stream_size strm t s =
     bind_res (RequestPut framework_id producer_id call_id stream_size strm t s)
       (\<lambda>((result, done_tmp), s). Inr ((result, as_uint done_tmp), s))"

definition bp_nb_get ::
  "int \<Rightarrow> int \<Rightarrow> uint \<Rightarrow> stream \<Rightarrow> time \<Rightarrow> 'w bp_state \<Rightarrow> ((int \<times> uint \<times> stream) \<times> 'w bp_state) res" where
  "bp_nb_get = NbGet"

definition bp_can_get :: "int \<Rightarrow> int \<Rightarrow> time \<Rightarrow> 'w bp_state \<Rightarrow> (int \<times> 'w bp_state) res" where
  "bp_can_get = CanGet"

definition bp_get :: "int \<Rightarrow> int \<Rightarrow> stream \<Rightarrow> time \<Rightarrow> 'w bp_state \<Rightarrow> (int \<times> 'w bp_state) res" where
  "bp_get framework_id producer_id strm t = not_implemented ''Get not implemented''"

definition bp_request_get ::
  "int \<Rightarrow> int \<Rightarrow> int \<Rightarrow> uint \<Rightarrow> stream \<Rightarrow> time \<Rightarrow>
   'w bp_state \<Rightarrow> ((int \<times> uint \<times> uint \<times> stream \<times> time) \<times> 'w bp_state) res" where
  "bp_request_get framework_id producer_id call_id stream_size strm t s =
     bind_res (RequestGet framework_id producer_id call_id stream_size strm t s)
       (\<lambda>((result, done_tmp, out), s). Inr ((result, as_uint done_tmp, out), s))"

definition bp_get_requested ::
  "int \<Rightarrow> int \<Rightarrow> int \<Rightarrow> stream \<Rightarrow> 'w bp_state \<Rightarrow> ((uint \<times> stream) \<times> 'w bp_state) res" where
  "bp_get_requested = GetRequested"

definition bp_nb_transport ::
  "int \<Rightarrow> int \<Rightarrow> uint \<Rightarrow> stream \<Rightarrow> uint \<Rightarrow> stream \<Rightarrow> time \<Rightarrow>
   'w bp_state \<Rightarrow> ((int \<times> uint \<times> stream) \<times> 'w bp_state) res" where
  "bp_nb_transport = NbTransportTLM1"

definition bp_transport ::
  "int \<Rightarrow> int \<Rightarrow> uint \<Rightarrow> stream \<Rightarrow> uint \<Rightarrow> stream \<Rightarrow> time \<Rightarrow> 'w bp_state \<Rightarrow> (int \<times> 'w bp_state) res" where
  "bp_transport framework_id producer_id req_size req rsp_size rsp t =
     not_implemented ''Transport not implemented''"

definition bp_request_transport ::
  "int \<Rightarrow> int \<Rightarrow> int \<Rightarrow> uint \<Rightarrow> stream \<Rightarrow> uint \<Rightarrow> stream \<Rightarrow> time \<Rightarrow>
   'w bp_state \<Rightarrow> ((int \<times> uint \<times> uint \<times> stream \<times> time) \<times> 'w bp_state) res" where
  "bp_request_transport framework_id producer_id call_id req_size req rsp_size rsp t s =
     bind_res (RequestTransportTLM1 framework_id producer_id call_id req_size req rsp_size rsp t s)
       (\<lambda>((result, done_tmp, out), s). Inr ((result, as_uint done_tmp, out), s))"

definition bp_transport_response ::
  "int \<Rightarrow> int \<Rightarrow> int \<Rightarrow> stream \<Rightarrow> 'w bp_state \<Rightarrow> ((int \<times> stream) \<times> 'w bp_state) res" where
  "bp_transport_response = TransportTLM1Response"

definition bp_write :: "int \<Rightarrow> int \<Rightarrow> uint \<Rightarrow> stream \<Rightarrow> time \<Rightarrow> 'w bp_state \<Rightarrow> 'w bp_state res" where
  "bp_write = Write"

definition bp_nb_peek ::
  "int \<Rightarrow> int \<Rightarrow> uint \<Rightarrow> stream \<Rightarrow> time \<Rightarrow> 'w bp_state \<Rightarrow> ((int \<times> uint \<times> stream) \<times> 'w bp_state) res" where
  "bp_nb_peek = NbPeek"

definition bp_can_peek :: "int \<Rightarrow> int \<Rightarrow> time \<Rightarrow> 'w bp_state \<Rightarrow> (int \<times> 'w bp_state) res" where
  "bp_can_peek = CanPeek"

definition bp_peek :: "int \<Rightarrow> int \<Rightarrow> stream \<Rightarrow> time \<Rightarrow> 'w bp_state \<Rightarrow> (uint \<times> 'w bp_state) res" where
  "bp_peek framework_id producer_id strm t = not_implemented ''Peek not implemented''"

definition bp_request_peek ::
  "int \<Rightarrow> int \<Rightarrow> int \<Rightarrow> uint \<Rightarrow> stream \<Rightarrow> time \<Rightarrow>
   'w bp_state \<Rightarrow> ((int \<times> uint \<times> uint \<times> stream \<times> time) \<times> 'w bp_state) res" where
  "bp_request_peek framework_id producer_id call_id stream_size strm t s =
     bind_res (RequestPeek framework_id producer_id call_id stream_size strm t s)
       (\<lambda>((result, done_tmp, out), s). Inr ((result, as_uint done_tmp, out), s))"

definition bp_peek_requested ::
  "int \<Rightarrow> int \<Rightarrow> int \<Rightarrow> stream \<Rightarrow> 'w bp_state \<Rightarrow> ((uint \<times> stream) \<times> 'w bp_state) res" where
  "bp_peek_requested = PeekRequested"

definition bp_b_transport_tlm2 ::
  "int \<Rightarrow> int \<Rightarrow> uint \<Rightarrow> stream \<Rightarrow> time \<Rightarrow> time \<Rightarrow> 'w bp_state \<Rightarrow> (int \<times> 'w bp_state) res" where
  "bp_b_transport_tlm2 framework_id initiator_id stream_size strm delay t =
     not_implemented ''bp_b_transport_tlm2 not implemented''"

definition bp_request_b_transport_tlm2 ::
  "int \<Rightarrow> int \<Rightarrow> int \<Rightarrow> uint \<Rightarrow> stream \<Rightarrow> time \<Rightarrow> time \<Rightarrow>
   'w bp_state \<Rightarrow> ((int \<times> uint \<times> uint \<times> stream) \<times> 'w bp_state) res" where
  "bp_request_b_transport_tlm2 framework_id initiator_id call_id stream_size strm delay t s =
     bind_res (RequestBTransportTLM2 framework_id initiator_id call_id stream_size strm delay t s)
       (\<lambda>((result, done_tmp, n, x, _), s). Inr ((result, as_uint done_tmp, n, x), s))"

definition bp_b_transport_tlm2_response ::
  "int \<Rightarrow> int \<Rightarrow> int \<Rightarrow> uint \<Rightarrow> stream \<Rightarrow> 'w bp_state \<Rightarrow> ((int \<times> uint \<times> stream) \<times> 'w bp_state) res" where
  "bp_b_transport_tlm2_response = BTransportTLM2Response"

definition bp_nb_transport_fw ::
  "int \<Rightarrow> int \<Rightarrow> uint \<Rightarrow> stream \<Rightarrow> tlm_phase \<Rightarrow> uint \<Rightarrow> time \<Rightarrow> time \<Rightarrow>
   'w bp_state \<Rightarrow> ((tlm_sync \<times> uint \<times> stream \<times> tlm_phase \<times> time) \<times> 'w bp_state) res" where
  "bp_nb_transport_fw framework_id initiator_id stream_size strm phase trx_id delay t =
     NbTransportFwTLM2 framework_id initiator_id stream_size strm phase trx_id delay t"

definition bp_nb_transport_bw ::
  "int \<Rightarrow> int \<Rightarrow> uint \<Rightarrow> stream \<Rightarrow> tlm_phase \<Rightarrow> uint \<Rightarrow> time \<Rightarrow> time \<Rightarrow>
   'w bp_state \<Rightarrow> ((tlm_sync \<times> uint \<times> stream \<times> tlm_phase \<times> time) \<times> 'w bp_state) res" where
  "bp_nb_transport_bw framework_id target_id stream_size strm phase trx_id delay t =
     NbTransportBwTLM2 framework_id target_id stream_size strm phase trx_id delay t"

definition bp_transport_dbg ::
  "int \<Rightarrow> int \<Rightarrow> uint \<Rightarrow> stream \<Rightarrow> time \<Rightarrow> 'w bp_state \<Rightarrow> ((uint \<times> uint \<times> stream) \<times> 'w bp_state) res" where
  "bp_transport_dbg = TransportDbgTLM2"

definition bp_assign_transaction_id :: "int \<Rightarrow> 'w bp_state \<Rightarrow> uint \<times> 'w bp_state" where
  "bp_assign_transaction_id = AssignTransactionId"

definition bp_turn_off_transaction_mapping :: "int \<Rightarrow> string \<Rightarrow> 'w bp_state \<Rightarrow> 'w bp_state res" where
  "bp_turn_off_transaction_mapping = TurnOffTransactionMapping"

text \<open>The framework that waits for the answer is the one called back.\<close>

definition bp_notify_end_blocking :: "int \<Rightarrow> int \<Rightarrow> int \<Rightarrow> time \<Rightarrow> 'w bp_state \<Rightarrow> 'w bp_state res" where
  "bp_notify_end_blocking framework_id callback_framework_id call_id t =
     NotifyEndBlocking callback_framework_id call_id t"

section \<open>Phases, notifications, commands\<close>

definition bp_notify_phase ::
  "uint \<Rightarrow> string \<Rightarrow> string \<Rightarrow> phase_action \<Rightarrow> 'w bp_state \<Rightarrow> (int \<times> 'w bp_state) res" where
  "bp_notify_phase = NotifyPhase"

definition bp_transmit_phase ::
  "uint \<Rightarrow> string \<Rightarrow> int \<Rightarrow> string \<Rightarrow> string \<Rightarrow> phase_action \<Rightarrow> 'w bp_state \<Rightarrow> (int \<times> 'w bp_state) res" where
  "bp_transmit_phase = TransmitPhase"

text \<open>The result of \<open>NotifyRuntimePhase\<close> is dropped, the count of participants returned by pointer.\<close>

definition bp_notify_runtime_phase ::
  "uint \<Rightarrow> string \<Rightarrow> string \<Rightarrow> phase_action \<Rightarrow> time \<Rightarrow> 'w bp_state \<Rightarrow> (uint \<times> 'w bp_state) res" where
  "bp_notify_runtime_phase framework_id phase_group phase_name phase_action t s =
     bind_res (NotifyRuntimePhase framework_id phase_group phase_name phase_action t s)
       (\<lambda>((_, n), s). Inr (n, s))"

definition bp_notify_phase_done :: "uint \<Rightarrow> string \<Rightarrow> string \<Rightarrow> time \<Rightarrow> 'w bp_state \<Rightarrow> 'w bp_state res" where
  "bp_notify_phase_done = PhaseSrvNotifyPhaseDone"

text \<open>Resources are not passed on.\<close>

definition bp_notify_resource ::
  "int \<Rightarrow> nat \<Rightarrow> string \<Rightarrow> string \<Rightarrow> string \<Rightarrow> uint \<Rightarrow> stream \<Rightarrow> time \<Rightarrow> 'w bp_state \<Rightarrow> int \<times> 'w bp_state" where
  "bp_notify_resource framework_id action item_scope item_name accessor_name stream_size strm t s = (1, s)"

definition bp_notify_config ::
  "uint \<Rightarrow> string \<Rightarrow> string \<Rightarrow> string \<Rightarrow> uint \<Rightarrow> stream \<Rightarrow> time \<Rightarrow> 'w bp_state \<Rightarrow> 'w bp_state res" where
  "bp_notify_config framework_id = NotifyConfig (sint framework_id)"

definition bp_register_time_cb :: "int \<Rightarrow> time \<Rightarrow> nat \<Rightarrow> 'w bp_state \<Rightarrow> (int \<times> 'w bp_state) res" where
  "bp_register_time_cb = RegisterTimeCallback"

definition bp_remove_time_cb :: "int \<Rightarrow> int \<Rightarrow> 'w bp_state \<Rightarrow> (int \<times> 'w bp_state) res" where
  "bp_remove_time_cb = RemoveTimeCallback"

definition bp_notify_time_cb :: "int \<Rightarrow> int \<Rightarrow> time \<Rightarrow> nat \<Rightarrow> 'w bp_state \<Rightarrow> 'w bp_state res" where
  "bp_notify_time_cb = NotifyTimeCallback"

definition bp_print_request :: "string \<Rightarrow> 'w bp_state \<Rightarrow> 'w bp_state" where
  "bp_print_request msg = PrintMessage msg []"

definition bp_execute_command ::
  "bp_env \<Rightarrow> nat \<Rightarrow> int \<Rightarrow> string \<Rightarrow> time \<Rightarrow> 'w bp_state \<Rightarrow> (exec_status \<times> 'w bp_state) res option" where
  "bp_execute_command env fuel framework_id cmd t = ExecuteCommand (cmd_env env) fuel framework_id cmd t"

definition bp_notify_event ::
  "int \<Rightarrow> string \<Rightarrow> string \<Rightarrow> nat \<Rightarrow> uint \<Rightarrow> stream \<Rightarrow> time \<Rightarrow> 'w bp_state \<Rightarrow> 'w bp_state res" where
  "bp_notify_event = NotifyEvent"

definition bp_notify_barrier ::
  "int \<Rightarrow> string \<Rightarrow> string \<Rightarrow> nat \<Rightarrow> int \<Rightarrow> time \<Rightarrow> 'w bp_state \<Rightarrow> 'w bp_state res" where
  "bp_notify_barrier = NotifyBarrier"

end
