(* ===== verification/Bp_Calls.thy ===== *)
theory Bp_Calls
  imports Bp_Provided
begin

text \<open>
  The function tray of the backplane (\<open>fillCApiTray\<close> in \<open>bp_provided.cpp\<close>) as one machine: a call
  is a constructor with the arguments of its function, \<open>bp_do\<close> runs the function it names and
  keeps the state, and \<open>bp_reach\<close> holds of the states a sequence of calls leads to. Between two
  calls the adapters may change their own state as they like. A function that only reads is no
  call here.
\<close>

section \<open>The calls\<close>

datatype 'w setup_call =
  Set_Trace_Mode int
| Register_Framework string "string list" "'w frmw_api option"
| Add_Root_Node uint uint string string
| Run_Test int "string list" "string option"
| Connect uint string string
| Get_Connector_Size int int
| Get_Type_Id int string
| Set_Match_Types int string string
| Create_Child_Junction_Node int string string string string int
| Reset_All
| Register_Srv_Providers uint "string option \<times> string option \<times> string option \<times> string option"
| Set_Pack_Max_Size int int
| Bootstrap_Tops "string list option" "string list option"
| Elaborate_Tops bool

datatype tlm_call =
  Put_True int int uint stream time
| Nb_Put int int uint stream time
| Can_Put int int time
| Notify_End_Blocking int int int time
| Get_True int int stream time
| Nb_Get int int uint stream time
| Can_Get int int time
| Transport int int uint stream uint stream time
| Nb_Transport int int uint stream uint stream time
| Write_All int int uint stream time
| Request_Put int int int uint stream time
| Request_Get int int int uint stream time
| Get_Requested int int int stream
| Peek_True int int stream time
| Request_Peek int int int uint stream time
| Peek_Requested int int int stream
| Nb_Peek int int uint stream time
| Can_Peek int int time
| Request_Transport int int int uint stream uint stream time
| Transport_Response int int int stream
| B_Transport int int uint stream time time
| Request_B_Transport int int int uint stream time time
| B_Transport_Response int int int uint stream
| Nb_Transport_Fw int int uint stream tlm_phase uint time time
| Nb_Transport_Bw int int uint stream tlm_phase uint time time
| Transport_Dbg int int uint stream time
| Assign_Transaction_Id int
| Turn_Off_Transaction_Mapping int string

datatype notify_call =
  Synchronize_Time int time
| Notify_Phase uint string string phase_action
| Transmit_Phase uint string int string string phase_action
| Notify_Runtime_Phase uint string string phase_action time
| Notify_Phase_Done uint string string time
| Notify_Resource int nat string string string uint stream time
| Notify_Config uint string string string uint stream time
| Register_Time_Cb int time nat
| Remove_Time_Cb int int
| Notify_Time_Cb int int time nat
| Print_Request string
| Notify_Event int string string nat uint stream time
| Notify_Barrier int string string nat int time

datatype 'w bp_call = Setup "'w setup_call" | Tlm tlm_call | Notify notify_call | Command nat int string time

section \<open>What they do\<close>

definition state_of :: "('a \<times> 'w bp_state) res \<Rightarrow> 'w bp_state res" where
  "state_of r = bind_res r (\<lambda>(_, s). Inr s)"

lemma state_of_Inr_iff: "state_of r = Inr s \<longleftrightarrow> (\<exists>x. r = Inr (x, s))"
  by (auto simp: state_of_def bind_res_Inr_iff)

primrec setup_do :: "bp_env \<Rightarrow> 'w setup_call \<Rightarrow> 'w bp_state \<Rightarrow> 'w bp_state res" where
  "setup_do env (Set_Trace_Mode m) s = bp_set_trace_mode m s"
| "setup_do env (Register_Framework nm inds api) s = state_of (bp_register_framework env nm inds api s)"
| "setup_do env (Add_Root_Node i j c inst) s = state_of (bp_add_root_node i j c inst s)"
| "setup_do env (Run_Test i args test) s = state_of (bp_run_test (uvm_ml_debug_mode env) i args test s)"
| "setup_do env (Connect i x y) s = state_of (bp_connect i x y s)"
| "setup_do env (Get_Connector_Size i k) s = state_of (bp_get_connector_size i k s)"
| "setup_do env (Get_Type_Id i n) s = state_of (bp_get_type_id_from_name i n s)"
| "setup_do env (Set_Match_Types i t u) s = state_of (bp_set_match_types i t u s)"
| "setup_do env (Create_Child_Junction_Node i ind c inst parent j) s =
     state_of (bp_create_child_junction_node i ind c inst parent j s)"
| "setup_do env Reset_All s = Inr (bp_reset s)"
| "setup_do env (Register_Srv_Providers i ps) s = bp_register_srv_providers i ps s"
| "setup_do env (Set_Pack_Max_Size i n) s = Inr (bp_set_pack_max_size i n s)"
| "setup_do env (Bootstrap_Tops xs ys) s = state_of (uvm_ml_bp_bootstrap env xs ys s)"
| "setup_do env (Elaborate_Tops cb) s = state_of (uvm_ml_bp_elaborate env cb s)"

primrec tlm_do :: "tlm_call \<Rightarrow> 'w bp_state \<Rightarrow> 'w bp_state res" where
  "tlm_do (Put_True i k n x t) s = state_of (bp_put i k n x t s)"
| "tlm_do (Nb_Put i k n x t) s = state_of (bp_nb_put i k n x t s)"
| "tlm_do (Can_Put i k t) s = state_of (bp_can_put i k t s)"
| "tlm_do (Notify_End_Blocking i j q t) s = bp_notify_end_blocking i j q t s"
| "tlm_do (Get_True i k x t) s = state_of (bp_get i k x t s)"
| "tlm_do (Nb_Get i k n x t) s = state_of (bp_nb_get i k n x t s)"
| "tlm_do (Can_Get i k t) s = state_of (bp_can_get i k t s)"
| "tlm_do (Transport i k n x m y t) s = state_of (bp_transport i k n x m y t s)"
| "tlm_do (Nb_Transport i k n x m y t) s = state_of (bp_nb_transport i k n x m y t s)"
| "tlm_do (Write_All i k n x t) s = bp_write i k n x t s"
| "tlm_do (Request_Put i k q n x t) s = state_of (bp_request_put i k q n x t s)"
| "tlm_do (Request_Get i k q n x t) s = state_of (bp_request_get i k q n x t s)"
| "tlm_do (Get_Requested i k q x) s = state_of (bp_get_requested i k q x s)"
| "tlm_do (Peek_True i k x t) s = state_of (bp_peek i k x t s)"
| "tlm_do (Request_Peek i k q n x t) s = state_of (bp_request_peek i k q n x t s)"
| "tlm_do (Peek_Requested i k q x) s = state_of (bp_peek_requested i k q x s)"
| "tlm_do (Nb_Peek i k n x t) s = state_of (bp_nb_peek i k n x t s)"
| "tlm_do (Can_Peek i k t) s = state_of (bp_can_peek i k t s)"
| "tlm_do (Request_Transport i k q n x m y t) s = state_of (bp_request_transport i k q n x m y t s)"
| "tlm_do (Transport_Response i k q x) s = state_of (bp_transport_response i k q x s)"
| "tlm_do (B_Transport i k n x d t) s = state_of (bp_b_transport_tlm2 i k n x d t s)"
| "tlm_do (Request_B_Transport i k q n x d t) s = state_of (bp_request_b_transport_tlm2 i k q n x d t s)"
| "tlm_do (B_Transport_Response i k q n x) s = state_of (bp_b_transport_tlm2_response i k q n x s)"
| "tlm_do (Nb_Transport_Fw i k n x ph trx d t) s = state_of (bp_nb_transport_fw i k n x ph trx d t s)"
| "tlm_do (Nb_Transport_Bw i k n x ph trx d t) s = state_of (bp_nb_transport_bw i k n x ph trx d t s)"
| "tlm_do (Transport_Dbg i k n x t) s = state_of (bp_transport_dbg i k n x t s)"
| "tlm_do (Assign_Transaction_Id i) s = Inr (snd (bp_assign_transaction_id i s))"
| "tlm_do (Turn_Off_Transaction_Mapping i nm) s = bp_turn_off_transaction_mapping i nm s"

primrec notify_do :: "notify_call \<Rightarrow> 'w bp_state \<Rightarrow> 'w bp_state res" where
  "notify_do (Synchronize_Time i t) s = bp_synchronize i t s"
| "notify_do (Notify_Phase i grp ph act) s = state_of (bp_notify_phase i grp ph act s)"
| "notify_do (Transmit_Phase i ind j grp ph act) s = state_of (bp_transmit_phase i ind j grp ph act s)"
| "notify_do (Notify_Runtime_Phase i grp ph act t) s = state_of (bp_notify_runtime_phase i grp ph act t s)"
| "notify_do (Notify_Phase_Done i grp ph t) s = bp_notify_phase_done i grp ph t s"
| "notify_do (Notify_Resource i act scope nm acc n x t) s =
     Inr (snd (bp_notify_resource i act scope nm acc n x t s))"
| "notify_do (Notify_Config i c inst fld n x t) s = bp_notify_config i c inst fld n x t s"
| "notify_do (Register_Time_Cb i t d) s = state_of (bp_register_time_cb i t d s)"
| "notify_do (Remove_Time_Cb i h) s = state_of (bp_remove_time_cb i h s)"
| "notify_do (Notify_Time_Cb i j t d) s = bp_notify_time_cb i j t d s"
| "notify_do (Print_Request msg) s = Inr (bp_print_request msg s)"
| "notify_do (Notify_Event i scope ev act n x t) s = bp_notify_event i scope ev act n x t s"
| "notify_do (Notify_Barrier i scope bar act n t) s = bp_notify_barrier i scope bar act n t s"

text \<open>\<open>None\<close> is only for a command that does not end within its fuel.\<close>

fun bp_do :: "bp_env \<Rightarrow> 'w bp_call \<Rightarrow> 'w bp_state \<Rightarrow> 'w bp_state res option" where
  "bp_do env (Setup c) s = Some (setup_do env c s)"
| "bp_do env (Tlm c) s = Some (tlm_do c s)"
| "bp_do env (Notify c) s = Some (notify_do c s)"
| "bp_do env (Command fuel i cmd t) s = map_option state_of (bp_execute_command env fuel i cmd t s)"

section \<open>Reachable states\<close>

text \<open>\<open>bp_reach env n s\<close>: \<open>n\<close> calls led from the start to \<open>s\<close>, none of them failing.\<close>

inductive bp_reach :: "bp_env \<Rightarrow> nat \<Rightarrow> 'w bp_state \<Rightarrow> bool" for env where
  start: "GetCommonSrvFrmw (initial_state w) = Inr s \<Longrightarrow> bp_reach env 0 s"
| call: "bp_reach env n s \<Longrightarrow> bp_do env c s = Some (Inr s') \<Longrightarrow> bp_reach env (Suc n) s'"
| adapter: "bp_reach env n s \<Longrightarrow> bp_reach env n (s\<lparr>world := w\<rparr>)"

inductive_cases bp_reach_0E: "bp_reach env 0 s"

text \<open>Several calls in a row.\<close>

fun bp_run :: "bp_env \<Rightarrow> 'w bp_call list \<Rightarrow> 'w bp_state \<Rightarrow> 'w bp_state res option" where
  "bp_run env [] s = Some (Inr s)"
| "bp_run env (c # cs) s = bind_fuel (bp_do env c s) (bp_run env cs)"

lemma bp_reach_run:
  "bp_reach env n s \<Longrightarrow> bp_run env cs s = Some (Inr s') \<Longrightarrow> bp_reach env (n + length cs) s'"
proof (induction cs arbitrary: n s)
  case (Cons c cs)
  then obtain t where "bp_do env c s = Some (Inr t)" "bp_run env cs t = Some (Inr s')"
    by (auto simp: bind_fuel_def split: option.splits sum.splits)
  then show ?case using Cons.IH [OF bp_reach.call [OF Cons.prems(1)]] by fastforce
qed simp

section \<open>What transactions and notifications leave alone\<close>

locale traffic_view = schedule_view + start_view +
  assumes view_transaction_id [simp]: "view (s\<lparr>transaction_id := i\<rparr>) = view s"
    and view_pack_max_size [simp]: "view (s\<lparr>pack_max_size := n\<rparr>) = view s"
begin

lemma tlm_do_view: "tlm_do c s = Inr s' \<Longrightarrow> view s' = view s"
  by (cases c)
    (auto simp: state_of_Inr_iff not_implemented_def AssignTransactionId_def
       bp_put_def bp_nb_put_def bp_can_put_def bp_notify_end_blocking_def bp_get_def bp_nb_get_def bp_can_get_def
       bp_transport_def bp_nb_transport_def bp_write_def bp_request_put_def bp_request_get_def bp_get_requested_def
       bp_peek_def bp_request_peek_def bp_peek_requested_def bp_nb_peek_def bp_can_peek_def
       bp_request_transport_def bp_transport_response_def bp_b_transport_tlm2_def bp_request_b_transport_tlm2_def
       bp_b_transport_tlm2_response_def bp_nb_transport_fw_def bp_nb_transport_bw_def bp_transport_dbg_def
       bp_assign_transaction_id_def bp_turn_off_transaction_mapping_def
       elim!: bind_res_InrE
       dest: provider_calls_view requests_view Write_view other_tlm_view)

lemma notify_do_view: "notify_do c s = Inr s' \<Longrightarrow> view s' = view s"
  by (cases c)
    (auto simp: state_of_Inr_iff bp_synchronize_def bp_notify_phase_def bp_transmit_phase_def
       bp_notify_runtime_phase_def bp_notify_phase_done_def bp_notify_resource_def bp_notify_config_def
       bp_register_time_cb_def bp_remove_time_cb_def bp_notify_time_cb_def bp_print_request_def
       bp_notify_event_def bp_notify_barrier_def
       elim!: bind_res_InrE
       dest: notifications_view callbacks_view NotifyPhase_view TransmitPhase_view NotifyRuntimePhase_view
         PhaseSrvNotifyPhaseDone_view)

end

text \<open>A debug command may change the stop requests, which \<open>command_view\<close> leaves out of the view.\<close>

locale adapter_view = traffic_view + command_view
begin

lemma bp_do_view:
  assumes "bp_do env c s = Some (Inr s')" and "\<And>d. c \<noteq> Setup d"
  shows "view s' = view s"
proof (cases c)
  case (Command fuel i cmd t)
  then obtain x where "ExecuteCommand (cmd_env env) fuel i cmd t s = Some (Inr (x, s'))"
    using assms(1) by (auto simp: bp_execute_command_def state_of_Inr_iff)
  then show ?thesis by (rule ExecuteCommand_view)
qed (use assms tlm_do_view notify_do_view in auto)

end

end
