(* ===== verification/Bp_Invariant.thy ===== *)
theory Bp_Invariant
  imports Bp_Calls
begin

text \<open>
  The invariants of the backplane's state over sequences of calls. Each invariant reads one view
  of the state; an operation that leaves the view alone keeps the invariant (locale
  \<open>kept_invariant\<close>, interpreted for every invariant), and what is left to prove is the handful of
  setup calls that change the view.
\<close>

section \<open>The views\<close>

definition registry_view :: "'w bp_state \<Rightarrow> (addr \<Rightarrow> (int \<times> string) option) \<times> addr list" where
  "registry_view s = (map_option (\<lambda>f. (frmw_id f, frmw_name f)) \<circ> proxies s, framework_registry s)"

definition graph_view ::
  "'w bp_state \<Rightarrow> (addr \<Rightarrow> (int \<times> addr) list option) \<times> (addr \<Rightarrow> connection option) \<times> addr list" where
  "graph_view s = (map_option m_connections \<circ> proxies s, connections s, port_registry s)"

definition type_view :: "'w bp_state \<Rightarrow>
  (addr \<Rightarrow> ((string \<times> uint) list \<times> (uint \<times> string) list \<times> (uint \<times> addr) list) option) \<times>
  (addr \<Rightarrow> type_entry option) \<times> uint \<times> (string \<times> uint) list \<times> (uint \<times> string) list" where
  "type_view s = (map_option (\<lambda>f. (m_type_entries f, m_type_names f, m_registered_types f)) \<circ> proxies s,
     type_map s, next_type_id s, unregistered_types s, unregistered_type_names s)"

definition top_view ::
  "'w bp_state \<Rightarrow> addr set \<times> (addr \<Rightarrow> top_descriptor option) \<times> addr list \<times> bool \<times> nat" where
  "top_view s = (dom (proxies s), tops s, top_level_registry s, first_time_prerun_cleanup s, top_level_static_size s)"

definition provider_view_of :: "'w bp_state \<Rightarrow> addr set \<times> addr list" where
  "provider_view_of s = (dom (proxies s), [common_frmw s, phase_srv s, wakeup_srv s, stopper_srv s, print_srv s])"

lemmas view_defs = registry_view_def graph_view_def type_view_def top_view_def provider_view_of_def

text \<open>Changing one proxy leaves a projection of all proxies alone when it agrees there.\<close>

lemma project_set_proxy:
  "proxies s p = Some f \<Longrightarrow> g f' = g f \<Longrightarrow> map_option g \<circ> proxies (set_proxy p f' s) = map_option g \<circ> proxies s"
  by (auto simp: set_proxy_def fun_eq_iff)

lemma dom_set_proxy: "proxies s p = Some f \<Longrightarrow> dom (proxies (set_proxy p f' s)) = dom (proxies s)"
  by (auto simp: set_proxy_def)

lemma set_proxy_fields [simp]:
  "framework_registry (set_proxy p f s) = framework_registry s" "connections (set_proxy p f s) = connections s"
  "port_registry (set_proxy p f s) = port_registry s" "type_map (set_proxy p f s) = type_map s"
  "next_type_id (set_proxy p f s) = next_type_id s" "unregistered_types (set_proxy p f s) = unregistered_types s"
  "unregistered_type_names (set_proxy p f s) = unregistered_type_names s" "tops (set_proxy p f s) = tops s"
  "top_level_registry (set_proxy p f s) = top_level_registry s"
  "first_time_prerun_cleanup (set_proxy p f s) = first_time_prerun_cleanup s"
  "top_level_static_size (set_proxy p f s) = top_level_static_size s"
  "common_frmw (set_proxy p f s) = common_frmw s" "phase_srv (set_proxy p f s) = phase_srv s"
  "wakeup_srv (set_proxy p f s) = wakeup_srv s" "stopper_srv (set_proxy p f s) = stopper_srv s"
  "print_srv (set_proxy p f s) = print_srv s" "bp_next (set_proxy p f s) = bp_next s"
  by (simp_all add: set_proxy_def)

interpretation registry: adapter_view registry_view
  by unfold_locales (simp_all add: registry_view_def project_set_proxy)

interpretation graph: adapter_view graph_view
  by unfold_locales (simp_all add: graph_view_def project_set_proxy)

interpretation types: adapter_view type_view
  by unfold_locales (simp_all add: type_view_def project_set_proxy)

interpretation tops: adapter_view top_view
  by unfold_locales (simp_all add: top_view_def dom_set_proxy)

interpretation provider: adapter_view provider_view_of
  by unfold_locales (simp_all add: provider_view_of_def dom_set_proxy)

interpretation next_addr: adapter_view bp_next
  by unfold_locales simp_all

text \<open>Which setup operations leave which views alone.\<close>

interpretation registry: junction_view registry_view
  by unfold_locales (simp add: registry_view_def)

interpretation graph: junction_view graph_view
  by unfold_locales (simp add: graph_view_def)

interpretation types: junction_view type_view
  by unfold_locales (simp add: type_view_def)

interpretation tops: junction_view top_view
  by unfold_locales (simp add: top_view_def)

interpretation provider: junction_view provider_view_of
  by unfold_locales (simp add: provider_view_of_def)

interpretation next_addr: junction_view bp_next
  by unfold_locales simp

interpretation registry: route_view registry_view
  by unfold_locales (simp_all add: registry_view_def project_set_proxy)

interpretation types: route_view type_view
  by unfold_locales (simp_all add: type_view_def project_set_proxy)

interpretation tops: route_view top_view
  by unfold_locales (simp_all add: top_view_def dom_set_proxy)

interpretation provider: route_view provider_view_of
  by unfold_locales (simp_all add: provider_view_of_def dom_set_proxy)

interpretation registry: types_view registry_view
  by unfold_locales (simp_all add: registry_view_def project_set_proxy)

interpretation graph: types_view graph_view
  by unfold_locales (simp_all add: graph_view_def project_set_proxy)

interpretation tops: types_view top_view
  by unfold_locales (simp_all add: top_view_def dom_set_proxy)

interpretation provider: types_view provider_view_of
  by unfold_locales (simp_all add: provider_view_of_def dom_set_proxy)

interpretation registry: cleanup_view registry_view
  by unfold_locales (simp_all add: registry_view_def project_set_proxy)

interpretation types: cleanup_view type_view
  by unfold_locales (simp_all add: type_view_def project_set_proxy)

interpretation provider: cleanup_view provider_view_of
  by unfold_locales (simp_all add: provider_view_of_def dom_set_proxy)

interpretation graph: tops_view graph_view
  by unfold_locales (simp_all add: graph_view_def project_set_proxy)

interpretation tops: arguments_view top_view
  by unfold_locales (simp_all add: top_view_def)

interpretation next_addr: arguments_view bp_next
  by unfold_locales simp_all

interpretation registry: provider_view registry_view
  by unfold_locales (simp_all add: registry_view_def)

interpretation graph: provider_view graph_view
  by unfold_locales (simp_all add: graph_view_def)

interpretation types: provider_view type_view
  by unfold_locales (simp_all add: type_view_def)

interpretation tops: provider_view top_view
  by unfold_locales (simp_all add: top_view_def)

interpretation next_addr: provider_view bp_next
  by unfold_locales simp_all

section \<open>Invariants over a view\<close>

locale kept_invariant = adapter_view view for view :: "'w bp_state \<Rightarrow> 'v" +
  fixes I :: "'w bp_state \<Rightarrow> bool"
  assumes kept: "view s' = view s \<Longrightarrow> bp_next s \<le> bp_next s' \<Longrightarrow> I s \<Longrightarrow> I s'"
begin

lemma bp_do_kept:
  assumes "bp_do env c s = Some (Inr s')" and "\<And>d. c \<noteq> Setup d" and "I s"
  shows "I s'"
  by (rule kept [OF bp_do_view [OF assms(1,2)] _ assms(3)])
    (simp add: next_addr.bp_do_view [OF assms(1,2)])

lemma kept_eq: "view s' = view s \<Longrightarrow> bp_next s' = bp_next s \<Longrightarrow> I s \<Longrightarrow> I s'"
  by (rule kept) simp_all

end

lemma project_at: "map_option g \<circ> m' = map_option g \<circ> m \<Longrightarrow> map_option g (m' p) = map_option g (m p)"
  by (metis comp_apply)

lemma project_dom:
  assumes "map_option g \<circ> m' = map_option g \<circ> m"
  shows "dom m' = dom m"
proof -
  have "m' p = None \<longleftrightarrow> m p = None" for p using project_at [OF assms, of p] by (metis option.map_disc_iff)
  then show ?thesis by (simp add: dom_def)
qed

lemma dom_bound_mono:
  "\<forall>p \<in> dom m. 0 < p \<and> p < b \<Longrightarrow> b \<le> b' \<Longrightarrow> \<forall>p \<in> dom m. 0 < p \<and> p < (b' :: nat)"
  by (meson less_le_trans)

lemma registry_view_proxies:
  fixes s s' :: "'w bp_state"
  assumes "registry_view s' = registry_view s" and "proxies s p = Some f"
  shows "\<exists>f'. proxies s' p = Some f' \<and> frmw_id f' = frmw_id f \<and> frmw_name f' = frmw_name f"
proof -
  have "map_option (\<lambda>f. (frmw_id f, frmw_name f)) (proxies s' p) = Some (frmw_id f, frmw_name f)"
    using assms project_at [of "\<lambda>f. (frmw_id f, frmw_name f)" "proxies s'" "proxies s" p]
    by (simp add: registry_view_def)
  then show ?thesis by auto
qed

lemma registry_view_dom:
  fixes s s' :: "'w bp_state"
  shows "registry_view s' = registry_view s \<Longrightarrow> dom (proxies s') = dom (proxies s)"
  using project_dom [of "\<lambda>f. (frmw_id f, frmw_name f)" "proxies s'" "proxies s"] by (simp add: registry_view_def)

lemma registry_ok_kept:
  fixes s s' :: "'w bp_state"
  assumes v: "registry_view s' = registry_view s" and b: "bp_next s \<le> bp_next s'" and ok: "registry_ok s"
  shows "registry_ok s'"
proof -
  have r: "framework_registry s' = framework_registry s" using v by (simp add: registry_view_def)
  have names: "frmw_name (the (proxies s' p)) = frmw_name (the (proxies s p))" if "p \<in> set (framework_registry s)" for p
    using registry_view_proxies [OF v] registry_ok_in [OF ok that] by (metis option.sel)
  have "sorted_wrt (\<lambda>p q. \<not> same_ignoring_case (frmw_name (the (proxies s' p))) (frmw_name (the (proxies s' q))))
      (framework_registry s)"
  proof (rule sorted_wrt_mono_rel)
    show "sorted_wrt (\<lambda>p q. \<not> same_ignoring_case (frmw_name (the (proxies s p))) (frmw_name (the (proxies s q))))
        (framework_registry s)" using ok by (simp add: registry_ok_def)
  qed (simp add: names)
  moreover have "\<exists>f. proxies s' (framework_registry s ! i) = Some f \<and> frmw_id f = int i"
    if "i < length (framework_registry s)" for i
    using registry_ok_nth [OF ok that] registry_view_proxies [OF v] by metis
  moreover have "\<forall>p \<in> dom (proxies s'). 0 < p \<and> p < bp_next s'"
    using ok b dom_bound_mono [of "proxies s" "bp_next s" "bp_next s'"]
    unfolding registry_ok_def registry_view_dom [OF v] by blast
  moreover have "0 < bp_next s'" using ok b by (simp add: registry_ok_def)
  ultimately show ?thesis unfolding registry_ok_def r by blast
qed

lemma conn_ok_kept:
  fixes s s' :: "'w bp_state"
  assumes v: "graph_view s' = graph_view s" and b: "bp_next s \<le> bp_next s'" and ok: "conn_ok s"
  shows "conn_ok s'"
proof -
  have c: "connections s' = connections s" "port_registry s' = port_registry s"
    using v by (simp_all add: graph_view_def)
  have m: "map_option m_connections (proxies s' p) = map_option m_connections (proxies s p)" for p
    using v project_at [of m_connections "proxies s'" "proxies s" p] by (simp add: graph_view_def)
  have "tables_ok s'"
    unfolding tables_ok_def
  proof (intro allI impI)
    fix p f k a assume f: "proxies s' p = Some f" "map_of (m_connections f) k = Some a"
    then obtain g where g: "proxies s p = Some g" "m_connections g = m_connections f"
      using m [of p] by (cases "proxies s p") auto
    have "tables_ok s" using ok by (simp add: conn_ok_def)
    from this [unfolded tables_ok_def, rule_format, of p g k a] g f(2)
    show "a \<in> dom (connections s') \<and> c_frmw (cn s' a) = p \<and> c_bind_key (cn s' a) = k"
      unfolding c by simp
  qed
  moreover have "\<forall>a \<in> dom (connections s'). 0 < a \<and> a < bp_next s'"
    using ok b dom_bound_mono [of "connections s" "bp_next s" "bp_next s'"] unfolding conn_ok_def c by blast
  moreover have "0 < bp_next s'" using ok b by (simp add: conn_ok_def)
  ultimately show ?thesis using ok by (simp add: conn_ok_def c)
qed

lemma types_ok_kept:
  fixes s s' :: "'w bp_state"
  assumes v: "type_view s' = type_view s" and b: "bp_next s \<le> bp_next s'" and ok: "types_ok s"
  shows "types_ok s'"
proof -
  have c: "type_map s' = type_map s" "next_type_id s' = next_type_id s" "unregistered_types s' = unregistered_types s"
      "unregistered_type_names s' = unregistered_type_names s"
    using v by (simp_all add: type_view_def)
  let ?g = "\<lambda>f. (m_type_entries f, m_type_names f, m_registered_types f)"
  have m: "map_option ?g (proxies s' p) = map_option ?g (proxies s p)" for p
    using v project_at [of ?g "proxies s'" "proxies s" p] by (simp add: type_view_def)
  show ?thesis
  proof (rule types_okI)
    fix p f assume "proxies s' p = Some f"
    then obtain g where g: "proxies s p = Some g" "?g g = ?g f"
      using m [of p] by (cases "proxies s p") auto
    then show "frmw_types_ok s' f" using types_ok_frmw [OF ok g(1)] by (simp add: frmw_types_ok_def c)
  qed (use ok b in \<open>auto simp: types_ok_def unregistered_ok_def c intro: less_le_trans\<close>)
qed

text \<open>Tops also keep the first ones, which a cleanup goes back to.\<close>

definition tops_inv :: "'w bp_state \<Rightarrow> bool" where
  "tops_inv s \<longleftrightarrow> tops_ok s \<and> 
     (first_time_prerun_cleanup s \<or> top_level_static_size s \<le> length (top_level_registry s))"

lemma tops_inv_kept: "top_view s' = top_view s \<Longrightarrow> bp_next s \<le> bp_next s' \<Longrightarrow> tops_inv s \<Longrightarrow> tops_inv s'"
  by (simp add: tops_inv_def tops_ok_def top_view_def) blast

text \<open>Every service provider is a live proxy or null, the common framework is live.\<close>

definition providers_ok :: "'w bp_state \<Rightarrow> bool" where
  "providers_ok s \<longleftrightarrow> common_frmw s \<in> dom (proxies s) \<and>
     (\<forall>p \<in> {phase_srv s, wakeup_srv s, stopper_srv s, print_srv s}. p \<noteq> null \<longrightarrow> p \<in> dom (proxies s))"

lemma providers_ok_kept:
  "provider_view_of s' = provider_view_of s \<Longrightarrow> bp_next s \<le> bp_next s' \<Longrightarrow> providers_ok s \<Longrightarrow> providers_ok s'"
  by (simp add: providers_ok_def provider_view_of_def)

interpretation registry: kept_invariant registry_view registry_ok
  by unfold_locales (rule registry_ok_kept)

interpretation graph: kept_invariant graph_view conn_ok
  by unfold_locales (rule conn_ok_kept)

interpretation types: kept_invariant type_view types_ok
  by unfold_locales (rule types_ok_kept)

interpretation tops: kept_invariant top_view tops_inv
  by unfold_locales (rule tops_inv_kept)

interpretation provider: kept_invariant provider_view_of providers_ok
  by unfold_locales (rule providers_ok_kept)

end
