(* ===== verification/Bp_Reach.thy ===== *)
theory Bp_Reach
  imports Bp_Invariant
begin

text \<open>
  Every reachable state of the backplane is well formed: what the setup calls do to the
  invariants of \<open>Bp_Invariant\<close>. The induction over the calls is in \<open>Bp_Reachable\<close>.
\<close>

section \<open>Addresses only grow\<close>

lemma RegisterFramework_cases:
  assumes "RegisterFramework nm inds api s = Inr (i, s')" and "bp_next s \<noteq> null"
  obtains l where "s' = s\<lparr>log := l\<rparr>"
  | ind f where "GetFrameworkProxyByName nm s = null" and "api \<noteq> None"
      and "s' = s\<lparr>proxies := (proxies s)(bp_next s \<mapsto> f), framework_registry := framework_registry s @ [bp_next s],
         frameworks_by_ind := ind, bp_next := Suc (bp_next s)\<rparr>"
      and "m_connections f = []" and "m_type_entries f = []" and "m_type_names f = []" and "m_registered_types f = []"
      and "\<not> true_blocking f" and "fake_blocking f"
proof (cases api)
  case None
  then show ?thesis using assms(1) that(1) by (auto simp: RegisterFramework_def message_def)
next
  case (Some a)
  show ?thesis
  proof (cases "GetFrameworkProxyByName nm s = null")
    case False
    then have "s' = s" using assms(1) Some by (auto simp: RegisterFramework_def Let_def elim!: bind_res_InrE)
    then show ?thesis using that(1) [of "log s"] by simp
  next
    case True
    obtain ind where "addFramework nm inds a s =
        (bp_next s, s\<lparr>proxies := (proxies s)(bp_next s \<mapsto> new_frmw (int (length (framework_registry s))) nm inds a),
           framework_registry := framework_registry s @ [bp_next s], frameworks_by_ind := ind,
           bp_next := Suc (bp_next s)\<rparr>)" using addFramework_eq [of nm inds a s] by blast
    then show ?thesis using assms True Some
      by (intro that(2) [where ind = ind and
          f = "BacklogCommands (debug_backlog s) (new_frmw (int (length (framework_registry s))) nm inds a)"])
        (auto simp: RegisterFramework_def Let_def proxy_def set_proxy_def BacklogCommands_def new_frmw_def)
  qed
qed

lemma GetTypeId_one: "GetTypeIdByTypeName i n s = Inr (j, s') \<Longrightarrow> one_id s s'"
  by (auto simp: GetTypeIdByTypeName_def elim!: bind_res_InrE dest!: frmw_GetTypeId_one)

lemma PushTopLevel_next: "PushTopLevel p a s = Inr s' \<Longrightarrow> bp_next s' = bp_next s"
  by (auto simp: PushTopLevel_def elim!: bind_res_InrE)

lemma AddTopLevel_next: "AddTopLevel a s = Inr s' \<Longrightarrow> bp_next s' = bp_next s"
  by (auto simp: AddTopLevel_def Let_def elim!: bind_res_InrE split: if_splits)

lemma frmw_AddTopLevel_next: "frmw_AddTopLevel p a s = Inr s' \<Longrightarrow> bp_next s' = Suc (bp_next s)"
  by (auto simp: frmw_AddTopLevel_def BpTopDescriptorClass_def elim!: bind_res_InrE
      dest!: PushTopLevel_next AddTopLevel_next)

lemma AddRootNode_next: "AddRootNode i j c inst s = Inr (r, s') \<Longrightarrow> bp_next s \<le> bp_next s'"
  by (auto simp: AddRootNode_def BpTopDescriptorClass_def message_def Let_def elim!: bind_res_InrE
      split: option.splits if_splits dest!: PushTopLevel_next AddTopLevel_next)

lemma setComponentFrameworks_next: "setComponentFrameworks s = Inr s' \<Longrightarrow> bp_next s \<le> bp_next s'"
  unfolding setComponentFrameworks_def
proof (erule fold_res_invariant [where I = "\<lambda>t. bp_next s \<le> bp_next t"])
  fix j t t' assume "SetFrameworkTopLevelComponent j t = Inr t'" "bp_next s \<le> bp_next t"
  then show "bp_next s \<le> bp_next t'"
    by (auto simp: SetFrameworkTopLevelComponent_def message_def Let_def elim!: bind_res_InrE split: if_splits
        dest!: frmw_AddTopLevel_next)
qed simp

lemma instantiate_tops_next: "instantiate_tops as s = Inr (ok, s') \<Longrightarrow> bp_next s' = bp_next s"
proof (induction "as" arbitrary: s)
  case (Cons a "as")
  have "bp_next t' = bp_next t" if "Instantiate a t = Inr (i, t')" for i and t t' :: "'a bp_state"
    using that by (auto simp: Instantiate_def InstantiateTopLevel_def elim!: bind_res_InrE split: if_splits
        dest!: next_addr.frmw_call_view)
  then show ?case using Cons by (auto elim!: bind_res_InrE split: if_splits)
qed simp

lemma Elaborate_next: "Elaborate d cb s = Inr (r, s') \<Longrightarrow> bp_next s \<le> bp_next s'"
  unfolding Elaborate_def
  by (auto elim!: bind_res_InrE split: if_splits
      dest!: next_addr.SetTraceMode_view setComponentFrameworks_next next_addr.startup_frameworks_view
        instantiate_tops_next next_addr.StartPhasing_view)

lemma keep_static_tops_next [simp]: "bp_next (keep_static_tops s) = bp_next s"
  by (simp add: keep_static_tops_def)

lemma PreRunCleanup_next [simp]: "bp_next (PreRunCleanup s) = bp_next s"
  by (auto simp: PreRunCleanup_def Let_def split: prod.splits dest!: next_addr.ProcessTopsAndTests_view)

lemma bp_run_test_next: "bp_run_test d i args test s = Inr (r, s') \<Longrightarrow> bp_next s \<le> bp_next s'"
  by (auto simp: bp_run_test_def Let_def split: prod.splits if_splits
      dest!: next_addr.ProcessTopsAndTests_view Elaborate_next)

section \<open>A new framework\<close>

lemma conn_ok_new_proxy:
  assumes ok: "conn_ok s" and f: "m_connections f = []"
  shows "conn_ok (s\<lparr>proxies := (proxies s)(a \<mapsto> f), framework_registry := r, frameworks_by_ind := ind,
    bp_next := Suc (bp_next s)\<rparr>)" (is "conn_ok ?s")
proof -
  have t: "tables_ok s" using ok by (simp add: conn_ok_def)
  have "tables_ok ?s" unfolding tables_ok_def
  proof (intro allI impI)
    fix p g k x assume "proxies ?s p = Some g" "map_of (m_connections g) k = Some x"
    then have "proxies s p = Some g" using f by (auto split: if_splits)
    from t [unfolded tables_ok_def, rule_format, OF this \<open>map_of (m_connections g) k = Some x\<close>]
    show "x \<in> dom (connections ?s) \<and> c_frmw (cn ?s x) = p \<and> c_bind_key (cn ?s x) = k" by simp
  qed
  moreover have "\<forall>x \<in> dom (connections s). 0 < x \<and> x < Suc (bp_next s)"
    using ok dom_bound_mono [of "connections s" "bp_next s" "Suc (bp_next s)"] by (simp add: conn_ok_def)
  ultimately show ?thesis using ok by (simp add: conn_ok_def)
qed

lemma types_ok_new_proxy:
  assumes ok: "types_ok s" and f: "m_type_entries f = []" "m_type_names f = []" "m_registered_types f = []"
  shows "types_ok (s\<lparr>proxies := (proxies s)(a \<mapsto> f), framework_registry := r, frameworks_by_ind := ind,
    bp_next := Suc (bp_next s)\<rparr>)" (is "types_ok ?s")
proof (rule types_okI)
  fix p g assume "proxies ?s p = Some g"
  then show "frmw_types_ok ?s g"
    using types_ok_frmw [OF ok, of p g] f by (auto simp: frmw_types_ok_def split: if_splits)
next
  show "\<forall>p \<in> dom (type_map ?s). p < bp_next ?s" using ok by (simp add: types_ok_def less_Suc_eq)
qed (use ok in \<open>simp_all add: types_ok_def unregistered_ok_def\<close>)

lemma tops_inv_new_proxy:
  "tops_inv s \<Longrightarrow> tops_inv (s\<lparr>proxies := (proxies s)(a \<mapsto> f), framework_registry := r, frameworks_by_ind := ind,
     bp_next := b\<rparr>)"
  unfolding tops_inv_def tops_ok_def by simp (metis neq0_conv)

lemma providers_ok_new_proxy:
  "providers_ok s \<Longrightarrow> providers_ok (s\<lparr>proxies := (proxies s)(a \<mapsto> f), framework_registry := r,
     frameworks_by_ind := ind, bp_next := b\<rparr>)"
  by (auto simp: providers_ok_def)

text \<open>All but the type tables.\<close>

definition bp_ok :: "'w bp_state \<Rightarrow> bool" where
  "bp_ok s \<longleftrightarrow> registry_ok s \<and> conn_ok s \<and> tops_inv s \<and> providers_ok s"

lemma bp_ok_kept:
  fixes s s' :: "'w bp_state"
  assumes "bp_ok s" and "registry_view s' = registry_view s" and "graph_view s' = graph_view s"
    and "top_view s' = top_view s" and "provider_view_of s' = provider_view_of s" and "bp_next s \<le> bp_next s'"
  shows "bp_ok s'"
  using assms registry.kept graph.kept tops.kept provider.kept unfolding bp_ok_def by blast

lemma bp_ok_log: "bp_ok s \<Longrightarrow> bp_ok (s\<lparr>log := l\<rparr>)"
  by (rule bp_ok_kept [of s]) simp_all

lemma types_ok_log: "types_ok s \<Longrightarrow> types_ok (s\<lparr>log := l\<rparr>)"
  by (rule types.kept [of _ s]) simp_all

lemma RegisterFramework_ok:
  assumes ok: "bp_ok s" and r: "RegisterFramework nm inds api s = Inr (i, s')"
  shows "bp_ok s' \<and> bp_next s \<le> bp_next s' \<and> next_type_id s' = next_type_id s \<and> (types_ok s \<longrightarrow> types_ok s')"
proof -
  have "bp_next s \<noteq> null" using ok by (simp add: bp_ok_def registry_ok_def)
  from RegisterFramework_cases [OF r this] show ?thesis
  proof cases
    case 1
    then show ?thesis using ok bp_ok_log types_ok_log by auto
  next
    case (2 ind f)
    obtain a where a: "api = Some a" using 2(2) by blast
    have "registry_ok s'" using RegisterFramework_registered [OF _ r [unfolded a]] ok by (simp add: bp_ok_def)
    then show ?thesis using ok 2
      by (auto simp: bp_ok_def intro: conn_ok_new_proxy types_ok_new_proxy tops_inv_new_proxy providers_ok_new_proxy)
  qed
qed

lemma SetTraceMode_ok:
  assumes "SetTraceMode m s = Inr s'"
  shows "(bp_ok s \<longrightarrow> bp_ok s') \<and> bp_next s' = bp_next s \<and> next_type_id s' = next_type_id s \<and>
    (types_ok s \<longrightarrow> types_ok s')"
proof -
  note v = registry.SetTraceMode_view [OF assms] graph.SetTraceMode_view [OF assms] tops.SetTraceMode_view [OF assms]
    provider.SetTraceMode_view [OF assms] types.SetTraceMode_view [OF assms]
  have b: "bp_next s' = bp_next s" using next_addr.SetTraceMode_view [OF assms] .
  have "bp_ok s'" if "bp_ok s" by (rule bp_ok_kept [OF that v(1-4)]) (simp add: b)
  moreover have "types_ok s'" if "types_ok s" by (rule types.kept [OF v(5) _ that]) (simp add: b)
  moreover have "next_type_id s' = next_type_id s" using v(5) by (simp add: type_view_def)
  ultimately show ?thesis using b by blast
qed

section \<open>Tops\<close>

definition live_top :: "addr \<Rightarrow> 'w bp_state \<Rightarrow> bool" where
  "live_top a s \<longleftrightarrow> a \<noteq> null \<and> (\<exists>d. tops s a = Some d \<and> td_frmw d \<noteq> null \<and> proxies s (td_frmw d) \<noteq> None)"

lemma tops_ok_live: "tops_ok s \<longleftrightarrow> (\<forall>a \<in> set (top_level_registry s). live_top a s)"
  by (simp add: tops_ok_def live_top_def)

lemma live_top_kept: "top_view s' = top_view s \<Longrightarrow> live_top a s' = live_top a s"
  unfolding live_top_def top_view_def by (metis Pair_inject domIff)

lemma BpTopDescriptorClass_ok:
  assumes "BpTopDescriptorClass a p i s = (t, s1)" and "bp_next s \<noteq> null" and "p \<noteq> null" and "proxies s p \<noteq> None"
  shows "live_top t s1 \<and> (tops_inv s \<longrightarrow> tops_inv s1)"
  using assms by (auto simp: BpTopDescriptorClass_def live_top_def tops_inv_def tops_ok_def)

lemma PushTopLevel_top_view:
  assumes "PushTopLevel p a s = Inr s'"
  shows "top_view s' = top_view s"
proof -
  obtain f g where "proxies s p = Some f" and "s' = set_proxy p g s"
    using assms by (auto simp: PushTopLevel_def elim!: bind_res_InrE dest!: proxy_InrD)
  then show ?thesis by (simp add: top_view_def dom_set_proxy)
qed

lemma AddTopLevel_inv: "AddTopLevel a s = Inr s' \<Longrightarrow> live_top a s \<Longrightarrow> tops_inv s \<Longrightarrow> tops_inv s'"
  by (auto simp: AddTopLevel_def Let_def tops_inv_def tops_ok_live live_top_def elim!: bind_res_InrE split: if_splits)

lemma AddTopLevel_live: "AddTopLevel a s = Inr s' \<Longrightarrow> live_top b s' = live_top b s"
  by (auto simp: AddTopLevel_def Let_def live_top_def elim!: bind_res_InrE split: if_splits)

lemma frmw_AddTopLevel_inv:
  assumes s': "frmw_AddTopLevel p a s = Inr s'" and "bp_next s \<noteq> null" and "p \<noteq> null" and "proxies s p \<noteq> None"
    and inv: "tops_inv s"
  shows "tops_inv s'"
proof -
  obtain t s1 where t: "BpTopDescriptorClass a p (-1) s = (t, s1)" by fastforce
  then obtain s2 where s2: "AddTopLevel t s1 = Inr s2" and p: "PushTopLevel p t s2 = Inr s'"
    using s' by (auto simp: frmw_AddTopLevel_def elim!: bind_res_InrE)
  have "tops_inv s2" using BpTopDescriptorClass_ok [OF t assms(2-4)] AddTopLevel_inv [OF s2] inv by blast
  from tops.kept_eq [OF PushTopLevel_top_view [OF p] PushTopLevel_next [OF p] this] show ?thesis .
qed

lemma AddRootNode_inv:
  assumes s': "AddRootNode i j c inst s = Inr (r, s')" and b: "bp_next s \<noteq> null" and inv: "tops_inv s"
  shows "tops_inv s'"
proof -
  obtain p f where f: "proxy p s = Inr f" and rest: "(case find (top_has_instance s inst) (top_level_registry s) of
         Some a \<Rightarrow>
           bind_res (deref (tops s) a) (\<lambda>d.
             if td_frmw d = p then Inr (0, s)
             else Inr (-1, SERROR ''multiple top levels with the same name in different languages: top name is '%s' '' [inst] s))
       | None \<Rightarrow>
           let a = BpTopDescriptorBaseClass (frmw_name f) c inst (inst = test_instance_name s);
               (topp, s) = BpTopDescriptorClass a p j s
           in bind_res (PushTopLevel p topp s) (\<lambda>s. bind_res (AddTopLevel topp s) (\<lambda>s. Inr (1, s)))) = Inr (r, s')"
    using s' by (auto simp: AddRootNode_def elim!: bind_res_InrE)
  show ?thesis
  proof (cases "find (top_has_instance s inst) (top_level_registry s)")
    case (Some a)
    then have "top_view s' = top_view s" "bp_next s' = bp_next s"
      using rest by (auto elim!: bind_res_InrE split: if_splits)
    then show ?thesis using tops.kept_eq inv by blast
  next
    case None
    let ?a = "BpTopDescriptorBaseClass (frmw_name f) c inst (inst = test_instance_name s)"
    obtain t s1 where t: "BpTopDescriptorClass ?a p j s = (t, s1)" by fastforce
    then obtain s2 where s2: "PushTopLevel p t s1 = Inr s2" and s3: "AddTopLevel t s2 = Inr s'"
      using rest None by (auto simp: Let_def elim!: bind_res_InrE)
    have "proxies s p \<noteq> None" "p \<noteq> null" using proxy_InrD [OF f] by auto
    then have "live_top t s1" "tops_inv s1" using BpTopDescriptorClass_ok [OF t b] inv by auto
    then have "live_top t s2" "tops_inv s2"
      using live_top_kept [OF PushTopLevel_top_view [OF s2]]
        tops.kept_eq [OF PushTopLevel_top_view [OF s2] PushTopLevel_next [OF s2]] by auto
    then show ?thesis using AddTopLevel_inv [OF s3] by blast
  qed
qed

lemma SetFrameworkTopLevelComponent_cases:
  assumes "SetFrameworkTopLevelComponent j s = Inr s'"
  obtains "top_view s' = top_view s" and "bp_next s' = bp_next s"
  | p a args where "p \<noteq> null" and "proxies s p \<noteq> None"
      and "frmw_AddTopLevel p a (s\<lparr>top_arguments := args\<rparr>) = Inr s'"
proof -
  let ?a = "top_arguments s ! j"
  obtain p where rest: "(if p = null then
          Inr (SERROR ''-uvmtest or -uvmtop argument '%s' has been specified in language '%s', but no adapter for that language has been registered''
                 [ta_identifier ?a, ta_indicator ?a] s)
        else
          bind_res (GetTopComponentForArg p (ta_identifier ?a) s) (\<lambda>topName.
            if topName \<noteq> [] then
              let a = (if topName \<noteq> ta_identifier ?a then ?a\<lparr>ta_instance := topName\<rparr> else ?a)
              in frmw_AddTopLevel p a (s\<lparr>top_arguments := (top_arguments s)[j := a]\<rparr>)
            else Inr s)) = Inr s'"
    using assms by (auto simp: SetFrameworkTopLevelComponent_def Let_def elim!: bind_res_InrE)
  show ?thesis
  proof (cases "p = null")
    case True
    then show ?thesis using rest that(1) by auto
  next
    case False
    then obtain n where n: "GetTopComponentForArg p (ta_identifier ?a) s = Inr n"
      using rest by (auto elim!: bind_res_InrE)
    then have p: "proxies s p \<noteq> None" by (auto simp: GetTopComponentForArg_def elim!: bind_res_InrE dest!: proxy_InrD)
    show ?thesis
    proof (cases "n = []")
      case True
      then show ?thesis using rest n False that(1) by auto
    next
      case n': False
      show ?thesis by (rule that(2) [OF False p]) (use rest n n' False in \<open>simp add: Let_def\<close>)
    qed
  qed
qed

lemma setComponentFrameworks_inv:
  assumes "setComponentFrameworks s = Inr s'" and "bp_next s \<noteq> null" and "tops_inv s"
  shows "tops_inv s'"
proof -
  have "bp_next s' \<noteq> null \<and> tops_inv s'"
  proof (rule fold_res_invariant [where I = "\<lambda>t. bp_next t \<noteq> null \<and> tops_inv t", OF assms(1) [unfolded setComponentFrameworks_def]])
    fix j t t' assume t': "SetFrameworkTopLevelComponent j t = Inr t'" and t: "bp_next t \<noteq> null \<and> tops_inv t"
    show "bp_next t' \<noteq> null \<and> tops_inv t'"
    proof (rule SetFrameworkTopLevelComponent_cases [OF t'])
      assume "top_view t' = top_view t" "bp_next t' = bp_next t"
      then show ?thesis using t tops.kept_eq by auto
    next
      fix p a args assume p: "p \<noteq> null" "proxies t p \<noteq> None"
        and t': "frmw_AddTopLevel p a (t\<lparr>top_arguments := args\<rparr>) = Inr t'"
      have "tops_inv (t\<lparr>top_arguments := args\<rparr>)" using t by (simp add: tops_inv_def tops_ok_def)
      then show ?thesis using frmw_AddTopLevel_inv [OF t'] frmw_AddTopLevel_next [OF t'] t p by simp
    qed
  qed (use assms in simp)
  then show ?thesis by blast
qed

lemma Instantiate_inv:
  assumes i: "Instantiate a s = Inr (i, s')" and inv: "tops_inv s"
  shows "tops_inv s'"
proof -
  obtain d where d: "tops s a = Some d" using i by (auto simp: Instantiate_def deref_Inr_iff elim!: bind_res_InrE)
  have t: "map_option td_frmw (tops s' x) = map_option td_frmw (tops s x)" for x
    using i d by (auto simp: Instantiate_def InstantiateTopLevel_def frmw_call_def deref_Inr_iff elim!: bind_res_InrE
        split: if_splits option.splits prod.splits)
  have "proxies s' = proxies s" "top_level_registry s' = top_level_registry s"
      "first_time_prerun_cleanup s' = first_time_prerun_cleanup s" "top_level_static_size s' = top_level_static_size s"
    using i by (auto simp: Instantiate_def InstantiateTopLevel_def frmw_call_def elim!: bind_res_InrE
        split: if_splits option.splits prod.splits)
  moreover have "live_top x s'" if "live_top x s" for x
    using that t [of x] calculation(1) by (auto simp: live_top_def)
  ultimately show ?thesis using inv by (simp add: tops_inv_def tops_ok_live)
qed

lemma instantiate_tops_inv: "instantiate_tops as s = Inr (ok, s') \<Longrightarrow> tops_inv s \<Longrightarrow> tops_inv s'"
proof (induction "as" arbitrary: s)
  case (Cons a "as")
  then show ?case by (auto elim!: bind_res_InrE split: if_splits dest!: Instantiate_inv)
qed simp

lemma Elaborate_inv:
  assumes e: "Elaborate debug_mode cb s = Inr (r, s')" and b: "bp_next s \<noteq> null" and inv: "tops_inv s"
  shows "tops_inv s'"
proof (cases "elaboration_passed s \<or> (cb \<and> top_arguments s = [])")
  case True
  then have "top_view s' = top_view s" "bp_next s' = bp_next s" using e by (auto simp: Elaborate_def split: if_splits)
  then show ?thesis using tops.kept_eq inv by blast
next
  case False
  let ?s = "s\<lparr>elaboration_passed := True\<rparr>"
  have "bind_res (if debug_mode then SetTraceMode 1 ?s else Inr ?s) (\<lambda>s.
      bind_res (setComponentFrameworks s) (\<lambda>s.
      bind_res (startup_frameworks (framework_registry s) s) (\<lambda>(ok, s).
        if \<not> ok then Inr (0, ErrorMsg ''Elaborate failed'' [] s)
        else
          bind_res (instantiate_tops (top_level_registry s) s) (\<lambda>(ok, s).
            if \<not> ok then Inr (0, s)
            else bind_res (StartPhasing s) (\<lambda>s. Inr (1, s)))))) = Inr (r, s')"
    using e False unfolding Elaborate_def by (simp only: de_Morgan_disj if_False)
  then obtain s1 s2 x3 where s1: "(if debug_mode then SetTraceMode 1 ?s else Inr ?s) = Inr s1"
    and s2: "setComponentFrameworks s1 = Inr s2"
    and s3: "startup_frameworks (framework_registry s2) s2 = Inr x3"
    and r1: "(case x3 of (ok, s) \<Rightarrow>
        if \<not> ok then Inr (0, ErrorMsg ''Elaborate failed'' [] s)
        else
          bind_res (instantiate_tops (top_level_registry s) s) (\<lambda>(ok, s).
            if \<not> ok then Inr (0, s)
            else bind_res (StartPhasing s) (\<lambda>s. Inr (1, s)))) = Inr (r, s')"
    by (elim bind_res_InrE) blast
  obtain ok s3 where x3: "x3 = (ok, s3)" by fastforce
  note s3 = s3 [unfolded x3] and rest = r1 [unfolded x3 prod.case]
  have "tops_inv ?s" using inv by (simp add: tops_inv_def tops_ok_def)
  moreover have "top_view s1 = top_view ?s" "bp_next s1 = bp_next ?s"
    using s1 tops.SetTraceMode_view [of 1 ?s s1] next_addr.SetTraceMode_view [of 1 ?s s1]
    by (auto split: if_split_asm)
  ultimately have i1: "tops_inv s1" "bp_next s1 = bp_next s"
    using tops.kept_eq [of s1 ?s] by simp_all
  have i2: "tops_inv s2" using setComponentFrameworks_inv [OF s2] i1 b by simp
  have i3: "tops_inv s3"
    using tops.kept_eq [OF tops.startup_frameworks_view [OF s3] next_addr.startup_frameworks_view [OF s3] i2] .
  show ?thesis
  proof (cases ok)
    case False
    then show ?thesis using rest i3 tops.kept_eq [of s' s3] by auto
  next
    case True
    then obtain ok2 s4 where s4: "instantiate_tops (top_level_registry s3) s3 = Inr (ok2, s4)"
      and r: "(if \<not> ok2 then Inr (0, s4) else bind_res (StartPhasing s4) (\<lambda>s. Inr (1, s))) = Inr (r, s')"
      using rest by (auto elim!: bind_res_InrE)
    have i4: "tops_inv s4" using instantiate_tops_inv [OF s4 i3] .
    show ?thesis
    proof (cases ok2)
      case False
      then show ?thesis using r i4 by simp
    next
      case True
      then have s': "StartPhasing s4 = Inr s'" using r by (auto elim!: bind_res_InrE)
      show ?thesis using tops.kept_eq [OF tops.StartPhasing_view [OF s'] next_addr.StartPhasing_view [OF s'] i4] .
    qed
  qed
qed

section \<open>Cleanups\<close>

context arguments_view
begin

lemma PreRunCleanup_cleared:
  "view (PreRunCleanup s) =
     view ((keep_static_tops (s\<lparr>port_registry := [], child_proxy_registry := [], elaboration_passed := False\<rparr>))
       \<lparr>test_component := null, test_instance_name := ''uvm_test_top'', top_arguments := []\<rparr>)"
  by (auto simp: PreRunCleanup_def Let_def simp del: view_top_arguments split: prod.splits
      dest!: ProcessTopsAndTests_view)

end

lemma graph_ok_no_ports: "graph_ok reg cs \<Longrightarrow> graph_ok [] cs"
  by (simp add: graph_ok_def)

lemma conn_ok_no_ports: "conn_ok s \<Longrightarrow> conn_ok (s\<lparr>port_registry := []\<rparr>)"
  by (auto simp: conn_ok_def tables_ok_def intro: graph_ok_no_ports)

lemma PreRunCleanup_conn_ok: "conn_ok s \<Longrightarrow> conn_ok (PreRunCleanup s)"
proof (rule graph.kept_eq [of _ "s\<lparr>port_registry := []\<rparr>"])
  show "graph_view (PreRunCleanup s) = graph_view (s\<lparr>port_registry := []\<rparr>)"
    unfolding graph.PreRunCleanup_cleared by (simp add: graph_view_def keep_static_tops_def)
qed (simp_all add: conn_ok_no_ports)

lemma tops_ok_subset: "tops_ok s \<Longrightarrow> set as \<subseteq> set (top_level_registry s) \<Longrightarrow> tops_ok (s\<lparr>top_level_registry := as\<rparr>)"
  by (auto simp: tops_ok_def)

lemma keep_static_tops_inv: "tops_inv s \<Longrightarrow> tops_inv (keep_static_tops s)"
  using tops_ok_subset [of s "take (top_level_static_size s) (top_level_registry s)"]
  by (auto simp: tops_inv_def keep_static_tops_def tops_ok_def resize_def dest: in_set_takeD)

lemma PreRunCleanup_inv:
  assumes "tops_inv s"
  shows "tops_inv (PreRunCleanup s)"
proof -
  let ?s = "s\<lparr>port_registry := [], child_proxy_registry := [], elaboration_passed := False\<rparr>"
  have "tops_inv ?s" using assms by (simp add: tops_inv_def tops_ok_def)
  then have "tops_inv (keep_static_tops ?s)" by (rule keep_static_tops_inv)
  then show ?thesis
    by (rule tops.kept_eq [rotated 2])
      (simp_all add: tops.PreRunCleanup_cleared, simp_all add: top_view_def)
qed

lemma PreRunCleanup_ok: "bp_ok s \<Longrightarrow> bp_ok (PreRunCleanup s)"
  using registry.kept_eq [of "PreRunCleanup s" s] provider.kept_eq [of "PreRunCleanup s" s]
  by (simp add: bp_ok_def PreRunCleanup_conn_ok PreRunCleanup_inv)

lemma Reset_ok:
  assumes ok: "bp_ok s"
  shows "bp_ok (Reset s) \<and> bp_next (Reset s) = bp_next s"
proof -
  let ?s = "s\<lparr>framework_registry := [], frameworks_by_ind := [], cmd_line_tops := [], cmd_line_tests := []\<rparr>"
  have "registry_ok ?s" using ok by (simp add: bp_ok_def registry_ok_def)
  moreover have "conn_ok ?s" using ok by (simp add: bp_ok_def conn_ok_def tables_ok_def)
  moreover have "tops_inv ?s" using ok by (simp add: bp_ok_def tops_inv_def tops_ok_def)
  moreover have "providers_ok ?s" using ok by (simp add: bp_ok_def providers_ok_def)
  ultimately have clean: "bp_ok (PreRunCleanup ?s)" by (intro PreRunCleanup_ok) (simp add: bp_ok_def)
  let ?t = "BpDebugClass_Reset (PreRunCleanup ?s)"
  let ?u = "?t\<lparr>first_time_prerun_cleanup := True, top_level_static_size := 0, top_level_registry := []\<rparr>"
  have t: "bp_ok ?t" "bp_next ?t = bp_next s"
    by (rule bp_ok_kept [OF clean]) (simp_all add: BpDebugClass_Reset_def)
  have "registry_ok ?u" using t by (intro registry.kept_eq [of ?u ?t]) (simp_all add: bp_ok_def)
  moreover have "conn_ok ?u" using t by (simp add: bp_ok_def conn_ok_def tables_ok_def)
  moreover have "tops_inv ?u" by (simp add: tops_inv_def tops_ok_def)
  moreover have "providers_ok ?u" using t by (intro provider.kept_eq [of ?u ?t]) (simp_all add: bp_ok_def)
  ultimately show ?thesis using t by (simp add: Reset_def Let_def bp_ok_def)
qed

lemma Reset_types: "type_view (Reset s) = type_view s"
proof -
  let ?s = "s\<lparr>framework_registry := [], frameworks_by_ind := [], cmd_line_tops := [], cmd_line_tests := []\<rparr>"
  have "type_view ?s = type_view s" by (simp add: type_view_def)
  then show ?thesis by (simp add: Reset_def Let_def BpDebugClass_Reset_def)
qed

section \<open>Service providers\<close>

lemma findServiceFrmw_live:
  assumes "findServiceFrmw n s = Inr p" and "registry_ok s" and "providers_ok s" and "p \<noteq> null"
  shows "p \<in> dom (proxies s)"
proof -
  have "p = common_frmw s \<or> p = GetFrameworkProxyByName n s"
    using assms(1) by (auto simp: findServiceFrmw_def elim!: bind_res_InrE split: if_splits)
  then show ?thesis
    using assms(3) GetFrameworkProxyByName_found [OF assms(2) refl, of n] assms(4) registry_ok_in [OF assms(2), of p]
    by (auto simp: providers_ok_def)
qed

lemma register_service_providers:
  assumes "register_service nm assign none s = Inr s'" and ok: "registry_ok s" "providers_ok s"
    and "\<And>p. p \<in> dom (proxies s) \<Longrightarrow> providers_ok (assign p s)" and "providers_ok (none s)"
  shows "providers_ok s'"
  using assms findServiceFrmw_live [OF _ ok]
  by (auto simp: register_service_def elim!: bind_res_InrE split: option.splits if_splits)

lemma providers_ok_service:
  assumes "providers_ok s"
  shows "providers_ok (s\<lparr>log := l\<rparr>)"
    and "p \<in> dom (proxies s) \<Longrightarrow> providers_ok (s\<lparr>phase_srv := p\<rparr>)"
    and "p \<in> dom (proxies s) \<Longrightarrow> providers_ok (s\<lparr>wakeup_srv := p\<rparr>)"
    and "p \<in> dom (proxies s) \<Longrightarrow> providers_ok (s\<lparr>stopper_srv := p\<rparr>)"
    and "p \<in> dom (proxies s) \<Longrightarrow> providers_ok (s\<lparr>print_srv := p\<rparr>)"
  using assms by (auto simp: providers_ok_def)

lemma RegisterSrvProviders_providers:
  assumes r: "RegisterSrvProviders a b c d s = Inr s'" and ok: "registry_ok s" "providers_ok s"
  shows "providers_ok s'"
proof -
  obtain s1 s2 s3 where
      1: "register_service a (\<lambda>p s. s\<lparr>phase_srv := p\<rparr>)
         (WarningMsg ''BpInterconnect::RegisterSrvProviders() Phase service framework not found : %s''
            (case a of None \<Rightarrow> [] | Some n \<Rightarrow> [n])) s = Inr s1"
    and 2: "register_service b (\<lambda>p s. s\<lparr>wakeup_srv := p\<rparr>) (\<lambda>s. s) s1 = Inr s2"
    and 3: "register_service c (\<lambda>p s. s\<lparr>stopper_srv := p\<rparr>) (\<lambda>s. s) s2 = Inr s3"
    and 4: "register_service d (\<lambda>p s. s\<lparr>print_srv := p\<rparr>) (\<lambda>s. s) s3 = Inr s'"
    using r unfolding RegisterSrvProviders_def by (auto elim!: bind_res_InrE)
  note v = registry.register_service_view next_addr.register_service_view
  have "registry_ok s1" using registry.kept_eq [OF v(1) [OF 1] v(2) [OF 1] ok(1)] by simp
  moreover have "providers_ok s1"
    by (rule register_service_providers [OF 1 ok]) (use ok in \<open>simp_all add: providers_ok_service message_def\<close>)
  moreover from calculation have "registry_ok s2" using registry.kept_eq [OF v(1) [OF 2] v(2) [OF 2]] by simp
  moreover from calculation have "providers_ok s2"
    by (intro register_service_providers [OF 2]) (simp_all add: providers_ok_service)
  moreover from calculation have "registry_ok s3" using registry.kept_eq [OF v(1) [OF 3] v(2) [OF 3]] by simp
  moreover from calculation have "providers_ok s3"
    by (intro register_service_providers [OF 3]) (simp_all add: providers_ok_service)
  ultimately show ?thesis
    by (intro register_service_providers [OF 4]) (simp_all add: providers_ok_service)
qed

section \<open>Every call\<close>

lemma ProcessTopsAndTests_ok:
  assumes p: "ProcessTopsAndTests args tests s = (ok, s')" and s: "bp_ok s"
  shows "bp_ok s'"
  using bp_ok_kept [OF s registry.ProcessTopsAndTests_view [OF p] graph.ProcessTopsAndTests_view [OF p]
    tops.ProcessTopsAndTests_view [OF p] provider.ProcessTopsAndTests_view [OF p]]
    next_addr.ProcessTopsAndTests_view [OF p] by simp

lemma Bootstrap_ok:
  assumes p: "Bootstrap args tests s = (ok, s')" and s: "bp_ok s"
  shows "bp_ok s'"
  using bp_ok_kept [OF s registry.Bootstrap_view [OF p] graph.Bootstrap_view [OF p]
    tops.Bootstrap_view [OF p] provider.Bootstrap_view [OF p]] next_addr.Bootstrap_view [OF p] by simp

lemma Elaborate_ok:
  assumes e: "Elaborate d cb s = Inr (r, s')" and s: "bp_ok s"
  shows "bp_ok s'"
proof -
  have b: "bp_next s \<noteq> null" using s by (simp add: bp_ok_def registry_ok_def)
  note n = Elaborate_next [OF e]
  show ?thesis using s Elaborate_inv [OF e b]
      registry.kept [OF registry.Elaborate_view [OF e] n] graph.kept [OF graph.Elaborate_view [OF e] n]
      provider.kept [OF provider.Elaborate_view [OF e] n]
    by (simp add: bp_ok_def)
qed

lemma bp_run_test_ok:
  assumes r: "bp_run_test d i args test s = Inr (r, s')" and s: "bp_ok s"
  shows "bp_ok s'"
proof -
  let ?t = "filter (\<lambda>t. t \<noteq> []) args"
  let ?test = "case test of None \<Rightarrow> [] | Some t \<Rightarrow> if t = [] then [] else [t]"
  obtain ok t where t: "ProcessTopsAndTests ?t ?test (PreRunCleanup s) = (ok, t)" by fastforce
  have "bp_ok t" using ProcessTopsAndTests_ok [OF t PreRunCleanup_ok [OF s]] .
  moreover have "(if ok then Elaborate d False t else Inr (0, t)) = Inr (r, s')"
    using r t by (simp only: bp_run_test_def Let_def prod.case)
  ultimately show ?thesis using Elaborate_ok by (cases ok) auto
qed

lemma AddRootNode_ok:
  assumes e: "AddRootNode i j c inst s = Inr (r, s')" and s: "bp_ok s"
  shows "bp_ok s'"
proof -
  have b: "bp_next s \<noteq> null" using s by (simp add: bp_ok_def registry_ok_def)
  note n = AddRootNode_next [OF e]
  show ?thesis using s AddRootNode_inv [OF e b]
      registry.kept [OF registry.AddRootNode_view [OF e] n] graph.kept [OF graph.AddRootNode_view [OF e] n]
      provider.kept [OF provider.AddRootNode_view [OF e] n]
    by (simp add: bp_ok_def)
qed

lemma bp_connect_ok:
  assumes e: "RegisterRoute i x y s = Inr (r, s')" and s: "bp_ok s"
  shows "bp_ok s'"
proof -
  note n = RegisterRoute_next [OF e]
  show ?thesis using s RegisterRoute_ok [OF _ e]
      registry.kept [OF registry.RegisterRoute_view [OF e] n] tops.kept [OF tops.RegisterRoute_view [OF e] n]
      provider.kept [OF provider.RegisterRoute_view [OF e] n]
    by (simp add: bp_ok_def)
qed

lemma GetTypeId_bp_ok:
  assumes e: "GetTypeIdByTypeName i n s = Inr (r, s')" and s: "bp_ok s"
  shows "bp_ok s'"
  using bp_ok_kept [OF s registry.GetTypeIdByTypeName_view [OF e] graph.GetTypeIdByTypeName_view [OF e]
    tops.GetTypeIdByTypeName_view [OF e] provider.GetTypeIdByTypeName_view [OF e]] GetTypeId_one [OF e]
  by (simp add: one_id_def)

lemma RegisterTypeMatch_bp_ok:
  assumes e: "RegisterTypeMatch t u s = Inr (r, s')" and s: "bp_ok s"
  shows "bp_ok s'"
  using bp_ok_kept [OF s registry.RegisterTypeMatch_view [OF e] graph.RegisterTypeMatch_view [OF e]
    tops.RegisterTypeMatch_view [OF e] provider.RegisterTypeMatch_view [OF e]] RegisterTypeMatch_one [OF e]
  by (simp add: one_id_def)

lemma CreateChildJunctionNode_bp_ok:
  assumes e: "CreateChildJunctionNode i ind c inst parent j s = Inr (r, s')" and s: "bp_ok s"
  shows "bp_ok s'"
  using bp_ok_kept [OF s registry.CreateChildJunctionNode_view [OF e] graph.CreateChildJunctionNode_view [OF e]
    tops.CreateChildJunctionNode_view [OF e] provider.CreateChildJunctionNode_view [OF e]]
    next_addr.CreateChildJunctionNode_view [OF e] by simp

lemma GetConnectorSize_bp_ok:
  assumes e: "GetConnectorSize i k s = Inr (r, s')" and s: "bp_ok s"
  shows "bp_ok s'"
  using bp_ok_kept [OF s registry.GetConnectorSize_view [OF e] graph.GetConnectorSize_view [OF e]
    tops.GetConnectorSize_view [OF e] provider.GetConnectorSize_view [OF e]] next_addr.GetConnectorSize_view [OF e]
  by simp

lemma RegisterSrvProviders_bp_ok:
  assumes e: "RegisterSrvProviders a b c d s = Inr s'" and s: "bp_ok s"
  shows "bp_ok s'"
proof -
  have n: "bp_next s' = bp_next s" using next_addr.RegisterSrvProviders_view [OF e] .
  show ?thesis using s RegisterSrvProviders_providers [OF e]
      registry.kept_eq [OF registry.RegisterSrvProviders_view [OF e] n] graph.kept_eq [OF graph.RegisterSrvProviders_view [OF e] n]
      tops.kept_eq [OF tops.RegisterSrvProviders_view [OF e] n]
    by (simp add: bp_ok_def)
qed

lemma setup_do_ok:
  assumes d: "setup_do env c s = Inr s'" and s: "bp_ok s"
  shows "bp_ok s'"
proof (cases c)
  case (Set_Trace_Mode m)
  then show ?thesis using d s SetTraceMode_ok by (auto simp: bp_set_trace_mode_def)
next
  case (Register_Framework nm inds api)
  then show ?thesis using d s
    by (auto simp: state_of_Inr_iff bp_register_framework_def elim!: bind_res_InrE split: if_splits
        dest!: SetTraceMode_ok dest: RegisterFramework_ok [OF s])
next
  case (Add_Root_Node i j k inst)
  then show ?thesis using d s AddRootNode_ok by (auto simp: state_of_Inr_iff bp_add_root_node_def)
next
  case (Run_Test i args test)
  then show ?thesis using d s bp_run_test_ok by (auto simp: state_of_Inr_iff)
next
  case (Connect i x y)
  then show ?thesis using d s bp_connect_ok by (auto simp: state_of_Inr_iff bp_connect_def elim!: bind_res_InrE)
next
  case (Get_Connector_Size i k)
  then show ?thesis using d s GetConnectorSize_bp_ok by (auto simp: state_of_Inr_iff bp_get_connector_size_def)
next
  case (Get_Type_Id i n)
  then show ?thesis using d s GetTypeId_bp_ok by (auto simp: state_of_Inr_iff bp_get_type_id_from_name_def)
next
  case (Set_Match_Types i t u)
  then show ?thesis using d s RegisterTypeMatch_bp_ok
    by (auto simp: state_of_Inr_iff bp_set_match_types_def elim!: bind_res_InrE)
next
  case (Create_Child_Junction_Node i ind k inst parent j)
  then show ?thesis using d s CreateChildJunctionNode_bp_ok
    by (auto simp: state_of_Inr_iff bp_create_child_junction_node_def)
next
  case Reset_All
  then show ?thesis using d Reset_ok [OF s] by (auto simp: bp_reset_def)
next
  case (Register_Srv_Providers i ps)
  then show ?thesis using d s RegisterSrvProviders_bp_ok
    by (auto simp: bp_register_srv_providers_def split: prod.splits)
next
  case (Set_Pack_Max_Size i n)
  then show ?thesis using d bp_ok_kept [OF s, of s'] by (auto simp: bp_set_pack_max_size_def)
next
  case (Bootstrap_Tops xs ys)
  then show ?thesis using d s
    by (auto simp: state_of_Inr_iff uvm_ml_bp_bootstrap_def Let_def elim!: bind_res_InrE split: if_splits
        dest!: SetTraceMode_ok dest: Bootstrap_ok)
next
  case (Elaborate_Tops cb)
  then show ?thesis using d s Elaborate_ok by (auto simp: state_of_Inr_iff uvm_ml_bp_elaborate_def)
qed

lemma bp_do_ok:
  assumes d: "bp_do env c s = Some (Inr s')" and s: "bp_ok s"
  shows "bp_ok s'"
proof (cases "\<exists>k. c = Setup k")
  case True
  then show ?thesis using d setup_do_ok [OF _ s] by auto
next
  case False
  then have "\<And>k. c \<noteq> Setup k" by blast
  then show ?thesis
    using s registry.bp_do_kept [OF d] graph.bp_do_kept [OF d] tops.bp_do_kept [OF d] provider.bp_do_kept [OF d]
    by (simp add: bp_ok_def)
qed

section \<open>Type ids\<close>

lemma types_ok_same:
  fixes s s' :: "'w bp_state"
  assumes "types_ok s" and v: "type_view s' = type_view s" and "bp_next s \<le> bp_next s'"
  shows "types_ok s' \<and> next_type_id s' = next_type_id s"
  using types.kept [OF v assms(3,1)] v by (simp add: type_view_def)

lemma RegisterTypeMatch_types:
  assumes ok: "types_ok s" and next_id: "next_type_id s \<noteq> no_type" and m: "RegisterTypeMatch t u s = Inr (b, s')"
  shows "types_ok s'"
proof (cases b)
  case True
  then show ?thesis using RegisterTypeMatch_ok [OF ok next_id, of "fst t" "snd t" "fst u" "snd u" s'] m by simp
next
  case False
  then have "s' = s" using m by (auto simp: RegisterTypeMatch_def Let_def elim!: bind_res_InrE split: if_splits)
  then show ?thesis using ok by simp
qed

text \<open>A setup call hands out one id at most and keeps the tables while ids are left.\<close>

lemma setup_do_types:
  assumes d: "setup_do env c s = Inr s'" and bp: "bp_ok s" and ok: "types_ok s" and next_id: "next_type_id s \<noteq> no_type"
  shows "types_ok s' \<and> (next_type_id s' = next_type_id s \<or> next_type_id s' = next_type_id s + 1)"
proof (cases c)
  case (Set_Trace_Mode m)
  then show ?thesis using d ok SetTraceMode_ok by (auto simp: bp_set_trace_mode_def)
next
  case (Register_Framework nm inds api)
  then show ?thesis using d ok
    by (auto simp: state_of_Inr_iff bp_register_framework_def elim!: bind_res_InrE split: if_splits
        dest!: SetTraceMode_ok RegisterFramework_ok [OF bp])
next
  case (Add_Root_Node i j k inst)
  then obtain r where e: "AddRootNode (sint i) (sint j) k inst s = Inr (r, s')"
    using d by (auto simp: state_of_Inr_iff bp_add_root_node_def)
  show ?thesis using types_ok_same [OF ok types.AddRootNode_view [OF e] AddRootNode_next [OF e]] by blast
next
  case (Run_Test i args test)
  then obtain r where e: "bp_run_test (uvm_ml_debug_mode env) i args test s = Inr (r, s')"
    using d by (auto simp: state_of_Inr_iff)
  show ?thesis using types_ok_same [OF ok types.bp_run_test_view [OF e] bp_run_test_next [OF e]] by blast
next
  case (Connect i x y)
  then obtain r where e: "RegisterRoute (sint i) x y s = Inr (r, s')"
    using d by (auto simp: state_of_Inr_iff bp_connect_def elim!: bind_res_InrE)
  show ?thesis using types_ok_same [OF ok types.RegisterRoute_view [OF e] RegisterRoute_next [OF e]] by blast
next
  case (Get_Connector_Size i k)
  then obtain r where e: "GetConnectorSize i k s = Inr (r, s')"
    using d by (auto simp: state_of_Inr_iff bp_get_connector_size_def)
  show ?thesis using types_ok_same [OF ok types.GetConnectorSize_view [OF e]] next_addr.GetConnectorSize_view [OF e] by simp
next
  case (Get_Type_Id i n)
  then obtain r p where e: "GetTypeIdByTypeName i n s = Inr (r, s')" "frmw_GetTypeId p n s = Inr (r, s')"
    using d by (auto simp: state_of_Inr_iff bp_get_type_id_from_name_def GetTypeIdByTypeName_def elim!: bind_res_InrE)
  show ?thesis using frmw_GetTypeId_ok [OF ok next_id e(2)] GetTypeId_one [OF e(1)] by (auto simp: one_id_def)
next
  case (Set_Match_Types i t u)
  then obtain r x y where e: "RegisterTypeMatch x y s = Inr (r, s')"
    using d by (auto simp: state_of_Inr_iff bp_set_match_types_def elim!: bind_res_InrE)
  show ?thesis using RegisterTypeMatch_types [OF ok next_id e] RegisterTypeMatch_one [OF e] by (auto simp: one_id_def)
next
  case (Create_Child_Junction_Node i ind k inst parent j)
  then obtain r where e: "CreateChildJunctionNode i ind k inst parent j s = Inr (r, s')"
    using d by (auto simp: state_of_Inr_iff bp_create_child_junction_node_def)
  show ?thesis
    using types_ok_same [OF ok types.CreateChildJunctionNode_view [OF e]] next_addr.CreateChildJunctionNode_view [OF e] by simp
next
  case Reset_All
  then show ?thesis using d types_ok_same [OF ok, of s'] Reset_types [of s] Reset_ok [OF bp] by (auto simp: bp_reset_def)
next
  case (Register_Srv_Providers i ps)
  obtain x y z w where "ps = (x, y, z, w)" by (cases ps)
  then have e: "RegisterSrvProviders x y z w s = Inr s'"
    using Register_Srv_Providers d by (simp add: bp_register_srv_providers_def)
  show ?thesis
    using types_ok_same [OF ok types.RegisterSrvProviders_view [OF e]] next_addr.RegisterSrvProviders_view [OF e] by simp
next
  case (Set_Pack_Max_Size i n)
  then show ?thesis using d types_ok_same [OF ok, of s'] by (auto simp: bp_set_pack_max_size_def)
next
  case (Bootstrap_Tops xs ys)
  then obtain args tests r t where t: "t = s \<or> SetTraceMode 1 s = Inr t" and e: "Bootstrap args tests t = (r, s')"
    using d by (auto simp: state_of_Inr_iff uvm_ml_bp_bootstrap_def Let_def elim!: bind_res_InrE split: if_splits)
  have "types_ok t" "next_type_id t = next_type_id s" using t ok SetTraceMode_ok [of 1 s t] by auto
  then show ?thesis
    using types_ok_same [OF _ types.Bootstrap_view [OF e]] next_addr.Bootstrap_view [OF e] by simp
next
  case (Elaborate_Tops cb)
  then obtain r where e: "Elaborate (uvm_ml_debug_mode env) cb s = Inr (r, s')"
    using d by (auto simp: state_of_Inr_iff uvm_ml_bp_elaborate_def)
  show ?thesis using types_ok_same [OF ok types.Elaborate_view [OF e] Elaborate_next [OF e]] by blast
qed

lemma bp_do_types:
  assumes d: "bp_do env c s = Some (Inr s')" and bp: "bp_ok s" and ok: "types_ok s" and next_id: "next_type_id s \<noteq> no_type"
  shows "types_ok s' \<and> (next_type_id s' = next_type_id s \<or> next_type_id s' = next_type_id s + 1)"
proof (cases "\<exists>k. c = Setup k")
  case True
  then obtain k where "setup_do env k s = Inr s'" using d by auto
  from setup_do_types [OF this bp ok next_id] show ?thesis .
next
  case False
  then have k: "\<And>k. c \<noteq> Setup k" by blast
  show ?thesis using types_ok_same [OF ok types.bp_do_view [OF d k]] next_addr.bp_do_view [OF d k] by simp
qed

end
