(* ===== verification/Bp_Reachable.thy ===== *)
theory Bp_Reachable
  imports Bp_Reach
begin

text \<open>
  The requests to stop keep their well-formedness through every call, and with it the whole
  invariant holds in every reachable state of the backplane.
\<close>

section \<open>A view of all the calls that set up\<close>

locale setting_view = cleanup_view + types_view + provider_view + traffic_view +
  assumes view_registry [simp]: "view (s\<lparr>framework_registry := ps\<rparr>) = view s"
    and view_by_ind [simp]: "view (s\<lparr>frameworks_by_ind := fs\<rparr>) = view s"
    and view_backlog [simp]: "view (s\<lparr>debug_backlog := cmds\<rparr>) = view s"
begin

lemma setting_do_view:
  assumes "setup_do env c s = Inr s'" and "\<And>nm inds api. c \<noteq> Register_Framework nm inds api"
    and "\<And>i x y. c \<noteq> Connect i x y"
  shows "view s' = view s"
  using assms
  by (cases c)
    (auto simp: state_of_Inr_iff Let_def bp_set_trace_mode_def bp_add_root_node_def
       bp_get_connector_size_def bp_get_type_id_from_name_def bp_set_match_types_def
       bp_create_child_junction_node_def bp_reset_def Reset_def BpDebugClass_Reset_def bp_register_srv_providers_def
       bp_set_pack_max_size_def uvm_ml_bp_bootstrap_def uvm_ml_bp_elaborate_def
       elim!: bind_res_InrE split: if_splits prod.splits
       dest!: SetTraceMode_view AddRootNode_view bp_run_test_view GetConnectorSize_view
         GetTypeIdByTypeName_view RegisterTypeMatch_view CreateChildJunctionNode_view RegisterSrvProviders_view
         Bootstrap_view Elaborate_view)

lemma Register_Framework_view:
  assumes "setup_do env (Register_Framework nm inds api) s = Inr s'"
  obtains i t where "RegisterFramework nm (c_strings inds) api s = Inr (i, t)" and "view s' = view t"
  using assms
  by (auto simp: state_of_Inr_iff bp_register_framework_def elim!: bind_res_InrE split: if_splits dest!: SetTraceMode_view)

end

text \<open>Routes add connections, which a view may see or not.\<close>

locale setup_view = setting_view + route_view
begin

lemma setup_do_view:
  assumes "setup_do env c s = Inr s'" and "\<And>nm inds api. c \<noteq> Register_Framework nm inds api"
  shows "view s' = view s"
proof (cases "\<exists>i x y. c = Connect i x y")
  case True
  then show ?thesis using assms(1)
    by (auto simp: state_of_Inr_iff bp_connect_def elim!: bind_res_InrE dest!: RegisterRoute_view)
next
  case False
  then show ?thesis using setting_do_view [OF assms(1)] assms(2) by blast
qed

end

section \<open>No framework blocks truly\<close>

text \<open>Nothing sets the two flags of a proxy after its constructor.\<close>

definition blocking_view :: "'w bp_state \<Rightarrow> addr \<Rightarrow> (bool \<times> bool) option" where
  "blocking_view s = map_option (\<lambda>f. (true_blocking f, fake_blocking f)) \<circ> proxies s"

definition only_fake_blocking :: "'w bp_state \<Rightarrow> bool" where
  "only_fake_blocking s \<longleftrightarrow> (\<forall>p f. proxies s p = Some f \<longrightarrow> \<not> true_blocking f \<and> fake_blocking f)"

interpretation blocking: setup_view blocking_view
  by unfold_locales (simp_all add: blocking_view_def project_set_proxy)

interpretation blocking: adapter_view blocking_view
  by unfold_locales (simp_all add: blocking_view_def project_set_proxy)

lemma only_fake_blocking_same:
  fixes s s' :: "'w bp_state"
  assumes v: "blocking_view s' = blocking_view s" and "only_fake_blocking s"
  shows "only_fake_blocking s'"
proof -
  have "map_option (\<lambda>f. (true_blocking f, fake_blocking f)) (proxies s' p) =
      map_option (\<lambda>f. (true_blocking f, fake_blocking f)) (proxies s p)" for p
    using project_at [OF v [unfolded blocking_view_def]] .
  then show ?thesis using assms(2) unfolding only_fake_blocking_def
    by (metis (no_types, lifting) option.simps(9) option.map_disc_iff not_None_eq prod.inject option.inject)
qed

lemma bp_do_blocking:
  assumes d: "bp_do env c s = Some (Inr s')" and bp: "bp_next s \<noteq> null" and ok: "only_fake_blocking s"
  shows "only_fake_blocking s'"
proof (cases "\<exists>nm inds api. c = Setup (Register_Framework nm inds api)")
  case True
  then obtain nm inds api where "setup_do env (Register_Framework nm inds api) s = Inr s'" using d by auto
  then obtain i t where r: "RegisterFramework nm (c_strings inds) api s = Inr (i, t)"
    and v: "blocking_view s' = blocking_view t" by (rule blocking.Register_Framework_view)
  have "only_fake_blocking t"
    using RegisterFramework_cases [OF r bp] ok by cases (auto simp: only_fake_blocking_def)
  then show ?thesis by (rule only_fake_blocking_same [OF v])
next
  case False
  have "blocking_view s' = blocking_view s"
  proof (cases "\<exists>k. c = Setup k")
    case True
    then obtain k where k: "c = Setup k" by blast
    then have "setup_do env k s = Inr s'" using d by simp
    then show ?thesis using blocking.setup_do_view [of env k s s'] False k by blast
  next
    case notsetup: False
    then show ?thesis using blocking.bp_do_view [OF d] by blast
  qed
  then show ?thesis using ok by (rule only_fake_blocking_same)
qed

section \<open>Every connection has a framework\<close>

definition owners_ok :: "'w bp_state \<Rightarrow> bool" where
  "owners_ok s \<longleftrightarrow> (\<forall>a c. connections s a = Some c \<longrightarrow> proxies s (c_frmw c) \<noteq> None)"

definition owner_view :: "'w bp_state \<Rightarrow> (addr \<rightharpoonup> connection) \<times> addr set" where
  "owner_view s = (connections s, dom (proxies s))"

interpretation owners: setting_view owner_view
  by unfold_locales (simp_all add: owner_view_def dom_set_proxy)

interpretation owners: adapter_view owner_view
  by unfold_locales (simp_all add: owner_view_def dom_set_proxy)

lemma owners_ok_same:
  fixes s s' :: "'w bp_state"
  assumes "owner_view s' = owner_view s" and "owners_ok s"
  shows "owners_ok s'"
  using assms by (auto simp: owner_view_def owners_ok_def dom_def set_eq_iff)

lemma link_owners:
  assumes "link a b s = Inr s'" and "owners_ok s"
  shows "owners_ok s'"
  using assms unfolding link_def Let_def
  by (auto simp: conn_def deref_Inr_iff AddFanout_def AddFanin_def set_conn_def owners_ok_def
      elim!: bind_res_InrE split: if_splits)

lemma find_or_add_owners:
  assumes f: "find_or_add path s = Inr (a, s')" and ok: "owners_ok s"
  shows "owners_ok s'"
proof -
  have same: "owners_ok (t\<lparr>log := l\<rparr>) = owners_ok t" for l and t :: "'a bp_state" by (simp add: owners_ok_def)
  have "owners_ok s'" if add: "AddConnection path s = Inr (a, s')"
  proof -
    obtain p s1 where "findFrameworkForPath path s = Inr (p, s1)"
      using add by (auto simp: AddConnection_def elim!: bind_res_InrE)
    then show ?thesis using add ok findFrameworkForPath_log [of path s p s1]
      by (auto simp: AddConnection_def owners_ok_def BpConnectionClass_def set_proxy_def message_def Let_def
          elim!: bind_res_InrE split: if_splits dest!: proxy_InrD)
  qed
  then show ?thesis using f ok by (auto simp: find_or_add_def Let_def split: if_splits)
qed

lemma RegisterRoute_owners:
  assumes r: "RegisterRoute i x y s = Inr (ok, s')" and own: "owners_ok s"
  shows "owners_ok s'"
proof -
  have log: "owners_ok (t\<lparr>log := l\<rparr>) = owners_ok t" "owners_ok (t\<lparr>world := w\<rparr>) = owners_ok t" for l w and t :: "'a bp_state"
    by (simp_all add: owners_ok_def)
  show ?thesis using r own unfolding RegisterRoute_def
    by (auto simp: log elim!: bind_res_InrE split: if_splits
        dest!: find_or_add_owners connect_both_frame checkConnectionDirections_frame link_owners)
qed

lemma bp_do_owners:
  assumes d: "bp_do env c s = Some (Inr s')" and bp: "bp_next s \<noteq> null" and ok: "owners_ok s"
  shows "owners_ok s'"
proof (cases "\<exists>k. c = Setup k")
  case False
  then have "owner_view s' = owner_view s" using owners.bp_do_view [OF d] by blast
  then show ?thesis using ok by (rule owners_ok_same)
next
  case True
  then obtain k where k: "setup_do env k s = Inr s'" using d by auto
  show ?thesis
  proof (cases "\<exists>nm inds api. k = Register_Framework nm inds api")
    case True
    then obtain nm inds api where "setup_do env (Register_Framework nm inds api) s = Inr s'" using k by auto
    then obtain i t where r: "RegisterFramework nm (c_strings inds) api s = Inr (i, t)"
      and v: "owner_view s' = owner_view t" by (rule owners.Register_Framework_view)
    have "owners_ok t" using RegisterFramework_cases [OF r bp] ok by cases (auto simp: owners_ok_def)
    then show ?thesis by (rule owners_ok_same [OF v])
  next
    case noreg: False
    show ?thesis
    proof (cases "\<exists>i x y. k = Connect i x y")
      case True
      then show ?thesis using k ok
        by (auto simp: state_of_Inr_iff bp_connect_def elim!: bind_res_InrE dest!: RegisterRoute_owners)
    next
      case False
      then have "owner_view s' = owner_view s" using owners.setting_do_view [OF k] noreg by blast
      then show ?thesis using ok by (rule owners_ok_same)
    qed
  qed
qed

section \<open>Stop requests\<close>

interpretation stop: setup_view stop_requests
  by unfold_locales (simp_all add: set_proxy_def)

lemma setup_do_stops:
  assumes d: "setup_do env c s = Inr s'" and bp: "bp_next s \<noteq> null"
  shows "stop_requests s' = stop_requests s"
proof (cases "\<exists>nm inds api. c = Register_Framework nm inds api")
  case True
  then obtain nm inds api where "setup_do env (Register_Framework nm inds api) s = Inr s'" using d by auto
  then obtain i t where r: "RegisterFramework nm (c_strings inds) api s = Inr (i, t)"
    and v: "stop_requests s' = stop_requests t" by (rule stop.Register_Framework_view)
  from RegisterFramework_cases [OF r bp] show ?thesis using v by cases auto
next
  case False
  then show ?thesis using stop.setup_do_view [OF d] by blast
qed

lemma stops_ok_same: "stop_requests s' = stop_requests s \<Longrightarrow> stops_ok s \<Longrightarrow> stops_ok s'"
  by (simp add: stops_ok_def)

lemma RequestStopPhase_cases:
  assumes "RequestStopPhase n a s = Inr (b, s')"
  shows "\<not> b \<and> stop_requests s' = stop_requests s \<or>
    (\<exists>t. stop_requests t = stop_requests s \<and> add_request n a t = (b, s'))"
  using assms unfolding RequestStopPhase_def
  by (auto elim!: bind_res_InrE split: if_splits dest!: stop.PhaseSrvCheck_view)

lemma RequestStopPhase_stops: "RequestStopPhase n a s = Inr (b, s') \<Longrightarrow> stops_ok s \<Longrightarrow> stops_ok s'"
  using RequestStopPhase_cases [of n a s b s'] add_request_ok stops_ok_same by metis

lemma Phase_Execute_stops: "Phase_Execute m v s = Inr (x, s') \<Longrightarrow> stops_ok s \<Longrightarrow> stops_ok s'"
  by (cases m)
    (auto simp: Phase_Execute_def Let_def CancelStopPhase_ok CancelPhaseRequests_def erase_front_all stops_ok_def [of "_ \<lparr>stop_requests := _\<rparr>"]
       elim!: bind_res_InrE split: if_splits dest: RequestStopPhase_stops
       intro: stops_ok_same [OF stop.StopRequests_log_view(1)] stops_ok_same [OF stop.StopRequests_log_view(2)])

lemma broadcast_stops: "broadcast custom cmd t s = Inr (x, s') \<Longrightarrow> stop_requests s' = stop_requests s"
  unfolding broadcast_def DoBroadcastCommand_def TraceResult_def AddBacklogCommand_def
  by (auto elim!: bind_res_InrE split: if_splits option.splits dest!: stop.broadcast_loop_view)

lemma Execute_stops: "Execute fuel given t c s = Some (Inr (x, s')) \<Longrightarrow> stops_ok s \<Longrightarrow> stops_ok s'"
  by (cases c) (auto elim!: stop.bind_fuel_SomeE bind_res_InrE
      dest: Phase_Execute_stops stops_ok_same [OF stop.PrintTree_Execute_view]
        stops_ok_same [OF stop.PrintConnections_Execute_view] stops_ok_same [OF broadcast_stops])

lemma execute_predefined_stops:
  assumes e: "execute_predefined env fuel i cmd t c s = Some (Inr (x, s'))" and ok: "stops_ok s"
  shows "stops_ok s'"
proof -
  obtain st given d s1 where p: "ParseCheckSyntax (ce_getopt env) cmd c s = Inr ((st, given, d), s1)"
    and r: "(case st of PARSE_FAILURE \<Rightarrow> Some (Inr (FAILURE, s1))
       | ASKED_FOR_HELP \<Rightarrow> Some (Inr (SUCCESS, PrintCmdHelp (Name d) s1))
       | PARSE_SUCCESS \<Rightarrow> bind_fuel (Some (CommandOriginated i s1)) (\<lambda>_. Execute fuel given t d s1)) = Some (Inr (x, s'))"
    using e by (auto simp: execute_predefined_def elim!: stop.bind_fuel_SomeE)
  have ok1: "stops_ok s1" using stops_ok_same [OF stop.ParseCheckSyntax_view [OF p] ok] .
  show ?thesis
  proof (cases st)
    case PARSE_SUCCESS
    then show ?thesis using r ok1 by (auto elim!: stop.bind_fuel_SomeE intro: Execute_stops)
  next
    case ASKED_FOR_HELP
    then have "stop_requests s' = stop_requests s1" using r by (auto simp: PrintCmdHelp_def)
    then show ?thesis using ok1 by (rule stops_ok_same)
  qed (use r ok1 in auto)
qed

lemma ExecuteCommand_stops:
  assumes e: "ExecuteCommand env fuel i cmd t s = Some (Inr (x, s'))" and ok: "stops_ok s"
  shows "stops_ok s'"
proof -
  obtain found s1 where g: "GetCommand (ce_indeterminate env) cmd s = (found, s1)" by fastforce
  have ok1: "stops_ok s1" using stops_ok_same [OF stop.GetCommand_view [OF g] ok] .
  show ?thesis
  proof (cases found)
    case None
    obtain asked s2 where h: "GenericCmdHelpRequired cmd s1 = (asked, s2)" by fastforce
    have ok2: "stops_ok s2" using stops_ok_same [OF stop.GenericCmdHelpRequired_view [OF h] ok1] .
    show ?thesis
    proof (cases asked)
      case True
      then have "stop_requests s' = stop_requests s2"
        using e g h None by (auto simp: ExecuteCommand_def PrintGenericCommandHelp_def)
      then show ?thesis using ok2 by (rule stops_ok_same)
    next
      case False
      then have "broadcast True cmd t s2 = Inr (x, s')"
        using e g h None by (auto simp: ExecuteCommand_def elim!: stop.bind_fuel_SomeE)
      then show ?thesis using stops_ok_same [OF broadcast_stops ok2] by blast
    qed
  next
    case (Some pr)
    obtain p r where pr: "pr = (p, r)" by fastforce
    show ?thesis
    proof (cases "r = MATCH_CMD_INVALID_OPTIONS \<or> r = HELP_OPTION")
      case True
      then have "stop_requests s' = stop_requests s1"
        using e g Some pr by (auto simp: ExecuteCommand_def PrintCmdHelp_def split: if_splits)
      then show ?thesis using ok1 by (rule stops_ok_same)
    next
      case False
      then have "\<exists>c. execute_predefined env fuel i cmd t c s1 = Some (Inr (x, s'))"
        using e g Some pr by (auto simp: ExecuteCommand_def split: option.splits)
      then show ?thesis using execute_predefined_stops [OF _ ok1] by blast
    qed
  qed
qed

lemma bp_do_stops:
  assumes d: "bp_do env c s = Some (Inr s')" and bp: "bp_next s \<noteq> null" and ok: "stops_ok s"
  shows "stops_ok s'"
proof (cases c)
  case (Setup k)
  then show ?thesis using d stops_ok_same [OF setup_do_stops [OF _ bp] ok] by auto
next
  case (Tlm k)
  then show ?thesis using d stops_ok_same [OF stop.tlm_do_view ok] by auto
next
  case (Notify k)
  then show ?thesis using d stops_ok_same [OF stop.notify_do_view ok] by auto
next
  case (Command fuel i cmd t)
  then show ?thesis using d ok by (auto simp: bp_execute_command_def state_of_Inr_iff intro: ExecuteCommand_stops)
qed

section \<open>Reachable states are well formed\<close>

lemma start_state:
  assumes "GetCommonSrvFrmw (initial_state w) = Inr s"
  shows "bp_ok s \<and> types_ok s \<and> stops_ok s \<and> only_fake_blocking s \<and> owners_ok s \<and> next_type_id s = 0"
proof -
  let ?f = "new_frmw (-1) ''Common Services'' [''Common Services''] getRequiredApi"
  have s: "proxies s = [1 \<mapsto> ?f]" "bp_next s = 2" "framework_registry s = []" "connections s = (\<lambda>_. None)"
      "port_registry s = []" "top_level_registry s = []" "first_time_prerun_cleanup s" "common_frmw s = 1"
      "phase_srv s = 1" "wakeup_srv s = 0" "stopper_srv s = 0" "print_srv s = 1"
      "type_map s = (\<lambda>_. None)" "unregistered_types s = []" "unregistered_type_names s = []"
      "stop_requests s = []" "next_type_id s = 0"
    using assms by (auto simp: GetCommonSrvFrmw_def CommonServicesFramework_def FrameworkProxyClass_def initial_state_def
        AddIndicatorsMap_def AddFrmwIndicator_def set_proxy_def RegisterCommonSrvFrmw_def RegisterSrvProviders_def
        register_service_def findServiceFrmw_def proxy_def new_frmw_def Let_def)
  then show ?thesis
    by (auto simp: bp_ok_def registry_ok_def conn_ok_def graph_ok_def tables_ok_def tops_inv_def tops_ok_def
        providers_ok_def types_ok_def unregistered_ok_def frmw_types_ok_def stops_ok_def only_fake_blocking_def owners_ok_def new_frmw_def)
qed

lemma bp_reach_ok: "bp_reach env n s \<Longrightarrow> bp_ok s \<and> stops_ok s \<and> only_fake_blocking s \<and> owners_ok s"
proof (induction rule: bp_reach.induct)
  case (start w s)
  then show ?case using start_state [of w s] by simp
next
  case (call n s c s')
  then have "bp_next s \<noteq> null" by (simp add: bp_ok_def registry_ok_def)
  then show ?case using call bp_do_ok bp_do_stops bp_do_blocking bp_do_owners by blast
next
  case (adapter n s w)
  then show ?case
    using bp_ok_kept [of s "s\<lparr>world := w\<rparr>"] by (simp add: view_defs stops_ok_def only_fake_blocking_def owners_ok_def)
qed

text \<open>One call hands out at most one type id, so the 32-bit counter lasts for \<open>2 ^ 32 - 1\<close> of them.\<close>

lemma bp_reach_types:
  "bp_reach env n s \<Longrightarrow> n < 2 ^ 32 - 1 \<Longrightarrow> types_ok s \<and> unat (next_type_id s) \<le> n"
proof (induction rule: bp_reach.induct)
  case (start w s)
  then show ?case using start_state [of w s] by simp
next
  case (call n s c s')
  then have IH: "types_ok s" "unat (next_type_id s) \<le> n" by auto
  have below: "unat (next_type_id s) < 2 ^ 32 - 1" using IH(2) call.prems by linarith
  then have "next_type_id s \<noteq> no_type" by (auto simp: unsigned_minus_1_eq_mask mask_eq_exp_minus_1)
  then have "types_ok s'" "next_type_id s' = next_type_id s \<or> next_type_id s' = next_type_id s + 1"
    using bp_do_types call.hyps(2) bp_reach_ok [OF call.hyps(1)] IH(1) by blast+
  moreover have "unat (next_type_id s + 1) \<le> unat (next_type_id s) + 1" using mod_less_eq_dividend by (simp add: unat_word_ariths)
  ultimately show ?case using IH(2) by fastforce
next
  case (adapter n s w)
  then show ?case using types_ok_same [of s "s\<lparr>world := w\<rparr>"] by (simp add: type_view_def)
qed

end
