(* ===== verification/Bp_Demo.thy ===== *)
theory Bp_Demo
  imports Bp_Reachable
begin

text \<open>
  Two small adapters and a session between them, at which the properties of the backplane are
  evaluated. The adapters' state is the list of the calls they received.
\<close>

type_synonym demo_world = "(string \<times> int \<times> stream) list"

definition demo_api :: "string \<Rightarrow> (string \<times> int) list \<Rightarrow> demo_world frmw_api" where
  "demo_api nm ports =
     getRequiredApi
       \<lparr>setup_fns := (setup_fns getRequiredApi)
          \<lparr>find_connector_id_by_name_ptr := Some (\<lambda>path w. case map_of ports path of None \<Rightarrow> -1 | Some k \<Rightarrow> k),
           get_connector_intf_name_ptr := Some (\<lambda>k w. ''tlm_put''),
           get_connector_type_ptr := Some (\<lambda>k w. if k < 5 then 2 else 0)\<rparr>,
        phase_fns := (phase_fns getRequiredApi)
          \<lparr>notify_phase_ptr := Some (\<lambda>grp ph act w. (1, w @ [(nm @ '' '' @ ph, 0, [])])),
           notify_runtime_phase_ptr := Some (\<lambda>grp ph act t w. ((1, Some 1), w @ [(nm @ '' '' @ ph, 0, [])])),
           transmit_phase_ptr := Some (\<lambda>i grp ph act w. (1, w @ [(nm @ '' top '' @ ph, i, [])]))\<rparr>,
        tlm1_fns := (tlm1_fns getRequiredApi)
          \<lparr>try_put_ptr := Some (\<lambda>k n x t w. (1, w @ [(nm @ '' put'', k, x)])),
           put_request_ptr := Some (\<lambda>k q i n x t w. (0, w @ [(nm @ '' put_request'', k, x)]))\<rparr>,
        tlm2_fns := (tlm2_fns getRequiredApi)
          \<lparr>write_ptr := Some (\<lambda>k n x t w. w @ [(nm @ '' write'', k, x)])\<rparr>,
        notify_fns := (notify_fns getRequiredApi)
          \<lparr>synchronize_ptr := Some (\<lambda>t w. w @ [(nm @ '' synchronize'', 0, [])])\<rparr>\<rparr>"

abbreviation demo_sv :: "demo_world frmw_api" where
  "demo_sv \<equiv> demo_api ''sv'' [(''sv.out'', 7)]"

abbreviation demo_sc :: "demo_world frmw_api" where
  "demo_sc \<equiv> demo_api ''sc'' [(''sc.in'', 3), (''sc.in2'', 4)]"

definition demo_env :: bp_env where
  "demo_env = \<lparr>uvm_ml_debug_mode = False, unilang_debug_mode = False,
     cmd_env = \<lparr>ce_getopt = (\<lambda>d ts. \<lparr>gr_events = [], gr_opt = -1, gr_optopt = 0, gr_optarg = None\<rparr>),
       ce_indeterminate = MATCH\<rparr>\<rparr>"

definition demo_calls :: "demo_world bp_call list" where
  "demo_calls =
     [Setup (Register_Framework ''sv adapter'' [''sv''] (Some demo_sv)),
      Setup (Register_Framework ''sc adapter'' [''sc''] (Some demo_sc)),
      Setup (Add_Root_Node 0 0 ''sv_top'' ''sv''),
      Setup (Add_Root_Node 1 1 ''sc_top'' ''sc''),
      Setup (Connect 0 ''sv.out'' ''sc.in'')]"

section \<open>The states of the session\<close>

definition is_state :: "'w bp_state res option \<Rightarrow> bool" where
  "is_state r = (case r of Some (Inr s) \<Rightarrow> True | _ \<Rightarrow> False)"

definition demo_start :: "demo_world bp_state" where
  "demo_start =
     (initial_state [])
       \<lparr>proxies := [1 \<mapsto> new_frmw (-1) ''Common Services'' [''Common Services''] getRequiredApi],
        frameworks_by_ind := [(''common services'', [1])],
        phase_srv := 1, print_srv := 1, common_frmw := 1, bp_next := 2\<rparr>"

definition demo_top :: "string \<Rightarrow> addr \<Rightarrow> int \<Rightarrow> top_descriptor" where
  "demo_top nm p i =
     \<lparr>td_arg = \<lparr>ta_indicator = nm @ '' adapter'', ta_identifier = nm @ ''_top'', ta_instance = nm, ta_test = False\<rparr>,
      td_frmw = p, td_id = i\<rparr>"

definition demo :: "demo_world bp_state" where
  "demo =
     demo_start
       \<lparr>proxies := (proxies demo_start)
          (2 \<mapsto> (new_frmw 0 ''sv adapter'' [''sv''] demo_sv)\<lparr>top_level_components := [4], m_connections := [(7, 6)]\<rparr>,
           3 \<mapsto> (new_frmw 1 ''sc adapter'' [''sc''] demo_sc)\<lparr>top_level_components := [5], m_connections := [(3, 7)]\<rparr>),
        framework_registry := [2, 3],
        frameworks_by_ind := [(''common services'', [1]), (''sc'', [3]), (''sv'', [2])],
        connections := [6 \<mapsto> (BpConnectionClass 2 7 ''sv.out'' ''tlm_put'' PORT)\<lparr>fanout := [7]\<rparr>,
                        7 \<mapsto> (BpConnectionClass 3 3 ''sc.in'' ''tlm_put'' IMP)\<lparr>fanin := [6]\<rparr>],
        port_registry := [6, 7],
        tops := [4 \<mapsto> demo_top ''sv'' 2 0, 5 \<mapsto> demo_top ''sc'' 3 1],
        top_level_registry := [4, 5], bp_next := 8\<rparr>"

lemmas demo_defs =
  demo_def demo_start_def initial_state_def new_frmw_def demo_top_def BpConnectionClass_def

lemma lower_chars:
  "97 \<le> (of_char c :: nat) \<Longrightarrow> lower_char c = c"
  "lower_char (CHR '' '') = CHR '' ''" "lower_char (CHR ''C'') = CHR ''c''" "lower_char (CHR ''S'') = CHR ''s''"
  by (simp_all add: lower_char_def) code_simp+

lemma demo_api_fields [simp]:
  "find_connector_id_by_name_ptr (setup_fns (demo_api nm ports)) =
     Some (\<lambda>path w. case map_of ports path of None \<Rightarrow> -1 | Some k \<Rightarrow> k)"
  "get_connector_intf_name_ptr (setup_fns (demo_api nm ports)) = Some (\<lambda>k w. ''tlm_put'')"
  "get_connector_type_ptr (setup_fns (demo_api nm ports)) = Some (\<lambda>k w. if k < 5 then 2 else 0)"
  "external_connect_ptr (setup_fns (demo_api nm ports)) = None"
  by (simp_all add: demo_api_def getRequiredApi_def)

lemma demo_start_reach: "bp_reach env 0 demo_start"
proof (rule bp_reach.start)
  show "GetCommonSrvFrmw (initial_state []) = Inr demo_start"
    by (simp add: GetCommonSrvFrmw_def CommonServicesFramework_def FrameworkProxyClass_def initial_state_def
        AddIndicatorsMap_def AddFrmwIndicator_def set_proxy_def RegisterCommonSrvFrmw_def RegisterSrvProviders_def
        register_service_def findServiceFrmw_def proxy_def new_frmw_def Let_def demo_start_def to_lower_def lower_chars
        numeral_2_eq_2)
qed

lemmas demo_run = bp_register_framework_def RegisterFramework_def c_strings_def GetFrameworkProxyByName_def
  addFramework_def FrameworkProxyClass_def BacklogCommands_def AddIndicatorsMap_def AddFrmwIndicator_def
  has_frmw_name_def same_ignoring_case_def to_lower_def lower_chars state_of_def set_proxy_def proxy_def
  bp_add_root_node_def AddRootNode_def GetFramework_def BpTopDescriptorBaseClass_def BpTopDescriptorClass_def
  PushTopLevel_def AddTopLevel_def top_has_instance_def bp_connect_def RegisterRoute_def find_or_add_def
  FindConnectionByName_def AddConnection_def findFrameworkForPath_def findChildProxyforPath_def top_is_prefix_def
  BpPrefixCompare_def path_separators_def GetConnectionBindKey_def frmw_query_def GetConnectionIntfName_def
  GetConnectionKind_def kind_of_int_def frmw_AddConnection_def conn_def CheckConnected_def
  checkConnectionDirections_def wrong_order_def frmw_CheckConnection_def link_def set_conn_def AddFanout_def
  AddFanin_def connect_both_def ExternalConnect_def frmw_call_void_def has_path_def

lemma demo_run_ok: "bp_run demo_env demo_calls demo_start = Some (Inr demo)"
  by (simp add: demo_calls_def demo_env_def demo_run demo_defs Let_def numeral_eq_Suc cong: if_cong option.case_cong)

lemma demo_reach: "bp_reach demo_env 5 demo"
  using bp_reach_run [OF demo_start_reach demo_run_ok] by (simp add: demo_calls_def numeral_eq_Suc)

end
