(* ===== verification/Bp_Schedule.thy ===== *)
theory Bp_Schedule
  imports Bp_Phase
begin

text \<open>
  Where the phase service gets to: its machine (\<open>service_step\<close>) while the participants of one
  phase after the other report that they are done.
\<close>

section \<open>One report\<close>

definition remaining :: "string \<Rightarrow> phase_service \<Rightarrow> uint" where
  "remaining ph ps = participate ps ph - participate_done ps ph"

lemma phase_complete_remaining: "phase_complete ph ps \<longleftrightarrow> remaining ph ps = 0"
  by (auto simp: phase_complete_def remaining_def)

lemma remaining_count_done:
  "remaining q (count_done ph t ps) = (if q = ph then remaining q ps - 1 else remaining q ps)"
  by (simp add: remaining_def count_done_def)

lemma remaining_enter_runtime:
  "remaining q (enter_runtime ph n ps) = (if q = ph then n - participate_done ps ph else remaining q ps)"
  by (simp add: remaining_def enter_runtime_def)

lemma remaining_enter_phase [simp]: "remaining q (enter_phase ph ps) = remaining q ps"
  by (simp add: remaining_def enter_phase_def)

lemma next_not_run [simp]: "uvm_runtime_next_phase ph \<noteq> ''run''" "''run'' \<noteq> uvm_runtime_next_phase ph"
  by (simp_all add: uvm_runtime_next_phase_def)

text \<open>While the run phase has participants left, the runtime phases follow each other.\<close>

definition after_last :: "string \<Rightarrow> uint \<Rightarrow> phase_service \<Rightarrow> phase_service" where
  "after_last ph n ps =
     (if uvm_runtime_next_phase ph \<noteq> [] then enter_runtime (uvm_runtime_next_phase ph) n ps else ps)"

lemma service_step_runtime:
  assumes "ph \<noteq> ''run''" and "remaining ''run'' ps \<noteq> 0"
  shows "service_step ph t n ps =
    (if remaining ph ps = 1 then after_last ph n (count_done ph t ps) else count_done ph t ps)"
  using assms
  by (auto simp: service_step_def phase_complete_remaining remaining_count_done remaining_enter_runtime after_last_def Let_def)

text \<open>The last report of the run phase, when the shutdown phase is over.\<close>

lemma service_step_run:
  assumes "remaining ''shutdown'' ps = 0"
  shows "service_step ''run'' t n ps =
    (if remaining ''run'' ps = 1 then enter_phase ''final'' (count_done ''run'' t ps) else count_done ''run'' t ps)"
  using assms by (auto simp: service_step_def phase_complete_remaining remaining_count_done Let_def)

text \<open>A report of another phase leaves the run phase alone.\<close>

lemma service_step_other:
  assumes "ph \<noteq> ''run''"
  shows "remaining ''run'' (service_step ph t n ps) = remaining ''run'' ps"
  using assms
  by (auto simp: service_step_def Let_def remaining_count_done remaining_enter_runtime)

section \<open>All participants of a phase report\<close>

lemma unat_minus_1: "(x::uint) \<noteq> 0 \<Longrightarrow> unat (x - 1) = unat x - 1"
  by (rule unat_minus_one)

lemma runtime_block:
  assumes "ph \<noteq> ''run''" and "remaining ''run'' ps \<noteq> 0" and "ns \<noteq> []" and "length ns = unat (remaining ph ps)"
  shows "\<exists>n. fold (service_step ph t) ns ps = after_last ph n ((count_done ph t ^^ length ns) ps)"
  using assms(2-4)
proof (induction ns arbitrary: ps)
  case (Cons n ns)
  have r: "remaining ph ps \<noteq> 0" using Cons.prems(3) by auto
  let ?ps = "count_done ph t ps"
  show ?case
  proof (cases ns)
    case Nil
    then have "unat (remaining ph ps) = 1" using Cons.prems(3) by simp
    then have "remaining ph ps = 1" by (simp add: word_unat_eq_iff)
    then show ?thesis using Nil service_step_runtime [OF assms(1) Cons.prems(1)] by auto
  next
    case (Cons m ms)
    then have "remaining ph ps \<noteq> 1" using Cons.prems(3) by auto
    then have step: "service_step ph t n ps = ?ps" using service_step_runtime [OF assms(1) Cons.prems(1)] by simp
    have "remaining ''run'' ?ps \<noteq> 0" using Cons.prems(1) assms(1) by (auto simp: remaining_count_done)
    moreover have "length ns = unat (remaining ph ?ps)"
      using Cons.prems(3) unat_minus_1 [OF r] by (simp add: remaining_count_done)
    ultimately obtain k where "fold (service_step ph t) ns ?ps = after_last ph k ((count_done ph t ^^ length ns) ?ps)"
      using Cons.IH [of ?ps] Cons by blast
    then show ?thesis using step by (auto simp: funpow_swap1)
  qed
qed simp

lemma run_block:
  assumes "remaining ''shutdown'' ps = 0" and "ns \<noteq> []" and "length ns = unat (remaining ''run'' ps)"
  shows "fold (service_step ''run'' t) ns ps = enter_phase ''final'' ((count_done ''run'' t ^^ length ns) ps)"
  using assms
proof (induction ns arbitrary: ps)
  case (Cons n ns)
  have r: "remaining ''run'' ps \<noteq> 0" using Cons.prems(3) by auto
  let ?ps = "count_done ''run'' t ps"
  show ?case
  proof (cases ns)
    case Nil
    then have "unat (remaining ''run'' ps) = 1" using Cons.prems(3) by simp
    then have "remaining ''run'' ps = 1" by (simp add: word_unat_eq_iff)
    then show ?thesis using Nil service_step_run [OF Cons.prems(1)] by auto
  next
    case (Cons m ms)
    then have "remaining ''run'' ps \<noteq> 1" using Cons.prems(3) by auto
    then have step: "service_step ''run'' t n ps = ?ps" using service_step_run [OF Cons.prems(1)] by simp
    have "remaining ''shutdown'' ?ps = 0" using Cons.prems(1) by (auto simp: remaining_count_done)
    moreover have "length ns = unat (remaining ''run'' ?ps)"
      using Cons.prems(3) unat_minus_1 [OF r] by (simp add: remaining_count_done)
    ultimately show ?thesis using step Cons.IH [of ?ps] Cons by (simp add: funpow_swap1)
  qed
qed simp

lemma count_done_all:
  "remaining q ((count_done ph t ^^ k) ps) = (if q = ph then remaining q ps - of_nat k else remaining q ps)"
  by (induction k) (auto simp: remaining_count_done)

lemma participate_count_done [simp]: "participate ((count_done ph t ^^ k) ps) = participate ps"
  by (induction k) (simp_all add: count_done_def)

lemma count_done_other: "q \<noteq> ph \<Longrightarrow> participate_done ((count_done ph t ^^ k) ps) q = participate_done ps q"
  by (induction k) (simp_all add: count_done_def)

section \<open>The reports as calls\<close>

lemma reports_steps:
  assumes "phase_service s = Some ps" and "fold_res (\<lambda>_. srvc_notify_phase_done i grp ph t) xs s = Inr s'"
  shows "\<exists>ns. length ns = length xs \<and> phase_service s' = Some (fold (service_step ph t) ns ps)"
  using assms
proof (induction xs arbitrary: s ps)
  case (Cons x xs)
  then obtain s1 where s1: "srvc_notify_phase_done i grp ph t s = Inr s1"
      "fold_res (\<lambda>_. srvc_notify_phase_done i grp ph t) xs s1 = Inr s'" by (auto elim: bind_res_InrE)
  obtain n where n: "phase_service s1 = Some (service_step ph t n ps)"
    using srvc_notify_phase_done_step [OF Cons.prems(1) s1(1)] by blast
  obtain ns where "length ns = length xs" "phase_service s' = Some (fold (service_step ph t) ns (service_step ph t n ps))"
    using Cons.IH [OF n s1(2)] by blast
  then show ?case by (intro exI [of _ "n # ns"]) simp
qed simp

text \<open>All participants left in a phase, at least one, report done in turn.\<close>

definition all_report :: "uint \<Rightarrow> string \<Rightarrow> time \<Rightarrow> string \<Rightarrow> 'w bp_state \<Rightarrow> 'w bp_state res" where
  "all_report i grp t ph s =
     bind_res (service s) (\<lambda>ps.
     bind_res (assert_res (remaining ph ps \<noteq> 0)) (\<lambda>_.
       fold_res (\<lambda>_. srvc_notify_phase_done i grp ph t) [0..<unat (remaining ph ps)] s))"

lemma all_report_steps:
  assumes "phase_service s = Some ps" and "all_report i grp t ph s = Inr s'"
  obtains ns where "ns \<noteq> []" and "length ns = unat (remaining ph ps)"
    and "phase_service s' = Some (fold (service_step ph t) ns ps)"
proof -
  have ne: "remaining ph ps \<noteq> 0"
    and f: "fold_res (\<lambda>_. srvc_notify_phase_done i grp ph t) [0..<unat (remaining ph ps)] s = Inr s'"
    using assms by (auto simp: all_report_def service_def assert_res_def elim!: bind_res_InrE split: if_splits)
  obtain ns where "length ns = unat (remaining ph ps)" "phase_service s' = Some (fold (service_step ph t) ns ps)"
    using reports_steps [OF assms(1) f] by auto
  moreover from this have "ns \<noteq> []" using ne by (auto simp: unat_eq_0)
  ultimately show ?thesis using that by blast
qed

text \<open>After the reports of a runtime phase it is over and the next one has begun.\<close>

lemma all_report_runtime:
  assumes ps: "phase_service s = Some ps" and rep: "all_report i grp t ph s = Inr s'"
    and ph: "ph \<noteq> ''run''" "ph \<noteq> uvm_runtime_next_phase ph" and run: "remaining ''run'' ps \<noteq> 0"
  obtains ps' where "phase_service s' = Some ps'" and "remaining ''run'' ps' = remaining ''run'' ps"
    and "remaining ph ps' = 0"
    and "uvm_runtime_next_phase ph \<noteq> [] \<Longrightarrow> ps_current_phase ps' = uvm_runtime_next_phase ph"
proof -
  obtain ns where ns: "ns \<noteq> []" "length ns = unat (remaining ph ps)"
      "phase_service s' = Some (fold (service_step ph t) ns ps)"
    by (rule all_report_steps [OF ps rep])
  obtain n where n: "fold (service_step ph t) ns ps = after_last ph n ((count_done ph t ^^ length ns) ps)"
    using runtime_block [OF ph(1) run ns(1,2)] by blast
  let ?ps = "after_last ph n ((count_done ph t ^^ length ns) ps)"
  show ?thesis
  proof (rule that)
    show "phase_service s' = Some ?ps" using ns(3) n by simp
    show "remaining ''run'' ?ps = remaining ''run'' ps"
      using ph(1) by (auto simp: after_last_def remaining_enter_runtime count_done_all)
    show "remaining ph ?ps = 0"
      using ph(2) by (auto simp: after_last_def remaining_enter_runtime count_done_all ns(2))
    show "ps_current_phase ?ps = uvm_runtime_next_phase ph" if "uvm_runtime_next_phase ph \<noteq> []"
      using that by (simp add: after_last_def enter_runtime_def)
  qed
qed

text \<open>The whole schedule.\<close>

lemma schedule_final:
  assumes fresh: "phase_service s = Some UvmMlPhaseService" and start: "service_StartPhasing s = Inr s0"
    and runtime: "fold_res (all_report i ''uvm'' t) [''reset'', ''configure'', ''main'', ''shutdown''] s0 = Inr s1"
    and run: "all_report i ''common'' t ''run'' s1 = Inr s2"
  shows "\<exists>ps. phase_service s2 = Some ps \<and> ps_current_phase ps = ''final''"
proof -
  obtain p0 where p0: "phase_service s0 = Some p0" using service_StartPhasing_step [OF fresh start] by blast
  obtain a b c where r: "all_report i ''uvm'' t ''reset'' s0 = Inr a" "all_report i ''uvm'' t ''configure'' a = Inr b"
      "all_report i ''uvm'' t ''main'' b = Inr c" "all_report i ''uvm'' t ''shutdown'' c = Inr s1"
    using runtime by (auto elim!: bind_res_InrE)
  have keep: "\<exists>ps'. phase_service y = Some ps' \<and> remaining ''run'' ps' = remaining ''run'' ps"
    if x: "phase_service x = Some ps" "all_report i ''uvm'' t ph x = Inr y" "ph \<noteq> ''run''" for x y ps ph
  proof -
    obtain ns where "phase_service y = Some (fold (service_step ph t) ns ps)" using all_report_steps [OF x(1,2)] by blast
    moreover have "remaining ''run'' (fold (service_step ph t) ns ps) = remaining ''run'' ps"
      using service_step_other [OF x(3)] by (induction ns arbitrary: ps) simp_all
    ultimately show ?thesis by blast
  qed
  obtain pa where pa: "phase_service a = Some pa" "remaining ''run'' pa = remaining ''run'' p0" using keep [OF p0 r(1)] by auto
  obtain pb where pb: "phase_service b = Some pb" "remaining ''run'' pb = remaining ''run'' p0" using keep [OF pa(1) r(2)] pa by auto
  obtain pc where pc: "phase_service c = Some pc" "remaining ''run'' pc = remaining ''run'' p0" using keep [OF pb(1) r(3)] pb by auto
  obtain pd where pd: "phase_service s1 = Some pd" "remaining ''run'' pd = remaining ''run'' p0" using keep [OF pc(1) r(4)] pc by auto
  obtain ns where ns: "ns \<noteq> []" "length ns = unat (remaining ''run'' pd)" "phase_service s2 = Some (fold (service_step ''run'' t) ns pd)"
    by (rule all_report_steps [OF pd(1) run])
  then have "remaining ''run'' pc \<noteq> 0" using pd(2) pc(2) by auto
  then have "remaining ''shutdown'' pd = 0"
    using all_report_runtime [OF pc(1) r(4)] pd(1) by (auto simp: uvm_runtime_next_phase_def)
  then show ?thesis using run_block [OF _ ns(1,2)] ns(3) by (simp add: enter_phase_def)
qed

end
