(* ===== verification/Bp_Properties.thy ===== *)
theory Bp_Properties
  imports Bp_Demo Bp_Schedule
begin

text \<open>
  The properties of the backplane, each with the states of \<open>Bp_Demo\<close> as its instance. Most of
  them hold in every state that successful calls of the function tray lead to (\<open>bp_reach\<close>).
\<close>

section \<open>Reachable states\<close>

lemma reach_facts:
  assumes "bp_reach env n s"
  shows "registry_ok s" "conn_ok s" "tops_ok s" "providers_ok s" "stops_ok s" "only_fake_blocking s" "owners_ok s"
    and "bp_ok s" "bp_next s \<noteq> null"
  using bp_reach_ok [OF assms] by (auto simp: bp_ok_def tops_inv_def registry_ok_def)

lemma reach_next_type_id: "bp_reach env n s \<Longrightarrow> n < 2 ^ 32 - 1 \<Longrightarrow> types_ok s \<and> next_type_id s \<noteq> no_type"
  using bp_reach_types [of env n s] by (auto simp: unsigned_minus_1_eq_mask mask_eq_exp_minus_1)

lemma reach_framework:
  assumes "bp_reach env n s" and "i < length (framework_registry s)"
  shows "\<exists>p f. framework_registry s ! i = p \<and> GetFramework (int i) s = Inr p \<and> proxy p s = Inr f \<and>
    proxies s p = Some f \<and> p \<noteq> null \<and> frmw_id f = int i"
proof -
  note ok = reach_facts(1) [OF assms(1)]
  obtain f where f: "proxies s (framework_registry s ! i) = Some f" "frmw_id f = int i"
    using registry_ok_nth [OF ok assms(2)] by blast
  have "framework_registry s ! i \<noteq> null"
    using registry_ok_in [OF ok nth_mem [OF assms(2)]] by blast
  then show ?thesis using f assms(2) by (auto simp: GetFramework_def proxy_def deref_def)
qed

text \<open>C11.
  In every state the calls of the tray can reach, the data of the backplane is well formed: the
  registered frameworks are live proxies numbered by their position with names that differ even
  ignoring case; the connections form a graph whose fan-out and fan-in mirror each other without
  duplicates and whose paths are unique, and every framework's table leads to its own
  connections; registered tops belong to live frameworks; service providers are live or null;
  every connection belongs to a live framework; and no stop is requested twice.\<close>

theorem reachable_well_formed:
  assumes "bp_reach env n s"
  shows "bp_ok s \<and> owners_ok s \<and> stops_ok s"
  using bp_reach_ok [OF assms] by blast

theorem reachable_well_formed_witness:
  "bp_ok demo \<and> owners_ok demo \<and> stops_ok demo \<and> length (framework_registry demo) = 2"
  using reachable_well_formed [OF demo_reach] by (simp add: demo_defs)

section \<open>Frameworks\<close>

text \<open>Registering a framework, in any reachable state, gives it an id under which the registry finds a
  live proxy with its name; registering it again, by any name that differs only in case and with
  whatever indicators and function table, gives the same id and changes nothing.\<close>

theorem register_framework_found:
  assumes "bp_reach env n s" and reg: "RegisterFramework nm inds (Some api) s = Inr (i, s')"
  shows "\<exists>p f. GetFramework i s' = Inr p \<and> proxy p s' = Inr f \<and> frmw_id f = i \<and> same_ignoring_case (frmw_name f) nm \<and>
           (\<forall>nm' inds' api'. same_ignoring_case nm' nm \<longrightarrow> RegisterFramework nm' inds' (Some api') s' = Inr (i, s'))"
proof -
  let ?p = "GetFrameworkProxyByName nm s'"
  have ok: "registry_ok s'" and i: "0 \<le> i" "GetFramework i s' = Inr ?p" and p: "?p \<noteq> null"
    using RegisterFramework_registered [OF reach_facts(1) [OF assms(1)] reg] by auto
  have in_reg: "?p \<in> set (framework_registry s')" and nm: "same_ignoring_case (frmw_name (the (proxies s' ?p))) nm"
    using GetFrameworkProxyByName_found [OF ok refl p] by auto
  obtain f where f: "proxies s' ?p = Some f" using ok in_reg by (rule registry_ok_in)
  have proxy: "proxy ?p s' = Inr f" using f p by (simp add: proxy_def deref_def)
  have nth: "nat i < length (framework_registry s')" "framework_registry s' ! nat i = ?p"
    using i by (auto simp: GetFramework_def split: if_splits)
  obtain g where "proxies s' (framework_registry s' ! nat i) = Some g" "frmw_id g = int (nat i)"
    using ok nth(1) by (rule registry_ok_nth)
  then have id: "frmw_id f = i" using nth(2) f i(1) by simp
  have again: "RegisterFramework nm' inds' (Some api') s' = Inr (i, s')" if "same_ignoring_case nm' nm" for nm' inds' api'
  proof -
    have "same_ignoring_case (frmw_name (the (proxies s' ?p))) nm'" using nm that by (simp add: same_ignoring_case_def)
    then have "GetFrameworkProxyByName nm' s' = ?p" by (rule GetFrameworkProxyByName_unique [OF ok in_reg])
    then show ?thesis using p proxy id by (simp add: RegisterFramework_def)
  qed
  show ?thesis using i(2) proxy id nm f again by (intro exI [of _ ?p] exI [of _ f]) auto
qed

theorem register_framework_found_witness:
  "RegisterFramework ''SC Adapter'' [''e''] (Some demo_sv) demo = Inr (1, demo)"
proof -
  have "RegisterFramework ''sc adapter'' [] (Some demo_sc) demo = Inr (1, demo)"
    by (simp add: RegisterFramework_def GetFrameworkProxyByName_def has_frmw_name_def same_ignoring_case_def
        to_lower_def lower_chars demo_defs proxy_def deref_def)
  moreover have "same_ignoring_case ''SC Adapter'' ''sc adapter''" by code_simp
  ultimately show ?thesis using register_framework_found [OF demo_reach] by blast
qed

section \<open>Notifications\<close>

text \<open>The adapters' state after a call of every framework but number i, in the order of registration.\<close>

definition world_after_others :: "nat \<Rightarrow> ('w frmw_api \<Rightarrow> ('w \<Rightarrow> 'w) option) \<Rightarrow> 'w bp_state \<Rightarrow> 'w" where
  "world_after_others i fn s =
     fold (call_world s fn) (take i (framework_registry s) @ drop (Suc i) (framework_registry s)) (world s)"

lemma broadcast_reaches_others:
  assumes "bp_reach env n s"
  shows "other_frameworks (int i) (\<lambda>p. frmw_call_void p fn) s = Inr (s\<lparr>world := world_after_others i fn s\<rparr>)"
  using other_frameworks_world [OF reach_facts(1) [OF assms], of "int i"] others_registry [OF reach_facts(1) [OF assms], of i]
  by (simp add: world_after_others_def)

text \<open>C26.
  A time synchronisation, an event or a barrier notified by framework number i reaches, in any
  reachable state, every other registered framework exactly once and in the order of registration,
  and changes nothing but the adapters' own state; the caller itself is left out, and an adapter
  that lacks the function is skipped.\<close>

theorem notifications_reach_others:
  assumes "bp_reach env n s"
  shows "bp_synchronize (int i) t s = Inr (s\<lparr>world :=
        world_after_others i (\<lambda>a. map_option (\<lambda>g. g t) (synchronize_ptr (notify_fns a))) s\<rparr>) \<and>
    bp_notify_event (int i) scope ev act sz x t s = Inr (s\<lparr>world :=
        world_after_others i (\<lambda>a. map_option (\<lambda>g. g scope ev act sz x t) (notify_event_ptr (notify_fns a))) s\<rparr>) \<and>
    bp_notify_barrier (int i) scope ev act k t s = Inr (s\<lparr>world :=
        world_after_others i (\<lambda>a. map_option (\<lambda>g. g scope ev act k t) (notify_barrier_ptr (notify_fns a))) s\<rparr>)"
  using broadcast_reaches_others [OF assms(1), of i]
  by (simp add: bp_synchronize_def Synchronize_def frmw_Synchronize_def [abs_def]
      bp_notify_event_def NotifyEvent_def frmw_NotifyEvent_def [abs_def]
      bp_notify_barrier_def NotifyBarrier_def frmw_NotifyBarrier_def [abs_def])

theorem notifications_reach_others_witness:
  "bp_synchronize 0 (UNIT_NS, 0) demo = Inr (demo\<lparr>world := [(''sc synchronize'', 0, [])]\<rparr>)"
  using notifications_reach_others [OF demo_reach, of 0 "(UNIT_NS, 0)"]
  by (simp add: world_after_others_def demo_defs call_world_def demo_api_def)

section \<open>Types\<close>

text \<open>C36.
  As long as ids are left, the type tables of every reachable state are consistent: the tables of
  unregistered names are inverse to each other and hold short names only, and every id a framework
  knows was handed out before and is the id of an explicit match or of the short name. \<open>n\<close> calls
  hand out \<open>n\<close> ids at most, so the 32-bit counter does not wrap before \<open>2 ^ 32 - 1\<close> calls.\<close>

theorem reachable_types:
  assumes "bp_reach env n s" and "n < 2 ^ 32 - 1"
  shows "types_ok s \<and> unat (next_type_id s) \<le> n"
  using bp_reach_types [OF assms] .

theorem reachable_types_witness: "types_ok demo \<and> unat (next_type_id demo) \<le> 5"
  using reachable_types [OF demo_reach] by simp

text \<open>Asking for an id in a framework without explicit matches.\<close>

definition unmatched :: "'w bp_state \<Rightarrow> nat \<Rightarrow> bool" where
  "unmatched s i \<longleftrightarrow> i < length (framework_registry s) \<and>
     m_registered_types (the (proxies s (framework_registry s ! i))) = []"

lemma get_type_id_unmatched:
  assumes r: "bp_reach env n s" and n: "n < 2 ^ 32 - 1" and i: "unmatched s i"
  obtains a s' p f where "bp_get_type_id_from_name (int i) x s = Inr (a, s')" and "bp_reach env (Suc n) s'"
    and "GetFramework (int i) s' = Inr p" and "frmw_GetTypeId p x s = Inr (a, s')"
    and "proxy p s' = Inr f" and "m_registered_types f = []"
    and "map_of (unregistered_types s') (GetShortName x) = Some a" and "types_ok s'" and "extends s s'"
    and "\<And>j. unmatched s j \<Longrightarrow> unmatched s' j"
proof -
  have ty: "types_ok s" "next_type_id s \<noteq> no_type" using reach_next_type_id [OF r n] by auto
  obtain p f where p: "framework_registry s ! i = p" "GetFramework (int i) s = Inr p" "proxy p s = Inr f" "proxies s p = Some f"
    "p \<noteq> null" using reach_framework [OF r] i unfolding unmatched_def by blast
  have "m_registered_types f = []" using i p by (simp add: unmatched_def)
  then obtain a s' f' where a: "frmw_GetTypeId p x s = Inr (a, s')" "proxies s' = (proxies s)(p \<mapsto> f')"
      "m_registered_types f' = []" "framework_registry s' = framework_registry s"
      "map_of (unregistered_types s') (GetShortName x) = Some a"
    using frmw_GetTypeId_unregistered [OF ty p(3)] by blast
  have get: "bp_get_type_id_from_name (int i) x s = Inr (a, s')"
    using p(2) a(1) by (simp add: bp_get_type_id_from_name_def GetTypeIdByTypeName_def)
  then have "bp_do env (Setup (Get_Type_Id (int i) x)) s = Some (Inr s')" by (simp add: state_of_def)
  then have r': "bp_reach env (Suc n) s'" by (rule bp_reach.call [OF r])
  have "GetFramework (int i) s' = Inr p" "proxy p s' = Inr f'"
    using p(2,5) a(2,4) by (auto simp: GetFramework_def proxy_def deref_def split: if_splits)
  moreover have "unmatched s' j" if "unmatched s j" for j
    using that a(2-4) by (simp add: unmatched_def)
  ultimately show ?thesis using that get r' a frmw_GetTypeId_ok [OF ty a(1)] by blast
qed



text \<open>A type id reads back: in a framework with no explicit match, the name of the id it got for a
  type is the base name of that type (the part after the last colon), and asking for the id again
  gives the same id and changes nothing.\<close>

theorem type_name_reads_back:
  assumes r: "bp_reach env n s" and n: "n < 2 ^ 32 - 1" and i: "unmatched s i"
    and get: "bp_get_type_id_from_name (int i) x s = Inr (a, s')"
  shows "bp_get_type_name_from_id (int i) a s' = Inr (BpExtractBaseName x) \<and>
         bp_get_type_id_from_name (int i) x s' = Inr (a, s')"
proof -
  obtain p f where p: "GetFramework (int i) s' = Inr p" "frmw_GetTypeId p x s = Inr (a, s')" "proxy p s' = Inr f"
      "m_registered_types f = []" "map_of (unregistered_types s') (GetShortName x) = Some a" "types_ok s'"
    using get_type_id_unmatched [OF r n i, of x] get by (metis prod.inject sum.inject(2))
  obtain m where m: "frmw_GetTypeName p a False s' = Inr m" "GetShortName m = GetShortName x"
    using frmw_GetTypeName_unregistered [OF p(6,3,4,5)] by blast
  have "frmw_GetTypeName p a True s' = Inr (BpExtractBaseName m)"
    using m(1) p(3) by (auto simp: frmw_GetTypeName_def bind_res_Inr_iff)
  moreover have "BpExtractBaseName m = BpExtractBaseName x" using m(2) BpExtractBaseName_short by metis
  ultimately show ?thesis using p(1) frmw_GetTypeId_again [OF p(2)]
    by (simp add: bp_get_type_name_from_id_def GetTypeNameByTypeId_def bp_get_type_id_from_name_def GetTypeIdByTypeName_def)
qed

theorem type_name_reads_back_witness:
  "\<exists>a s. bp_get_type_id_from_name 0 ''pkg::packet'' demo = Inr (a, s) \<and> bp_get_type_name_from_id 0 a s = Inr ''packet''"
proof -
  have un: "unmatched demo 0" by (simp add: unmatched_def demo_defs)
  obtain a s where get: "bp_get_type_id_from_name (int 0) ''pkg::packet'' demo = Inr (a, s)"
    by (rule get_type_id_unmatched [OF demo_reach _ un]) (simp, blast)
  have "BpExtractBaseName ''pkg::packet'' = ''packet''" by code_simp
  then show ?thesis using type_name_reads_back [OF demo_reach _ un get] get by auto
qed

text \<open>C29.
  After a successful match of two types of two languages, each language's framework finds its type
  under one and the same id, which asking for does not change any more.\<close>

theorem type_match_gives_one_id:
  assumes r: "bp_reach env n s" and n: "n < 2 ^ 32 - 1"
    and parse: "ParseTypeName t = Inr (l1, n1)" "ParseTypeName u = Inr (l2, n2)"
    and m: "bp_set_match_types i t u s = Inr (1, s')"
  shows "\<exists>p q a. GetFrameworkProxyByInd l1 s' = Inr p \<and> GetFrameworkProxyByInd l2 s' = Inr q \<and> p \<noteq> q \<and>
           frmw_GetTypeId p n1 s' = Inr (a, s') \<and> frmw_GetTypeId q n2 s' = Inr (a, s')"
proof -
  have ty: "types_ok s" "next_type_id s \<noteq> no_type" using reach_next_type_id [OF r n] by auto
  have "RegisterTypeMatch (l1, n1) (l2, n2) s = Inr (True, s')"
    using m parse by (auto simp: bp_set_match_types_def elim!: bind_res_InrE split: if_splits)
  from RegisterTypeMatch_ok [OF ty this] show ?thesis by (fastforce simp: frmw_GetTypeId_def)
qed

theorem type_match_gives_one_id_witness:
  "\<exists>a s. bp_set_match_types 0 ''SV:pkg::packet'' ''sc:Packet'' demo = Inr (1, s) \<and>
     frmw_GetTypeId 2 ''pkg::packet'' s = Inr (a, s) \<and> frmw_GetTypeId 3 ''Packet'' s = Inr (a, s)"
proof -
  have parse: "ParseTypeName ''SV:pkg::packet'' = Inr (''sv'', ''pkg::packet'')" "ParseTypeName ''sc:Packet'' = Inr (''sc'', ''Packet'')"
    by code_simp+
  have low: "to_lower ''sv'' = ''sv''" "to_lower ''sc'' = ''sc''" by code_simp+
  have short: "after_last_colons ''pkg::packet'' = Some ''packet''" "after_last_colons ''Packet'' = None" by code_simp+
  obtain s where m: "bp_set_match_types 0 ''SV:pkg::packet'' ''sc:Packet'' demo = Inr (1, s)"
    and inds: "frameworks_by_ind s = frameworks_by_ind demo"
    by (simp add: bp_set_match_types_def parse RegisterTypeMatch_def GetFrameworkProxyByInd_def low demo_defs proxy_def deref_def
        FindTypeId_def IsQualifiedName_def short registerNewTypeMatch_def GetNextTypeId_def AddFrmwEntry_def
        frmw_AddRegisteredTypeEntry_def AddRegisteredTypeEntry_def set_proxy_def assert_res_def Let_def)
  have "GetFrameworkProxyByInd ''sv'' s = Inr 2" "GetFrameworkProxyByInd ''sc'' s = Inr 3"
    using inds by (simp_all add: GetFrameworkProxyByInd_def low demo_defs)
  then show ?thesis using type_match_gives_one_id [OF demo_reach _ parse m] m by auto
qed

section \<open>Connections and transactions\<close>

text \<open>C3.
  Connecting two paths in a reachable state succeeds only with both connections registered under
  their paths and linked in both directions, and keeps the graph well formed; a failing connect
  keeps it well formed as well.\<close>

theorem route_connects:
  assumes "bp_reach env n s" and "bp_connect i x y s = Inr (r, s')"
  shows "conn_ok s' \<and>
    (r = 0 \<or> (\<exists>a c b d. connections s' a = Some c \<and> connections s' b = Some d \<and>
       a \<in> set (port_registry s') \<and> b \<in> set (port_registry s') \<and> c_path c = x \<and> c_path d = y \<and>
       b \<in> set (fanout c) \<and> a \<in> set (fanin d)))"
proof -
  obtain ok where reg: "RegisterRoute (sint i) x y s = Inr (ok, s')" and r: "r = (if ok then 1 else 0)"
    using assms(2) by (auto simp: bp_connect_def elim!: bind_res_InrE)
  note route = RegisterRoute_ok [OF reach_facts(2) [OF assms(1)] reg]
  show ?thesis
  proof (cases ok)
    case True
    then obtain a b where ab: "a \<in> set (port_registry s')" "b \<in> set (port_registry s')" "b \<in> set (fanout (cn s' a))"
        "c_path (cn s' a) = x" "c_path (cn s' b) = y"
      using route by (auto simp: Let_def)
    have g: "graph_ok (port_registry s') (connections s')" using route by (simp add: conn_ok_def)
    obtain c d where cd: "connections s' a = Some c" "connections s' b = Some d"
      using graph_ok_cn [OF g ab(1)] graph_ok_cn [OF g ab(2)] by blast
    have "a \<in> set (fanin (cn s' b))" using g ab(3) cd unfolding graph_ok_def by blast
    then show ?thesis using route ab cd by auto
  qed (use r route in auto)
qed

theorem route_connects_witness:
  "\<exists>s a c b d. bp_connect 1 ''sv.out'' ''sc.in2'' demo = Inr (1, s) \<and> connections s a = Some c \<and> connections s b = Some d \<and>
     c_path c = ''sv.out'' \<and> c_path d = ''sc.in2'' \<and> b \<in> set (fanout c) \<and> a \<in> set (fanin d)"
proof -
  obtain s where s: "bp_connect 1 ''sv.out'' ''sc.in2'' demo = Inr (1, s)"
    by (simp add: demo_run demo_defs Let_def numeral_eq_Suc cong: if_cong option.case_cong)
  show ?thesis using route_connects [OF demo_reach s] s by auto
qed

text \<open>The fan-out of a connection that framework number \<open>i\<close> knows under a bind key.\<close>

definition targets :: "'w bp_state \<Rightarrow> nat \<Rightarrow> int \<Rightarrow> addr list option" where
  "targets s i k =
     (if i < length (framework_registry s) then
        map_option (\<lambda>a. fanout (cn s a)) (map_of (m_connections (the (proxies s (framework_registry s ! i)))) k)
      else None)"

definition owner_api :: "'w bp_state \<Rightarrow> addr \<Rightarrow> 'w frmw_api" where
  "owner_api s b = required_api (the (proxies s (c_frmw (cn s b))))"

lemma targets_cases:
  assumes r: "bp_reach env n s" and t: "targets s i k = Some bs"
  obtains p f a where "GetFramework (int i) s = Inr p" and "proxy p s = Inr f" and "frmw_GetConnection k f = a"
    and "a \<noteq> null" and "conn a s = Inr (cn s a)" and "fanout (cn s a) = bs"
    and "\<And>b. b \<in> set bs \<Longrightarrow> b \<noteq> null \<and> conn b s = Inr (cn s b) \<and>
      (\<exists>g. proxy (c_frmw (cn s b)) s = Inr g \<and> proxies s (c_frmw (cn s b)) = Some g \<and> owner_api s b = required_api g)"
proof -
  note conn_ok = reach_facts(2) [OF r] and own = reach_facts(7) [OF r] and reg = reach_facts(1) [OF r]
  have i: "i < length (framework_registry s)" using t by (auto simp: targets_def split: if_splits)
  obtain p f where p: "framework_registry s ! i = p" "GetFramework (int i) s = Inr p" "proxy p s = Inr f" "proxies s p = Some f"
    using reach_framework [OF r i] by blast
  obtain a where a: "map_of (m_connections f) k = Some a" "fanout (cn s a) = bs"
    using t i p by (auto simp: targets_def)
  have dom: "a \<in> dom (connections s)" using conn_ok p(4) a(1) unfolding conn_ok_def tables_ok_def by blast
  have live: "x \<noteq> null \<and> conn x s = Inr (cn s x)" if "x \<in> dom (connections s)" for x
    using conn_ok that by (auto simp: conn_ok_def conn_def deref_def)
  have "b \<in> dom (connections s)" if "b \<in> set bs" for b
    using conn_ok dom a(2) that unfolding conn_ok_def graph_ok_def by blast
  moreover have "\<exists>g. proxy (c_frmw (cn s b)) s = Inr g \<and> proxies s (c_frmw (cn s b)) = Some g \<and> owner_api s b = required_api g"
    if "b \<in> dom (connections s)" for b
  proof -
    have "connections s b = Some (cn s b)" using that by auto
    then obtain g where g: "proxies s (c_frmw (cn s b)) = Some g" using own unfolding owners_ok_def by blast
    then have "c_frmw (cn s b) \<noteq> null" using reg unfolding registry_ok_def by blast
    then show ?thesis using g by (simp add: proxy_def deref_def owner_api_def)
  qed
  ultimately show ?thesis using that p a live dom by (auto simp: frmw_GetConnection_def)
qed

lemma GetSingleProvider_targets:
  assumes r: "bp_reach env n s" and t: "targets s i k = Some bs"
  shows "GetSingleProvider (int i) k s = (case bs of [b] \<Rightarrow> Inr b | _ \<Rightarrow> Inl Assert_Failure)"
proof -
  obtain p f a where p: "GetFramework (int i) s = Inr p" "proxy p s = Inr f" "frmw_GetConnection k f = a" "a \<noteq> null"
      "conn a s = Inr (cn s a)" "fanout (cn s a) = bs" "\<And>b. b \<in> set bs \<Longrightarrow> b \<noteq> null"
    using targets_cases [OF r t] by metis
  have "GetSingleProvider (int i) k s = bind_res (assert_res (conn_GetSingleProvider (cn s a) \<noteq> null)) (\<lambda>_. Inr (conn_GetSingleProvider (cn s a)))"
    using p(1-5) by (simp add: GetSingleProvider_def assert_res_def)
  then show ?thesis using p(6,7)
    by (auto simp: conn_GetSingleProvider_def assert_res_def length_Suc_conv split: list.splits)
qed

lemma to_provider_targets:
  assumes r: "bp_reach env n s" and t: "targets s i k = Some bs"
  shows "to_provider (int i) k call s =
    (case bs of [b] \<Rightarrow> call (c_frmw (cn s b)) (c_bind_key (cn s b)) s | _ \<Rightarrow> Inl Assert_Failure)"
proof -
  have "conn b s = Inr (cn s b)" if "b \<in> set bs" for b
    using targets_cases [OF r t] that by metis
  then show ?thesis using GetSingleProvider_targets [OF r t]
    by (auto simp: to_provider_def split: list.splits)
qed

lemma frmw_call_owner:
  assumes r: "bp_reach env n s" and t: "targets s i k = Some bs" and b: "b \<in> set bs"
  shows "frmw_call (c_frmw (cn s b)) fn d s =
    (case fn (owner_api s b) of None \<Rightarrow> Inr (d, s) | Some g \<Rightarrow> (case g (world s) of (x, w) \<Rightarrow> Inr (x, s\<lparr>world := w\<rparr>)))"
proof -
  obtain g where "proxy (c_frmw (cn s b)) s = Inr g" "owner_api s b = required_api g"
    using targets_cases [OF r t] b by metis
  then show ?thesis by (simp add: frmw_call_def)
qed

text \<open>C8.
  A non-blocking put on a connection that a framework knows under a bind key is, in any reachable
  state, exactly one call of \<open>try_put\<close> of the adapter that owns the only provider of the
  connection, with the provider's own bind key and the caller's data and time; its result is the
  result, and nothing but the adapters' state changes. An adapter without the function answers 0.
  With no provider or several, the call fails an assertion.\<close>

theorem put_reaches_provider:
  assumes "bp_reach env n s" and "targets s i k = Some bs"
  shows "bp_nb_put (int i) k sz x t s =
    (case bs of
       [b] \<Rightarrow>
         (case try_put_ptr (tlm1_fns (owner_api s b)) of
            None \<Rightarrow> Inr (0, s)
          | Some g \<Rightarrow> (case g (c_bind_key (cn s b)) sz x t (world s) of (r, w) \<Rightarrow> Inr (r, s\<lparr>world := w\<rparr>)))
     | _ \<Rightarrow> Inl Assert_Failure)"
  by (auto simp: bp_nb_put_def NbPut_def frmw_NbPut_def to_provider_targets [OF assms] frmw_call_owner [OF assms]
      split: list.splits option.splits)

theorem put_reaches_provider_witness:
  "bp_nb_put 0 7 2 [5, 6] (UNIT_NS, 0) demo = Inr (1, demo\<lparr>world := [(''sc put'', 3, [5, 6])]\<rparr>)"
  using put_reaches_provider [OF demo_reach, of 0 7 "[7]" 2 "[5, 6]" "(UNIT_NS, 0)"]
  by (simp add: targets_def owner_api_def demo_defs demo_api_def)

text \<open>A request for a blocking put is never carried out as a true blocking call: in every reachable
  state it is one \<open>put_request\<close> of the adapter that owns the only provider, with the provider's
  bind key, the call's id and the caller's framework id, and it reports that it is not done. (An
  adapter without the function answers 1.)\<close>

theorem blocking_put_is_requested:
  assumes "bp_reach env n s" and "targets s i k = Some bs"
  shows "bp_request_put (int i) k q sz x t s =
    (case bs of
       [b] \<Rightarrow>
         (case put_request_ptr (tlm1_fns (owner_api s b)) of
            None \<Rightarrow> Inr ((1, 0), s)
          | Some g \<Rightarrow> (case g (c_bind_key (cn s b)) q (int i) sz x t (world s) of (r, w) \<Rightarrow> Inr ((r, 0), s\<lparr>world := w\<rparr>)))
     | _ \<Rightarrow> Inl Assert_Failure)"
proof -
  obtain p f where p: "GetFramework (int i) s = Inr p" "proxy p s = Inr f"
    using targets_cases [OF assms] by metis
  have fake: "\<not> true_blocking g \<and> fake_blocking g" if "proxy q s = Inr g" for q g
    using reach_facts(6) [OF assms(1)] proxy_InrD [OF that] unfolding only_fake_blocking_def by blast
  have b: "\<exists>g. conn b s = Inr (cn s b) \<and> proxy (c_frmw (cn s b)) s = Inr g" if "b \<in> set bs" for b
    using targets_cases [OF assms] that by metis
  show ?thesis
  proof (cases "\<exists>b. bs = [b]")
    case True
    then obtain b where bs: "bs = [b]" by blast
    obtain g where g: "conn b s = Inr (cn s b)" "proxy (c_frmw (cn s b)) s = Inr g" using b bs by fastforce
    then show ?thesis
      using p fake [OF p(2)] fake [OF g(2)] GetSingleProvider_targets [OF assms]
      by (auto simp: bs frmw_call_owner [OF assms, of b] bp_request_put_def RequestPut_def RequestBlockingCall_def FrameworksCompatibleBlocking_def
          assert_res_def blocking_call_def frmw_RequestPut_def as_uint_def split: option.splits prod.splits)
  next
    case False
    then show ?thesis using GetSingleProvider_targets [OF assms]
      by (auto simp: bp_request_put_def RequestPut_def RequestBlockingCall_def split: list.splits)
  qed
qed

theorem blocking_put_is_requested_witness:
  "bp_request_put 0 7 9 2 [5, 6] (UNIT_NS, 0) demo = Inr ((0, 0), demo\<lparr>world := [(''sc put_request'', 3, [5, 6])]\<rparr>)"
  using blocking_put_is_requested [OF demo_reach, of 0 7 "[7]" 9 2 "[5, 6]" "(UNIT_NS, 0)"]
  by (simp add: targets_def owner_api_def demo_defs demo_api_def)

text \<open>C28.
  A write on a connection goes, in any reachable state, to every connection of its fan-out in the
  order they were connected, each time to the adapter that owns it and with its own bind key; an
  adapter without the function is skipped.\<close>

theorem write_reaches_fanout:
  assumes "bp_reach env n s" and "targets s i k = Some bs"
  shows "bp_write (int i) k sz x t s =
    Inr (s\<lparr>world := fold (\<lambda>b w. case write_ptr (tlm2_fns (owner_api s b)) of
                              None \<Rightarrow> w | Some g \<Rightarrow> g (c_bind_key (cn s b)) sz x t w) bs (world s)\<rparr>)"
proof -
  let ?step = "\<lambda>b w. case write_ptr (tlm2_fns (owner_api s b)) of None \<Rightarrow> w | Some g \<Rightarrow> g (c_bind_key (cn s b)) sz x t w"
  let ?call = "\<lambda>b s. bind_res (conn b s) (\<lambda>c. frmw_Write (c_frmw c) (c_bind_key c) sz x t s)"
  obtain p f a where p: "GetFramework (int i) s = Inr p" "proxy p s = Inr f" "frmw_GetConnection k f = a" "a \<noteq> null"
      "conn a s = Inr (cn s a)" "fanout (cn s a) = bs"
    and b: "\<And>b. b \<in> set bs \<Longrightarrow> conn b s = Inr (cn s b) \<and>
      (\<exists>g. proxy (c_frmw (cn s b)) s = Inr g \<and> owner_api s b = required_api g)"
    using targets_cases [OF assms] by metis
  have one: "?call b (s\<lparr>world := w\<rparr>) = Inr (s\<lparr>world := ?step b w\<rparr>)" if in_bs: "b \<in> set bs" for b w
  proof -
    obtain g where "proxy (c_frmw (cn s b)) s = Inr g" "owner_api s b = required_api g" using b [OF in_bs] by blast
    moreover have "conn b s = Inr (cn s b)" using b [OF in_bs] by blast
    ultimately show ?thesis
      by (simp add: conn_def frmw_Write_def frmw_call_void_def proxy_def split: option.splits)
  qed
  have "fold_res ?call cs (s\<lparr>world := w\<rparr>) = Inr (s\<lparr>world := fold ?step cs w\<rparr>)" if "set cs \<subseteq> set bs" for cs w
    using that
  proof (induction cs arbitrary: w)
    case (Cons c cs)
    then show ?case using one [of c w] by simp
  qed simp
  from this [of bs "world s"] show ?thesis
    using p by (simp add: bp_write_def Write_def assert_res_def)
qed

theorem write_reaches_fanout_witness:
  "bp_write 0 7 1 [8] (UNIT_NS, 0) demo = Inr (demo\<lparr>world := [(''sc write'', 3, [8])]\<rparr>)"
  using write_reaches_fanout [OF demo_reach, of 0 7 "[7]" 1 "[8]" "(UNIT_NS, 0)"]
  by (simp add: targets_def owner_api_def demo_defs demo_api_def)



section \<open>Phases\<close>





lemma notify_phase_done_common:
  assumes "phase_srv s = common_frmw s" and "phase_srv s \<noteq> null"
  shows "bp_notify_phase_done i grp ph t s = srvc_notify_phase_done i grp ph t s"
  using assms by (simp add: bp_notify_phase_done_def PhaseSrvNotifyPhaseDone_def frmw_PhaseSrvNotifyPhaseDone_def)


definition demo_running :: "demo_world bp_state" where
  "demo_running = demo\<lparr>phase_service := Some (UvmMlPhaseService\<lparr>participate := (\<lambda>_. 0)(''run'' := 1, ''reset'' := 2)\<rparr>)\<rparr>"






text \<open>C37.
  The phases after the run are not kept back until the runtime phases are over: if the last
  participant of the run phase reports done before the shutdown phase has been entered (its two
  counts are then equal, both being 0), the service goes straight through to \<open>final\<close>, while the
  participants of every other phase, the current runtime phase among them, are still counted as
  not done.\<close>

theorem post_run_premature:
  assumes "phase_srv s = common_frmw s" and "phase_srv s \<noteq> null" and ps: "phase_service s = Some ps"
    and "participate ps ''shutdown'' = 0" and "participate_done ps ''shutdown'' = 0"
    and "participate ps ''run'' = participate_done ps ''run'' + 1"
    and "bp_notify_phase_done i grp ''run'' t s = Inr s'"
  shows "\<exists>ps'. phase_service s' = Some ps' \<and> ps_current_phase ps' = ''final'' \<and>
           (\<forall>q. q \<noteq> ''run'' \<longrightarrow> remaining q ps' = remaining q ps)"
proof -
  obtain n where n: "phase_service s' = Some (service_step ''run'' t n ps)"
    using srvc_notify_phase_done_step [OF ps] assms(7) notify_phase_done_common [OF assms(1,2)] by metis
  have "remaining ''shutdown'' ps = 0" "remaining ''run'' ps = 1" using assms(4-6) by (simp_all add: remaining_def)
  then have "service_step ''run'' t n ps = enter_phase ''final'' (count_done ''run'' t ps)"
    using service_step_run [of ps t n] by simp
  then show ?thesis using n by (simp add: remaining_count_done) (simp add: enter_phase_def)
qed

theorem post_run_premature_witness:
  "\<exists>s ps. bp_notify_phase_done 0 ''common'' ''run'' (UNIT_NS, 0) demo_running = Inr s \<and> phase_service s = Some ps \<and>
     ps_current_phase ps = ''final'' \<and> remaining ''reset'' ps = 2"
proof -
  let ?ps = "UvmMlPhaseService\<lparr>participate := (\<lambda>_. 0)(''run'' := 1, ''reset'' := 2)\<rparr>"
  have srv: "phase_srv demo_running = common_frmw demo_running" "phase_srv demo_running \<noteq> null"
    "phase_service demo_running = Some ?ps" by (simp_all add: demo_running_def demo_defs)
  have "is_state (Some (bp_notify_phase_done 0 ''common'' ''run'' (UNIT_NS, 0) demo_running))" by code_simp
  then obtain s where s: "bp_notify_phase_done 0 ''common'' ''run'' (UNIT_NS, 0) demo_running = Inr s"
    by (auto simp: is_state_def split: sum.splits)
  have ps: "participate ?ps ''shutdown'' = 0" "participate_done ?ps ''shutdown'' = 0"
    "participate ?ps ''run'' = participate_done ?ps ''run'' + 1" "remaining ''reset'' ?ps = 2"
    by (simp_all add: remaining_def UvmMlPhaseService_def)
  obtain ps' where "phase_service s = Some ps'" "ps_current_phase ps' = ''final''" "remaining ''reset'' ps' = remaining ''reset'' ?ps"
    using post_run_premature [OF srv ps(1-3) s] by auto
  then show ?thesis using s ps(4) by (intro exI [of _ s] exI [of _ ps']) simp
qed

text \<open>C35.
  The requests to stop at a phase are a set: in every reachable state a pending stop is found
  exactly when it is a member, a request that is accepted adds its phase and action and one that is
  refused adds nothing, a cancellation removes the one, and the cancellation of all leaves none.\<close>

theorem stop_requests_are_a_set:
  assumes "bp_reach env n s"
  shows "fst (CheckStopRequest ph act s) = ((ph, act) \<in> stops s) \<and>
    (\<forall>b s'. RequestStopPhase ph act s = Inr (b, s') \<longrightarrow> stops s' = (if b then insert (ph, act) (stops s) else stops s)) \<and>
    stops (CancelStopPhase ph act s) = stops s - {(ph, act)} \<and> stops (CancelPhaseRequests s) = {}"
proof -
  note ok = reach_facts(5) [OF assms]
  have same: "stops t = stops s" "stops_ok t" if "stop_requests t = stop_requests s" for t :: "'a bp_state"
    using that ok by (simp_all add: stops_def stops_ok_def)
  have "stops s' = (if b then insert (ph, act) (stops s) else stops s)"
    if r: "RequestStopPhase ph act s = Inr (b, s')" for b s'
  proof -
    consider "\<not> b" "stop_requests s' = stop_requests s"
      | t where "stop_requests t = stop_requests s" "add_request ph act t = (b, s')"
      using RequestStopPhase_cases [OF r] by blast
    then show ?thesis
    proof cases
      case 1
      then show ?thesis using same(1) [OF 1(2)] 1(1) by simp
    next
      case 2
      then show ?thesis using add_request_ok [OF same(2) [OF 2(1)] 2(2)] same(1) [OF 2(1)] by auto
    qed
  qed
  then show ?thesis by (auto simp: CheckStopRequest_iff CancelStopPhase_ok [OF ok] CancelPhaseRequests_none)
qed

theorem stop_requests_are_a_set_witness:
  "\<exists>s. RequestStopPhase ''main'' PHASE_STARTED demo = Inr (True, s) \<and> stops s = {(''main'', PHASE_STARTED)}"
proof -
  obtain s where s: "RequestStopPhase ''main'' PHASE_STARTED demo = Inr (True, s)"
    by (simp add: RequestStopPhase_def add_request_def bp_stop_request_struct_def demo_defs)
  have "stops demo = {}" by (simp add: stops_def demo_defs)
  then show ?thesis using stop_requests_are_a_set [OF demo_reach, of "''main''" PHASE_STARTED] s by auto
qed

section \<open>The component tree\<close>

text \<open>C34.
  The command \<open>print_tree\<close> ends for every depth but \<open>all\<close>, whatever the adapters answer: the
  recursion never goes deeper than the depth asked for below the level of the root, even where the
  adapters describe an endless hierarchy.\<close>

theorem print_tree_terminates:
  assumes "pt_depth v \<noteq> -1" and "0 < fuel" and "pt_depth v - 1 + count_dots (pt_root v) < int fuel"
  shows "PrintTree_Execute fuel given v s \<noteq> None"
  using PrintTree_Execute_finishes [OF assms] by (simp add: finishes_def)

text \<open>A framework in which every component has itself as its only child.\<close>

definition demo_endless :: "demo_world bp_state" where
  "demo_endless = demo\<lparr>top_level_registry := [4], proxies := (proxies demo)
     (2 \<mapsto> (new_frmw 0 ''sv adapter'' [''sv''] (demo_sv\<lparr>tree_fns :=
        \<lparr>get_num_children_ptr = Some (\<lambda>c w. 1), get_child_name_ptr = Some (\<lambda>c i w. c @ ''.x''),
         get_component_type_name_ptr = None, is_port_ptr = Some (\<lambda>c w. 0)\<rparr>\<rparr>)))\<rparr>"

theorem print_tree_terminates_witness:
  "PrintTree_Execute 3 False print_tree_defaults demo_endless \<noteq> None"
  by (rule print_tree_terminates) (simp_all add: print_tree_defaults_def count_dots_def)




end
