(* ===== verification/Sc_Bytes.thy ===== *)
theory Sc_Bytes
  imports Cpp_Streams
begin

text \<open>
  Memory as the SystemC adapter sees it: a machine word as its bytes in the order of a
  little-endian machine, and a block of memory as a list of cells of which some were never
  written. A \<^emph>\<open>pattern\<close> is what a reader looks at: some of the cells, and not the rest.
\<close>

unbundle bit_operations_syntax

type_synonym byte = "8 word"

section \<open>Words and their bytes\<close>

text \<open>A size rounded up to whole blocks.\<close>

lemma whole_blocks: "0 < (a :: nat) \<Longrightarrow> 0 < k \<Longrightarrow> a \<le> ((a - 1) div k + 1) * k"
proof -
  assume a: "0 < a" and k: "0 < k"
  have "a - 1 = (a - 1) div k * k + (a - 1) mod k" by simp
  moreover have "(a - 1) mod k < k" using k by simp
  ultimately have "a \<le> (a - 1) div k * k + k" using a by linarith
  then show ?thesis by (simp add: algebra_simps)
qed

definition bytes_le :: "'a::len word \<Rightarrow> byte list" where
  "bytes_le w = map (\<lambda>i. ucast (drop_bit (8 * i) w)) [0..<LENGTH('a) div 8]"

fun of_bytes :: "byte list \<Rightarrow> 'a::len word" where
  "of_bytes [] = 0"
| "of_bytes (b # bs) = ucast b OR push_bit 8 (of_bytes bs)"

lemma length_bytes_le [simp]: "length (bytes_le (w :: 'a::len word)) = LENGTH('a) div 8"
  by (simp add: bytes_le_def)

lemma bit_of_bytes:
  "bit (of_bytes bs :: 'a::len word) n \<longleftrightarrow> n < LENGTH('a) \<and> n div 8 < length bs \<and> bit (bs ! (n div 8)) (n mod 8)"
proof (induction bs arbitrary: n)
  case (Cons b bs)
  show ?case
  proof (cases "n < 8")
    case True
    then show ?thesis by (simp add: bit_simps not_le)
  next
    case False
    moreover have "\<not> bit b n" using False by (auto dest: bit_imp_le_length)
    moreover have "n div 8 = Suc ((n - 8) div 8)" "n mod 8 = (n - 8) mod 8"
      using False by (simp_all add: le_div_geq le_mod_geq)
    ultimately show ?thesis by (auto simp: bit_simps Cons.IH)
  qed
qed simp

lemma of_bytes_le [simp]:
  assumes "8 dvd LENGTH('a)"
  shows "of_bytes (bytes_le w) = (w :: 'a::len word)"
proof (rule bit_word_eqI)
  fix n assume n: "n < LENGTH('a)"
  have "n div 8 < LENGTH('a) div 8" using n assms by (auto elim!: dvdE simp: less_mult_imp_div_less mult.commute)
  then show "bit (of_bytes (bytes_le w) :: 'a word) n = bit w n"
    using n by (simp add: bit_of_bytes bytes_le_def bit_simps)
qed

lemma bytes_le_of_bytes:
  assumes "length bs = LENGTH('a::len) div 8" and "8 dvd LENGTH('a)"
  shows "bytes_le (of_bytes bs :: 'a word) = bs"
proof (rule nth_equalityI)
  fix i assume "i < length (bytes_le (of_bytes bs :: 'a word))"
  then have i: "i < LENGTH('a) div 8" by simp
  show "bytes_le (of_bytes bs :: 'a word) ! i = bs ! i"
  proof (rule bit_word_eqI)
    fix n assume n: "n < LENGTH(8)"
    have "8 * i + n < LENGTH('a)" using i n assms(2) by (auto elim!: dvdE)
    then show "bit (bytes_le (of_bytes bs :: 'a word) ! i) n = bit (bs ! i) n"
      using i n assms(1) by (simp add: bytes_le_def bit_simps bit_of_bytes)
  qed
qed (use assms in simp)

section \<open>Cells and patterns\<close>

text \<open>A cell that was never written is \<open>None\<close>; in a pattern, \<open>None\<close> is a cell that is not looked at.\<close>

type_synonym cell = "byte option"

definition matches :: "cell list \<Rightarrow> cell list \<Rightarrow> bool" where
  "matches cs ps \<longleftrightarrow> list_all2 (\<lambda>c p. p = None \<or> c = p) cs ps"

lemma matches_length: "matches cs ps \<Longrightarrow> length cs = length ps"
  by (simp add: matches_def list_all2_lengthD)

lemma matches_Nil [simp]: "matches [] []" "matches cs [] \<longleftrightarrow> cs = []" "matches [] ps \<longleftrightarrow> ps = []"
  by (simp_all add: matches_def)

lemma matches_append: "matches cs ps \<Longrightarrow> matches ds qs \<Longrightarrow> matches (cs @ ds) (ps @ qs)"
  by (simp add: matches_def list_all2_appendI)

lemma matches_appendD:
  assumes "matches cs (ps @ qs)"
  shows "matches (take (length ps) cs) ps" and "matches (drop (length ps) cs) qs"
proof -
  obtain us vs where "cs = us @ vs" "matches us ps" "matches vs qs"
    using assms unfolding matches_def list_all2_append2 by auto
  moreover from this have "length ps = length us" by (simp add: matches_length)
  ultimately show "matches (take (length ps) cs) ps" "matches (drop (length ps) cs) qs" by simp_all
qed

lemma matches_Some [simp]: "matches cs (map Some bs) \<longleftrightarrow> cs = map Some bs"
proof
  assume "matches cs (map Some bs)"
  then show "cs = map Some bs"
    by (auto simp: matches_def list_all2_conv_all_nth intro!: nth_equalityI)
qed (auto simp: matches_def list_all2_conv_all_nth)

lemma matches_replicate_None [simp]: "matches cs (replicate n None) \<longleftrightarrow> length cs = n"
  by (auto simp: matches_def list_all2_conv_all_nth)

lemma matches_SomeD: "matches cs (map Some bs @ ps) \<Longrightarrow> take (length bs) cs = map Some bs"
  using matches_appendD(1) [of cs "map Some bs" ps] by simp

text \<open>The value of a block of cells, which must all have been written.\<close>

definition read_cells :: "cell list \<Rightarrow> byte list res" where
  "read_cells cs = (if None \<in> set cs then Inl Uninit_Read else Inr (map the cs))"

lemma read_cells_Some [simp]: "read_cells (map Some bs) = Inr bs"
  by (auto simp: read_cells_def comp_def)

end
