(* ===== verification/Sc_Monad.thy ===== *)
theory Sc_Monad
  imports Smtdv_Prelude
begin

text \<open>
  Operations of a packer: they change its state and may throw a SystemC report. The locale
  \<open>packing\<close> is the contract of a packer: a state \<^emph>\<open>holds\<close> a list of cells that were packed and not
  yet unpacked; packing appends a value's cells and unpacking takes them off the front.
\<close>

section \<open>Operations that throw\<close>

text \<open>The reports that are thrown.\<close>

datatype sc_report =
  UVM_PACKER_UNPACK_INDEX | UVM_PACKER_UNPACK_OBJECT | UVM_PACK_NULL | UVM_UNPACK_OBJ_NO_METADATA
| ML_UVM_SIZE_LIMIT | SC_ID_ZERO_LENGTH

text \<open>An operation returns, throws, or is undefined; \<open>None\<close> is an unpacking that did not end within its fuel.\<close>

type_synonym ('s, 'a) pk = "'s \<Rightarrow> ((sc_report + 'a) \<times> 's) res option"

definition pk_return :: "'a \<Rightarrow> ('s, 'a) pk" where
  "pk_return x r = Some (Inr (Inr x, r))"

definition pk_throw :: "sc_report \<Rightarrow> ('s, 'a) pk" where
  "pk_throw e r = Some (Inr (Inl e, r))"

definition pk_bind :: "('s, 'a) pk \<Rightarrow> ('a \<Rightarrow> ('s, 'b) pk) \<Rightarrow> ('s, 'b) pk" where
  "pk_bind m f r =
     (case m r of
        None \<Rightarrow> None
      | Some (Inl e) \<Rightarrow> Some (Inl e)
      | Some (Inr (Inl x, r)) \<Rightarrow> Some (Inr (Inl x, r))
      | Some (Inr (Inr a, r)) \<Rightarrow> f a r)"

text \<open>An operation on the state that does not throw, and one that only reads it.\<close>

definition pk_do :: "('s \<Rightarrow> 's res) \<Rightarrow> ('s, unit) pk" where
  "pk_do f r = Some (bind_res (f r) (\<lambda>r. Inr (Inr (), r)))"

definition pk_get :: "('s \<Rightarrow> 'a res) \<Rightarrow> ('s, 'a) pk" where
  "pk_get f r = Some (bind_res (f r) (\<lambda>x. Inr (Inr x, r)))"

lemma pk_bind_cong [fundef_cong]:
  assumes "m = m'" and "r = r'" and "\<And>a r. m' r' = Some (Inr (Inr a, r)) \<Longrightarrow> f a r = f' a r"
  shows "pk_bind m f r = pk_bind m' f' r'"
  using assms by (auto simp: pk_bind_def split: option.splits sum.splits)

lemma pk_bind_Inr: "m r = Some (Inr (Inr a, r')) \<Longrightarrow> pk_bind m f r = f a r'"
  by (simp add: pk_bind_def)

lemma pk_bind_return [simp]: "pk_bind (pk_return x) f = f x"
  by (simp add: pk_bind_def pk_return_def fun_eq_iff)

lemma pk_bind_assoc: "pk_bind (pk_bind m f) g = pk_bind m (\<lambda>x. pk_bind (f x) g)"
  by (simp add: pk_bind_def fun_eq_iff split: option.splits sum.splits)

lemma pk_bind_Some_iff:
  "pk_bind m f r = Some (Inr (Inr b, r'')) \<longleftrightarrow>
     (\<exists>a r'. m r = Some (Inr (Inr a, r')) \<and> f a r' = Some (Inr (Inr b, r'')))"
  by (auto simp: pk_bind_def split: option.splits sum.splits)

section \<open>The contract of a packer\<close>

text \<open>
  \<open>used\<close> counts the cells packed since the packer was \<open>fresh\<close>, of which there may be \<open>limit\<close>; in a
  \<open>drained\<close> packer everything has been unpacked.
\<close>

locale packing =
  fixes good :: "'s \<Rightarrow> bool"
    and used :: "'s \<Rightarrow> nat"
    and limit :: nat
    and holds :: "'s \<Rightarrow> 'c list \<Rightarrow> bool"
    and fresh :: "'s \<Rightarrow> bool"
    and drained :: "'s \<Rightarrow> bool"
  assumes fresh: "fresh s \<Longrightarrow> good s \<and> used s = 0 \<and> holds s []"
    and drained: "good s \<Longrightarrow> holds s [] \<Longrightarrow> drained s"
begin

definition packs :: "('s, unit) pk \<Rightarrow> 'c list \<Rightarrow> bool" where
  "packs m ps \<longleftrightarrow> (\<forall>s qs. good s \<and> used s + length ps \<le> limit \<and> holds s qs \<longrightarrow>
     (\<exists>s'. m s = Some (Inr (Inr (), s')) \<and> good s' \<and> used s' = used s + length ps \<and> holds s' (qs @ ps)))"

definition unpacks :: "('s, 'a) pk \<Rightarrow> 'c list \<Rightarrow> 'a \<Rightarrow> bool" where
  "unpacks m ps x \<longleftrightarrow> (\<forall>s qs. good s \<and> holds s (ps @ qs) \<longrightarrow>
     (\<exists>s'. m s = Some (Inr (Inr x, s')) \<and> good s' \<and> holds s' qs))"

lemma packsE:
  assumes "packs m ps" and "good s" and "used s + length ps \<le> limit" and "holds s qs"
  obtains s' where "m s = Some (Inr (Inr (), s'))" and "good s'" and "used s' = used s + length ps"
    and "holds s' (qs @ ps)"
  using assms unfolding packs_def by blast

lemma unpacksE:
  assumes "unpacks m ps x" and "good s" and "holds s (ps @ qs)"
  obtains s' where "m s = Some (Inr (Inr x, s'))" and "good s'" and "holds s' qs"
  using assms unfolding unpacks_def by blast

lemma packs_return: "packs (pk_return ()) []"
  by (simp add: packs_def pk_return_def)

lemma packs_bind:
  assumes "packs m ps" and "packs m' qs"
  shows "packs (pk_bind m (\<lambda>_. m')) (ps @ qs)"
  unfolding packs_def
proof (intro allI impI, elim conjE)
  fix s rs assume s: "good s" "used s + length (ps @ qs) \<le> limit" "holds s rs"
  obtain t where t: "m s = Some (Inr (Inr (), t))" "good t" "used t = used s + length ps" "holds t (rs @ ps)"
    by (rule packsE [OF assms(1) s(1) _ s(3)]) (use s in simp)
  obtain u where u: "m' t = Some (Inr (Inr (), u))" "good u" "used u = used t + length qs" "holds u ((rs @ ps) @ qs)"
    by (rule packsE [OF assms(2) t(2) _ t(4)]) (use s t in simp)
  show "\<exists>s'. pk_bind m (\<lambda>_. m') s = Some (Inr (Inr (), s')) \<and> good s' \<and> used s' = used s + length (ps @ qs) \<and>
      holds s' (rs @ ps @ qs)"
    using t u by (simp add: pk_bind_Inr)
qed

lemma unpacks_return: "unpacks (pk_return x) [] x"
  by (simp add: unpacks_def pk_return_def)

lemma unpacks_bind:
  assumes "unpacks m ps x" and "unpacks (f x) qs y"
  shows "unpacks (pk_bind m f) (ps @ qs) y"
  unfolding unpacks_def
proof (intro allI impI, elim conjE)
  fix s rs assume s: "good s" "holds s ((ps @ qs) @ rs)"
  obtain t where t: "m s = Some (Inr (Inr x, t))" "good t" "holds t (qs @ rs)"
    by (rule unpacksE [OF assms(1) s(1), of "qs @ rs"]) (use s in simp)
  obtain u where u: "f x t = Some (Inr (Inr y, u))" "good u" "holds u rs"
    by (rule unpacksE [OF assms(2) t(2,3)])
  show "\<exists>s'. pk_bind m f s = Some (Inr (Inr y, s')) \<and> good s' \<and> holds s' rs"
    using t u by (simp add: pk_bind_Inr)
qed

lemma unpacks_map: "unpacks m ps x \<Longrightarrow> unpacks (pk_bind m (\<lambda>x. pk_return (f x))) ps (f x)"
  using unpacks_bind [of m ps x "\<lambda>x. pk_return (f x)" "[]"] by (simp add: unpacks_return)

text \<open>An operation that leaves what is held alone and gives \<open>x\<close>.\<close>

definition reads :: "('s, 'a) pk \<Rightarrow> 'a \<Rightarrow> bool" where
  "reads m x \<longleftrightarrow> (\<forall>s. good s \<longrightarrow>
     (\<exists>s'. m s = Some (Inr (Inr x, s')) \<and> good s' \<and> used s' = used s \<and> (\<forall>qs. holds s' qs = holds s qs)))"

lemma readsE:
  assumes "reads m x" and "good s"
  obtains s' where "m s = Some (Inr (Inr x, s'))" and "good s'" and "used s' = used s"
    and "\<And>qs. holds s' qs = holds s qs"
  using assms unfolding reads_def by blast

lemma reads_packs:
  assumes "reads m x" and "packs (f x) ps"
  shows "packs (pk_bind m f) ps"
  unfolding packs_def
proof (intro allI impI, elim conjE)
  fix s qs assume s: "good s" "used s + length ps \<le> limit" "holds s qs"
  obtain t where t: "m s = Some (Inr (Inr x, t))" "good t" "used t = used s" "holds t qs"
    using readsE [OF assms(1) s(1)] s(3) by metis
  show "\<exists>s'. pk_bind m f s = Some (Inr (Inr (), s')) \<and> good s' \<and> used s' = used s + length ps \<and> holds s' (qs @ ps)"
    using packsE [OF assms(2) t(2) _ t(4)] s(2) t(1,3) by (auto simp: pk_bind_Inr)
qed

lemma reads_unpacks:
  assumes "reads m x" and "unpacks (f x) ps y"
  shows "unpacks (pk_bind m f) ps y"
proof -
  have "unpacks m [] x" using assms(1) unfolding unpacks_def by (metis append_Nil readsE)
  then show ?thesis using unpacks_bind [of m "[]" x f ps y] assms(2) by simp
qed

text \<open>What is packed into a fresh packer is read back, and nothing is left.\<close>

lemma round_trip:
  assumes "packs m ps" and "unpacks m' ps x" and "length ps \<le> limit" and "fresh s"
  obtains t u where "m s = Some (Inr (Inr (), t))" and "m' t = Some (Inr (Inr x, u))" and "drained u"
proof -
  have s: "good s" "used s = 0" "holds s []" using fresh [OF assms(4)] by auto
  obtain t where t: "m s = Some (Inr (Inr (), t))" "good t" "holds t ([] @ ps)"
    by (rule packsE [OF assms(1) s(1) _ s(3)]) (use s assms(3) in simp)
  then obtain u where u: "m' t = Some (Inr (Inr x, u))" "good u" "holds u []"
    by (elim unpacksE [OF assms(2), of t "[]"]) simp
  show thesis using that t(1) u(1) drained [OF u(2,3)] by blast
qed

end

end
