(* ===== verification/Sc_Nbits.thy ===== *)
theory Sc_Nbits
  imports Sc_Bytes
begin

text \<open>
  Numbers of any length of the SystemC library (\<open>sc_signed\<close> and \<open>sc_unsigned\<close>, the common code of
  \<open>sc_nbcommon.inc\<close> over \<open>sc_nbutils.h\<close>): a sign and a magnitude in digits of 30 bits. The packer
  exchanges them as words of 32 bits in two's complement (\<open>get_packed_rep\<close>, \<open>set_packed_rep\<close>).
\<close>

section \<open>Digits\<close>

datatype small_type = SC_NEG | SC_ZERO | SC_POS

text \<open>\<open>CLASS_TYPE\<close>: \<open>sc_unsigned\<close> keeps one bit more than its length.\<close>

record sc_nbnum =
  nb_signed :: bool
  nb_sgn :: small_type
  nb_bits :: nat
  nb_digit :: "uint list"

abbreviation digit_mask :: uint where "digit_mask \<equiv> mask 30"

definition nb_length :: "sc_nbnum \<Rightarrow> nat" where
  "nb_length a = (if nb_signed a then nb_bits a else nb_bits a - 1)"

definition div_ceil :: "nat \<Rightarrow> nat" where
  "div_ceil n = (n - 1) div 30 + 1"

fun complement_from :: "uint \<Rightarrow> uint list \<Rightarrow> uint list" where
  "complement_from carry [] = []"
| "complement_from carry (u # us) =
     (let carry = carry + (NOT u AND digit_mask)
      in (carry AND digit_mask) # complement_from (drop_bit 30 carry) us)"

definition vec_complement :: "uint list \<Rightarrow> uint list" where
  "vec_complement us = complement_from 1 us"

text \<open>A bit of an array of words of \<open>k\<close> bits.\<close>

definition put_bit :: "nat \<Rightarrow> nat \<Rightarrow> bool \<Rightarrow> uint list \<Rightarrow> uint list" where
  "put_bit k i b ws =
     ws[i div k := (if b then ws ! (i div k) OR push_bit (i mod k) 1
                    else ws ! (i div k) AND NOT (push_bit (i mod k) 1))]"

definition trim_last :: "nat \<Rightarrow> uint list \<Rightarrow> uint list" where
  "trim_last k ds = ds[length ds - 1 := ds ! (length ds - 1) AND mask k]"

definition check_for_zero :: "small_type \<Rightarrow> uint list \<Rightarrow> small_type" where
  "check_for_zero s ds = (if list_all (\<lambda>d. d = 0) ds then SC_ZERO else s)"

definition convert_signed_2C_to_SM :: "nat \<Rightarrow> uint list \<Rightarrow> small_type \<times> uint list" where
  "convert_signed_2C_to_SM nb ds =
     (let xnb = (nb - 1) mod 30 + 1
      in if bit (ds ! (length ds - 1)) (xnb - 1) then (SC_NEG, trim_last xnb (vec_complement ds))
         else (check_for_zero SC_POS (trim_last xnb ds), trim_last xnb ds))"

definition convert_unsigned_2C_to_SM :: "nat \<Rightarrow> uint list \<Rightarrow> small_type \<times> uint list" where
  "convert_unsigned_2C_to_SM nb ds =
     (let ds = trim_last ((nb - 1) mod 30) ds in (check_for_zero SC_POS ds, ds))"

definition get_packed_rep :: "sc_nbnum \<Rightarrow> uint list" where
  "get_packed_rep a =
     (let n = (nb_length a - 1) div 32 + 1;
          buf = replicate n 0;
          d = (if nb_sgn a = SC_NEG then vec_complement (nb_digit a) else nb_digit a);
          buf' = (if nb_sgn a = SC_NEG then buf[n - 1 := NOT 0] else buf)
      in if nb_sgn a = SC_ZERO then buf
         else fold (\<lambda>i. put_bit 32 i (bit (d ! (i div 30)) (i mod 30))) (rev [0..<nb_length a]) buf')"

definition set_packed_rep :: "uint list \<Rightarrow> sc_nbnum \<Rightarrow> sc_nbnum" where
  "set_packed_rep buf a =
     (let ds = fold (\<lambda>i. put_bit 30 i (bit (buf ! (i div 32)) (i mod 32))) (rev [0..<nb_length a])
                 (replicate (length (nb_digit a)) 0);
          (s, ds) = (if nb_signed a then convert_signed_2C_to_SM (nb_bits a) ds
                     else convert_unsigned_2C_to_SM (nb_bits a) ds)
      in a\<lparr>nb_sgn := s, nb_digit := ds\<rparr>)"

section \<open>The value of digits\<close>

fun magnitude :: "uint list \<Rightarrow> nat" where
  "magnitude [] = 0"
| "magnitude (d # ds) = unat d + 2 ^ 30 * magnitude ds"

definition digits_ok :: "uint list \<Rightarrow> bool" where
  "digits_ok ds \<longleftrightarrow> list_all (\<lambda>d. unat d < 2 ^ 30) ds"

lemma digits_ok_simps [simp]:
  "digits_ok []" "digits_ok (d # ds) \<longleftrightarrow> unat d < 2 ^ 30 \<and> digits_ok ds"
  by (simp_all add: digits_ok_def)

lemma bit_add_high:
  fixes a :: nat
  assumes "a < 2 ^ k"
  shows "bit (a + 2 ^ k * v) i \<longleftrightarrow> (if i < k then bit a i else bit v (i - k))"
proof (cases "i < k")
  case True
  have "take_bit k (a + 2 ^ k * v) = a" using assms by (simp add: take_bit_eq_mod)
  then have "bit (take_bit k (a + 2 ^ k * v)) i = bit a i" by simp
  then show ?thesis using True by (simp add: bit_take_bit_iff)
next
  case False
  have "drop_bit k (a + 2 ^ k * v) = v" using assms by (simp add: drop_bit_eq_div)
  then have "bit (drop_bit k (a + 2 ^ k * v)) (i - k) = bit v (i - k)" by simp
  then show ?thesis using False by (simp add: bit_drop_bit_eq)
qed

lemma bit_magnitude:
  "digits_ok ds \<Longrightarrow> bit (magnitude ds) i \<longleftrightarrow> i < 30 * length ds \<and> bit (ds ! (i div 30)) (i mod 30)"
proof (induction ds arbitrary: i)
  case (Cons d ds)
  have d: "unat d < 2 ^ 30" "digits_ok ds" using Cons.prems by simp_all
  show ?case
  proof (cases "i < 30")
    case True
    then show ?thesis using bit_add_high [OF d(1), of "magnitude ds" i]
      by (simp add: bit_unsigned_iff)
  next
    case False
    then have "i div 30 = Suc ((i - 30) div 30)" "i mod 30 = (i - 30) mod 30"
      by (simp_all add: le_div_geq le_mod_geq)
    then show ?thesis using bit_add_high [OF d(1), of "magnitude ds" i] False Cons.IH [OF d(2), of "i - 30"]
      by auto
  qed
qed simp

lemma magnitude_inject:
  "digits_ok ds \<Longrightarrow> digits_ok es \<Longrightarrow> length ds = length es \<Longrightarrow> magnitude ds = magnitude es \<Longrightarrow> ds = es"
proof (induction ds arbitrary: es)
  case (Cons d ds)
  then obtain e es' where es: "es = e # es'" by (cases es) auto
  have d: "unat d < 2 ^ 30" "unat e < 2 ^ 30" using Cons.prems es by simp_all
  have eq: "unat d + 2 ^ 30 * magnitude ds = unat e + 2 ^ 30 * magnitude es'" using Cons.prems es by simp
  have "unat d = (unat d + 2 ^ 30 * magnitude ds) mod 2 ^ 30" using d by simp
  also have "\<dots> = unat e" unfolding eq using d by simp
  finally have "d = e" by (simp only: word_unat_eq_iff)
  moreover from this have "magnitude ds = magnitude es'" using eq by simp
  ultimately show ?case using Cons es by simp
qed simp

lemma magnitude_less: "digits_ok ds \<Longrightarrow> magnitude ds < 2 ^ (30 * length ds)"
proof (induction ds)
  case (Cons d ds)
  then have "magnitude ds + 1 \<le> 2 ^ (30 * length ds)" and d: "unat d < 2 ^ 30" by simp_all
  then have "2 ^ 30 * (magnitude ds + 1) \<le> (2 :: nat) ^ 30 * 2 ^ (30 * length ds)" by (intro mult_le_mono2)
  then show ?case using d by (simp add: power_add)
qed simp

lemma magnitude_0: "magnitude ds = 0 \<longleftrightarrow> list_all (\<lambda>d. d = 0) ds"
  by (induction ds) (auto simp: unat_eq_0)

section \<open>The complement\<close>

lemma unat_and_mask: "unat ((c :: uint) AND digit_mask) = unat c mod 2 ^ 30"
proof -
  have "unat (c AND digit_mask) = take_bit 30 (unat c)"
    by (simp only: take_bit_eq_mask [symmetric] unsigned_take_bit_eq)
  then show ?thesis by (simp only: take_bit_eq_mod)
qed

lemma unat_not_and_mask:
  assumes "unat (u :: uint) < 2 ^ 30"
  shows "unat (NOT u AND digit_mask) = 2 ^ 30 - 1 - unat u"
proof -
  have "NOT u = - 1 - u" unfolding not_eq_complement by (simp only: diff_conv_add_uminus add.commute)
  then have "unat (NOT u) = unat (- 1 - u)" by (simp only:)
  also have "\<dots> = unat (- 1 :: uint) - unat u" by (rule unat_sub) simp
  also have "\<dots> = (2 ^ 30 - 1 - unat u) + 2 ^ 30 * 3" using assms by (simp add: unsigned_minus_1_eq_mask mask_eq_exp_minus_1)
  finally show ?thesis unfolding unat_and_mask by (simp only: mod_mult_self2) simp
qed

lemma carry_sum:
  assumes "unat (u :: uint) < 2 ^ 30" and "unat c \<le> 1"
  shows "unat (c + (NOT u AND digit_mask)) = unat c + (2 ^ 30 - 1 - unat u)"
    and "unat (drop_bit 30 (c + (NOT u AND digit_mask))) = unat (c + (NOT u AND digit_mask)) div 2 ^ 30"
    and "unat (c + (NOT u AND digit_mask)) div 2 ^ 30 \<le> 1"
proof -
  have "unat c + (2 ^ 30 - 1 - unat u) \<le> 2 ^ 30" using assms by simp
  then show s: "unat (c + (NOT u AND digit_mask)) = unat c + (2 ^ 30 - 1 - unat u)"
    unfolding unat_word_ariths unat_not_and_mask [OF assms(1)] by simp
  show "unat (drop_bit 30 (c + (NOT u AND digit_mask))) = unat (c + (NOT u AND digit_mask)) div 2 ^ 30"
    unfolding unat_drop_bit_eq by (rule drop_bit_eq_div)
  show "unat (c + (NOT u AND digit_mask)) div 2 ^ 30 \<le> 1"
    unfolding s using assms div_le_mono [of "unat c + (2 ^ 30 - 1 - unat u)" "2 ^ 30" "2 ^ 30"] by simp
qed

lemma length_complement_from [simp]: "length (complement_from c us) = length us"
  by (induction us arbitrary: c) (simp_all add: Let_def)

lemma digits_ok_complement_from: "digits_ok us \<Longrightarrow> unat c \<le> 1 \<Longrightarrow> digits_ok (complement_from c us)"
proof (induction us arbitrary: c)
  case (Cons u us)
  have u: "unat u < 2 ^ 30" "digits_ok us" using Cons.prems by simp_all
  have "digits_ok (complement_from (drop_bit 30 (c + (NOT u AND digit_mask))) us)"
    by (rule Cons.IH [OF u(2)]) (use carry_sum [OF u(1) Cons.prems(2)] in \<open>simp only:\<close>)
  moreover have "unat (x AND digit_mask) < 2 ^ 30" for x :: uint unfolding unat_and_mask by simp
  ultimately show ?case by (simp only: complement_from.simps Let_def digits_ok_simps)
qed simp

lemma complement_from_value:
  "digits_ok us \<Longrightarrow> unat c \<le> 1 \<Longrightarrow>
     magnitude (complement_from c us) = (2 ^ (30 * length us) - 1 - magnitude us + unat c) mod 2 ^ (30 * length us)"
proof (induction us arbitrary: c)
  case (Cons u us)
  let ?c = "c + (NOT u AND digit_mask)" and ?N = "2 ^ (30 * length us) :: nat"
  have u: "unat u < 2 ^ 30" "digits_ok us" using Cons.prems by simp_all
  note sum = carry_sum [OF u(1) Cons.prems(2)]
  have ih: "magnitude (complement_from (drop_bit 30 ?c) us) = (?N - 1 - magnitude us + unat ?c div 2 ^ 30) mod ?N"
    using Cons.IH [OF u(2), of "drop_bit 30 ?c"] sum(2,3) by (simp only:)
  have v: "magnitude us < ?N" by (rule magnitude_less [OF u(2)])
  have N: "2 ^ (30 * length (u # us)) = 2 ^ 30 * ?N" by (simp add: power_add)
  have "magnitude (complement_from c (u # us)) =
      unat ?c mod 2 ^ 30 + 2 ^ 30 * ((?N - 1 - magnitude us + unat ?c div 2 ^ 30) mod ?N)"
    by (simp only: complement_from.simps Let_def magnitude.simps ih unat_and_mask)
  also have "\<dots> = (unat ?c mod 2 ^ 30 + 2 ^ 30 * (?N - 1 - magnitude us + unat ?c div 2 ^ 30)) mod (2 ^ 30 * ?N)"
    unfolding mod_mult2_eq by simp
  also have "unat ?c mod 2 ^ 30 + 2 ^ 30 * (?N - 1 - magnitude us + unat ?c div 2 ^ 30) =
      2 ^ 30 * (?N - 1 - magnitude us) + unat ?c"
    using mod_mult_div_eq [of "unat ?c" "2 ^ 30"] by (simp add: algebra_simps)
  also have "\<dots> = 2 ^ 30 * ?N - 1 - magnitude (u # us) + unat c"
  proof -
    obtain w where w: "?N = magnitude us + 1 + w" using v less_iff_Suc_add [of "magnitude us" ?N] by auto
    show ?thesis using u(1) Cons.prems(2) unfolding sum(1) w by simp
  qed
  finally show ?case unfolding N .
qed simp

lemma magnitude_vec_complement:
  assumes "digits_ok us" and "0 < magnitude us"
  shows "magnitude (vec_complement us) = 2 ^ (30 * length us) - magnitude us" and "digits_ok (vec_complement us)"
  and "length (vec_complement us) = length us"
proof -
  have "magnitude us < 2 ^ (30 * length us)" by (rule magnitude_less [OF assms(1)])
  then show "magnitude (vec_complement us) = 2 ^ (30 * length us) - magnitude us"
    using assms complement_from_value [OF assms(1), of 1] by (simp add: vec_complement_def)
  show "digits_ok (vec_complement us)"
    unfolding vec_complement_def by (rule digits_ok_complement_from [OF assms(1)]) simp
qed (simp add: vec_complement_def)

section \<open>Bits\<close>

lemma length_put_bit [simp]: "length (put_bit k i b ws) = length ws"
  by (simp add: put_bit_def)

lemma length_fold_put_bit [simp]: "length (fold (\<lambda>i. put_bit k i (f i)) is ws) = length ws"
  by (induction "is" arbitrary: ws) simp_all

lemma bit_put_bit:
  assumes "0 < k" "k \<le> 32" "j < k * length ws" and "i < k * length ws"
  shows "bit (put_bit k j b ws ! (i div k)) (i mod k) = (if i = j then b else bit (ws ! (i div k)) (i mod k))"
proof (cases "i div k = j div k")
  case True
  then have e: "i = j \<longleftrightarrow> i mod k = j mod k" by (metis div_mult_mod_eq)
  have "i div k < length ws" using assms(1,4) by (simp add: less_mult_imp_div_less mult.commute)
  moreover have "i mod k < 32" using assms(1,2) by (meson less_le_trans mod_less_divisor)
  ultimately show ?thesis using True by (auto simp: put_bit_def bit_simps e)
qed (auto simp: put_bit_def)

lemma bit_fold_put_bit:
  assumes "0 < k" "k \<le> 32" "\<forall>j \<in> set is. j < k * length ws" and "i < k * length ws"
  shows "bit (fold (\<lambda>i. put_bit k i (f i)) is ws ! (i div k)) (i mod k) =
    (if i \<in> set is then f i else bit (ws ! (i div k)) (i mod k))"
  using assms(3,4)
proof (induction "is" arbitrary: ws)
  case (Cons j "is")
  then show ?case using bit_put_bit [OF assms(1,2), of j ws i "f j"] by auto
qed simp

lemma digit_less_iff: "unat (d :: uint) < 2 ^ 30 \<longleftrightarrow> (\<forall>i. 30 \<le> i \<longrightarrow> i < 32 \<longrightarrow> \<not> bit d i)"
proof
  assume "unat d < 2 ^ 30"
  then have "take_bit 30 (unat d) = unat d" by (simp add: take_bit_nat_eq_self_iff)
  then have "bit (unat d) i \<Longrightarrow> i < 30" for i by (metis bit_take_bit_iff)
  then have "bit d i \<Longrightarrow> i < 30" for i by (simp add: bit_unsigned_iff)
  then show "\<forall>i. 30 \<le> i \<longrightarrow> i < 32 \<longrightarrow> \<not> bit d i" by (meson not_le)
next
  assume a: "\<forall>i. 30 \<le> i \<longrightarrow> i < 32 \<longrightarrow> \<not> bit d i"
  have "take_bit 30 d = d" by (rule bit_word_eqI) (use a in \<open>auto simp: bit_take_bit_iff not_le\<close>)
  then have "unat d = take_bit 30 (unat d)" by (metis unsigned_take_bit_eq)
  then show "unat d < 2 ^ 30" by (metis take_bit_nat_less_exp)
qed

lemma digits_ok_iff: "digits_ok ds \<longleftrightarrow> (\<forall>j < length ds. \<forall>i. 30 \<le> i \<longrightarrow> i < 32 \<longrightarrow> \<not> bit (ds ! j) i)"
  by (simp only: digits_ok_def list_all_length digit_less_iff)

lemma digits_ok_update:
  "digits_ok ws \<Longrightarrow> (\<And>i. 30 \<le> i \<Longrightarrow> i < 32 \<Longrightarrow> \<not> bit d i) \<Longrightarrow> digits_ok (ws[j := d])"
  unfolding digits_ok_iff by (cases "j < length ws") (auto simp: nth_list_update)

lemma digits_ok_put_bit:
  assumes "digits_ok ws"
  shows "digits_ok (put_bit 30 i b ws)"
proof (cases "i div 30 < length ws")
  case True
  have "i mod 30 < 30" by simp
  moreover have "\<forall>l. 30 \<le> l \<longrightarrow> l < 32 \<longrightarrow> \<not> bit (ws ! (i div 30)) l" using assms True unfolding digits_ok_iff by simp
  ultimately show ?thesis unfolding put_bit_def
    by (intro digits_ok_update [OF assms]) (auto simp: bit_simps simp del: push_bit_of_1)
qed (use assms in \<open>simp add: put_bit_def list_update_beyond\<close>)

lemma digits_ok_fold: "digits_ok ws \<Longrightarrow> digits_ok (fold (\<lambda>i. put_bit 30 i (f i)) is ws)"
  by (induction "is" arbitrary: ws) (simp_all add: digits_ok_put_bit)

lemma trim_last_value:
  assumes "digits_ok ds" and "ds \<noteq> []" and "k \<le> 30"
  shows "digits_ok (trim_last k ds)" and "magnitude (trim_last k ds) = take_bit (30 * (length ds - 1) + k) (magnitude ds)"
proof -
  show ok: "digits_ok (trim_last k ds)"
    unfolding trim_last_def using assms(1-3) unfolding digits_ok_iff
    by (auto simp: nth_list_update bit_simps)
  show "magnitude (trim_last k ds) = take_bit (30 * (length ds - 1) + k) (magnitude ds)"
  proof (rule bit_eqI)
    fix i
    show "bit (magnitude (trim_last k ds)) i = bit (take_bit (30 * (length ds - 1) + k) (magnitude ds)) i"
    proof (cases "i div 30 = length ds - 1")
      case True
      have "i = 30 * (length ds - 1) + i mod 30" using True mult_div_mod_eq [of 30 i] by simp
      then have "i < 30 * (length ds - 1) + k \<longleftrightarrow> i mod 30 < k" by linarith
      then show ?thesis unfolding bit_magnitude [OF ok] bit_take_bit_iff bit_magnitude [OF assms(1)]
        using True assms(2) by (auto simp: trim_last_def bit_simps)
    next
      case False
      have "i < 30 * (length ds - 1)" if "i < 30 * length ds"
      proof -
        have "i div 30 < length ds" using that by (simp add: less_mult_imp_div_less mult.commute)
        then have "i div 30 < length ds - 1" using False by simp
        then show ?thesis by (simp add: div_less_iff_less_mult mult.commute)
      qed
      then show ?thesis unfolding bit_magnitude [OF ok] bit_take_bit_iff bit_magnitude [OF assms(1)]
        using False by (auto simp: trim_last_def)
    qed
  qed
qed

section \<open>Round trip\<close>

text \<open>A number as the library keeps it: its magnitude fits its length, and its sign is the right one.\<close>

definition nbnum_ok :: "sc_nbnum \<Rightarrow> bool" where
  "nbnum_ok a \<longleftrightarrow> digits_ok (nb_digit a) \<and> length (nb_digit a) = div_ceil (nb_bits a) \<and> 0 < nb_length a \<and>
     (case nb_sgn a of
        SC_ZERO \<Rightarrow> magnitude (nb_digit a) = 0
      | SC_POS \<Rightarrow> 0 < magnitude (nb_digit a) \<and> magnitude (nb_digit a) < 2 ^ (nb_bits a - 1)
      | SC_NEG \<Rightarrow> nb_signed a \<and> 0 < magnitude (nb_digit a) \<and> magnitude (nb_digit a) \<le> 2 ^ (nb_bits a - 1))"

lemma div_ceil_bounds: "0 < n \<Longrightarrow> n \<le> 30 * div_ceil n" "0 < n \<Longrightarrow> n = 30 * (div_ceil n - 1) + ((n - 1) mod 30 + 1)"
proof -
  assume "0 < n"
  then obtain m where n: "n = Suc m" by (cases n) auto
  show "n \<le> 30 * div_ceil n" "n = 30 * (div_ceil n - 1) + ((n - 1) mod 30 + 1)"
    using mult_div_mod_eq [of 30 m] mod_less_divisor [of 30 m] by (simp_all add: n div_ceil_def)
qed

text \<open>The two's complement of a number, as the digits it is written out from.\<close>

definition two_complement :: "sc_nbnum \<Rightarrow> nat" where
  "two_complement a =
     (if nb_sgn a = SC_NEG then 2 ^ (30 * length (nb_digit a)) - magnitude (nb_digit a) else magnitude (nb_digit a))"

lemma bit_get_packed_rep:
  assumes ok: "nbnum_ok a" and i: "i < nb_length a"
  shows "bit (get_packed_rep a ! (i div 32)) (i mod 32) = bit (two_complement a) i"
proof -
  let ?n = "(nb_length a - 1) div 32 + 1"
  have n: "nb_length a \<le> 32 * ?n" using whole_blocks [of "nb_length a" 32] i by simp
  have nb: "nb_length a \<le> nb_bits a" "0 < nb_bits a" using i by (auto simp: nb_length_def split: if_splits)
  have d: "i < 30 * length (nb_digit a)"
    using div_ceil_bounds(1) [OF nb(2)] ok nb i by (simp add: nbnum_ok_def)
  show ?thesis
  proof (cases "nb_sgn a")
    case SC_ZERO
    have "i div 32 < ?n" using i n by (simp add: less_mult_imp_div_less mult.commute)
    then have "replicate ?n (0 :: uint) ! (i div 32) = 0" by (rule nth_replicate)
    moreover have "get_packed_rep a = replicate ?n 0" unfolding get_packed_rep_def Let_def using SC_ZERO by simp
    ultimately show ?thesis using SC_ZERO ok by (simp only:) (simp add: two_complement_def nbnum_ok_def)
  next
    case SC_POS
    then show ?thesis using ok n i d
      by (simp add: get_packed_rep_def Let_def two_complement_def nbnum_ok_def bit_fold_put_bit bit_magnitude)
  next
    case SC_NEG
    then have m: "digits_ok (nb_digit a)" "0 < magnitude (nb_digit a)" using ok by (simp_all add: nbnum_ok_def)
    have "bit (two_complement a) i = bit (vec_complement (nb_digit a) ! (i div 30)) (i mod 30)"
      using SC_NEG d magnitude_vec_complement [OF m] bit_magnitude [of "vec_complement (nb_digit a)" i]
      by (simp add: two_complement_def)
    moreover have "get_packed_rep a = fold (\<lambda>i. put_bit 32 i (bit (vec_complement (nb_digit a) ! (i div 30)) (i mod 30)))
        (rev [0..<nb_length a]) ((replicate ?n 0)[?n - 1 := NOT 0])"
      by (simp only: get_packed_rep_def Let_def SC_NEG refl if_True if_False small_type.distinct)
    moreover have "32 * length ((replicate ?n (0 :: uint))[?n - 1 := NOT 0]) = 32 * ?n"
      unfolding length_list_update length_replicate ..
    ultimately show ?thesis
      using bit_fold_put_bit [of 32 "rev [0..<nb_length a]" "(replicate ?n 0)[?n - 1 := NOT 0]" i] i n by simp
  qed
qed

text \<open>What is read are the low bits of the two's complement.\<close>

lemma read_digits:
  assumes ok: "nbnum_ok a"
    and ds: "ds = fold (\<lambda>i. put_bit 30 i (bit (get_packed_rep a ! (i div 32)) (i mod 32))) (rev [0..<nb_length a])
      (replicate (length (nb_digit a)) 0)"
  shows "digits_ok ds" and "length ds = length (nb_digit a)" and "magnitude ds = take_bit (nb_length a) (two_complement a)"
proof -
  have "digits_ok (replicate n 0)" for n by (simp add: digits_ok_def list_all_length)
  then show dok: "digits_ok ds" unfolding ds by (rule digits_ok_fold)
  show len: "length ds = length (nb_digit a)" unfolding ds by simp
  have nb: "nb_length a \<le> nb_bits a" "0 < nb_bits a"
    using ok by (auto simp: nb_length_def nbnum_ok_def split: if_splits)
  have n: "nb_length a \<le> 30 * length (nb_digit a)"
    using div_ceil_bounds(1) [OF nb(2)] ok nb by (simp add: nbnum_ok_def)
  show "magnitude ds = take_bit (nb_length a) (two_complement a)"
  proof (rule bit_eqI)
    fix i
    have "bit (ds ! (i div 30)) (i mod 30) = (i < nb_length a \<and> bit (two_complement a) i)" if i: "i < 30 * length ds"
    proof -
      have "i div 30 < length (nb_digit a)" using i len by (simp add: less_mult_imp_div_less mult.commute)
      then show ?thesis using i len n bit_get_packed_rep [OF ok]
        unfolding ds by (simp add: bit_fold_put_bit)
    qed
    then show "bit (magnitude ds) i = bit (take_bit (nb_length a) (two_complement a)) i"
      unfolding bit_magnitude [OF dok] bit_take_bit_iff using n len by auto
  qed
qed

text \<open>The magnitude is found again.\<close>

lemma signed_magnitude:
  fixes M :: nat
  assumes "0 < M" and "M \<le> 2 ^ (n - 1)" and "0 < n" and "n \<le> m"
  shows "take_bit n (2 ^ m - M) = 2 ^ n - M" and "bit ((2 :: nat) ^ n - M) (n - 1)"
    and "take_bit n (2 ^ m - (2 ^ n - M)) = M" and "0 < 2 ^ n - M"
proof -
  have n: "2 ^ n = 2 * (2 :: nat) ^ (n - 1)" using assms(3) by (cases n) simp_all
  then have M: "M < 2 ^ n" using assms(2) by (simp add: le_less_trans)
  show "0 < 2 ^ n - M" using M by simp
  have "m = n + (m - n)" using assms(4) by simp
  then have "(2 :: nat) ^ m = 2 ^ n * 2 ^ (m - n)" by (metis power_add)
  then obtain k :: nat where k: "2 ^ m = 2 ^ n * k" "0 < k" by simp
  then obtain k' where k': "k = Suc k'" by (cases k) auto
  have "2 ^ m - M = 2 ^ n * k' + (2 ^ n - M)" unfolding k(1) k' using M by simp
  moreover have "2 ^ n - M < 2 ^ n" using assms(1) M by simp
  ultimately show "take_bit n (2 ^ m - M) = 2 ^ n - M" by (simp only: take_bit_eq_mod mod_mult_self4 mod_less)
  have "2 ^ m - (2 ^ n - M) = 2 ^ n * k' + M" unfolding k(1) k' using M by simp
  then show "take_bit n (2 ^ m - (2 ^ n - M)) = M" using M by (simp add: take_bit_eq_mod)
  have "(2 ^ n - M) div 2 ^ (n - 1) = 1" by (rule div_nat_eqI) (use assms n in auto)
  then show "bit ((2 :: nat) ^ n - M) (n - 1)" by (simp add: bit_iff_odd)
qed

lemma same_magnitude:
  assumes "nbnum_ok a" and "digits_ok ds" and "length ds = length (nb_digit a)" and "magnitude ds = magnitude (nb_digit a)"
  shows "ds = nb_digit a"
  using magnitude_inject [of ds "nb_digit a"] assms by (simp add: nbnum_ok_def)

lemma sign_digit:
  assumes "digits_ok ds" and "length ds = div_ceil n" and "0 < n"
  shows "bit (ds ! (length ds - 1)) ((n - 1) mod 30) = bit (magnitude ds) (n - 1)"
proof -
  have "(n - 1) div 30 = length ds - 1" using assms(2) by (simp add: div_ceil_def)
  moreover have "n - 1 < 30 * length ds" using div_ceil_bounds(1) [OF assms(3)] assms(2,3) by simp
  ultimately show ?thesis unfolding bit_magnitude [OF assms(1)] by simp
qed

lemma packed_rep_round_trip:
  assumes ok: "nbnum_ok a"
  shows "set_packed_rep (get_packed_rep a) a = a"
proof -
  define ds where "ds = fold (\<lambda>i. put_bit 30 i (bit (get_packed_rep a ! (i div 32)) (i mod 32))) (rev [0..<nb_length a])
      (replicate (length (nb_digit a)) 0)"
  note r = read_digits [OF ok ds_def]
  let ?M = "magnitude (nb_digit a)" and ?n = "nb_bits a"
  have nb: "nb_length a \<le> ?n" "0 < ?n"
    using ok by (auto simp: nb_length_def nbnum_ok_def split: if_splits)
  have len: "length ds = div_ceil ?n" "ds \<noteq> []" using r(2) ok by (auto simp: nbnum_ok_def div_ceil_def)
  have le: "?n \<le> 30 * length ds" using div_ceil_bounds(1) [OF nb(2)] len(1) by simp
  have whole: "30 * (length ds - 1) + ((?n - 1) mod 30 + 1) = ?n" using div_ceil_bounds(2) [OF nb(2)] len(1) by simp
  have zero: "check_for_zero SC_POS (nb_digit a) = nb_sgn a" if "nb_sgn a \<noteq> SC_NEG"
    using ok that by (auto simp: nbnum_ok_def check_for_zero_def simp flip: magnitude_0 split: small_type.splits)
  have "(if nb_signed a then convert_signed_2C_to_SM ?n ds else convert_unsigned_2C_to_SM ?n ds) = (nb_sgn a, nb_digit a)"
  proof (cases "nb_sgn a = SC_NEG")
    case True
    then have a: "nb_signed a" "0 < ?M" "?M \<le> 2 ^ (?n - 1)" "nb_length a = ?n"
      using ok by (simp_all add: nbnum_ok_def nb_length_def)
    note m = signed_magnitude [OF a(2,3) nb(2) le]
    have ds: "magnitude ds = 2 ^ ?n - ?M" using r(2,3) m(1) True a(4) by (simp add: two_complement_def)
    note v = magnitude_vec_complement [OF r(1), unfolded ds, OF m(4)]
    have "vec_complement ds \<noteq> []" "(?n - 1) mod 30 + 1 \<le> 30" using v(3) len(2) by (auto simp: Suc_le_eq)
    note t = trim_last_value [OF v(2) this]
    have "trim_last ((?n - 1) mod 30 + 1) (vec_complement ds) = nb_digit a"
      by (rule same_magnitude [OF ok t(1)]) (use t(2) v(1,3) whole m(3) r(2) in \<open>simp_all add: trim_last_def\<close>)
    then show ?thesis using a(1) True sign_digit [OF r(1) len(1) nb(2)] m(2) ds
      by (simp add: convert_signed_2C_to_SM_def)
  next
    case False
    then have M: "?M < 2 ^ (?n - 1)" using ok by (cases "nb_sgn a") (auto simp: nbnum_ok_def)
    then have M': "?M < 2 ^ ?n" by (rule less_le_trans) simp
    have "take_bit (nb_length a) ?M = ?M" using M M' by (simp add: take_bit_nat_eq_self_iff nb_length_def)
    then have ds: "ds = nb_digit a"
      using r False by (intro same_magnitude [OF ok]) (simp_all add: two_complement_def)
    show ?thesis
    proof (cases "nb_signed a")
      case True
      have "(?n - 1) mod 30 + 1 \<le> 30" by (simp add: Suc_le_eq)
      note t = trim_last_value [OF r(1) len(2) this]
      have "trim_last ((?n - 1) mod 30 + 1) ds = nb_digit a"
        by (rule same_magnitude [OF ok t(1)]) (use t(2) whole ds M' in \<open>simp_all add: trim_last_def take_bit_nat_eq_self_iff\<close>)
      moreover have "\<not> bit (magnitude ds) (?n - 1)" using M ds by (simp add: bit_iff_odd)
      ultimately show ?thesis using True sign_digit [OF r(1) len(1) nb(2)] zero [OF False]
        by (simp add: convert_signed_2C_to_SM_def)
    next
      case unsigned: False
      have "(?n - 1) mod 30 \<le> 30" by (simp add: less_imp_le)
      note t = trim_last_value [OF r(1) len(2) this]
      have w: "30 * (length ds - 1) + (?n - 1) mod 30 = ?n - 1" using whole by linarith
      have "magnitude (trim_last ((?n - 1) mod 30) ds) = ?M"
        using t(2) [unfolded w] M by (simp only: ds take_bit_nat_eq_self_iff)
      then have "trim_last ((?n - 1) mod 30) ds = nb_digit a"
        by (intro same_magnitude [OF ok t(1)]) (simp_all add: ds trim_last_def)
      then show ?thesis using unsigned zero [OF False] by (simp add: convert_unsigned_2C_to_SM_def)
    qed
  qed
  then show ?thesis unfolding set_packed_rep_def Let_def ds_def [symmetric] by simp
qed

lemma length_get_packed_rep: "length (get_packed_rep a) = (nb_length a - 1) div 32 + 1"
  by (simp only: get_packed_rep_def Let_def if_distrib [of length] length_fold_put_bit length_list_update length_replicate
      if_cancel)

text \<open>What is written over does not matter.\<close>

lemma set_packed_rep_over:
  assumes "nb_signed b = nb_signed a" and "nb_bits b = nb_bits a" and "length (nb_digit b) = length (nb_digit a)"
  shows "set_packed_rep buf b = set_packed_rep buf a"
  using assms by (simp add: set_packed_rep_def nb_length_def split: prod.splits)

section \<open>The integer a number is\<close>

definition nb_value :: "sc_nbnum \<Rightarrow> int" where
  "nb_value a = (if nb_sgn a = SC_NEG then - int (magnitude (nb_digit a)) else int (magnitude (nb_digit a)))"

lemma bit_two_complement:
  assumes ok: "nbnum_ok a" and i: "i < nb_length a"
  shows "bit (two_complement a) i = bit (nb_value a) i"
proof (cases "nb_sgn a = SC_NEG")
  case True
  let ?M = "magnitude (nb_digit a)" and ?m = "30 * length (nb_digit a)"
  have M: "0 < ?M" "?M < 2 ^ ?m"
    using ok True magnitude_less [of "nb_digit a"] by (simp_all add: nbnum_ok_def)
  have "nb_length a \<le> nb_bits a" "0 < nb_bits a" using i by (auto simp: nb_length_def split: if_splits)
  then have d: "i < ?m" using div_ceil_bounds(1) [of "nb_bits a"] ok i by (simp add: nbnum_ok_def)
  have "(- int ?M) mod 2 ^ ?m = 2 ^ ?m - int ?M"
    using M by (simp add: zmod_zminus1_eq_if of_nat_less_numeral_power_cancel_iff)
  then have "take_bit ?m (- int ?M) = int (2 ^ ?m - ?M)" using M by (simp add: take_bit_eq_mod of_nat_diff)
  then have "bit (take_bit ?m (- int ?M)) i = bit (2 ^ ?m - ?M) i" by (simp only: bit_of_nat_iff_bit)
  then show ?thesis using True d by (simp add: two_complement_def nb_value_def bit_take_bit_iff)
qed (simp add: two_complement_def nb_value_def bit_of_nat_iff_bit)

end
