(* ===== verification/Sc_Packer.thy ===== *)
theory Sc_Packer
  imports Sc_Bytes Sc_Monad Sc_Nbits
begin

text \<open>
  The packer of the SystemC adapter (\<open>adapters/uvm_sc/common/uvm_ml_packer.cpp\<close> and \<open>.h\<close>): values
  are copied into a growing buffer of 32-bit words and read back from it in the same order. The
  model is the build for the OSCI simulator on a little-endian machine with 64-bit \<open>long\<close>, where
  \<open>ASSERT_ZERO\<close> and \<open>ASSERT_N_WORDS\<close> are empty. An \<open>SC_REPORT_ERROR\<close> throws; the packer is a static
  object and keeps the state it has then. Debug output is left out, and memory is never exhausted.
\<close>

section \<open>The buffer\<close>

text \<open>
  \<open>m_bits\<close> is null exactly while \<open>max_size\<close> is 0; its cells are bytes. The two dictionaries are the
  static \<open>name_id_dict\<close> and \<open>id_name_dict\<close>.
\<close>

record packer =
  m_use_metadata :: bool
  pack_index :: uint
  unpack_index :: uint
  m_bits :: "nat \<Rightarrow> cell"
  rep_size :: uint
  max_size :: uint
  name_id_dict :: "string \<rightharpoonup> uint"
  id_name_dict :: "uint \<rightharpoonup> string"

abbreviation packing_block :: uint where "packing_block \<equiv> 131072"

text \<open>\<open>memcpy\<close> into the buffer and out of it, at a byte offset.\<close>

definition store :: "nat \<Rightarrow> cell list \<Rightarrow> packer \<Rightarrow> packer res" where
  "store at cs r =
     (if at + length cs \<le> 4 * unat (max_size r) then
        Inr (r\<lparr>m_bits := (\<lambda>i. if at \<le> i \<and> i < at + length cs then cs ! (i - at) else m_bits r i)\<rparr>)
      else Inl Bad_Index)"

definition fetch :: "nat \<Rightarrow> nat \<Rightarrow> packer \<Rightarrow> cell list res" where
  "fetch at n r =
     (if at + n \<le> 4 * unat (max_size r) then Inr (map (m_bits r) [at..<at + n]) else Inl Bad_Index)"

definition allocate :: "uint \<Rightarrow> bool \<Rightarrow> packer \<Rightarrow> packer res" where
  "allocate nwords copy r =
     (let total_elems = pack_index r + nwords;
          old_size = rep_size r;
          new_size = ((total_elems - 1) div packing_block + 1) * packing_block
      in if max_size r < new_size then
           (if copy \<and> max_size r \<noteq> 0 \<and> (max_size r < old_size \<or> new_size < old_size) then Inl Bad_Index
            else Inr (r\<lparr>rep_size := new_size, max_size := new_size,
              m_bits := (\<lambda>i. if copy \<and> max_size r \<noteq> 0 \<and> i < 4 * unat old_size then m_bits r i else None)\<rparr>))
         else Inr (r\<lparr>rep_size := new_size\<rparr>))"

text \<open>The comparison is one of \<open>int\<close>.\<close>

definition check_size :: "uint \<Rightarrow> packer \<Rightarrow> packer res" where
  "check_size nwords r =
     (let capacity = rep_size r - pack_index r
      in if capacity \<le>s nwords then allocate nwords True r else Inr r)"

definition reset :: "packer \<Rightarrow> packer" where
  "reset r = r\<lparr>pack_index := 0, unpack_index := 0, rep_size := 0\<rparr>"

definition inc_unpack_index :: "uint \<Rightarrow> (packer, unit) pk" where
  "inc_unpack_index n r =
     (let r = r\<lparr>unpack_index := unpack_index r + n\<rparr>
      in if pack_index r < unpack_index r then pk_throw UVM_PACKER_UNPACK_INDEX r else pk_return () r)"

text \<open>
  \<open>bits\<close> is the source array with its length in bytes. The index of the reader is not set.
\<close>

definition set_bits :: "(nat \<Rightarrow> cell) \<Rightarrow> nat \<Rightarrow> uint \<Rightarrow> packer \<Rightarrow> packer res" where
  "set_bits bits len nbits r =
     (let nwords = (nbits - 1) div 32 + 1 in
      bind_res (allocate nwords False r) (\<lambda>r.
        if len < 4 * unat nwords then Inl Bad_Index
        else bind_res (store 0 (map bits [0..<4 * unat nwords]) r) (\<lambda>r.
          Inr (r\<lparr>rep_size := nwords, pack_index := nwords\<rparr>))))"

definition get_remaining_unpacked_bits :: "packer \<Rightarrow> uint" where
  "get_remaining_unpacked_bits r = (pack_index r - unpack_index r) * 32"

text \<open>\<open>uvm_ml_packer_int\<close> makes its packer with metadata on, and it cannot be switched off.\<close>

definition new_packer :: packer where
  "new_packer = \<lparr>m_use_metadata = True, pack_index = 0, unpack_index = 0, m_bits = (\<lambda>_. None), rep_size = 0,
     max_size = 0, name_id_dict = (\<lambda>_. None), id_name_dict = (\<lambda>_. None)\<rparr>"

definition use_metadata :: "bool \<Rightarrow> packer \<Rightarrow> packer" where
  "use_metadata b r = r"

section \<open>Packing and unpacking a scalar\<close>

definition words_for :: "nat \<Rightarrow> nat" where
  "words_for n = (8 * n - 1) div 32 + 1"

definition pack_unsigned :: "byte list \<Rightarrow> (packer, unit) pk" where
  "pack_unsigned bs = pk_do (\<lambda>r.
     let nwords = of_nat (words_for (length bs)) in
     bind_res (check_size nwords r) (\<lambda>r.
     bind_res (store (4 * unat (pack_index r)) (map Some bs) r) (\<lambda>r.
       Inr (r\<lparr>pack_index := pack_index r + nwords\<rparr>))))"

definition unpack_unsigned :: "nat \<Rightarrow> (packer, byte list) pk" where
  "unpack_unsigned n =
     pk_bind (pk_get (\<lambda>r. fetch (4 * unat (unpack_index r)) n r)) (\<lambda>cs.
     pk_bind (inc_unpack_index (of_nat (words_for n))) (\<lambda>_.
       pk_get (\<lambda>r. read_cells cs)))"

text \<open>A word that is read before the index moves.\<close>

definition unpack_word :: "(packer, uint) pk" where
  "unpack_word =
     pk_bind (pk_get (\<lambda>r. bind_res (fetch (4 * unat (unpack_index r)) 4 r) read_cells)) (\<lambda>bs.
     pk_bind (inc_unpack_index 1) (\<lambda>_. pk_return (of_bytes bs)))"

definition pack_null :: "(packer, unit) pk" where
  "pack_null = pack_unsigned (bytes_le (0 :: uint))"

definition pack_non_null :: "(packer, unit) pk" where
  "pack_non_null = pack_unsigned (bytes_le (1 :: uint))"

definition unpack_int :: "(packer, uint) pk" where
  "unpack_int = pk_bind (unpack_unsigned 4) (\<lambda>bs. pk_return (of_bytes bs))"

definition unpack_non_null :: "(packer, bool) pk" where
  "unpack_non_null = pk_bind unpack_int (\<lambda>a. pk_return (a \<noteq> 0))"

definition pack_char :: "byte \<Rightarrow> (packer, unit) pk" where
  "pack_char a = pack_unsigned [a]"

definition unpack_char :: "(packer, byte) pk" where
  "unpack_char = pk_bind (unpack_unsigned 1) (\<lambda>bs. pk_return (hd bs))"

section \<open>Strings and vectors\<close>

text \<open>A slot of four characters; the last slot is filled as far as the string goes.\<close>

definition pack_slot :: "byte list \<Rightarrow> packer \<Rightarrow> packer res" where
  "pack_slot bs r =
     bind_res (store (4 * unat (pack_index r)) (map Some bs) r) (\<lambda>r. Inr (r\<lparr>pack_index := pack_index r + 1\<rparr>))"

definition char_bytes :: "string \<Rightarrow> byte list" where
  "char_bytes a = map of_char a"

definition pack_string :: "string \<Rightarrow> (packer, unit) pk" where
  "pack_string a = pk_do (\<lambda>r.
     let nchars = length a + 1;
         cstring = char_bytes a @ [0];
         nwords = (nchars - 1) div 4 + 1
     in if 2147483648 \<le> nchars then Inl Int_Overflow
        else
          bind_res (check_size (of_nat nwords) r) (\<lambda>r.
          bind_res (fold_res (\<lambda>i. pack_slot (take 4 (drop (4 * i) cstring))) [0..<nwords - 1] r)
            (pack_slot (take (nchars - (nwords - 1) * 4) (drop (4 * (nwords - 1)) cstring)))))"

text \<open>\<open>operator << (const char* )\<close>, of which the null pointer is the empty string.\<close>

definition pack_c_string :: "string option \<Rightarrow> (packer, unit) pk" where
  "pack_c_string a = pack_string (case a of None \<Rightarrow> [] | Some a \<Rightarrow> c_str a)"

text \<open>The characters of a slot up to its null character, and whether there is one.\<close>

fun scan_slot :: "cell list \<Rightarrow> (string \<times> bool) res" where
  "scan_slot [] = Inr ([], False)"
| "scan_slot (None # cs) = Inl Uninit_Read"
| "scan_slot (Some b # cs) =
     (if b = 0 then Inr ([], True)
      else bind_res (scan_slot cs) (\<lambda>(x, z). Inr (char_of (unat b) # x, z)))"

fun unpack_string :: "nat \<Rightarrow> (packer, string) pk" where
  "unpack_string 0 = (\<lambda>r. None)"
| "unpack_string (Suc n) =
     pk_bind (pk_get (\<lambda>r. fetch (4 * unat (unpack_index r)) 4 r)) (\<lambda>cs.
     pk_bind (inc_unpack_index 1) (\<lambda>_.
     pk_bind (pk_get (\<lambda>r. scan_slot cs)) (\<lambda>(x, z).
       if z then pk_return x else pk_bind (unpack_string n) (\<lambda>y. pk_return (x @ y)))))"

text \<open>The words of a bit vector, one after the other.\<close>

definition pack_words :: "uint list \<Rightarrow> (packer, unit) pk" where
  "pack_words ws = pk_do (\<lambda>r.
     bind_res (check_size (of_nat (length ws)) r) (\<lambda>r.
     bind_res (fold_res (\<lambda>i r. store (4 * unat (pack_index r + of_nat i)) (map Some (bytes_le (ws ! i))) r)
       [0..<length ws] r) (\<lambda>r.
       Inr (r\<lparr>pack_index := pack_index r + of_nat (length ws)\<rparr>))))"

definition unpack_words :: "nat \<Rightarrow> (packer, uint list) pk" where
  "unpack_words n =
     pk_bind (pk_get (\<lambda>r. map_res (\<lambda>i.
        bind_res (bind_res (fetch (4 * unat (unpack_index r + of_nat i)) 4 r) read_cells) (\<lambda>bs. Inr (of_bytes bs)))
        [0..<n])) (\<lambda>ws.
     pk_bind (inc_unpack_index (of_nat n)) (\<lambda>_. pk_return ws))"

section \<open>Values\<close>

text \<open>The SystemC data types, as far as the packer looks at them; \<open>sc_logic\<close> in the order of its codes.\<close>

datatype sc_logic = Log_0 | Log_1 | Log_Z | Log_X

definition sc_words :: "nat \<Rightarrow> nat" where
  "sc_words n = (n - 1) div 32 + 1"

record sc_bv_base =
  bv_len :: nat
  bv_data :: "uint list"

record sc_lv_base =
  lv_len :: nat
  lv_data :: "uint list"
  lv_ctrl :: "uint list"

record sc_int_base =
  si_len :: nat
  si_val :: ulong

record sc_uint_base =
  su_len :: nat
  su_val :: ulong

definition int_extend_sign :: "sc_int_base \<Rightarrow> sc_int_base" where
  "int_extend_sign a = a\<lparr>si_val := signed_drop_bit (64 - si_len a) (push_bit (64 - si_len a) (si_val a))\<rparr>"

definition uint_extend_sign :: "sc_uint_base \<Rightarrow> sc_uint_base" where
  "uint_extend_sign a = a\<lparr>su_val := su_val a AND drop_bit (64 - su_len a) (NOT 0)\<rparr>"

definition get_bit :: "sc_lv_base \<Rightarrow> nat \<Rightarrow> sc_logic" where
  "get_bit a i =
     (if bit (lv_ctrl a ! (i div 32)) (i mod 32)
      then (if bit (lv_data a ! (i div 32)) (i mod 32) then Log_X else Log_Z)
      else (if bit (lv_data a ! (i div 32)) (i mod 32) then Log_1 else Log_0))"

text \<open>A new vector is all \<open>X\<close>; the bits behind its length are cleared.\<close>

definition new_lv :: "nat \<Rightarrow> sc_lv_base" where
  "new_lv n =
     (let ws = replicate (sc_words n - 1) (NOT 0) @ [drop_bit (32 * sc_words n - n) (NOT 0)]
      in \<lparr>lv_len = n, lv_data = ws, lv_ctrl = ws\<rparr>)"

text \<open>The value a reader has to provide: its type and, where the reader writes into it, the value itself.\<close>

datatype kind =
  K_bool | K_char | K_uchar | K_short | K_ushort | K_int | K_long | K_string | K_logic
| K_bv nat | K_lv sc_lv_base | K_sc_int nat | K_sc_uint nat | K_signed sc_nbnum | K_unsigned sc_nbnum
| K_bits | K_object

text \<open>
  \<open>V_int\<close> is \<open>int\<close> and \<open>unsigned\<close>, \<open>V_long\<close> is any of the four 64-bit types. A \<open>uvm_object\<close> is its type
  name and its fields, which \<open>do_pack\<close> packs and \<open>do_unpack\<close> unpacks in this order.
\<close>

datatype sc_value =
  V_bool bool | V_char byte | V_uchar byte | V_short "16 word" | V_ushort "16 word" | V_int uint
| V_long ulong | V_string string | V_logic sc_logic | V_bv sc_bv_base | V_lv sc_lv_base
| V_sc_int sc_int_base | V_sc_uint sc_uint_base | V_signed sc_nbnum | V_unsigned sc_nbnum | V_bits "bool list" | V_null
| V_object string "sc_value list"

text \<open>
  What the packer calls: the two type queries of the backplane, the fields of the object classes
  registered with the factory, and whether any class is registered under a name.
\<close>

record sc_env =
  type_id_of :: "string \<Rightarrow> uint"
  type_name_of :: "uint \<Rightarrow> string"
  object_fields :: "string \<rightharpoonup> kind list"
  class_registered :: "string \<Rightarrow> bool"

definition uvm_get_type_id :: "sc_env \<Rightarrow> string \<Rightarrow> (packer, uint) pk" where
  "uvm_get_type_id env nm r =
     (case name_id_dict r (c_str nm) of
        Some i \<Rightarrow> pk_return i r
      | None \<Rightarrow>
          let i = type_id_of env (c_str nm)
          in pk_return i (r\<lparr>name_id_dict := (name_id_dict r)(c_str nm \<mapsto> i)\<rparr>))"

definition uvm_get_type_name :: "sc_env \<Rightarrow> uint \<Rightarrow> (packer, string) pk" where
  "uvm_get_type_name env i r =
     (case id_name_dict r i of
        Some nm \<Rightarrow> pk_return nm r
      | None \<Rightarrow>
          let nm = type_name_of env i
          in pk_return nm (r\<lparr>id_name_dict := (id_name_dict r)(i \<mapsto> nm)\<rparr>))"

definition pack_obj_header :: "sc_env \<Rightarrow> string \<Rightarrow> (packer, unit) pk" where
  "pack_obj_header env type_name =
     pk_bind pack_non_null (\<lambda>_. pk_bind (uvm_get_type_id env type_name) (\<lambda>i. pack_unsigned (bytes_le i)))"

text \<open>What was created: an object of the factory, an instance of another class, or nothing.\<close>

datatype created = Created_object string | Created_class string | Created_null

definition unpack_obj_header :: "sc_env \<Rightarrow> (packer, created) pk" where
  "unpack_obj_header env =
     pk_bind unpack_non_null (\<lambda>b.
       if \<not> b then pk_return Created_null
       else pk_bind unpack_int (\<lambda>i. pk_bind (uvm_get_type_name env i) (\<lambda>s.
         if object_fields env s \<noteq> None then pk_return (Created_object s)
         else if class_registered env s then pk_return (Created_class s)
         else pk_throw UVM_PACKER_UNPACK_OBJECT)))"

definition check_obj_header :: "sc_env \<Rightarrow> (packer, bool) pk" where
  "check_obj_header env =
     pk_bind (pk_get (\<lambda>r. Inr (unpack_index r))) (\<lambda>saved.
     pk_bind (pk_bind unpack_non_null (\<lambda>b.
       if \<not> b then pk_return False
       else pk_bind unpack_int (\<lambda>i. pk_bind (uvm_get_type_name env i) (\<lambda>s.
         pk_return (object_fields env s \<noteq> None \<or> class_registered env s))))) (\<lambda>b.
     pk_bind (pk_do (\<lambda>r. Inr (r\<lparr>unpack_index := saved\<rparr>))) (\<lambda>_. pk_return b)))"

section \<open>Packing a value\<close>

definition pack_sc_logic :: "sc_logic \<Rightarrow> (packer, unit) pk" where
  "pack_sc_logic a = pack_unsigned (bytes_le (if a = Log_1 then 1 else 0 :: uint))"

definition pack_sc_bv_base :: "sc_bv_base \<Rightarrow> (packer, unit) pk" where
  "pack_sc_bv_base a = pack_words (bv_data a)"

definition pack_sc_lv_base :: "sc_lv_base \<Rightarrow> (packer, unit) pk" where
  "pack_sc_lv_base a = pack_words (lv_data a)"

definition pack_sc_int_base :: "sc_int_base \<Rightarrow> (packer, unit) pk" where
  "pack_sc_int_base a =
     (if sc_words (si_len a) = 1 then pack_unsigned (bytes_le (ucast (si_val a) :: uint))
      else pack_unsigned (bytes_le (si_val a)))"

definition pack_sc_uint_base :: "sc_uint_base \<Rightarrow> (packer, unit) pk" where
  "pack_sc_uint_base a =
     (if sc_words (su_len a) = 1 then pack_unsigned (bytes_le (ucast (su_val a) :: uint))
      else pack_unsigned (bytes_le (su_val a)))"

text \<open>The numbers of any length write their words in two's complement.\<close>

definition pack_sc_signed :: "sc_nbnum \<Rightarrow> (packer, unit) pk" where
  "pack_sc_signed a = pack_words (get_packed_rep a)"

definition pack_sc_unsigned :: "sc_nbnum \<Rightarrow> (packer, unit) pk" where
  "pack_sc_unsigned a = pack_words (get_packed_rep a)"

definition bv_of_bits :: "bool list \<Rightarrow> sc_bv_base" where
  "bv_of_bits a =
     \<lparr>bv_len = length a,
      bv_data = fold (\<lambda>i. put_bit 32 i (a ! i)) [0..<length a] (replicate (sc_words (length a)) 0)\<rparr>"

text \<open>\<open>sc_bv_base bv((int)nbits)\<close> reports a length that is not positive.\<close>

definition pack_bits :: "bool list \<Rightarrow> (packer, unit) pk" where
  "pack_bits a =
     (let nbits = of_nat (length a) :: uint in
      pk_bind (pack_unsigned (bytes_le nbits)) (\<lambda>_.
        if nbits = 0 then pk_return ()
        else if nbits <s 0 then pk_throw SC_ID_ZERO_LENGTH
        else pack_sc_bv_base (bv_of_bits a)))"

text \<open>An object is its type name and its \<open>pack\<close>, or the null pointer.\<close>

definition pack_obj :: "sc_env \<Rightarrow> (string \<times> (packer, unit) pk) option \<Rightarrow> (packer, unit) pk" where
  "pack_obj env a =
     pk_bind (pk_get (\<lambda>r. Inr (m_use_metadata r))) (\<lambda>meta.
       case a of
         None \<Rightarrow> if meta then pack_null else pk_throw UVM_PACK_NULL
       | Some (type_name, do_pack) \<Rightarrow>
           pk_bind (if meta then pack_obj_header env type_name else pk_return ()) (\<lambda>_. do_pack))"

fun pack_value :: "sc_env \<Rightarrow> sc_value \<Rightarrow> (packer, unit) pk"
  and pack_values :: "sc_env \<Rightarrow> sc_value list \<Rightarrow> (packer, unit) pk" where
  "pack_value env (V_bool a) = pack_unsigned (bytes_le (if a then 1 else 0 :: uint))"
| "pack_value env (V_char a) = pack_unsigned (bytes_le (scast a :: uint))"
| "pack_value env (V_uchar a) = pack_unsigned (bytes_le (ucast a :: uint))"
| "pack_value env (V_short a) = pack_unsigned (bytes_le (scast a :: uint))"
| "pack_value env (V_ushort a) = pack_unsigned (bytes_le (ucast a :: uint))"
| "pack_value env (V_int a) = pack_unsigned (bytes_le a)"
| "pack_value env (V_long a) = pack_unsigned (bytes_le a)"
| "pack_value env (V_string a) = pack_string a"
| "pack_value env (V_logic a) = pack_sc_logic a"
| "pack_value env (V_bv a) = pack_sc_bv_base a"
| "pack_value env (V_lv a) = pack_sc_lv_base a"
| "pack_value env (V_sc_int a) = pack_sc_int_base a"
| "pack_value env (V_sc_uint a) = pack_sc_uint_base a"
| "pack_value env (V_signed a) = pack_sc_signed a"
| "pack_value env (V_unsigned a) = pack_sc_unsigned a"
| "pack_value env (V_bits a) = pack_bits a"
| "pack_value env V_null = pack_obj env None"
| "pack_value env (V_object type_name vs) = pack_obj env (Some (type_name, pack_values env vs))"
| "pack_values env [] = pk_return ()"
| "pack_values env (v # vs) = pk_bind (pack_value env v) (\<lambda>_. pack_values env vs)"

section \<open>Unpacking a value\<close>

definition unpack_sc_logic :: "(packer, sc_logic) pk" where
  "unpack_sc_logic = pk_bind unpack_word (\<lambda>a. pk_return (if a = 1 then Log_1 else Log_0))"

definition unpack_sc_lv_base :: "sc_lv_base \<Rightarrow> (packer, sc_lv_base) pk" where
  "unpack_sc_lv_base a = pk_bind (unpack_words (length (lv_data a))) (\<lambda>ws. pk_return (a\<lparr>lv_data := ws\<rparr>))"

definition unpack_sc_bv_base :: "nat \<Rightarrow> (packer, sc_bv_base) pk" where
  "unpack_sc_bv_base n = pk_bind (unpack_words (sc_words n)) (\<lambda>ws. pk_return \<lparr>bv_len = n, bv_data = ws\<rparr>)"

text \<open>One word is read before the index moves, two words are copied before.\<close>

definition unpack_sc_int_base :: "nat \<Rightarrow> (packer, sc_int_base) pk" where
  "unpack_sc_int_base n =
     (if sc_words n = 1 then
        pk_bind unpack_word (\<lambda>w. pk_return (int_extend_sign \<lparr>si_len = n, si_val = ucast w\<rparr>))
      else
        pk_bind (pk_get (\<lambda>r. bind_res (fetch (4 * unat (unpack_index r)) 8 r) read_cells)) (\<lambda>bs.
        pk_bind (inc_unpack_index (of_nat (sc_words n))) (\<lambda>_.
          pk_return (int_extend_sign \<lparr>si_len = n, si_val = of_bytes bs\<rparr>))))"

definition unpack_sc_uint_base :: "nat \<Rightarrow> (packer, sc_uint_base) pk" where
  "unpack_sc_uint_base n =
     (if sc_words n = 1 then
        pk_bind unpack_word (\<lambda>w. pk_return (uint_extend_sign \<lparr>su_len = n, su_val = ucast w\<rparr>))
      else
        pk_bind (pk_get (\<lambda>r. bind_res (fetch (4 * unat (unpack_index r)) 8 r) read_cells)) (\<lambda>bs.
        pk_bind (inc_unpack_index (of_nat (sc_words n))) (\<lambda>_.
          pk_return (uint_extend_sign \<lparr>su_len = n, su_val = of_bytes bs\<rparr>))))"

definition unpack_sc_signed :: "sc_nbnum \<Rightarrow> (packer, sc_nbnum) pk" where
  "unpack_sc_signed a =
     pk_bind (unpack_words (sc_words (nb_length a))) (\<lambda>ws. pk_return (set_packed_rep ws a))"

definition unpack_sc_unsigned :: "sc_nbnum \<Rightarrow> (packer, sc_nbnum) pk" where
  "unpack_sc_unsigned a =
     pk_bind (unpack_words (sc_words (nb_length a))) (\<lambda>ws. pk_return (set_packed_rep ws a))"

definition unpack_bits :: "(packer, bool list) pk" where
  "unpack_bits =
     pk_bind unpack_int (\<lambda>nbits.
       if nbits = 0 then pk_return []
       else if nbits <s 0 then pk_throw SC_ID_ZERO_LENGTH
       else pk_bind (unpack_sc_bv_base (unat nbits)) (\<lambda>bv.
         pk_return (map (\<lambda>i. bit (bv_data bv ! (i div 32)) (i mod 32)) [0..<unat nbits])))"

text \<open>An object is created by the factory and read by its \<open>unpack\<close>.\<close>

definition unpack_obj :: "sc_env \<Rightarrow> (kind list \<Rightarrow> (packer, sc_value list) pk) \<Rightarrow> (packer, sc_value) pk" where
  "unpack_obj env do_unpack =
     pk_bind (pk_get (\<lambda>r. Inr (m_use_metadata r))) (\<lambda>meta.
       if \<not> meta then pk_throw UVM_UNPACK_OBJ_NO_METADATA
       else pk_bind unpack_non_null (\<lambda>b.
         if \<not> b then pk_return V_null
         else pk_bind unpack_int (\<lambda>i. pk_bind (uvm_get_type_name env i) (\<lambda>s.
           case object_fields env s of
             None \<Rightarrow> pk_throw UVM_PACKER_UNPACK_OBJECT
           | Some ks \<Rightarrow> pk_bind (do_unpack ks) (\<lambda>vs. pk_return (V_object s vs))))))"

fun unpack_value :: "sc_env \<Rightarrow> nat \<Rightarrow> kind \<Rightarrow> (packer, sc_value) pk"
  and unpack_values :: "sc_env \<Rightarrow> nat \<Rightarrow> kind list \<Rightarrow> (packer, sc_value list) pk" where
  "unpack_value env n K_bool = pk_bind unpack_int (\<lambda>a. pk_return (V_bool (a \<noteq> 0)))"
| "unpack_value env n K_char = pk_bind unpack_int (\<lambda>a. pk_return (V_char (ucast a)))"
| "unpack_value env n K_uchar = pk_bind unpack_int (\<lambda>a. pk_return (V_uchar (ucast a)))"
| "unpack_value env n K_short = pk_bind unpack_int (\<lambda>a. pk_return (V_short (ucast a)))"
| "unpack_value env n K_ushort = pk_bind unpack_int (\<lambda>a. pk_return (V_ushort (ucast a)))"
| "unpack_value env n K_int = pk_bind unpack_int (\<lambda>a. pk_return (V_int a))"
| "unpack_value env n K_long = pk_bind (unpack_unsigned 8) (\<lambda>bs. pk_return (V_long (of_bytes bs)))"
| "unpack_value env n K_string = pk_bind (unpack_string n) (\<lambda>a. pk_return (V_string a))"
| "unpack_value env n K_logic = pk_bind unpack_sc_logic (\<lambda>a. pk_return (V_logic a))"
| "unpack_value env n (K_bv len) = pk_bind (unpack_sc_bv_base len) (\<lambda>a. pk_return (V_bv a))"
| "unpack_value env n (K_lv old) = pk_bind (unpack_sc_lv_base old) (\<lambda>a. pk_return (V_lv a))"
| "unpack_value env n (K_sc_int len) = pk_bind (unpack_sc_int_base len) (\<lambda>a. pk_return (V_sc_int a))"
| "unpack_value env n (K_sc_uint len) = pk_bind (unpack_sc_uint_base len) (\<lambda>a. pk_return (V_sc_uint a))"
| "unpack_value env n (K_signed old) = pk_bind (unpack_sc_signed old) (\<lambda>a. pk_return (V_signed a))"
| "unpack_value env n (K_unsigned old) = pk_bind (unpack_sc_unsigned old) (\<lambda>a. pk_return (V_unsigned a))"
| "unpack_value env n K_bits = pk_bind unpack_bits (\<lambda>a. pk_return (V_bits a))"
| "unpack_value env 0 K_object = (\<lambda>r. None)"
| "unpack_value env (Suc n) K_object = unpack_obj env (\<lambda>ks. unpack_values env n ks)"
| "unpack_values env n [] = pk_return []"
| "unpack_values env n (k # ks) =
     pk_bind (unpack_value env n k) (\<lambda>v. pk_bind (unpack_values env n ks) (\<lambda>vs. pk_return (v # vs)))"

section \<open>Packed objects\<close>

text \<open>\<open>uvm_ml_packed_obj\<close>: an array of words and the number of bits in use.\<close>

record packed_obj =
  po_size :: uint
  po_val :: "nat \<Rightarrow> cell"
  po_max_words :: uint

definition uvm_ml_packed_obj :: packed_obj where
  "uvm_ml_packed_obj = \<lparr>po_size = 0, po_val = (\<lambda>_. None), po_max_words = 0\<rparr>"

definition po_allocate :: "uint \<Rightarrow> packed_obj \<Rightarrow> packed_obj" where
  "po_allocate nwords v =
     (if nwords \<le> po_max_words v then v else v\<lparr>po_max_words := nwords, po_val := (\<lambda>_. None)\<rparr>)"

text \<open>
  The limit in bits: the backplane's, or \<open>UVM_ML_BITSIZE\<close> (as \<open>atoi\<close> reads it) but a block at least.
\<close>

definition get_max_bits :: "int \<Rightarrow> int option \<Rightarrow> int" where
  "get_max_bits pack_max_size bitsize =
     (if pack_max_size = -1 then
        (let size = (case bitsize of None \<Rightarrow> -1 | Some c \<Rightarrow> c)
         in if size < 131072 then 131072 else size)
      else pack_max_size)"

definition round_bits :: "int \<Rightarrow> int" where
  "round_bits nbits = sint (((word_of_int (nbits - 1) :: uint) div packing_block + 1) * packing_block)"

text \<open>\<open>1 + (bits - 1)/32\<close>, a division of \<open>int\<close>.\<close>

definition words_of_bits :: "int \<Rightarrow> int res" where
  "words_of_bits bits =
     (if bits = - 2147483648 then Inl Int_Overflow
      else Inr (1 + (if bits < 1 then - ((1 - bits) div 32) else (bits - 1) div 32)))"

definition get_max_words :: "int \<Rightarrow> int res" where
  "get_max_words max_bits = words_of_bits (round_bits max_bits)"

definition fill_uvm_ml_packed_obj :: "uint \<Rightarrow> packed_obj \<Rightarrow> (packer, packed_obj) pk" where
  "fill_uvm_ml_packed_obj alloc_words v = pk_get (\<lambda>r.
     let nwords = pack_index r;
         v = po_allocate alloc_words (v\<lparr>po_size := nwords * 32\<rparr>)
     in if sint nwords * 32 < - 2147483648 \<or> 2147483647 < sint nwords * 32 then Inl Int_Overflow
        else if po_max_words v < nwords then Inl Bad_Index
        else bind_res (fetch 0 (4 * unat nwords) r) (\<lambda>cs.
          Inr (v\<lparr>po_val := (\<lambda>i. if i < length cs then cs ! i else po_val v i)\<rparr>)))"

definition set_from_uvm_ml_packed_obj :: "packed_obj \<Rightarrow> (packer, unit) pk" where
  "set_from_uvm_ml_packed_obj v = pk_do (set_bits (po_val v) (4 * unat (po_max_words v)) (po_size v))"

text \<open>
  The words of a packed object are copied to a stream and from a stream; a stream is the memory the
  backplane hands over. Behind the words, a new packed object is not written.
\<close>

definition nwords_of :: "uint \<Rightarrow> nat" where
  "nwords_of nbits = unat ((nbits - 1) div 32 + 1)"

definition copy_from_mlupo :: "packed_obj \<Rightarrow> cell list \<Rightarrow> (uint \<times> cell list) res" where
  "copy_from_mlupo vt stream =
     (let n = 4 * nwords_of (po_size vt) in
      if 4 * unat (po_max_words vt) < n \<or> length stream < n then Inl Bad_Index
      else Inr (po_size vt, map (po_val vt) [0..<n] @ drop n stream))"

definition fill_mlupo :: "uint \<Rightarrow> cell list \<Rightarrow> packed_obj \<Rightarrow> packed_obj res" where
  "fill_mlupo nbits stream vt =
     (let nwords = nwords_of nbits in
      if 2147483647 < nwords * 32 then Inl Int_Overflow
      else bind_res (words_of_bits (round_bits (int (nwords * 32)))) (\<lambda>alloc_words.
        let v = po_allocate (word_of_int alloc_words) (vt\<lparr>po_size := nbits\<rparr>); n = 4 * nwords
        in if 4 * unat (po_max_words v) < n \<or> length stream < n then Inl Bad_Index
           else Inr (v\<lparr>po_val := (\<lambda>i. if i < n then stream ! i else po_val v i)\<rparr>)))"

definition uvm_ml_packer_pack :: "sc_env \<Rightarrow> int \<Rightarrow> uint \<Rightarrow> sc_value \<Rightarrow> packed_obj \<Rightarrow> (packer, packed_obj) pk" where
  "uvm_ml_packer_pack env max_bits alloc_words val p =
     pk_bind (pack_value env val) (\<lambda>_.
     pk_bind (pk_get (\<lambda>r. Inr (sint (get_remaining_unpacked_bits r)))) (\<lambda>packed_size.
       if max_bits < packed_size then pk_throw ML_UVM_SIZE_LIMIT
       else
         pk_bind (fill_uvm_ml_packed_obj alloc_words p) (\<lambda>p.
         pk_bind (pk_do (\<lambda>r. Inr (reset r))) (\<lambda>_. pk_return p))))"

text \<open>For a \<open>uvm_object\<close>, and for any other class. An exception leaves the packer as it is.\<close>

definition unpack_create_object :: "sc_env \<Rightarrow> nat \<Rightarrow> packed_obj \<Rightarrow> (packer, sc_value) pk" where
  "unpack_create_object env n p r =
     (case
        pk_bind (set_from_uvm_ml_packed_obj p) (\<lambda>_.
        pk_bind (unpack_value env n K_object) (\<lambda>val.
        pk_bind (pk_get (\<lambda>r. Inr (get_remaining_unpacked_bits r))) (\<lambda>rem.
          if rem \<noteq> 0 then pk_throw UVM_PACKER_UNPACK_OBJECT
          else pk_bind (pk_do (\<lambda>r. Inr (reset r))) (\<lambda>_. pk_return val)))) r of
        Some (Inr (Inl e, r)) \<Rightarrow>
          pk_throw (if e = UVM_PACKER_UNPACK_INDEX then UVM_PACKER_UNPACK_OBJECT else e) r
      | x \<Rightarrow> x)"

definition unpack_create :: "sc_env \<Rightarrow> nat \<Rightarrow> kind \<Rightarrow> packed_obj \<Rightarrow> (packer, sc_value) pk" where
  "unpack_create env n k p =
     pk_bind (set_from_uvm_ml_packed_obj p) (\<lambda>_.
     pk_bind (unpack_value env n k) (\<lambda>val.
     pk_bind (pk_do (\<lambda>r. Inr (reset r))) (\<lambda>_. pk_return val)))"

end
