(* ===== verification/Sc_Packing.thy ===== *)
theory Sc_Packing
  imports Sc_Packer
begin

text \<open>
  What the packer keeps: the buffer always holds what was packed and not yet unpacked, as a pattern
  of cells (padding is not looked at). Packing appends the pattern of the value to the contents of
  the buffer; the packer is an instance of the contract of \<open>Sc_Monad\<close>.
\<close>

section \<open>The buffer\<close>

definition contents :: "packer \<Rightarrow> cell list" where
  "contents r = map (m_bits r) [4 * unat (unpack_index r)..<4 * unat (pack_index r)]"

definition holds :: "packer \<Rightarrow> cell list \<Rightarrow> bool" where
  "holds r ps \<longleftrightarrow> matches (contents r) ps"

definition buffer_ok :: "packer \<Rightarrow> bool" where
  "buffer_ok r \<longleftrightarrow> unpack_index r \<le> pack_index r \<and> pack_index r \<le> rep_size r \<and> rep_size r \<le> max_size r \<and>
     max_size r < 2147483648"

text \<open>Room for \<open>n\<close> words: no size reaches \<open>2^31\<close>.\<close>

definition room :: "packer \<Rightarrow> nat \<Rightarrow> bool" where
  "room r n \<longleftrightarrow> unat (pack_index r) + n \<le> 2147352576"

lemma room_mono: "room r n \<Longrightarrow> m \<le> n \<Longrightarrow> room r m"
  by (simp add: room_def)

lemma buffer_okD:
  assumes "buffer_ok r"
  shows "unat (unpack_index r) \<le> unat (pack_index r)" "unat (pack_index r) \<le> unat (rep_size r)"
    "unat (rep_size r) \<le> unat (max_size r)" "unat (max_size r) < 2147483648"
  using assms by (simp_all add: buffer_ok_def word_le_nat_alt word_less_nat_alt)

lemma sint_small:
  fixes a :: uint
  assumes "unat a < 2147483648"
  shows "sint a = int (unat a)"
proof -
  have "int (unat a) < int 2147483648" using assms by (simp only: of_nat_less_iff)
  then have "uint a < 2147483648" and "- 2147483648 \<le> uint a"
    using uint_nonnegative [of a] by (simp, linarith)
  then have "sint a = uint a" by (simp add: sint_uint signed_take_bit_int_eq_self)
  then show ?thesis by simp
qed

lemma blocks:
  fixes a b :: uint
  assumes "unat a + n \<le> 2147352576" and "0 < n" and "unat b = n"
  shows "unat (((a + b - 1) div packing_block + 1) * packing_block) = ((unat a + n - 1) div 131072 + 1) * 131072"
proof -
  have ab: "unat (a + b) = unat a + n" using assms by (simp add: unat_word_ariths)
  then have s: "unat (a + b - 1) = unat a + n - 1" using assms(1,2) by (simp add: unat_sub_if' word_le_nat_alt)
  have d: "unat ((a + b - 1) div packing_block) = (unat a + n - 1) div 131072" by (simp add: unat_div s)
  have le: "(unat a + n - 1) div 131072 \<le> 16382" using assms(1,2) by (simp add: div_le_mono [of _ "2147352575", THEN le_trans])
  have "unat ((a + b - 1) div packing_block + 1) = (unat a + n - 1) div 131072 + 1"
    using le by (simp add: unat_word_ariths unat_div s)
  then show ?thesis using le by (simp add: unat_word_ariths unat_div s)
qed

text \<open>What growing the buffer leaves alone.\<close>

definition grown :: "packer \<Rightarrow> packer \<Rightarrow> bool" where
  "grown r r' \<longleftrightarrow> (\<exists>sz mx m. r' = r\<lparr>rep_size := sz, max_size := mx, m_bits := m\<rparr> \<and>
     (\<forall>i < 4 * unat (rep_size r). m i = m_bits r i))"

lemma grown_refl [intro]: "grown r r"
  unfolding grown_def by (rule exI [of _ "rep_size r"], rule exI [of _ "max_size r"], rule exI [of _ "m_bits r"]) simp

lemma grown_simps:
  assumes "grown r r'"
  shows "pack_index r' = pack_index r" "unpack_index r' = unpack_index r" "m_use_metadata r' = m_use_metadata r"
    "name_id_dict r' = name_id_dict r" "id_name_dict r' = id_name_dict r"
    and "i < 4 * unat (rep_size r) \<Longrightarrow> m_bits r' i = m_bits r i"
  using assms unfolding grown_def by auto

lemma allocate_grown:
  assumes ok: "buffer_ok r" and n: "room r n" "0 < n" "unat b = n"
  obtains r' where "allocate b True r = Inr r'" and "grown r r'" and "buffer_ok r'"
    and "unat (pack_index r) + n \<le> unat (rep_size r')"
proof -
  let ?sz = "((pack_index r + b - 1) div packing_block + 1) * packing_block"
  have sz: "unat ?sz = ((unat (pack_index r) + n - 1) div 131072 + 1) * 131072"
    by (rule blocks) (use n in \<open>auto simp: room_def\<close>)
  have fits: "unat (pack_index r) + n \<le> unat ?sz"
    unfolding sz using n(2) by (intro whole_blocks) simp_all
  have "(unat (pack_index r) + n - 1) div 131072 \<le> 16382"
    using n by (simp add: room_def div_le_mono [of _ "2147352575", THEN le_trans])
  then have small: "unat ?sz < 2147483648" unfolding sz by simp
  note b = buffer_okD [OF ok]
  show ?thesis
  proof (cases "max_size r < ?sz")
    case True
    let ?r = "r\<lparr>rep_size := ?sz, max_size := ?sz,
      m_bits := (\<lambda>i. if max_size r \<noteq> 0 \<and> i < 4 * unat (rep_size r) then m_bits r i else None)\<rparr>"
    have le: "rep_size r \<le> max_size r" "rep_size r \<le> ?sz"
      using ok True by (auto simp: buffer_ok_def)
    show ?thesis
    proof (rule that)
      show "allocate b True r = Inr ?r"
        using True le unfolding allocate_def Let_def by (auto simp: not_less)
      show "grown r ?r" unfolding grown_def
        using le b(3) by (intro exI [of _ ?sz] exI [of _ "\<lambda>i. if max_size r \<noteq> 0 \<and> i < 4 * unat (rep_size r) then m_bits r i else None"]) auto
      show "buffer_ok ?r"
        using ok fits small by (auto simp: buffer_ok_def word_le_nat_alt word_less_nat_alt)
      show "unat (pack_index r) + n \<le> unat (rep_size ?r)" using fits by simp
    qed
  next
    case False
    show ?thesis
    proof (rule that)
      show "allocate b True r = Inr (r\<lparr>rep_size := ?sz\<rparr>)" using False unfolding allocate_def Let_def by simp
      show "grown r (r\<lparr>rep_size := ?sz\<rparr>)" unfolding grown_def
        by (intro exI [of _ ?sz] exI [of _ "max_size r"] exI [of _ "m_bits r"]) simp
      show "buffer_ok (r\<lparr>rep_size := ?sz\<rparr>)"
        using ok False fits by (auto simp: buffer_ok_def word_le_nat_alt not_less)
      show "unat (pack_index r) + n \<le> unat (rep_size (r\<lparr>rep_size := ?sz\<rparr>))" using fits by simp
    qed
  qed
qed

lemma check_size_grown:
  assumes ok: "buffer_ok r" and n: "room r n" "0 < n" "unat b = n"
  obtains r' where "check_size b r = Inr r'" and "grown r r'" and "buffer_ok r'"
    and "unat (pack_index r) + n \<le> unat (rep_size r')"
proof (cases "rep_size r - pack_index r \<le>s b")
  case True
  then show ?thesis using allocate_grown [OF assms] that by (auto simp: check_size_def)
next
  case False
  note b = buffer_okD [OF ok]
  have small: "unat b < 2147483648" using n by (simp add: room_def)
  have cap: "unat (rep_size r - pack_index r) = unat (rep_size r) - unat (pack_index r)"
    using b by (simp add: unat_sub_if')
  have "sint b < sint (rep_size r - pack_index r)" using False by (simp add: word_sle_eq)
  moreover have "sint b = int (unat b)" "sint (rep_size r - pack_index r) = int (unat (rep_size r - pack_index r))"
    using small b cap by (simp_all add: sint_small)
  ultimately have "n < unat (rep_size r) - unat (pack_index r)" using cap n(3) by simp
  then show ?thesis using that [of r] False ok by (simp add: check_size_def grown_refl)
qed

section \<open>Copying into the buffer\<close>

lemma store_Inr:
  "at + length cs \<le> 4 * unat (max_size r) \<Longrightarrow> store at cs r =
     Inr (r\<lparr>m_bits := (\<lambda>i. if at \<le> i \<and> i < at + length cs then cs ! (i - at) else m_bits r i)\<rparr>)"
  by (simp add: store_def)

lemma store_store:
  "bind_res (store at xs r) (store (at + length xs) ys) =
     (if at + length xs + length ys \<le> 4 * unat (max_size r) then store at (xs @ ys) r else Inl Bad_Index)"
proof (cases "at + length xs \<le> 4 * unat (max_size r)")
  case True
  show ?thesis
    by (auto simp: store_def True fun_eq_iff nth_append add.assoc cong: if_cong intro!: arg_cong [of _ _ "\<lambda>m. r\<lparr>m_bits := m\<rparr>"])
qed (simp add: store_def)

lemma store_pack_index: "store at cs (r\<lparr>pack_index := n\<rparr>) = bind_res (store at cs r) (\<lambda>r. Inr (r\<lparr>pack_index := n\<rparr>))"
  by (simp add: store_def cong: if_cong)

text \<open>A block behind what was packed, of \<open>n\<close> words of which not all need be written.\<close>

lemma store_append:
  assumes ok: "buffer_ok r" and n: "unat (pack_index r) + n \<le> unat (rep_size r)" and len: "length bs \<le> 4 * n"
    and h: "holds r qs"
  obtains m where "store (4 * unat (pack_index r)) (map Some bs) r = Inr (r\<lparr>m_bits := m\<rparr>)"
    and "buffer_ok (r\<lparr>m_bits := m, pack_index := pack_index r + of_nat n\<rparr>)"
    and "unat (pack_index r + of_nat n) = unat (pack_index r) + n"
    and "holds (r\<lparr>m_bits := m, pack_index := pack_index r + of_nat n\<rparr>)
      (qs @ map Some bs @ replicate (4 * n - length bs) None)"
proof -
  note b = buffer_okD [OF ok]
  let ?at = "4 * unat (pack_index r)"
  let ?m = "\<lambda>i. if ?at \<le> i \<and> i < ?at + length (map Some bs) then map Some bs ! (i - ?at) else m_bits r i"
  let ?r = "r\<lparr>m_bits := ?m, pack_index := pack_index r + of_nat n\<rparr>"
  have "unat (of_nat n :: uint) = n" using n b by (simp add: unat_of_nat)
  then have p: "unat (pack_index r + of_nat n) = unat (pack_index r) + n"
    using n b by (simp add: unat_word_ariths)
  have "contents ?r = contents r @ map ?m [?at..<?at + 4 * n]"
    using b(1) upt_add_eq_append [of "4 * unat (unpack_index r)" ?at "4 * n"] by (simp add: contents_def p)
  moreover have "map ?m [?at..<?at + 4 * n] =
      map ?m [?at..<?at + length bs] @ map ?m [?at + length bs..<?at + 4 * n]"
    using len upt_add_eq_append [of ?at "?at + length bs" "4 * n - length bs"] by simp
  moreover have "map ?m [?at..<?at + length bs] = map Some bs"
    by (rule nth_equalityI) simp_all
  ultimately have c: "contents ?r = contents r @ map Some bs @ map ?m [?at + length bs..<?at + 4 * n]" by simp
  have "matches (map ?m [?at + length bs..<?at + 4 * n]) (replicate (4 * n - length bs) None)" by simp
  then have "holds ?r (qs @ map Some bs @ replicate (4 * n - length bs) None)"
    using h unfolding holds_def c by (intro matches_append) simp_all
  moreover have "buffer_ok ?r" using ok n b p by (auto simp: buffer_ok_def word_le_nat_alt)
  moreover have "store ?at (map Some bs) r = Inr (r\<lparr>m_bits := ?m\<rparr>)"
    using n len b by (intro store_Inr) simp
  ultimately show thesis using that p by blast
qed

lemma holds_grown:
  assumes "buffer_ok r" and "grown r r'"
  shows "holds r' qs \<longleftrightarrow> holds r qs"
proof -
  have "contents r' = contents r"
    using assms buffer_okD [OF assms(1)] by (auto simp: contents_def grown_simps)
  then show ?thesis by (simp add: holds_def)
qed

section \<open>The packer as an instance of the contract\<close>

definition good :: "sc_env \<Rightarrow> packer \<Rightarrow> bool" where
  "good env r \<longleftrightarrow> buffer_ok r \<and> m_use_metadata r \<and>
     (\<forall>nm i. name_id_dict r nm = Some i \<longrightarrow> i = type_id_of env nm) \<and>
     (\<forall>i nm. id_name_dict r i = Some nm \<longrightarrow> nm = type_name_of env i)"

definition used :: "packer \<Rightarrow> nat" where
  "used r = 4 * unat (pack_index r)"

definition fresh :: "sc_env \<Rightarrow> packer \<Rightarrow> bool" where
  "fresh env r \<longleftrightarrow> good env r \<and> pack_index r = 0 \<and> unpack_index r = 0"

definition drained :: "packer \<Rightarrow> bool" where
  "drained r \<longleftrightarrow> unpack_index r = pack_index r"

abbreviation packer_limit :: nat where "packer_limit \<equiv> 8589410304"

interpretation ml: packing "good env" used packer_limit holds "fresh env" drained for env
proof
  show "good env s \<and> used s = 0 \<and> holds s []" if "fresh env s" for s
    using that by (simp add: fresh_def used_def holds_def contents_def)
  show "drained s" if "good env s" "holds s []" for s
    using that by (auto simp: good_def drained_def holds_def contents_def buffer_ok_def word_le_nat_alt
        intro!: antisym)
qed

lemma good_frame:
  assumes "good env r" and "buffer_ok r'" and "m_use_metadata r' = m_use_metadata r"
    and "name_id_dict r' = name_id_dict r" and "id_name_dict r' = id_name_dict r"
  shows "good env r'"
  using assms by (simp add: good_def)

text \<open>Making room and copying a block.\<close>

lemma pack_block:
  assumes g: "good env r" and h: "holds r qs" and room: "used r + 4 * n \<le> packer_limit" "0 < n" "length bs \<le> 4 * n"
  obtains r1 m where "check_size (of_nat n) r = Inr r1" and "pack_index r1 = pack_index r"
    and "store (4 * unat (pack_index r)) (map Some bs) r1 = Inr (r1\<lparr>m_bits := m\<rparr>)"
    and "unat (pack_index r + of_nat n) = unat (pack_index r) + n"
    and "good env (r1\<lparr>m_bits := m, pack_index := pack_index r + of_nat n\<rparr>)"
    and "holds (r1\<lparr>m_bits := m, pack_index := pack_index r + of_nat n\<rparr>)
      (qs @ map Some bs @ replicate (4 * n - length bs) None)"
proof -
  have ok: "buffer_ok r" using g by (simp add: good_def)
  have rm: "room r n" using room by (simp add: room_def used_def)
  have "unat (of_nat n :: uint) = n" using rm by (simp add: room_def unat_of_nat)
  then obtain r1 where r1: "check_size (of_nat n) r = Inr r1" "grown r r1" "buffer_ok r1"
      "unat (pack_index r) + n \<le> unat (rep_size r1)"
    using check_size_grown [OF ok rm room(2)] by blast
  have p: "pack_index r1 = pack_index r" using r1(2) by (simp add: grown_simps)
  have "holds r1 qs" using h holds_grown [OF ok r1(2)] by simp
  then obtain m where m: "store (4 * unat (pack_index r1)) (map Some bs) r1 = Inr (r1\<lparr>m_bits := m\<rparr>)"
      "buffer_ok (r1\<lparr>m_bits := m, pack_index := pack_index r1 + of_nat n\<rparr>)"
      "unat (pack_index r1 + of_nat n) = unat (pack_index r1) + n"
      "holds (r1\<lparr>m_bits := m, pack_index := pack_index r1 + of_nat n\<rparr>)
        (qs @ map Some bs @ replicate (4 * n - length bs) None)"
    using store_append [OF r1(3) _ room(3), of qs] r1(4) p by metis
  have "good env (r1\<lparr>m_bits := m, pack_index := pack_index r + of_nat n\<rparr>)"
    by (rule good_frame [OF g]) (use m(2) p r1(2) in \<open>simp_all add: grown_simps\<close>)
  then show thesis using that r1(1) m p by metis
qed

section \<open>Packing the scalars\<close>

lemma packs_unsigned:
  assumes "length bs = 4 * n" and "0 < n"
  shows "ml.packs env (pack_unsigned bs) (map Some bs)"
  unfolding ml.packs_def
proof (intro allI impI, elim conjE)
  fix r qs assume r: "good env r" "used r + length (map Some bs) \<le> packer_limit" "holds r qs"
  have w: "words_for (4 * n) = n" using assms by (simp add: words_for_def)
  show "\<exists>r'. pack_unsigned bs r = Some (Inr (Inr (), r')) \<and> good env r' \<and>
      used r' = used r + length (map Some bs) \<and> holds r' (qs @ map Some bs)"
    by (rule pack_block [OF r(1,3), of n bs])
      (use r(2) assms in \<open>auto simp: pack_unsigned_def pk_do_def w used_def Let_def\<close>)
qed

lemma packs_word: "ml.packs env (pack_unsigned (bytes_le (w :: uint))) (map Some (bytes_le w))"
  by (rule packs_unsigned [of _ 1]) simp_all

lemma packs_long: "ml.packs env (pack_unsigned (bytes_le (w :: ulong))) (map Some (bytes_le w))"
  by (rule packs_unsigned [of _ 2]) simp_all

section \<open>Packing strings and vectors\<close>

lemma store_bytes:
  assumes "4 * unat (pack_index r) + length xs + length ys \<le> 4 * unat (max_size r)"
    and "unat (pack_index r + of_nat k) = unat (pack_index r) + k" and "length xs = 4 * k"
  shows "bind_res (bind_res (store (4 * unat (pack_index r)) (map Some xs) r)
            (\<lambda>r. Inr (r\<lparr>pack_index := pack_index r + of_nat k\<rparr>))) (pack_slot ys) =
         bind_res (store (4 * unat (pack_index r)) (map Some (xs @ ys)) r)
            (\<lambda>r. Inr (r\<lparr>pack_index := pack_index r + of_nat (Suc k)\<rparr>))"
proof -
  let ?at = "4 * unat (pack_index r)"
  have "(\<lambda>i. if ?at + 4 * k \<le> i \<and> i < ?at + 4 * k + length ys then map Some ys ! (i - (?at + 4 * k))
             else if ?at \<le> i \<and> i < ?at + 4 * k then map Some xs ! (i - ?at) else m_bits r i) =
        (\<lambda>i. if ?at \<le> i \<and> i < ?at + 4 * k + length ys then map Some (xs @ ys) ! (i - ?at) else m_bits r i)"
    using assms(3) by (auto simp: fun_eq_iff nth_append diff_diff_left)
  then show ?thesis using assms
    by (simp add: pack_slot_def store_Inr add.assoc add.commute [of 1] cong: if_cong)
qed

lemma fold_res_single: "fold_res f [x] = f x"
proof
  fix s
  have "fold_res f [] = Inr" by (rule ext) simp
  then show "fold_res f [x] s = f x s" by simp
qed

lemma unat_add_of_nat:
  "unat (a :: uint) + k < 4294967296 \<Longrightarrow> unat (a + of_nat k) = unat a + k"
  by (simp add: unat_word_ariths unat_of_nat)

lemma fold_slots:
  assumes "4 * k \<le> length c" and "unat (pack_index r) + k \<le> unat (max_size r)"
  shows "fold_res (\<lambda>i. pack_slot (take 4 (drop (4 * i) c))) [0..<k] r =
    bind_res (store (4 * unat (pack_index r)) (map Some (take (4 * k) c)) r)
      (\<lambda>r. Inr (r\<lparr>pack_index := pack_index r + of_nat k\<rparr>))"
  using assms(1,2)
proof (induction k)
  case 0
  have "(\<lambda>i. if at \<le> i \<and> i < at then x i else m_bits r i) = m_bits r" for at :: nat and x by (auto simp: fun_eq_iff)
  then show ?case using 0 by (simp add: store_Inr)
next
  case (Suc k)
  have xs: "length (take (4 * k) c) = 4 * k" and ys: "length (take 4 (drop (4 * k) c)) = 4"
    using Suc.prems by simp_all
  have app: "take (4 * k) c @ take 4 (drop (4 * k) c) = take (4 * Suc k) c"
    using take_add [of "4 * k" 4 c] by (simp add: add.commute [of 4])
  have "unat (max_size r) < 4294967296" using unsigned_less [of "max_size r"] by simp
  then have k: "unat (pack_index r + of_nat k) = unat (pack_index r) + k"
    using Suc.prems by (intro unat_add_of_nat) simp
  have "fold_res (\<lambda>i. pack_slot (take 4 (drop (4 * i) c))) [0..<Suc k] r =
    bind_res (bind_res (store (4 * unat (pack_index r)) (map Some (take (4 * k) c)) r)
      (\<lambda>r. Inr (r\<lparr>pack_index := pack_index r + of_nat k\<rparr>))) (pack_slot (take 4 (drop (4 * k) c)))"
    using Suc by (simp add: fold_res_append fold_res_single)
  also have "\<dots> = bind_res (store (4 * unat (pack_index r)) (map Some (take (4 * Suc k) c)) r)
      (\<lambda>r. Inr (r\<lparr>pack_index := pack_index r + of_nat (Suc k)\<rparr>))"
    unfolding app [symmetric] by (rule store_bytes) (use xs ys k Suc.prems in simp_all)
  finally show ?case .
qed

text \<open>A string with its null character, padded to whole words.\<close>

definition string_cells :: "string \<Rightarrow> cell list" where
  "string_cells a = map Some (char_bytes a @ [0]) @ replicate (4 * (length a div 4 + 1) - (length a + 1)) None"

lemma length_char_bytes [simp]: "length (char_bytes a) = length a"
  by (simp add: char_bytes_def)

lemma packs_string:
  assumes len: "length a < 2147483647"
  shows "ml.packs env (pack_string a) (string_cells a)"
  unfolding ml.packs_def
proof (intro allI impI, elim conjE)
  fix r qs assume r: "good env r" "used r + length (string_cells a) \<le> packer_limit" "holds r qs"
  let ?n = "length a div 4 + 1" and ?k = "length a div 4" and ?c = "char_bytes a @ [0]"
  have lc: "length ?c = length a + 1" by simp
  have fits: "length a + 1 \<le> 4 * ?n" using whole_blocks [of "length a + 1" 4] by simp
  have lcells: "length (string_cells a) = 4 * ?n" using fits by (simp add: string_cells_def lc)
  obtain r1 m where r1: "check_size (of_nat ?n) r = Inr r1" "pack_index r1 = pack_index r"
    "store (4 * unat (pack_index r)) (map Some ?c) r1 = Inr (r1\<lparr>m_bits := m\<rparr>)"
    "unat (pack_index r + of_nat ?n) = unat (pack_index r) + ?n"
    "good env (r1\<lparr>m_bits := m, pack_index := pack_index r + of_nat ?n\<rparr>)"
    "holds (r1\<lparr>m_bits := m, pack_index := pack_index r + of_nat ?n\<rparr>)
      (qs @ map Some ?c @ replicate (4 * ?n - length ?c) None)"
    by (rule pack_block [OF r(1,3), of ?n ?c]) (use r(2) lcells fits lc in \<open>auto\<close>)
  have "buffer_ok (r1\<lparr>m_bits := m, pack_index := pack_index r + of_nat ?n\<rparr>)" using r1(5) by (simp add: good_def)
  from buffer_okD [OF this] have mx: "unat (pack_index r) + ?n \<le> unat (max_size r1)" "unat (max_size r1) < 2147483648"
    using r1(4) by simp_all
  have k: "unat (pack_index r + of_nat ?k) = unat (pack_index r) + ?k"
    by (rule unat_add_of_nat) (use mx in simp)
  have app: "take (4 * ?k) ?c @ take (length a + 1 - 4 * ?k) (drop (4 * ?k) ?c) = ?c"
    using take_add [of "4 * ?k" "length a + 1 - 4 * ?k" ?c] lc by simp
  have tk: "length (take (4 * ?k) ?c) = 4 * ?k" "length (drop (4 * ?k) ?c) = length a + 1 - 4 * ?k"
    using lc by simp_all
  have "bind_res (fold_res (\<lambda>i. pack_slot (take 4 (drop (4 * i) ?c))) [0..<?k] r1)
      (pack_slot (take (length a + 1 - 4 * ?k) (drop (4 * ?k) ?c))) =
    bind_res (bind_res (store (4 * unat (pack_index r1)) (map Some (take (4 * ?k) ?c)) r1)
      (\<lambda>r. Inr (r\<lparr>pack_index := pack_index r + of_nat ?k\<rparr>)))
      (pack_slot (take (length a + 1 - 4 * ?k) (drop (4 * ?k) ?c)))"
    by (subst fold_slots) (use mx lc r1(2) in simp_all)
  also have "\<dots> = bind_res (store (4 * unat (pack_index r1)) (map Some ?c) r1)
      (\<lambda>r. Inr (r\<lparr>pack_index := pack_index r + of_nat ?n\<rparr>))"
    using store_bytes [of r1 "take (4 * ?k) ?c" "take (length a + 1 - 4 * ?k) (drop (4 * ?k) ?c)" ?k]
      mx r1(2) k tk fits unfolding app by simp
  finally have "pack_string a r = Some (Inr (Inr (), r1\<lparr>m_bits := m, pack_index := pack_index r + of_nat ?n\<rparr>))"
    using len r1 by (simp add: pack_string_def pk_do_def Let_def mult.commute [of _ 4])
  then show "\<exists>r'. pack_string a r = Some (Inr (Inr (), r')) \<and> good env r' \<and>
      used r' = used r + length (string_cells a) \<and> holds r' (qs @ string_cells a)"
    using r1(4-6) lc by (auto simp: used_def lcells) (simp add: string_cells_def)
qed

text \<open>The words of a vector.\<close>

definition word_cells :: "uint list \<Rightarrow> cell list" where
  "word_cells ws = map Some (concat (map bytes_le ws))"

lemma length_concat_bytes [simp]: "length (concat (map bytes_le (ws :: uint list))) = 4 * length ws"
  by (induction ws) simp_all

lemma length_word_cells [simp]: "length (word_cells ws) = 4 * length ws"
  by (simp add: word_cells_def)

lemma fold_words:
  assumes "unat (pack_index r) + length ws \<le> unat (max_size r)" and "k \<le> length ws"
  shows "fold_res (\<lambda>i r. store (4 * unat (pack_index r + of_nat i)) (map Some (bytes_le (ws ! i))) r) [0..<k] r =
    store (4 * unat (pack_index r)) (word_cells (take k ws)) r"
  using assms(2)
proof (induction k)
  case 0
  have "(\<lambda>i. if at \<le> i \<and> i < at then x i else m_bits r i) = m_bits r" for at :: nat and x by (auto simp: fun_eq_iff)
  then show ?case using assms by (simp add: store_Inr word_cells_def)
next
  case (Suc k)
  let ?at = "4 * unat (pack_index r)"
  have tk: "word_cells (take (Suc k) ws) = word_cells (take k ws) @ map Some (bytes_le (ws ! k))"
    using Suc.prems by (simp add: take_Suc_conv_app_nth word_cells_def)
  have "unat (max_size r) < 4294967296" using unsigned_less [of "max_size r"] by simp
  then have k: "unat (pack_index r + of_nat k) = unat (pack_index r) + k"
    using Suc.prems assms by (intro unat_add_of_nat) simp
  have "fold_res (\<lambda>i r. store (4 * unat (pack_index r + of_nat i)) (map Some (bytes_le (ws ! i))) r) [0..<Suc k] r =
    bind_res (store ?at (word_cells (take k ws)) r)
      (\<lambda>r'. store (4 * unat (pack_index r' + of_nat k)) (map Some (bytes_le (ws ! k))) r')"
    using Suc by (simp add: fold_res_append fold_res_single)
  also have "\<dots> = bind_res (store ?at (word_cells (take k ws)) r)
      (store (?at + length (word_cells (take k ws))) (map Some (bytes_le (ws ! k))))"
    using Suc.prems assms by (simp add: store_Inr k min_def add_mult_distrib2)
  also have "\<dots> = store ?at (word_cells (take (Suc k) ws)) r"
    using store_store [of ?at "word_cells (take k ws)" r "map Some (bytes_le (ws ! k))"] Suc.prems assms
    by (simp add: tk min_def)
  finally show ?case .
qed

lemma packs_words:
  assumes "ws \<noteq> []"
  shows "ml.packs env (pack_words ws) (word_cells ws)"
  unfolding ml.packs_def
proof (intro allI impI, elim conjE)
  fix r qs assume r: "good env r" "used r + length (word_cells ws) \<le> packer_limit" "holds r qs"
  let ?n = "length ws" and ?c = "concat (map bytes_le ws)"
  obtain r1 m where r1: "check_size (of_nat ?n) r = Inr r1" "pack_index r1 = pack_index r"
    "store (4 * unat (pack_index r)) (map Some ?c) r1 = Inr (r1\<lparr>m_bits := m\<rparr>)"
    "unat (pack_index r + of_nat ?n) = unat (pack_index r) + ?n"
    "good env (r1\<lparr>m_bits := m, pack_index := pack_index r + of_nat ?n\<rparr>)"
    "holds (r1\<lparr>m_bits := m, pack_index := pack_index r + of_nat ?n\<rparr>) (qs @ map Some ?c @ replicate (4 * ?n - length ?c) None)"
    by (rule pack_block [OF r(1,3), of ?n ?c]) (use r(2) assms in auto)
  have "buffer_ok (r1\<lparr>m_bits := m, pack_index := pack_index r + of_nat ?n\<rparr>)" using r1(5) by (simp add: good_def)
  from buffer_okD [OF this] have mx: "unat (pack_index r1) + ?n \<le> unat (max_size r1)" using r1(2,4) by simp
  have "pack_words ws r = Some (Inr (Inr (), r1\<lparr>m_bits := m, pack_index := pack_index r + of_nat ?n\<rparr>))"
    using r1(1-3) fold_words [OF mx order_refl]
    by (simp add: pack_words_def pk_do_def word_cells_def)
  then show "\<exists>r'. pack_words ws r = Some (Inr (Inr (), r')) \<and> good env r' \<and>
      used r' = used r + length (word_cells ws) \<and> holds r' (qs @ word_cells ws)"
    using r1(4-6) by (auto simp: used_def word_cells_def)
qed

section \<open>Unpacking\<close>

lemma advance:
  assumes g: "good env r" and h: "holds r (ps @ qs)" and n: "length ps = 4 * n" "unat (k :: uint) = n"
  obtains r' where "inc_unpack_index k r = Some (Inr (Inr (), r'))" and "good env r'" and "holds r' qs"
proof -
  let ?r = "r\<lparr>unpack_index := unpack_index r + k\<rparr>" and ?at = "4 * unat (unpack_index r)"
  have ok: "buffer_ok r" using g by (simp add: good_def)
  note b = buffer_okD [OF ok]
  have len: "length ps + length qs = 4 * unat (pack_index r) - ?at"
    using h by (auto simp: holds_def contents_def dest: matches_length)
  then have le: "unat (unpack_index r) + n \<le> unat (pack_index r)" using n b(1) by linarith
  have kn: "of_nat n = k" using n(2) by auto
  have u: "unat (unpack_index r + k) = unat (unpack_index r) + n"
    using unat_add_of_nat [of "unpack_index r" n] le b kn by simp
  have "contents ?r = drop (length ps) (contents r)"
    by (simp add: contents_def u drop_map n add_mult_distrib2)
  then have "holds ?r qs" using h matches_appendD(2) by (simp add: holds_def)
  moreover have ok': "buffer_ok ?r" using ok le u by (auto simp: buffer_ok_def word_le_nat_alt)
  moreover have "good env ?r" by (rule good_frame [OF g ok']) simp_all
  moreover have "inc_unpack_index k r = Some (Inr (Inr (), ?r))"
    using ok' by (auto simp: inc_unpack_index_def pk_return_def buffer_ok_def Let_def)
  ultimately show thesis using that by blast
qed

end
