(* ===== verification/Sc_Unpacking.thy ===== *)
theory Sc_Unpacking
  imports Sc_Packing
begin

text \<open>
  The readers of the packer: each takes the cells that the operation for the same type packed off the
  front of the buffer and gives the value they are.
\<close>

section \<open>Reading cells\<close>

lemma matches_take_drop:
  assumes "matches cs (ps @ qs)" and "k + n \<le> length ps"
  shows "matches (take n (drop k cs)) (take n (drop k ps))"
proof -
  have "length (take k ps) = k" and "length (take n (drop k ps)) = n" using assms(2) by simp_all
  moreover have "matches cs (take k ps @ take n (drop k ps) @ drop n (drop k ps) @ qs)"
    using assms(1) by (metis append.assoc append_take_drop_id)
  ultimately show ?thesis using matches_appendD by metis
qed

lemma fetch_at:
  assumes g: "good env r" and h: "holds r (ps @ qs)" and n: "k + n \<le> length ps"
  obtains cs where "fetch (4 * unat (unpack_index r) + k) n r = Inr cs" and "matches cs (take n (drop k ps))"
proof -
  let ?at = "4 * unat (unpack_index r) + k"
  have ok: "buffer_ok r" using g by (simp add: good_def)
  note b = buffer_okD [OF ok]
  have len: "length ps + length qs = 4 * unat (pack_index r) - 4 * unat (unpack_index r)"
    using h by (auto simp: holds_def contents_def dest: matches_length)
  have le: "?at + n \<le> 4 * unat (pack_index r)" using len n b(1) by linarith
  then have "fetch ?at n r = Inr (map (m_bits r) [?at..<?at + n])"
    using b(2,3) by (simp add: fetch_def)
  moreover have "take n (drop k (contents r)) = map (m_bits r) [?at..<?at + n]"
    using le by (simp add: contents_def take_map drop_map)
  moreover have "matches (take n (drop k (contents r))) (take n (drop k ps))"
    by (rule matches_take_drop [OF h [unfolded holds_def] n])
  ultimately show thesis using that by metis
qed

lemma fetch_bytes:
  assumes "good env r" and "holds r (map Some bs @ qs)" and "length bs = n"
  shows "fetch (4 * unat (unpack_index r)) n r = Inr (map Some bs)"
  using fetch_at [OF assms(1,2), of 0 n] assms(3) by auto

lemma unpacks_unsigned:
  assumes "length bs = 4 * n" and "0 < n" and "n < 4294967296"
  shows "ml.unpacks env (unpack_unsigned (4 * n)) (map Some bs) bs"
  unfolding ml.unpacks_def
proof (intro allI impI, elim conjE)
  fix r qs assume r: "good env r" "holds r (map Some bs @ qs)"
  have w: "words_for (4 * n) = n" using assms by (simp add: words_for_def)
  have "unat (of_nat n :: uint) = n" using assms by (simp add: unat_of_nat)
  then obtain r' where "inc_unpack_index (of_nat n) r = Some (Inr (Inr (), r'))" "good env r'" "holds r' qs"
    using advance [OF r, of n "of_nat n"] assms(1) by (metis length_map)
  then show "\<exists>r'. unpack_unsigned (4 * n) r = Some (Inr (Inr bs, r')) \<and> good env r' \<and> holds r' qs"
    using fetch_bytes [OF r assms(1)] by (simp add: unpack_unsigned_def pk_bind_def pk_get_def w)
qed

lemma of_bytes_uint [simp]: "of_bytes (bytes_le w) = (w :: uint)"
  by (rule of_bytes_le) simp

lemma of_bytes_ulong [simp]: "of_bytes (bytes_le w) = (w :: ulong)"
  by (rule of_bytes_le) simp

lemma unpacks_int: "ml.unpacks env unpack_int (map Some (bytes_le w)) w"
proof -
  have "ml.unpacks env (unpack_unsigned 4) (map Some (bytes_le w)) (bytes_le w)"
    using unpacks_unsigned [of "bytes_le w" 1] by simp
  from ml.unpacks_map [OF this, of "of_bytes :: byte list \<Rightarrow> uint"] show ?thesis by (simp add: unpack_int_def)
qed

lemma unpacks_word: "ml.unpacks env unpack_word (map Some (bytes_le w)) w"
  unfolding ml.unpacks_def
proof (intro allI impI, elim conjE)
  fix r qs assume r: "good env r" "holds r (map Some (bytes_le w) @ qs)"
  obtain r' where "inc_unpack_index 1 r = Some (Inr (Inr (), r'))" "good env r'" "holds r' qs"
    using advance [OF r, of 1 1] by auto
  then show "\<exists>r'. unpack_word r = Some (Inr (Inr w, r')) \<and> good env r' \<and> holds r' qs"
    using fetch_bytes [OF r, of 4]
    by (simp add: unpack_word_def pk_bind_def pk_get_def pk_return_def)
qed

lemma fetch_word:
  assumes g: "good env r" and h: "holds r (word_cells ws @ qs)" and i: "i < length ws"
  shows "fetch (4 * unat (unpack_index r + of_nat i)) 4 r = Inr (map Some (bytes_le (ws ! i)))"
proof -
  have ok: "buffer_ok r" using g by (simp add: good_def)
  have "length (word_cells ws) + length qs = 4 * unat (pack_index r) - 4 * unat (unpack_index r)"
    using h by (auto simp: holds_def contents_def dest: matches_length)
  then have "unat (unpack_index r) + i < unat (pack_index r)"
    using i buffer_okD(1) [OF ok] by simp
  then have "unat (unpack_index r + of_nat i) = unat (unpack_index r) + i"
    by (intro unat_add_of_nat) (use buffer_okD [OF ok] in simp)
  moreover have "take 4 (drop (4 * i) (word_cells ws)) = map Some (bytes_le (ws ! i))"
  proof -
    have "word_cells (take i ws @ ws ! i # drop (Suc i) ws) =
        word_cells (take i ws) @ map Some (bytes_le (ws ! i)) @ word_cells (drop (Suc i) ws)"
      unfolding word_cells_def by simp
    then have "word_cells ws = word_cells (take i ws) @ map Some (bytes_le (ws ! i)) @ word_cells (drop (Suc i) ws)"
      using id_take_nth_drop [OF i] by metis
    then show ?thesis using i by (simp add: min_def)
  qed
  ultimately show ?thesis
    using fetch_at [OF g h, of "4 * i" 4] i by (auto simp: add_mult_distrib2)
qed

lemma unpacks_words:
  assumes "length ws = n" and "n < 4294967296"
  shows "ml.unpacks env (unpack_words n) (word_cells ws) ws"
  unfolding ml.unpacks_def
proof (intro allI impI, elim conjE)
  fix r qs assume r: "good env r" "holds r (word_cells ws @ qs)"
  have "unat (of_nat n :: uint) = n" using assms by (simp add: unat_of_nat)
  then obtain r' where "inc_unpack_index (of_nat n) r = Some (Inr (Inr (), r'))" "good env r'" "holds r' qs"
    using advance [OF r, of n "of_nat n"] assms(1) by (metis length_word_cells)
  moreover have "map_res (\<lambda>i. bind_res (bind_res (fetch (4 * unat (unpack_index r + of_nat i)) 4 r) read_cells)
      (\<lambda>bs. Inr (of_bytes bs))) [0..<n] = Inr (map (\<lambda>i. ws ! i) [0..<n])"
    by (rule map_res_ok) (use assms(1) in \<open>simp add: fetch_word [OF r]\<close>)
  ultimately show "\<exists>r'. unpack_words n r = Some (Inr (Inr ws, r')) \<and> good env r' \<and> holds r' qs"
    using map_nth [of ws] assms(1) by (simp add: unpack_words_def pk_bind_def pk_get_def pk_return_def)
qed

section \<open>Strings\<close>

lemma char_of_of_char [simp]: "char_of (unat (of_char c :: byte)) = c"
proof -
  have "(of_char c :: byte) = of_nat (of_char c)" by (simp add: of_nat_of_char)
  then have "unat (of_char c :: byte) = of_char c" by (simp only: unat_of_nat) simp
  then show ?thesis by simp
qed

lemma of_char_0_iff [simp]: "(of_char c :: byte) = 0 \<longleftrightarrow> c = CHR 0x00"
proof
  assume "(of_char c :: byte) = 0"
  then have "c = char_of (unat (0 :: byte))" using char_of_of_char [of c] by (simp only:)
  also have "\<dots> = CHR 0x00" by (simp add: char_of_def)
  finally show "c = CHR 0x00" .
qed simp

abbreviation no_nul :: "string \<Rightarrow> bool" where "no_nul x \<equiv> CHR 0x00 \<notin> set x"

lemma scan_slot_chars: "no_nul x \<Longrightarrow> scan_slot (map Some (char_bytes x)) = Inr (x, False)"
  by (induction x) (auto simp: char_bytes_def)

lemma scan_slot_end: "no_nul x \<Longrightarrow> scan_slot (map Some (char_bytes x @ [0]) @ cs) = Inr (x, True)"
  by (induction x) (auto simp: char_bytes_def)

lemma string_cells_drop:
  "4 \<le> length a \<Longrightarrow> string_cells a = map Some (char_bytes (take 4 a)) @ string_cells (drop 4 a)"
proof -
  assume a: "4 \<le> length a"
  then have d: "length a div 4 = (length a - 4) div 4 + 1" by (simp add: le_div_geq)
  have "char_bytes a = char_bytes (take 4 a) @ char_bytes (drop 4 a)"
    by (simp add: char_bytes_def flip: map_append)
  then show ?thesis using a by (simp add: string_cells_def d)
qed

lemma length_string_cells: "length (string_cells a) = 4 * (length a div 4 + 1)"
  using whole_blocks [of "length a + 1" 4] by (simp add: string_cells_def)

lemma unpacks_string:
  assumes "no_nul a" and "length a div 4 < n"
  shows "ml.unpacks env (unpack_string n) (string_cells a) a"
  using assms
proof (induction n arbitrary: a)
  case (Suc n)
  show ?case unfolding ml.unpacks_def
  proof (intro allI impI, elim conjE)
    fix r qs assume r: "good env r" "holds r (string_cells a @ qs)"
    show "\<exists>r'. unpack_string (Suc n) r = Some (Inr (Inr a, r')) \<and> good env r' \<and> holds r' qs"
    proof (cases "4 \<le> length a")
      case True
      let ?bs = "char_bytes (take 4 a)" and ?b = "drop 4 a"
      have r': "holds r (map Some ?bs @ string_cells ?b @ qs)" using r(2) string_cells_drop [OF True] by simp
      obtain s where s: "inc_unpack_index 1 r = Some (Inr (Inr (), s))" "good env s" "holds s (string_cells ?b @ qs)"
        by (rule advance [OF r(1) r', of 1 1]) (use True in simp_all)
      have "no_nul (take 4 a)" "no_nul ?b" using Suc.prems(1) by (auto dest: in_set_takeD in_set_dropD)
      moreover have "length ?b div 4 < n" using Suc.prems(2) True by (simp add: le_div_geq)
      ultimately obtain t where "unpack_string n s = Some (Inr (Inr ?b, t))" "good env t" "holds t qs"
        using ml.unpacksE [OF Suc.IH s(2,3)] by blast
      then show ?thesis
        using fetch_bytes [OF r(1) r', of 4] True s(1) scan_slot_chars [of "take 4 a"] \<open>no_nul (take 4 a)\<close>
        by (simp add: pk_bind_def pk_get_def pk_return_def)
    next
      case False
      then have z: "length a div 4 = 0" by simp
      have c4: "length (string_cells a) = 4" by (simp add: length_string_cells z)
      obtain cs where cs: "fetch (4 * unat (unpack_index r) + 0) 4 r = Inr cs" "matches cs (take 4 (drop 0 (string_cells a)))"
        by (rule fetch_at [OF r, of 0 4]) (use c4 in auto)
      then have "matches cs (string_cells a)" using c4 by simp
      then have "take (length a + 1) cs = map Some (char_bytes a @ [0])"
        using matches_SomeD [of cs "char_bytes a @ [0]"] by (simp add: string_cells_def)
      then have "cs = map Some (char_bytes a @ [0]) @ drop (length a + 1) cs"
        by (metis append_take_drop_id)
      then have "scan_slot cs = Inr (a, True)" using scan_slot_end [OF Suc.prems(1)] by metis
      moreover obtain s where "inc_unpack_index 1 r = Some (Inr (Inr (), s))" "good env s" "holds s qs"
        by (rule advance [OF r, of 1 1]) (use c4 in simp_all)
      ultimately show ?thesis
        using cs(1) by (simp add: pk_bind_def pk_get_def pk_return_def)
    qed
  qed
qed simp

end
