(* ===== verification/Sc_Codec.thy ===== *)
theory Sc_Codec
  imports Sc_Unpacking
begin

text \<open>
  The values the packer takes and the cells each of them becomes (\<open>encode\<close>): every operation of the
  packer appends these cells, and the operation for the same type reads the value back. \<open>fits\<close> says
  which values a reader can be expected to give back.
\<close>

section \<open>The cells of a value\<close>

abbreviation uint_cells :: "uint \<Rightarrow> cell list" where
  "uint_cells w \<equiv> map Some (bytes_le w)"

definition bits_cells :: "bool list \<Rightarrow> cell list" where
  "bits_cells a = uint_cells (of_nat (length a)) @ (if a = [] then [] else word_cells (bv_data (bv_of_bits a)))"

definition number_cells :: "nat \<Rightarrow> ulong \<Rightarrow> cell list" where
  "number_cells n w = (if sc_words n = 1 then uint_cells (ucast w) else map Some (bytes_le w))"

fun encode :: "sc_env \<Rightarrow> sc_value \<Rightarrow> cell list"
  and encodes :: "sc_env \<Rightarrow> sc_value list \<Rightarrow> cell list" where
  "encode env (V_bool a) = uint_cells (if a then 1 else 0)"
| "encode env (V_char a) = uint_cells (scast a)"
| "encode env (V_uchar a) = uint_cells (ucast a)"
| "encode env (V_short a) = uint_cells (scast a)"
| "encode env (V_ushort a) = uint_cells (ucast a)"
| "encode env (V_int a) = uint_cells a"
| "encode env (V_long a) = map Some (bytes_le a)"
| "encode env (V_string a) = string_cells a"
| "encode env (V_logic a) = uint_cells (if a = Log_1 then 1 else 0)"
| "encode env (V_bv a) = word_cells (bv_data a)"
| "encode env (V_lv a) = word_cells (lv_data a)"
| "encode env (V_sc_int a) = number_cells (si_len a) (si_val a)"
| "encode env (V_sc_uint a) = number_cells (su_len a) (su_val a)"
| "encode env (V_signed a) = word_cells (get_packed_rep a)"
| "encode env (V_unsigned a) = word_cells (get_packed_rep a)"
| "encode env (V_bits a) = bits_cells a"
| "encode env V_null = uint_cells 0"
| "encode env (V_object type_name vs) =
     uint_cells 1 @ uint_cells (type_id_of env (c_str type_name)) @ encodes env vs"
| "encodes env [] = []"
| "encodes env (v # vs) = encode env v @ encodes env vs"

text \<open>
  The values that are read back. A string has no null character (so has a type name), a vector of
  logic values has the control words of the one it is read into, and a number is one of its length.
\<close>

definition same_shape :: "sc_nbnum \<Rightarrow> sc_nbnum \<Rightarrow> bool" where
  "same_shape a b \<longleftrightarrow> nb_signed b = nb_signed a \<and> nb_bits b = nb_bits a \<and> length (nb_digit b) = length (nb_digit a)"

fun fits :: "sc_env \<Rightarrow> sc_value \<Rightarrow> kind \<Rightarrow> bool"
  and fit :: "sc_env \<Rightarrow> sc_value list \<Rightarrow> kind list \<Rightarrow> bool" where
  "fits env (V_bool a) k = (k = K_bool)"
| "fits env (V_char a) k = (k = K_char)"
| "fits env (V_uchar a) k = (k = K_uchar)"
| "fits env (V_short a) k = (k = K_short)"
| "fits env (V_ushort a) k = (k = K_ushort)"
| "fits env (V_int a) k = (k = K_int)"
| "fits env (V_long a) k = (k = K_long)"
| "fits env (V_string a) k = (k = K_string \<and> no_nul a \<and> length a < 2147483647)"
| "fits env (V_logic a) k = (k = K_logic \<and> (a = Log_0 \<or> a = Log_1))"
| "fits env (V_bv a) k =
     (k = K_bv (bv_len a) \<and> length (bv_data a) = sc_words (bv_len a) \<and> bv_len a < 2147483648)"
| "fits env (V_lv a) k =
     (case k of
        K_lv old \<Rightarrow> lv_len old = lv_len a \<and> lv_ctrl old = lv_ctrl a \<and> length (lv_data old) = length (lv_data a) \<and>
          length (lv_data a) = sc_words (lv_len a) \<and> lv_len a < 2147483648
      | _ \<Rightarrow> False)"
| "fits env (V_sc_int a) k = (k = K_sc_int (si_len a) \<and> 0 < si_len a \<and> si_len a \<le> 64 \<and> int_extend_sign a = a)"
| "fits env (V_sc_uint a) k = (k = K_sc_uint (su_len a) \<and> 0 < su_len a \<and> su_len a \<le> 64 \<and> uint_extend_sign a = a)"
| "fits env (V_signed a) k =
     (case k of K_signed old \<Rightarrow> same_shape a old \<and> nb_signed a \<and> nbnum_ok a \<and> nb_length a < 2147483648 | _ \<Rightarrow> False)"
| "fits env (V_unsigned a) k =
     (case k of K_unsigned old \<Rightarrow> same_shape a old \<and> \<not> nb_signed a \<and> nbnum_ok a \<and> nb_length a < 2147483648 | _ \<Rightarrow> False)"
| "fits env (V_bits a) k = (k = K_bits \<and> length a < 2147483648)"
| "fits env V_null k = (k = K_object)"
| "fits env (V_object type_name vs) k =
     (k = K_object \<and> c_str type_name = type_name \<and> type_name_of env (type_id_of env type_name) = type_name \<and>
      (case object_fields env type_name of None \<Rightarrow> False | Some ks \<Rightarrow> fit env vs ks))"
| "fit env [] ks = (ks = [])"
| "fit env (v # vs) ks = (case ks of [] \<Rightarrow> False | k # ks \<Rightarrow> fits env v k \<and> fit env vs ks)"

section \<open>Reading the state\<close>

lemma reads_metadata: "ml.reads env (pk_get (\<lambda>r. Inr (m_use_metadata r))) True"
  by (auto simp: ml.reads_def pk_get_def good_def)

lemma reads_type_id: "ml.reads env (uvm_get_type_id env nm) (type_id_of env (c_str nm))"
  unfolding ml.reads_def
proof (intro allI impI)
  fix r assume g: "good env r"
  show "\<exists>r'. uvm_get_type_id env nm r = Some (Inr (Inr (type_id_of env (c_str nm)), r')) \<and> good env r' \<and>
      used r' = used r \<and> (\<forall>qs. holds r' qs = holds r qs)"
  proof (cases "name_id_dict r (c_str nm)")
    case None
    have "good env (r\<lparr>name_id_dict := (name_id_dict r)(c_str nm \<mapsto> type_id_of env (c_str nm))\<rparr>)"
      using g by (auto simp: good_def buffer_ok_def)
    then show ?thesis using None
      by (simp add: uvm_get_type_id_def pk_return_def Let_def used_def holds_def contents_def)
  next
    case (Some i)
    then have "i = type_id_of env (c_str nm)" using g by (simp add: good_def)
    then show ?thesis using Some g by (simp add: uvm_get_type_id_def pk_return_def)
  qed
qed

lemma reads_type_name: "ml.reads env (uvm_get_type_name env i) (type_name_of env i)"
  unfolding ml.reads_def
proof (intro allI impI)
  fix r assume g: "good env r"
  show "\<exists>r'. uvm_get_type_name env i r = Some (Inr (Inr (type_name_of env i), r')) \<and> good env r' \<and>
      used r' = used r \<and> (\<forall>qs. holds r' qs = holds r qs)"
  proof (cases "id_name_dict r i")
    case None
    have "good env (r\<lparr>id_name_dict := (id_name_dict r)(i \<mapsto> type_name_of env i)\<rparr>)"
      using g by (auto simp: good_def buffer_ok_def)
    then show ?thesis using None
      by (simp add: uvm_get_type_name_def pk_return_def Let_def used_def holds_def contents_def)
  next
    case (Some nm)
    then have "nm = type_name_of env i" using g by (simp add: good_def)
    then show ?thesis using Some g by (simp add: uvm_get_type_name_def pk_return_def)
  qed
qed

section \<open>Packing a value\<close>

lemma sc_words_bounds: "0 < sc_words n" "n < 2147483648 \<Longrightarrow> sc_words n < 4294967296"
proof -
  show "0 < sc_words n" by (simp add: sc_words_def)
  assume n: "n < 2147483648"
  have "(n - 1) div 32 \<le> n - 1" by (rule div_le_dividend)
  then show "sc_words n < 4294967296" using n unfolding sc_words_def by linarith
qed

lemma length_bv_of_bits: "length (bv_data (bv_of_bits a)) = sc_words (length a)"
  by (simp add: bv_of_bits_def)

lemma sint_less_0: "n < 2147483648 \<Longrightarrow> \<not> (of_nat n :: uint) <s 0"
  using sint_small [of "of_nat n"] by (simp add: word_sless_alt unat_of_nat)

lemma packs_bits:
  assumes "length a < 2147483648"
  shows "ml.packs env (pack_bits a) (bits_cells a)"
proof (cases "a = []")
  case True
  then show ?thesis
    using ml.packs_bind [OF packs_word ml.packs_return, of env 0]
    by (simp add: pack_bits_def bits_cells_def)
next
  case False
  have nz: "(of_nat (length a) :: uint) \<noteq> 0"
    using False assms unat_of_nat [of "length a", where 'a = 32] by (auto simp: word_unat_eq_iff)
  have "bv_data (bv_of_bits a) \<noteq> []" using length_bv_of_bits [of a] sc_words_bounds(1) [of "length a"] by auto
  then show ?thesis
    using ml.packs_bind [OF packs_word packs_words, of "bv_data (bv_of_bits a)" env "of_nat (length a)"] False nz
      sint_less_0 [OF assms]
    by (simp add: pack_bits_def bits_cells_def pack_sc_bv_base_def Let_def)
qed

lemma words_nonempty: "length ws = sc_words n \<Longrightarrow> ws \<noteq> []"
  using sc_words_bounds(1) [of n] by auto

lemma packed_rep_nonempty: "get_packed_rep a \<noteq> []"
  using length_get_packed_rep [of a] by auto

lemma packs_values:
  "fits env v k \<Longrightarrow> ml.packs env (pack_value env v) (encode env v)"
  "fit env vs ks \<Longrightarrow> ml.packs env (pack_values env vs) (encodes env vs)"
proof (induction env v k and env vs ks rule: fits_fit.induct)
  case (18 env nm vs k)
  then obtain ks where ks: "object_fields env nm = Some ks" "fit env vs ks" and nm: "c_str nm = nm"
    by (auto split: option.splits)
  have fs: "ml.packs env (pack_values env vs) (encodes env vs)" using 18 ks by simp
  have "ml.packs env (pk_bind (uvm_get_type_id env nm) (\<lambda>i. pack_unsigned (bytes_le i)))
      (uint_cells (type_id_of env (c_str nm)))"
    by (rule ml.reads_packs [OF reads_type_id packs_word])
  then have "ml.packs env (pack_obj_header env nm) (uint_cells 1 @ uint_cells (type_id_of env (c_str nm)))"
    unfolding pack_obj_header_def pack_non_null_def by (rule ml.packs_bind [OF packs_word])
  from ml.packs_bind [OF this fs] show ?case
    by (simp add: pack_obj_def ml.reads_packs [OF reads_metadata])
next
  case (17 env k)
  then show ?case by (simp add: pack_obj_def ml.reads_packs [OF reads_metadata] pack_null_def packs_word)
next
  case (20 env v vs ks)
  then show ?case by (auto split: list.splits intro: ml.packs_bind)
qed (auto simp: packs_word packs_long packs_string packs_bits number_cells_def pack_sc_logic_def pack_sc_bv_base_def
    pack_sc_lv_base_def pack_sc_int_base_def pack_sc_uint_base_def packs_words words_nonempty packed_rep_nonempty
    pack_sc_signed_def pack_sc_unsigned_def ml.packs_return
    split: kind.splits)

section \<open>Unpacking a value\<close>

lemma cast_back [simp]:
  "(ucast (scast (a :: byte) :: uint) :: byte) = a" "(ucast (ucast (a :: byte) :: uint) :: byte) = a"
  "(ucast (scast (b :: 16 word) :: uint) :: 16 word) = b" "(ucast (ucast (b :: 16 word) :: uint) :: 16 word) = b"
  by (simp_all add: bit_eq_iff bit_simps)

text \<open>A number of at most 32 bits has lost nothing when it went through one word.\<close>

lemma extend_sign_low:
  assumes "n \<le> 32"
  shows "int_extend_sign \<lparr>si_len = n, si_val = ucast (ucast w :: uint)\<rparr> = int_extend_sign \<lparr>si_len = n, si_val = w\<rparr>"
    and "uint_extend_sign \<lparr>su_len = n, su_val = ucast (ucast w :: uint)\<rparr> = uint_extend_sign \<lparr>su_len = n, su_val = w\<rparr>"
proof -
  have "push_bit (64 - n) (ucast (ucast w :: uint) :: ulong) = push_bit (64 - n) w"
    by (rule bit_word_eqI) (use assms in \<open>auto simp: bit_simps\<close>)
  then show "int_extend_sign \<lparr>si_len = n, si_val = ucast (ucast w :: uint)\<rparr> = int_extend_sign \<lparr>si_len = n, si_val = w\<rparr>"
    by (simp add: int_extend_sign_def)
  have "(ucast (ucast w :: uint) :: ulong) AND drop_bit (64 - n) (NOT 0) = w AND drop_bit (64 - n) (NOT 0)"
    by (rule bit_word_eqI) (use assms in \<open>auto simp: bit_simps\<close>)
  then show "uint_extend_sign \<lparr>su_len = n, su_val = ucast (ucast w :: uint)\<rparr> = uint_extend_sign \<lparr>su_len = n, su_val = w\<rparr>"
    by (simp add: uint_extend_sign_def)
qed

lemma sc_words_1: "sc_words n = 1 \<longleftrightarrow> n \<le> 32"
  unfolding sc_words_def by auto

lemma sc_words_2: "32 < n \<Longrightarrow> n \<le> 64 \<Longrightarrow> sc_words n = 2"
proof -
  assume n: "32 < n" "n \<le> 64"
  have "(n - 1) div 32 = 1" by (rule div_nat_eqI) (use n in simp_all)
  then show ?thesis by (simp add: sc_words_def)
qed

lemma unpacks_long:
  "ml.unpacks env (pk_bind (pk_get (\<lambda>r. bind_res (fetch (4 * unat (unpack_index r)) 8 r) read_cells))
     (\<lambda>bs. pk_bind (inc_unpack_index 2) (\<lambda>_. pk_return (f bs)))) (map Some (bytes_le (w :: ulong))) (f (bytes_le w))"
  unfolding ml.unpacks_def
proof (intro allI impI, elim conjE)
  fix r qs assume r: "good env r" "holds r (map Some (bytes_le w) @ qs)"
  obtain r' where "inc_unpack_index 2 r = Some (Inr (Inr (), r'))" "good env r'" "holds r' qs"
    using advance [OF r, of 2 2] by auto
  then show "\<exists>r'. pk_bind (pk_get (\<lambda>r. bind_res (fetch (4 * unat (unpack_index r)) 8 r) read_cells))
     (\<lambda>bs. pk_bind (inc_unpack_index 2) (\<lambda>_. pk_return (f bs))) r = Some (Inr (Inr (f (bytes_le w)), r')) \<and>
     good env r' \<and> holds r' qs"
    using fetch_bytes [OF r, of 8] by (simp add: pk_bind_def pk_get_def pk_return_def)
qed

lemma unpacks_sc_int:
  assumes "0 < si_len a" "si_len a \<le> 64" "int_extend_sign a = a"
  shows "ml.unpacks env (unpack_sc_int_base (si_len a)) (number_cells (si_len a) (si_val a)) a"
proof (cases "si_len a \<le> 32")
  case True
  have "int_extend_sign \<lparr>si_len = si_len a, si_val = ucast (ucast (si_val a) :: uint)\<rparr> = a"
    using extend_sign_low(1) [OF True, of "si_val a"] assms(3) by (cases a) simp
  then show ?thesis
    using ml.unpacks_map [OF unpacks_word, of env "\<lambda>w. int_extend_sign \<lparr>si_len = si_len a, si_val = ucast w\<rparr>" "ucast (si_val a)"]
      sc_words_1 [of "si_len a"] True
    by (simp add: unpack_sc_int_base_def number_cells_def)
next
  case False
  have "int_extend_sign \<lparr>si_len = si_len a, si_val = si_val a\<rparr> = a" using assms(3) by (cases a) simp
  then show ?thesis
    using False unpacks_long [of env "\<lambda>bs. int_extend_sign \<lparr>si_len = si_len a, si_val = of_bytes bs\<rparr>" "si_val a"]
      sc_words_2 [of "si_len a"] assms
    by (simp add: unpack_sc_int_base_def number_cells_def)
qed

lemma unpacks_sc_uint:
  assumes "0 < su_len a" "su_len a \<le> 64" "uint_extend_sign a = a"
  shows "ml.unpacks env (unpack_sc_uint_base (su_len a)) (number_cells (su_len a) (su_val a)) a"
proof (cases "su_len a \<le> 32")
  case True
  have "uint_extend_sign \<lparr>su_len = su_len a, su_val = ucast (ucast (su_val a) :: uint)\<rparr> = a"
    using extend_sign_low(2) [OF True, of "su_val a"] assms(3) by (cases a) simp
  then show ?thesis
    using ml.unpacks_map [OF unpacks_word, of env "\<lambda>w. uint_extend_sign \<lparr>su_len = su_len a, su_val = ucast w\<rparr>" "ucast (su_val a)"]
      sc_words_1 [of "su_len a"] True
    by (simp add: unpack_sc_uint_base_def number_cells_def)
next
  case False
  have "uint_extend_sign \<lparr>su_len = su_len a, su_val = su_val a\<rparr> = a" using assms(3) by (cases a) simp
  then show ?thesis
    using False unpacks_long [of env "\<lambda>bs. uint_extend_sign \<lparr>su_len = su_len a, su_val = of_bytes bs\<rparr>" "su_val a"]
      sc_words_2 [of "su_len a"] assms
    by (simp add: unpack_sc_uint_base_def number_cells_def)
qed

text \<open>The bits of a vector made of a list of bits.\<close>

lemma bits_of_bv: "map (\<lambda>i. bit (bv_data (bv_of_bits a) ! (i div 32)) (i mod 32)) [0..<length a] = a"
proof (rule nth_equalityI)
  fix i assume "i < length (map (\<lambda>i. bit (bv_data (bv_of_bits a) ! (i div 32)) (i mod 32)) [0..<length a])"
  then have i: "i < length a" by simp
  have "length a \<le> 32 * sc_words (length a)" using whole_blocks [of "length a" 32] i unfolding sc_words_def by simp
  then show "map (\<lambda>i. bit (bv_data (bv_of_bits a) ! (i div 32)) (i mod 32)) [0..<length a] ! i = a ! i"
    using i by (simp add: bv_of_bits_def bit_fold_put_bit)
qed simp

lemma unpacks_sc_bv:
  assumes "length (bv_data a) = sc_words (bv_len a)" and "bv_len a < 2147483648"
  shows "ml.unpacks env (unpack_sc_bv_base (bv_len a)) (word_cells (bv_data a)) a"
  using ml.unpacks_map [OF unpacks_words [OF assms(1) sc_words_bounds(2) [OF assms(2)]],
      of env "\<lambda>ws. \<lparr>bv_len = bv_len a, bv_data = ws\<rparr>"]
  by (cases a) (simp add: unpack_sc_bv_base_def)

lemma unpacks_nbnum:
  assumes "same_shape a old" and "nbnum_ok a" and "nb_length a < 2147483648"
  shows "ml.unpacks env (pk_bind (unpack_words (sc_words (nb_length old))) (\<lambda>ws. pk_return (set_packed_rep ws old)))
    (word_cells (get_packed_rep a)) a"
proof -
  have old: "nb_length old = nb_length a" using assms(1) by (simp add: same_shape_def nb_length_def)
  have "set_packed_rep (get_packed_rep a) old = a"
    using set_packed_rep_over [of old a] packed_rep_round_trip [OF assms(2)] assms(1) by (simp add: same_shape_def)
  moreover have "length (get_packed_rep a) = sc_words (nb_length a)" by (simp add: length_get_packed_rep sc_words_def)
  ultimately show ?thesis unfolding old
    using ml.unpacks_map [OF unpacks_words [OF _ sc_words_bounds(2) [OF assms(3)]], of "get_packed_rep a" env
      "\<lambda>ws. set_packed_rep ws old"] by simp
qed

lemma unpacks_sc_logic:
  "ml.unpacks env unpack_sc_logic (uint_cells 0) Log_0" "ml.unpacks env unpack_sc_logic (uint_cells 1) Log_1"
  using ml.unpacks_map [OF unpacks_word, of env "\<lambda>a. if a = 1 then Log_1 else Log_0" 0]
    ml.unpacks_map [OF unpacks_word, of env "\<lambda>a. if a = 1 then Log_1 else Log_0" 1]
  by (simp_all add: unpack_sc_logic_def)

lemma unpacks_bits:
  assumes "length a < 2147483648"
  shows "ml.unpacks env unpack_bits (bits_cells a) a"
proof (cases "a = []")
  case True
  have "ml.unpacks env unpack_bits (uint_cells 0 @ []) a"
    unfolding unpack_bits_def by (rule ml.unpacks_bind [OF unpacks_int]) (simp add: True ml.unpacks_return)
  then show ?thesis by (simp add: True bits_cells_def)
next
  case False
  have u: "unat (of_nat (length a) :: uint) = length a" using assms by (simp add: unat_of_nat)
  have nz: "(of_nat (length a) :: uint) \<noteq> 0" using False u by (auto simp: word_unat_eq_iff)
  have bl: "bv_len (bv_of_bits a) = length a" by (simp add: bv_of_bits_def)
  have "ml.unpacks env (unpack_sc_bv_base (length a)) (word_cells (bv_data (bv_of_bits a))) (bv_of_bits a)"
    using unpacks_sc_bv [of "bv_of_bits a"] assms length_bv_of_bits [of a] bl by simp
  from ml.unpacks_map [OF this, of "\<lambda>bv. map (\<lambda>i. bit (bv_data bv ! (i div 32)) (i mod 32)) [0..<length a]"]
  have "ml.unpacks env (pk_bind (unpack_sc_bv_base (length a))
      (\<lambda>bv. pk_return (map (\<lambda>i. bit (bv_data bv ! (i div 32)) (i mod 32)) [0..<length a])))
      (word_cells (bv_data (bv_of_bits a))) a" unfolding bits_of_bv .
  note body = this
  have "ml.unpacks env unpack_bits (uint_cells (of_nat (length a)) @ word_cells (bv_data (bv_of_bits a))) a"
    unfolding unpack_bits_def
    by (rule ml.unpacks_bind [OF unpacks_int]) (simp only: nz sint_less_0 [OF assms] u if_False body)
  then show ?thesis by (simp add: bits_cells_def False)
qed

lemma unpacks_sc_lv:
  assumes "length (lv_data old) = length (lv_data a)" and "length (lv_data a) = sc_words (lv_len a)"
    and "lv_len a < 2147483648" and "lv_len old = lv_len a" and "lv_ctrl old = lv_ctrl a"
  shows "ml.unpacks env (unpack_sc_lv_base old) (word_cells (lv_data a)) a"
proof -
  have "old\<lparr>lv_data := lv_data a\<rparr> = a" using assms by (cases a, cases old) simp
  then show ?thesis
    using ml.unpacks_map [OF unpacks_words [OF assms(2) sc_words_bounds(2) [OF assms(3)]],
        of env "\<lambda>ws. old\<lparr>lv_data := ws\<rparr>"] assms(1,2)
    by (simp add: unpack_sc_lv_base_def)
qed

lemma div_less_length_string_cells: "length (string_cells a) \<le> n \<Longrightarrow> length a div 4 < n"
  by (simp add: length_string_cells)

lemma unpacks_non_null: "ml.unpacks env unpack_non_null (uint_cells w) (w \<noteq> 0)"
  using ml.unpacks_map [OF unpacks_int, of env "\<lambda>a. a \<noteq> 0" w] by (simp add: unpack_non_null_def)

lemma unpacks_eight: "ml.unpacks env (unpack_unsigned 8) (map Some (bytes_le (w :: ulong))) (bytes_le w)"
  using unpacks_unsigned [of "bytes_le w" 2] by simp

lemma unpacks_mapI:
  "ml.unpacks env m ps x \<Longrightarrow> f x = y \<Longrightarrow> ml.unpacks env (pk_bind m (\<lambda>x. pk_return (f x))) ps y"
  using ml.unpacks_map by metis

lemmas unpacks_scalar = unpacks_sc_logic [THEN unpacks_mapI]
  unpacks_int [THEN unpacks_mapI] unpacks_word [THEN unpacks_mapI] unpacks_eight [THEN unpacks_mapI]
  unpacks_bits [THEN unpacks_mapI] unpacks_sc_bv [THEN unpacks_mapI] unpacks_sc_int [THEN unpacks_mapI]
  unpacks_sc_uint [THEN unpacks_mapI] unpacks_nbnum [folded unpack_sc_signed_def, THEN unpacks_mapI]
  unpacks_nbnum [folded unpack_sc_unsigned_def, THEN unpacks_mapI]

text \<open>As much fuel as there are cells is enough.\<close>

lemma unpacks_values:
  "fits env v k \<Longrightarrow> length (encode env v) \<le> n \<Longrightarrow> ml.unpacks env (unpack_value env n k) (encode env v) v"
  "fit env vs ks \<Longrightarrow> length (encodes env vs) \<le> n \<Longrightarrow> ml.unpacks env (unpack_values env n ks) (encodes env vs) vs"
proof (induction env v k and env vs ks arbitrary: n and n rule: fits_fit.induct)
  case (8 env a k)
  then have "k = K_string" "no_nul a" "length a div 4 < n" by (auto intro: div_less_length_string_cells)
  then show ?case using ml.unpacks_map [OF unpacks_string [of a n], of env V_string] by simp
next
  case (11 env a k)
  then show ?case by (auto split: kind.splits intro!: ml.unpacks_map [OF unpacks_sc_lv])
next
  case (14 env a k)
  then show ?case by (auto split: kind.splits intro!: unpacks_scalar)
next
  case (15 env a k)
  then show ?case by (auto split: kind.splits intro!: unpacks_scalar)
next
  case (17 env k)
  obtain n' where n: "n = Suc n'" using 17 by (cases n) auto
  have k: "k = K_object" using 17 by simp
  have "ml.unpacks env (pk_bind unpack_non_null (\<lambda>b. if \<not> b then pk_return V_null else f)) (uint_cells 0 @ []) V_null" for f
    by (rule ml.unpacks_bind [OF unpacks_non_null]) (simp add: ml.unpacks_return)
  then show ?case unfolding k n unpack_value.simps unpack_obj_def encode.simps
    by (intro ml.reads_unpacks [OF reads_metadata]) simp
next
  case (18 env nm vs k)
  then obtain ks where ks: "object_fields env nm = Some ks" "fit env vs ks" and nm: "c_str nm = nm"
    "type_name_of env (type_id_of env nm) = nm" and k: "k = K_object"
    by (auto split: option.splits)
  obtain n' where n: "n = Suc n'" "length (encodes env vs) \<le> n'" using 18 by (cases n) auto
  have vs: "ml.unpacks env (pk_bind (unpack_values env n' ks) (\<lambda>vs. pk_return (V_object nm vs))) (encodes env vs) (V_object nm vs)"
    by (rule ml.unpacks_map [OF "18.IH" [OF ks n(2)]])
  show ?case unfolding k n(1) unpack_value.simps unpack_obj_def encode.simps
  proof (rule ml.reads_unpacks [OF reads_metadata], simp only: not_True_eq_False if_False,
      rule ml.unpacks_bind [OF unpacks_non_null])
    show "ml.unpacks env (if \<not> 1 \<noteq> (0 :: uint) then pk_return V_null
        else pk_bind unpack_int (\<lambda>i. pk_bind (uvm_get_type_name env i) (\<lambda>s.
          case object_fields env s of
            None \<Rightarrow> pk_throw UVM_PACKER_UNPACK_OBJECT
          | Some ks \<Rightarrow> pk_bind (unpack_values env n' ks) (\<lambda>vs. pk_return (V_object s vs)))))
        (uint_cells (type_id_of env (c_str nm)) @ encodes env vs) (V_object nm vs)"
      by (simp, rule ml.unpacks_bind [OF unpacks_int], rule ml.reads_unpacks [OF reads_type_name])
        (use vs ks nm in simp)
  qed
next
  case (20 env v vs ks)
  then show ?case
    by (auto split: list.splits intro!: ml.unpacks_bind ml.unpacks_map)
qed (auto intro!: unpacks_scalar simp: ml.unpacks_return)

end
