(* ===== verification/Sc_Transport.thy ===== *)
theory Sc_Transport
  imports Sc_Codec
begin

text \<open>
  A packed value on its way: from the packer of one framework into a packed object, through a stream
  into a packed object of the other side, and into the packer there.
\<close>

section \<open>Sizes\<close>

lemma sc_words_nonzero [simp]: "sc_words n \<noteq> 0"
  using sc_words_bounds(1) [of n] by simp

lemma bytes_le_nonempty [simp]: "bytes_le (w :: uint) \<noteq> []" "bytes_le (x :: ulong) \<noteq> []"
  using length_bytes_le [of w] length_bytes_le [of x] by (auto simp del: length_bytes_le)

lemma encode_words:
  "fits env v k \<Longrightarrow> 4 dvd length (encode env v) \<and> 0 < length (encode env v)"
  "fit env vs ks \<Longrightarrow> 4 dvd length (encodes env vs)"
proof (induction env v k and env vs ks rule: fits_fit.induct)
  case (20 env v vs ks)
  then show ?case by (auto split: list.splits intro: dvd_add)
qed (auto simp: length_string_cells number_cells_def bits_cells_def length_bv_of_bits sc_words_bounds(1)
    packed_rep_nonempty
    split: kind.splits option.splits intro: dvd_add)

lemma nwords_of_nat:
  assumes "0 < n" and "n \<le> 67104768"
  shows "nwords_of (of_nat (32 * n)) = n"
proof -
  have u: "unat (of_nat (32 * n) :: uint) = 32 * n" by (rule unat_of_nat [THEN trans]) (use assms in simp)
  then have "unat (of_nat (32 * n) - 1 :: uint) = 32 * n - 1"
    using assms by (simp only: unat_sub_if' unat_1) (auto simp: word_le_nat_alt u)
  then have d: "unat ((of_nat (32 * n) - 1 :: uint) div 32) = n - 1"
    using assms by (simp add: unat_div)
  have "(32 * n - 1) div 32 = n - 1" by (rule div_nat_eqI) (use assms in auto)
  then show ?thesis unfolding nwords_of_def using assms d by (simp add: unat_word_ariths)
qed

lemma round_bits_up:
  assumes "0 < n" and "n \<le> 2147352576"
  shows "round_bits (int n) = int (((n - 1) div 131072 + 1) * 131072)"
proof -
  have u: "unat (of_nat n :: uint) = n" using assms by (simp add: unat_of_nat)
  have b: "unat (((0 + of_nat n - 1) div packing_block + 1) * packing_block :: uint) = ((0 + n - 1) div 131072 + 1) * 131072"
    using blocks [of 0 n "of_nat n"] assms u by simp
  have "(n - 1) div 131072 \<le> 16382" using assms by (simp add: div_le_mono [of _ "2147352575", THEN le_trans])
  then have "((n - 1) div 131072 + 1) * 131072 < 2147483648" by simp
  then have "sint (((0 + of_nat n - 1) div packing_block + 1) * packing_block :: uint) = int (((n - 1) div 131072 + 1) * 131072)"
    using b by (simp add: sint_small)
  moreover have "(word_of_int (int n - 1) :: uint) = 0 + of_nat n - 1" by (simp add: wi_hom_syms)
  ultimately show ?thesis unfolding round_bits_def by (simp only:)
qed

lemma words_of_bits_up:
  assumes "0 < n" and "n \<le> 2147352576"
  obtains w where "words_of_bits (round_bits (int n)) = Inr (int w)" and "n \<le> 32 * w" and "w < 67108864"
proof -
  let ?b = "(n - 1) div 131072 + 1"
  have "n \<le> ?b * 131072" by (rule whole_blocks) (use assms in simp_all)
  moreover have "?b \<le> 16383" using assms by (simp add: div_le_mono [of _ "2147352575", THEN le_trans])
  moreover have "(int (?b * 131072) - 1) div 32 = int (?b * 4096 - 1)"
    by (rule int_div_pos_eq [of _ _ _ 31]) (auto simp: algebra_simps)
  ultimately show thesis
    by (intro that [of "?b * 4096"]) (simp_all add: round_bits_up [OF assms] words_of_bits_def)
qed

section \<open>Packed objects\<close>

text \<open>A packed object that carries the cells of a value.\<close>

definition carries :: "packed_obj \<Rightarrow> cell list \<Rightarrow> bool" where
  "carries v ps \<longleftrightarrow> po_size v = of_nat (8 * length ps) \<and> length ps \<le> 4 * unat (po_max_words v) \<and>
     matches (map (po_val v) [0..<length ps]) ps"

lemma fresh_reset: "good env r \<Longrightarrow> fresh env (reset r)"
  by (auto simp: fresh_def good_def reset_def buffer_ok_def)

lemma po_allocate_enough:
  "unat k \<le> unat (po_max_words (po_allocate k v))" "po_size (po_allocate k v) = po_size v"
  by (auto simp: po_allocate_def word_le_nat_alt)

text \<open>A packer that has been fresh and has packed \<open>ps\<close>.\<close>

lemma packed_index:
  assumes "good env r" and "holds r ps" and "used r = length ps" and "length ps = 4 * n" and "0 < n"
  shows "unpack_index r = 0" and "unat (pack_index r) = n" and "contents r = map (m_bits r) [0..<4 * n]"
proof -
  have len: "4 * unat (pack_index r) - 4 * unat (unpack_index r) = 4 * n"
    using assms(2,4) by (auto simp: holds_def contents_def dest: matches_length)
  show u: "unat (pack_index r) = n" using assms(3,4) by (simp add: used_def)
  then have "unat (unpack_index r) = 0" using len assms(5) by linarith
  then show i: "unpack_index r = 0" by (simp add: unat_eq_0)
  show "contents r = map (m_bits r) [0..<4 * n]" by (simp add: contents_def i u)
qed

lemma fill_carries:
  assumes g: "good env r" and h: "holds r ps" and u: "used r = length ps" and n: "length ps = 4 * n" "0 < n"
    and le: "32 * n \<le> 2147352576" and k: "n \<le> unat k"
  obtains v' where "fill_uvm_ml_packed_obj k v r = Some (Inr (Inr v', r))" and "carries v' ps"
proof -
  note i = packed_index [OF g h u n]
  let ?w = "po_allocate k (v\<lparr>po_size := pack_index r * 32\<rparr>)"
  let ?v = "?w\<lparr>po_val := (\<lambda>i. if i < 4 * n then m_bits r i else po_val v i)\<rparr>"
  have ok: "buffer_ok r" using g by (simp add: good_def)
  have s: "sint (pack_index r) = int n" using i(2) le by (simp add: sint_small)
  have c: "fetch 0 (4 * n) r = Inr (map (m_bits r) [0..<4 * n])"
    using buffer_okD [OF ok] i(2) by (simp add: fetch_def)
  have w: "n \<le> unat (po_max_words ?w)" using k po_allocate_enough(1) le_trans by metis
  have "pack_index r = of_nat n" using i(2) by auto
  then have sz: "pack_index r * 32 = of_nat (8 * length ps)" using n(1) by simp
  show thesis
  proof (rule that)
    show "fill_uvm_ml_packed_obj k v r =
        Some (Inr (Inr (?w\<lparr>po_val := (\<lambda>i. if i < 4 * n then map (m_bits r) [0..<4 * n] ! i else po_val ?w i)\<rparr>), r))"
      using s le w i(2) c by (simp add: fill_uvm_ml_packed_obj_def pk_get_def Let_def word_less_nat_alt not_less)
    have "map (\<lambda>i. if i < 4 * n then map (m_bits r) [0..<4 * n] ! i else po_val ?w i) [0..<length ps] = contents r"
      by (rule nth_equalityI) (simp_all add: i(3) n(1))
    then show "carries (?w\<lparr>po_val := (\<lambda>i. if i < 4 * n then map (m_bits r) [0..<4 * n] ! i else po_val ?w i)\<rparr>) ps"
      using w h n(1) sz by (simp add: carries_def po_allocate_enough(2) holds_def)
  qed
qed

lemma pack_carries:
  assumes f: "fits env v k" and s: "fresh env s" and m: "8 * length (encode env v) \<le> nat max_bits" "max_bits \<le> 2147352576"
    and a: "get_max_words max_bits = Inr aw"
  obtains p' s' where "uvm_ml_packer_pack env max_bits (word_of_int aw) v p s = Some (Inr (Inr p', s'))"
    and "fresh env s'" and "carries p' (encode env v)"
proof -
  obtain n where n: "length (encode env v) = 4 * n" "0 < n" using encode_words(1) [OF f] by (auto elim!: dvdE)
  have le: "32 * n \<le> nat max_bits" "nat max_bits \<le> 2147352576" using m n by auto
  have g: "good env s" "used s = 0" "holds s []" using ml.fresh [OF s] by auto
  obtain t where t: "pack_value env v s = Some (Inr (Inr (), t))" "good env t" "used t = length (encode env v)"
      "holds t (encode env v)"
    using ml.packsE [OF packs_values(1) [OF f] g(1) _ g(3)] g(2) n le by auto
  note i = packed_index [OF t(2,4,3) n]
  have "unat (get_remaining_unpacked_bits t) = 32 * n"
    using i(1,2) le by (simp add: get_remaining_unpacked_bits_def unat_word_ariths)
  then have rem: "sint (get_remaining_unpacked_bits t) = int (32 * n)" using le by (simp add: sint_small)
  obtain w where w: "words_of_bits (round_bits (int (nat max_bits))) = Inr (int w)" "nat max_bits \<le> 32 * w" "w < 67108864"
    by (rule words_of_bits_up [of "nat max_bits"]) (use le n in auto)
  have mb: "int (nat max_bits) = max_bits" using le n by simp
  then have "aw = int w" using a w(1) by (simp only: get_max_words_def) simp
  then have aw: "n \<le> unat (word_of_int aw :: uint)" using w le by (simp add: unat_of_nat)
  obtain p' where p': "fill_uvm_ml_packed_obj (word_of_int aw) p t = Some (Inr (Inr p', t))" "carries p' (encode env v)"
    using fill_carries [OF t(2,4,3) n _ aw] le by (metis le_trans)
  have "\<not> max_bits < int (32 * n)" using le mb by linarith
  then have "uvm_ml_packer_pack env max_bits (word_of_int aw) v p s = Some (Inr (Inr p', reset t))"
    using t(1) rem p'(1)
    by (simp add: uvm_ml_packer_pack_def pk_bind_Inr pk_get_def pk_do_def pk_return_def)
  then show thesis using that fresh_reset [OF t(2)] p'(2) by blast
qed

section \<open>Streams\<close>

text \<open>A stream that carries the cells of a value, and more behind them.\<close>

definition streams :: "cell list \<Rightarrow> cell list \<Rightarrow> bool" where
  "streams cs ps \<longleftrightarrow> length ps \<le> length cs \<and> matches (take (length ps) cs) ps"

lemma copy_streams:
  assumes c: "carries v ps" and n: "length ps = 4 * n" "0 < n" "32 * n \<le> 2147352576" and s: "length ps \<le> length cs"
  obtains cs' where "copy_from_mlupo v cs = Inr (of_nat (8 * length ps), cs')" and "streams cs' ps"
    and "length cs' = length cs"
proof -
  have sz: "po_size v = of_nat (32 * n)" using c n(1) by (simp add: carries_def)
  have w: "nwords_of (po_size v) = n" unfolding sz by (rule nwords_of_nat) (use n in simp_all)
  have "\<not> (4 * unat (po_max_words v) < 4 * n \<or> length cs < 4 * n)" using c s n(1) by (auto simp: carries_def)
  then have "copy_from_mlupo v cs = Inr (of_nat (8 * length ps), map (po_val v) [0..<4 * n] @ drop (4 * n) cs)"
    unfolding copy_from_mlupo_def w Let_def using sz n(1) by simp
  moreover have "streams (map (po_val v) [0..<4 * n] @ drop (4 * n) cs) ps"
    using c s n(1) by (simp add: streams_def carries_def)
  ultimately show thesis using that s n(1) by simp
qed

lemma fill_mlupo_carries:
  assumes s: "streams cs ps" and n: "length ps = 4 * n" "0 < n" "32 * n \<le> 2147352576"
  obtains v' where "fill_mlupo (of_nat (8 * length ps)) cs v = Inr v'" and "carries v' ps"
proof -
  have sz: "(of_nat (8 * length ps) :: uint) = of_nat (32 * n)" using n(1) by simp
  have w: "nwords_of (of_nat (8 * length ps)) = n" unfolding sz by (rule nwords_of_nat) (use n in simp_all)
  obtain k where k: "words_of_bits (round_bits (int (n * 32))) = Inr (int k)" "n * 32 \<le> 32 * k" "k < 67108864"
    by (rule words_of_bits_up [of "n * 32"]) (use n in auto)
  let ?w = "po_allocate (word_of_int (int k)) (v\<lparr>po_size := of_nat (8 * length ps)\<rparr>)"
  have "n \<le> unat (word_of_int (int k) :: uint)" using k by (simp add: unat_of_nat)
  then have mw: "n \<le> unat (po_max_words ?w)" using po_allocate_enough(1) le_trans by metis
  let ?v = "?w\<lparr>po_val := (\<lambda>i. if i < 4 * n then cs ! i else po_val ?w i)\<rparr>"
  have len: "4 * n \<le> length cs" and m: "matches (take (4 * n) cs) ps" using s n(1) by (simp_all add: streams_def)
  have "\<not> 2147483647 < n * 32" "\<not> (4 * unat (po_max_words ?w) < 4 * n \<or> length cs < 4 * n)" using n(3) mw len by auto
  then have "fill_mlupo (of_nat (8 * length ps)) cs v = Inr ?v"
    unfolding fill_mlupo_def w Let_def by (simp only: k(1) bind_res.simps if_False)
  moreover have "map (\<lambda>i. if i < 4 * n then cs ! i else po_val ?w i) [0..<length ps] = take (4 * n) cs"
    by (rule nth_equalityI) (use len n(1) in simp_all)
  then have "carries ?v ps" using mw m n(1) by (simp add: carries_def po_allocate_enough(2))
  ultimately show thesis using that by blast
qed

section \<open>Into the packer of the other side\<close>

text \<open>The index of the reader stays where it was.\<close>

lemma set_from_state:
  assumes g: "good env r" and c: "carries v ps" and n: "length ps = 4 * n" "0 < n" "32 * n \<le> 2147352576"
    and room: "room r n"
  obtains r' where "set_from_uvm_ml_packed_obj v r = Some (Inr (Inr (), r'))" and "good env (r'\<lparr>unpack_index := 0\<rparr>)"
    and "unpack_index r' = unpack_index r" and "unat (pack_index r') = n"
    and "unat (pack_index r) + n \<le> unat (max_size r')"
    and "map (m_bits r') [0..<4 * n] = map (po_val v) [0..<4 * n]"
proof -
  have ok: "buffer_ok r" using g by (simp add: good_def)
  have w: "nwords_of (po_size v) = n"
    using c n nwords_of_nat [of n] by (simp add: carries_def)
  let ?k = "(po_size v - 1) div 32 + 1"
  have k: "unat ?k = n" using w by (simp add: nwords_of_def)
  let ?p = "unat (pack_index r)" and ?new = "((pack_index r + ?k - 1) div packing_block + 1) * packing_block"
  have new: "unat ?new = ((?p + n - 1) div 131072 + 1) * 131072"
    by (rule blocks) (use room n k in \<open>simp_all add: room_def\<close>)
  have fits: "?p + n \<le> unat ?new" unfolding new by (rule whole_blocks) (use n(2) in simp_all)
  have "(?p + n - 1) div 131072 \<le> 16382"
    using room n by (simp add: room_def div_le_mono [of _ "2147352575", THEN le_trans])
  then have small: "unat ?new < 2147483648" unfolding new by simp
  obtain r1 where r1: "allocate ?k False r = Inr r1" "?p + n \<le> unat (max_size r1)" "unat (max_size r1) < 2147483648"
      "m_use_metadata r1 = m_use_metadata r" "name_id_dict r1 = name_id_dict r" "id_name_dict r1 = id_name_dict r"
      "unpack_index r1 = unpack_index r"
  proof (cases "max_size r < ?new")
    case True
    have "allocate ?k False r = Inr (r\<lparr>rep_size := ?new, max_size := ?new, m_bits := (\<lambda>i. None)\<rparr>)"
      using True unfolding allocate_def Let_def by (simp cong: if_cong)
    then show thesis by (rule that) (use fits small in simp_all)
  next
    case False
    have "allocate ?k False r = Inr (r\<lparr>rep_size := ?new\<rparr>)" using False unfolding allocate_def Let_def by simp
    then show thesis
      by (rule that) (use fits False buffer_okD(4) [OF ok] in \<open>simp_all add: word_less_nat_alt not_less\<close>)
  qed
  let ?cs = "map (po_val v) [0..<4 * n]"
  let ?m = "\<lambda>i. if 0 \<le> i \<and> i < 0 + length ?cs then ?cs ! (i - 0) else m_bits r1 i"
  let ?r = "r1\<lparr>m_bits := ?m, rep_size := ?k, pack_index := ?k\<rparr>"
  have st: "store 0 ?cs r1 = Inr (r1\<lparr>m_bits := ?m\<rparr>)" by (rule store_Inr) (use r1(2) in simp)
  have enough: "\<not> 4 * unat (po_max_words v) < 4 * n" using c n(1) by (simp add: carries_def)
  show thesis
  proof (rule that)
    show "set_from_uvm_ml_packed_obj v r = Some (Inr (Inr (), ?r))"
      unfolding set_from_uvm_ml_packed_obj_def pk_do_def set_bits_def Let_def r1(1) bind_res.simps k
      by (simp only: enough if_False st bind_res.simps)
    show "good env (?r\<lparr>unpack_index := 0\<rparr>)"
      using g r1 k by (auto simp: good_def buffer_ok_def word_le_nat_alt word_less_nat_alt)
    show "map (m_bits ?r) [0..<4 * n] = ?cs" by (rule nth_equalityI) simp_all
  qed (use r1 k in simp_all)
qed

lemma set_bits_holds:
  assumes f: "fresh env r" and c: "carries v ps" and n: "length ps = 4 * n" "0 < n" "32 * n \<le> 2147352576"
  obtains r' where "set_from_uvm_ml_packed_obj v r = Some (Inr (Inr (), r'))" and "good env r'" and "holds r' ps"
    and "unpack_index r' = 0" and "unat (pack_index r') = n"
proof -
  have g: "good env r" "pack_index r = 0" "unpack_index r = 0" using f by (simp_all add: fresh_def)
  have "room r n" using g(2) n by (simp add: room_def)
  then obtain r' where r': "set_from_uvm_ml_packed_obj v r = Some (Inr (Inr (), r'))" "good env (r'\<lparr>unpack_index := 0\<rparr>)"
      "unpack_index r' = 0" "unat (pack_index r') = n" "map (m_bits r') [0..<4 * n] = map (po_val v) [0..<4 * n]"
    using set_from_state [OF g(1) c n] g(3) by metis
  have "r'\<lparr>unpack_index := 0\<rparr> = r'" using r'(3) by (cases r') simp
  moreover have "contents r' = map (po_val v) [0..<4 * n]" using r'(3-5) by (simp add: contents_def)
  then have "holds r' ps" using c n(1) by (simp add: holds_def carries_def)
  ultimately show thesis using that r'(1-4) by metis
qed

lemma unpack_create_carried:
  assumes f: "fits env v k" and t: "fresh env t" and c: "carries p (encode env v)"
    and n: "8 * length (encode env v) \<le> 2147352576" and fuel: "length (encode env v) \<le> fuel"
  obtains t' where "unpack_create env fuel k p t = Some (Inr (Inr v, t'))" and "fresh env t'"
proof -
  obtain n where n: "length (encode env v) = 4 * n" "0 < n" "32 * n \<le> 2147352576"
    using encode_words(1) [OF f] n by (auto elim!: dvdE)
  obtain r where r: "set_from_uvm_ml_packed_obj p t = Some (Inr (Inr (), r))" "good env r" "holds r (encode env v @ [])"
    using set_bits_holds [OF t c n] by auto
  obtain r' where "unpack_value env fuel k r = Some (Inr (Inr v, r'))" "good env r'"
    using ml.unpacksE [OF unpacks_values(1) [OF f fuel] r(2,3)] by blast
  then show thesis using r(1) that [of "reset r'"] fresh_reset
    by (simp add: unpack_create_def pk_bind_Inr pk_do_def pk_return_def)
qed

lemma unpack_create_object_carried:
  assumes f: "fits env v K_object" and t: "fresh env t" and c: "carries p (encode env v)"
    and n: "8 * length (encode env v) \<le> 2147352576" and fuel: "length (encode env v) \<le> fuel"
  obtains t' where "unpack_create_object env fuel p t = Some (Inr (Inr v, t'))" and "fresh env t'"
proof -
  obtain n where n: "length (encode env v) = 4 * n" "0 < n" "32 * n \<le> 2147352576"
    using encode_words(1) [OF f] n by (auto elim!: dvdE)
  obtain r where r: "set_from_uvm_ml_packed_obj p t = Some (Inr (Inr (), r))" "good env r" "holds r (encode env v @ [])"
    using set_bits_holds [OF t c n] by auto
  obtain r' where r': "unpack_value env fuel K_object r = Some (Inr (Inr v, r'))" "good env r'" "holds r' []"
    using ml.unpacksE [OF unpacks_values(1) [OF f fuel] r(2,3)] by blast
  have "get_remaining_unpacked_bits r' = 0"
    using ml.drained [OF r'(2,3)] by (simp add: drained_def get_remaining_unpacked_bits_def)
  then show thesis using r(1) r'(1,2) that [of "reset r'"] fresh_reset
    by (simp add: unpack_create_object_def pk_bind_Inr pk_do_def pk_get_def pk_return_def)
qed

section \<open>When reading fails\<close>

lemma unpack_int_frame:
  "unpack_int r = Some (Inr (Inr w, r')) \<Longrightarrow> r' = r\<lparr>unpack_index := unpack_index r + 1\<rparr>"
  by (auto simp: unpack_int_def unpack_unsigned_def pk_bind_Some_iff pk_get_def inc_unpack_index_def pk_return_def
      pk_throw_def Let_def words_for_def split: if_splits sum.splits elim!: bind_res_InrE)

lemma unpack_int_state:
  assumes "good env r" and "holds r (uint_cells w @ qs)"
  shows "unpack_int r = Some (Inr (Inr w, r\<lparr>unpack_index := unpack_index r + 1\<rparr>))"
    and "good env (r\<lparr>unpack_index := unpack_index r + 1\<rparr>)" and "holds (r\<lparr>unpack_index := unpack_index r + 1\<rparr>) qs"
  using ml.unpacksE [OF unpacks_int assms] unpack_int_frame by metis+

text \<open>A word read behind the end, but inside the buffer.\<close>

lemma unpack_int_behind:
  assumes "unat (unpack_index r) < unat (max_size r)" and "pack_index r \<le> unpack_index r" and "unpack_index r < unpack_index r + 1"
  shows "unpack_int r = Some (Inr (Inl UVM_PACKER_UNPACK_INDEX, r\<lparr>unpack_index := unpack_index r + 1\<rparr>))"
proof -
  have "fetch (4 * unat (unpack_index r)) 4 r = Inr (map (m_bits r) [4 * unat (unpack_index r)..<4 * unat (unpack_index r) + 4])"
    using assms(1) by (simp add: fetch_def)
  moreover have "pack_index r < unpack_index r + 1" using assms(2,3) by (rule le_less_trans)
  ultimately show ?thesis
    by (simp add: unpack_int_def unpack_unsigned_def pk_bind_def pk_get_def inc_unpack_index_def pk_throw_def words_for_def)
qed

end
