(* ===== verification/Sc_Properties.thy ===== *)
theory Sc_Properties
  imports Sc_Transport
begin

text \<open>
  The properties of the packer of the SystemC adapter: what it gives back, and what it does not.
\<close>

lemma fresh_new_packer: "fresh env new_packer"
  by (simp add: fresh_def good_def buffer_ok_def new_packer_def)

text \<open>A packer for the witnesses: one class, with five fields.\<close>

definition demo_signed :: sc_nbnum where
  "demo_signed = \<lparr>nb_signed = True, nb_sgn = SC_ZERO, nb_bits = 33, nb_digit = [0, 0]\<rparr>"

definition demo_env :: sc_env where
  "demo_env =
     \<lparr>type_id_of = (\<lambda>nm. if nm = ''packet'' then 7 else 0),
      type_name_of = (\<lambda>i. if i = 7 then ''packet'' else ''''),
      object_fields = [''packet'' \<mapsto> [K_string, K_sc_int 12, K_signed demo_signed, K_bits, K_object]],
      class_registered = (\<lambda>nm. False)\<rparr>"

definition demo_value :: sc_value where
  "demo_value = V_object ''packet'' [V_string ''read'', V_sc_int \<lparr>si_len = 12, si_val = - 5\<rparr>,
     V_signed (demo_signed\<lparr>nb_sgn := SC_NEG, nb_digit := [7, 3]\<rparr>),
     V_bits [True, False, True], V_null]"

lemma demo_value_fits: "fits demo_env demo_value K_object"
  by (simp add: demo_env_def demo_value_def demo_signed_def int_extend_sign_def c_str_def same_shape_def nbnum_ok_def
      digits_ok_def div_ceil_def nb_length_def)

lemma demo_length: "length (encode demo_env demo_value) = 40"
  by (simp add: demo_env_def demo_value_def demo_signed_def length_string_cells number_cells_def bits_cells_def
      length_bv_of_bits length_get_packed_rep sc_words_def nb_length_def)



section \<open>Values arrive\<close>

text \<open>
  C4. A value that one framework packs into a packed object and copies to a stream arrives: the other
  framework, which copies the stream into its packed object and unpacks it, gets the same value,
  whatever its type, and both packers are fresh again. The value has to fit its reader and the limit.
\<close>

theorem packed_value_arrives:
  assumes "fits env v k" and "fresh env s" and "fresh env t"
    and "8 * length (encode env v) \<le> nat max_bits" and "max_bits \<le> 2147352576"
    and "get_max_words max_bits = Inr alloc_words"
    and "length (encode env v) \<le> length stream" and "length (encode env v) \<le> fuel"
  shows "\<exists>p' s' stream' q' t'.
    uvm_ml_packer_pack env max_bits (word_of_int alloc_words) v p s = Some (Inr (Inr p', s')) \<and> fresh env s' \<and>
    copy_from_mlupo p' stream = Inr (of_nat (8 * length (encode env v)), stream') \<and>
    fill_mlupo (of_nat (8 * length (encode env v))) stream' q = Inr q' \<and>
    unpack_create env fuel k q' t = Some (Inr (Inr v, t')) \<and> fresh env t' \<and>
    (k = K_object \<longrightarrow> (\<exists>u. unpack_create_object env fuel q' t = Some (Inr (Inr v, u)) \<and> fresh env u))"
proof -
  obtain n where n: "length (encode env v) = 4 * n" "0 < n" using encode_words(1) [OF assms(1)] by (auto elim!: dvdE)
  have le: "8 * length (encode env v) \<le> 2147352576" using assms(4,5) by linarith
  then have n': "32 * n \<le> 2147352576" using n by simp
  obtain p' s' where p': "uvm_ml_packer_pack env max_bits (word_of_int alloc_words) v p s = Some (Inr (Inr p', s'))"
      "fresh env s'" "carries p' (encode env v)"
    by (rule pack_carries [OF assms(1,2,4,5,6)])
  obtain stream' where stream': "copy_from_mlupo p' stream = Inr (of_nat (8 * length (encode env v)), stream')"
      "streams stream' (encode env v)"
    by (rule copy_streams [OF p'(3) n n' assms(7)])
  obtain q' where q': "fill_mlupo (of_nat (8 * length (encode env v))) stream' q = Inr q'" "carries q' (encode env v)"
    by (rule fill_mlupo_carries [OF stream'(2) n n'])
  obtain t' where "unpack_create env fuel k q' t = Some (Inr (Inr v, t'))" "fresh env t'"
    by (rule unpack_create_carried [OF assms(1,3) q'(2) le assms(8)])
  moreover have "\<exists>u. unpack_create_object env fuel q' t = Some (Inr (Inr v, u)) \<and> fresh env u" if "k = K_object"
    using unpack_create_object_carried [OF _ assms(3) q'(2) le assms(8)] assms(1) that by blast
  ultimately show ?thesis using p'(1,2) stream'(1) q'(1) by blast
qed

theorem packed_value_arrives_witness:
  "\<exists>p' s' stream' q' t'.
    uvm_ml_packer_pack demo_env 131072 4096 demo_value uvm_ml_packed_obj new_packer = Some (Inr (Inr p', s')) \<and>
    copy_from_mlupo p' (replicate 100 None) = Inr (320, stream') \<and>
    fill_mlupo 320 stream' uvm_ml_packed_obj = Inr q' \<and>
    unpack_create_object demo_env 100 q' new_packer = Some (Inr (Inr demo_value, t'))"
  using packed_value_arrives [OF demo_value_fits fresh_new_packer fresh_new_packer, of 131072 4096 "replicate 100 None" 100
      uvm_ml_packed_obj uvm_ml_packed_obj]
  by (simp add: demo_length get_max_words_def round_bits_def words_of_bits_def) blast

text \<open>
  C15. A number of any length is sent as the two's complement of the integer it stands for, bit by
  bit, whatever its sign and however its digits of 30 bits lie over the words of 32 bits, and reading
  the words back gives the number.
\<close>

theorem number_is_two_complement:
  assumes "nbnum_ok a"
  shows "length (get_packed_rep a) = sc_words (nb_length a) \<and>
    (\<forall>i < nb_length a. bit (get_packed_rep a ! (i div 32)) (i mod 32) = bit (nb_value a) i) \<and>
    set_packed_rep (get_packed_rep a) a = a"
  using bit_get_packed_rep [OF assms] bit_two_complement [OF assms] packed_rep_round_trip [OF assms]
  by (simp_all add: length_get_packed_rep sc_words_def)

lemma demo_number: "nbnum_ok (demo_signed\<lparr>nb_sgn := SC_NEG, nb_digit := [7, 3]\<rparr>)"
  by (simp add: demo_signed_def nbnum_ok_def digits_ok_def div_ceil_def nb_length_def)

theorem number_is_two_complement_witness:
  "bit (get_packed_rep (demo_signed\<lparr>nb_sgn := SC_NEG, nb_digit := [7, 3]\<rparr>) ! 1) 0 =
     bit (nb_value (demo_signed\<lparr>nb_sgn := SC_NEG, nb_digit := [7, 3]\<rparr>)) 32 \<and>
   nb_value (demo_signed\<lparr>nb_sgn := SC_NEG, nb_digit := [7, 3]\<rparr>) = - 3221225479"
  using number_is_two_complement [OF demo_number, THEN conjunct2, THEN conjunct1, THEN spec, of 32]
  by (simp add: demo_signed_def nb_length_def nb_value_def)

section \<open>Values that do not\<close>










end
