(* ===== verification/Uvm_Resource.thy ===== *)
theory Uvm_Resource
  imports Smtdv_Prelude
begin

text \<open>
  Resources and the configuration database of the UVM class library for SystemC
  (\<open>frameworks/uvm/sc/base\<close>: \<open>uvm_resource_base\<close>, \<open>uvm_resource_t.h\<close>, \<open>uvm_resource_pool\<close>,
  \<open>uvm_resource_db.h\<close>, \<open>uvm_config_db.h\<close> and the callbacks of \<open>uvm_globals.cpp\<close>). A resource is a
  named value that is visible in the scopes its regular expression matches; the pool files the
  resources by name, and a request is answered by the one with the highest precedence.

  The type \<open>T\<close> of a resource is one of \<open>'t\<close>, its value one of \<open>'v\<close>. The regular expressions of Boost
  are a parameter.
\<close>

section \<open>Resources\<close>

text \<open>
  \<open>regex\<close> is the constructor of \<open>boost::regex\<close> followed by \<open>regex_match\<close> on a text; \<open>None\<close> is an
  expression that the constructor rejects with an exception. \<open>initial\<close> is the value a new \<open>uvm_resource<T>\<close>
  has: that of the default constructor of a class, what the memory held for another type.
\<close>

record ('v, 't) uvm_env =
  regex :: "string \<Rightarrow> (string \<Rightarrow> bool) option"
  initial :: "'t \<Rightarrow> 'v"

record ('v, 't) rsrc =
  m_read_only :: bool
  m_scope :: string
  m_precedence :: "32 word"
  m_name :: string
  m_value :: 'v
  value_type :: 't

definition m_default_precedence :: "32 word" where
  "m_default_precedence = 1000"

text \<open>
  A glob is translated character by character, as \<open>regex_replace\<close> does with the expression and the format
  of the code; a blank is a space or a tab.
\<close>

definition glob_char :: "char \<Rightarrow> string" where
  "glob_char c =
     (if c = CHR ''*'' then ''.*''
      else if c = CHR ''?'' then ''[./]''
      else if c = CHR '' '' \<or> c = CHR 0x09 then [CHR 0x5C, CHR ''s'', CHR ''*'']
      else if c = CHR ''.'' \<or> c = CHR ''/'' then ''[./]''
      else if c \<in> set (CHR 0x5C # ''+^$[](){}'') then [CHR 0x5C, c]
      else [c])"

definition uvm_glob_to_regex :: "string \<Rightarrow> string" where
  "uvm_glob_to_regex glob =
     (if glob = [] then ''/0''
      else if hd glob = CHR ''/'' \<and> last glob = CHR ''/'' then glob
      else concat (map glob_char glob))"

definition set_scope :: "string \<Rightarrow> ('v, 't) rsrc \<Rightarrow> ('v, 't) rsrc" where
  "set_scope scope r = r\<lparr>m_scope := uvm_glob_to_regex scope\<rparr>"

definition uvm_resource :: "('v, 't) uvm_env \<Rightarrow> 't \<Rightarrow> string \<Rightarrow> string \<Rightarrow> ('v, 't) rsrc" where
  "uvm_resource env ty nm scope =
     set_scope scope \<lparr>m_read_only = False, m_scope = [], m_precedence = m_default_precedence, m_name = nm,
       m_value = initial env ty, value_type = ty\<rparr>"

definition set_read_only :: "('v, 't) rsrc \<Rightarrow> ('v, 't) rsrc" where
  "set_read_only r = r\<lparr>m_read_only := True\<rparr>"

definition set_read_write :: "('v, 't) rsrc \<Rightarrow> ('v, 't) rsrc" where
  "set_read_write r = r\<lparr>m_read_only := False\<rparr>"

definition set_precedence :: "32 word \<Rightarrow> ('v, 't) rsrc \<Rightarrow> ('v, 't) rsrc" where
  "set_precedence p r = r\<lparr>m_precedence := p\<rparr>"

definition match_scope :: "('v, 't) uvm_env \<Rightarrow> ('v, 't) rsrc \<Rightarrow> string \<Rightarrow> bool res" where
  "match_scope env r scope =
     (case regex env (m_scope r) of None \<Rightarrow> Inl Cpp_Throw | Some f \<Rightarrow> Inr (f scope))"

text \<open>
  \<open>write\<close> warns about a resource that is read-only, and notifies the event of the resource when the
  value changes.
\<close>

datatype write_effect = Warned_Read_Only | Notified_Modified | Unchanged

definition write_rsrc :: "'v \<Rightarrow> ('v, 't) rsrc \<Rightarrow> write_effect \<times> ('v, 't) rsrc" where
  "write_rsrc v r =
     (if m_read_only r then (Warned_Read_Only, r)
      else if v \<noteq> m_value r then (Notified_Modified, r\<lparr>m_value := v\<rparr>)
      else (Unchanged, r))"

text \<open>
  The specialisation for bit vectors holds a pointer to its value; when the length changes the old
  vector is deleted, and then read and assigned through the dangling pointer.
\<close>

datatype bv_ptr = Bv_Null | Bv_At "bool list"

definition bv_write :: "bool \<Rightarrow> bool list \<Rightarrow> bv_ptr \<Rightarrow> (write_effect \<times> bv_ptr) res" where
  "bv_write read_only v p =
     (if read_only then Inr (Warned_Read_Only, p)
      else case p of
        Bv_Null \<Rightarrow>
          (let new = replicate (length v) False in
           Inr (if v \<noteq> new then (Notified_Modified, Bv_At v) else (Unchanged, Bv_At new)))
      | Bv_At old \<Rightarrow>
          if length old \<noteq> length v then Inl Dangling_Ptr
          else Inr (if v \<noteq> old then (Notified_Modified, Bv_At v) else (Unchanged, p)))"

definition bv_read :: "bv_ptr \<Rightarrow> bool list res" where
  "bv_read p = (case p of Bv_Null \<Rightarrow> Inl Null_Deref | Bv_At v \<Rightarrow> Inr v)"

section \<open>The state\<close>

text \<open>
  Resources live on a heap. \<open>m_resource_q_map\<close> is the pool; \<open>m_rsrc_cntxt_map\<close> remembers the resources
  that \<open>uvm_config_db::set\<close> made, a multimap for each context, whose elements with the same key are
  in the order of their insertion. \<open>uvm_config_callback_vec\<close> is a pointer to a vector of components:
  null at first, and left dangling when the vector is deleted. The code makes one \<open>m_rsrc_cntxt_map\<close> for
  every source file that includes the header; the model is that of a program that sets its fields from one file. \<open>curr_phase\<close> is the name of the current phase of
  the common schedule. What the callbacks of the components do is not part of the model, their calls are recorded.
\<close>

datatype cb_vec = Cb_Null | Cb_Live "nat list" | Cb_Deleted

datatype rsrc_action =
    UVM_RESOURCE_SET
  | UVM_RESOURCE_SET_DEFAULT
  | UVM_RESOURCE_SET_OVERRIDE
  | UVM_RESOURCE_SET_OVERRIDE_NAME
  | UVM_RESOURCE_WRITE_BY_NAME
  | UVM_CONFIG_SET

datatype uvm_event =
    Config_Callback nat string string string addr
  | Rsrc_Callback nat rsrc_action string string addr
  | Modified addr
  | Warning_Read_Only
  | Warning_Not_Found

record ('v, 't) uvm_db =
  heap :: "addr \<rightharpoonup> ('v, 't) rsrc"
  next_addr :: addr
  m_resource_q_map :: "(string \<times> addr list option) list"
  m_rsrc_cntxt_map :: "(string \<times> (string \<times> addr) list) list"
  uvm_config_callback_vec :: cb_vec
  uvm_rsrc_callback_vec :: "nat list"
  curr_phase :: "string option"
  events :: "uvm_event list"

definition emit :: "uvm_event list \<Rightarrow> ('v, 't) uvm_db \<Rightarrow> ('v, 't) uvm_db" where
  "emit es s = s\<lparr>events := events s @ es\<rparr>"

definition new_rsrc :: "('v, 't) rsrc \<Rightarrow> ('v, 't) uvm_db \<Rightarrow> addr \<times> ('v, 't) uvm_db" where
  "new_rsrc r s = (next_addr s, s\<lparr>heap := (heap s)(next_addr s \<mapsto> r), next_addr := Suc (next_addr s)\<rparr>)"

text \<open>A call of \<open>write\<close> through a pointer.\<close>

definition write_at :: "addr \<Rightarrow> 'v \<Rightarrow> ('v, 't) uvm_db \<Rightarrow> ('v, 't) uvm_db res" where
  "write_at p v s =
     bind_res (deref (heap s) p) (\<lambda>r.
       let (e, r) = write_rsrc v r; s = s\<lparr>heap := (heap s)(p \<mapsto> r)\<rparr> in
       Inr (emit (case e of Warned_Read_Only \<Rightarrow> [Warning_Read_Only] | Notified_Modified \<Rightarrow> [Modified p]
         | Unchanged \<Rightarrow> []) s))"

section \<open>The pool\<close>

text \<open>The queue behind a pointer of the map, which \<open>set_priority_name\<close> below can leave null.\<close>

definition queue_at :: "addr list option \<Rightarrow> addr list res" where
  "queue_at q = (case q of None \<Rightarrow> Inl Null_Deref | Some q \<Rightarrow> Inr q)"

definition rsrc_pool_set :: "addr \<Rightarrow> bool \<Rightarrow> ('v, 't) uvm_db \<Rightarrow> ('v, 't) uvm_db res" where
  "rsrc_pool_set p override s =
     bind_res (deref (heap s) p) (\<lambda>r.
     bind_res (queue_at (case map_of (m_resource_q_map s) (m_name r) of None \<Rightarrow> Some [] | Some q \<Rightarrow> q)) (\<lambda>q.
       let q = remove1 p q;
           q = (if override then p # q else q @ [p])
       in Inr (s\<lparr>m_resource_q_map := map_put (m_name r) (Some q) (m_resource_q_map s)\<rparr>)))"

definition rsrc_pool_set_override :: "addr \<Rightarrow> ('v, 't) uvm_db \<Rightarrow> ('v, 't) uvm_db res" where
  "rsrc_pool_set_override p s = rsrc_pool_set p True s"

text \<open>
  What \<open>typeid\<close> gives: for the value of a resource its type \<open>T\<close>, for \<open>uvm_resource<T>*\<close> and for
  \<open>uvm_resource_base*\<close> the type of a pointer.
\<close>

datatype 't type_info = Type_Value 't | Type_Resource_Ptr 't | Type_Base_Ptr

fun filter_res :: "('a \<Rightarrow> bool res) \<Rightarrow> 'a list \<Rightarrow> 'a list res" where
  "filter_res P [] = Inr []"
| "filter_res P (x # xs) =
     bind_res (P x) (\<lambda>b. bind_res (filter_res P xs) (\<lambda>ys. Inr (if b then x # ys else ys)))"

text \<open>The two nested loops of a lookup, over the queues of the map and over a queue.\<close>

fun filter_queues :: "(addr \<Rightarrow> bool res) \<Rightarrow> addr list option list \<Rightarrow> addr list res" where
  "filter_queues P [] = Inr []"
| "filter_queues P (q # qs) =
     bind_res (bind_res (queue_at q) (filter_res P)) (\<lambda>xs.
     bind_res (filter_queues P qs) (\<lambda>ys. Inr (xs @ ys)))"

text \<open>The regular expression of the name is made in every lookup, also where it is not used.\<close>

definition lookup_name ::
  "('v, 't) uvm_env \<Rightarrow> string \<Rightarrow> string \<Rightarrow> 't type_info \<Rightarrow> ('v, 't) uvm_db \<Rightarrow> addr list res" where
  "lookup_name env scope nm ty s =
     (case regex env (uvm_glob_to_regex nm) of
        None \<Rightarrow> Inl Cpp_Throw
      | Some _ \<Rightarrow>
          (case map_of (m_resource_q_map s) nm of
             None \<Rightarrow> Inr []
           | Some q \<Rightarrow>
               bind_res (queue_at q) (filter_res (\<lambda>p. bind_res (deref (heap s) p) (\<lambda>r.
                 bind_res (match_scope env r scope) (\<lambda>b. Inr (b \<and> Type_Base_Ptr = ty)))))))"

definition lookup_regex ::
  "('v, 't) uvm_env \<Rightarrow> string \<Rightarrow> string \<Rightarrow> 't type_info \<Rightarrow> ('v, 't) uvm_db \<Rightarrow> addr list res" where
  "lookup_regex env scope nm ty s =
     (case regex env (uvm_glob_to_regex nm) of
        None \<Rightarrow> Inl Cpp_Throw
      | Some f \<Rightarrow>
          filter_queues (\<lambda>p. bind_res (deref (heap s) p) (\<lambda>r. bind_res (match_scope env r scope) (\<lambda>b.
              Inr (b \<and> Type_Value (value_type r) = ty))))
            (map snd (filter (\<lambda>e. f (fst e)) (m_resource_q_map s))))"

definition lookup_scope :: "('v, 't) uvm_env \<Rightarrow> string \<Rightarrow> ('v, 't) uvm_db \<Rightarrow> addr list res" where
  "lookup_scope env scope s =
     filter_queues (\<lambda>p. bind_res (deref (heap s) p) (\<lambda>r. match_scope env r scope)) (map snd (m_resource_q_map s))"

fun highest_from :: "(addr \<rightharpoonup> ('v, 't) rsrc) \<Rightarrow> addr list \<Rightarrow> addr \<Rightarrow> 32 word \<Rightarrow> addr res" where
  "highest_from h [] best prec = Inr best"
| "highest_from h (p # ps) best prec =
     bind_res (deref h p) (\<lambda>r.
       if prec < m_precedence r then highest_from h ps p (m_precedence r) else highest_from h ps best prec)"

definition get_highest_precedence :: "addr list \<Rightarrow> ('v, 't) uvm_db \<Rightarrow> addr res" where
  "get_highest_precedence q s =
     (case q of [] \<Rightarrow> Inr null
      | p # ps \<Rightarrow> bind_res (deref (heap s) p) (\<lambda>r. highest_from (heap s) ps p (m_precedence r)))"

definition get_by_name ::
  "('v, 't) uvm_env \<Rightarrow> string \<Rightarrow> string \<Rightarrow> 't type_info \<Rightarrow> ('v, 't) uvm_db \<Rightarrow> addr res" where
  "get_by_name env scope nm ty s = bind_res (lookup_name env scope nm ty s) (\<lambda>q. get_highest_precedence q s)"

definition get_by_name_regex ::
  "('v, 't) uvm_env \<Rightarrow> string \<Rightarrow> string \<Rightarrow> 't type_info \<Rightarrow> ('v, 't) uvm_db \<Rightarrow> addr res" where
  "get_by_name_regex env scope nm ty s = bind_res (lookup_regex env scope nm ty s) (\<lambda>q. get_highest_precedence q s)"

definition rsrc_prec_compare :: "('v, 't) rsrc option \<Rightarrow> ('v, 't) rsrc option \<Rightarrow> bool" where
  "rsrc_prec_compare r1 r2 =
     (case r1 of None \<Rightarrow> False
      | Some a \<Rightarrow> (case r2 of None \<Rightarrow> True | Some b \<Rightarrow> m_precedence b < m_precedence a))"

datatype priority = PRI_HIGH | PRI_LOW

definition set_priority_queue :: "addr \<Rightarrow> addr list \<Rightarrow> priority \<Rightarrow> uvm_event list \<times> addr list" where
  "set_priority_queue p q pri =
     (if p \<in> set q then ([], case pri of PRI_HIGH \<Rightarrow> p # remove1 p q | PRI_LOW \<Rightarrow> remove1 p q @ [p])
      else ([Warning_Not_Found], q))"

text \<open>
  \<open>m_resource_q_map[name]\<close> adds a null pointer under a name that is not there; it stays in the map.
\<close>

definition set_priority_name :: "addr \<Rightarrow> priority \<Rightarrow> ('v, 't) uvm_db \<Rightarrow> ('v, 't) uvm_db res" where
  "set_priority_name p pri s =
     bind_res (deref (heap s) p) (\<lambda>r.
       case map_of (m_resource_q_map s) (m_name r) of
         Some (Some q) \<Rightarrow>
           (let (es, q) = set_priority_queue p q pri in
            Inr (emit es (s\<lparr>m_resource_q_map := map_put (m_name r) (Some q) (m_resource_q_map s)\<rparr>)))
       | _ \<Rightarrow>
           Inr (emit [Warning_Not_Found] (s\<lparr>m_resource_q_map := map_put (m_name r) None (m_resource_q_map s)\<rparr>)))"

section \<open>Callbacks\<close>

definition uvm_register_config_callback :: "nat \<Rightarrow> ('v, 't) uvm_db \<Rightarrow> ('v, 't) uvm_db res" where
  "uvm_register_config_callback c s =
     (case uvm_config_callback_vec s of
        Cb_Null \<Rightarrow> Inr (s\<lparr>uvm_config_callback_vec := Cb_Live [c]\<rparr>)
      | Cb_Live cs \<Rightarrow> Inr (s\<lparr>uvm_config_callback_vec := Cb_Live (cs @ [c])\<rparr>)
      | Cb_Deleted \<Rightarrow> Inl Dangling_Ptr)"

definition uvm_unregister_config_callback :: "nat \<Rightarrow> ('v, 't) uvm_db \<Rightarrow> ('v, 't) uvm_db res" where
  "uvm_unregister_config_callback c s =
     (case uvm_config_callback_vec s of
        Cb_Null \<Rightarrow> Inr s
      | Cb_Live cs \<Rightarrow>
          (let cs = removeAll c cs in
           Inr (s\<lparr>uvm_config_callback_vec := (if cs = [] then Cb_Deleted else Cb_Live cs)\<rparr>))
      | Cb_Deleted \<Rightarrow> Inl Dangling_Ptr)"

definition uvm_config_callback ::
  "string \<Rightarrow> string \<Rightarrow> string \<Rightarrow> addr \<Rightarrow> ('v, 't) uvm_db \<Rightarrow> ('v, 't) uvm_db res" where
  "uvm_config_callback cntxt inst field p s =
     (case uvm_config_callback_vec s of
        Cb_Null \<Rightarrow> Inl Null_Deref
      | Cb_Live cs \<Rightarrow> Inr (emit (map (\<lambda>c. Config_Callback c cntxt inst field p) cs) s)
      | Cb_Deleted \<Rightarrow> Inl Dangling_Ptr)"

definition uvm_register_rsrc_callback :: "nat \<Rightarrow> ('v, 't) uvm_db \<Rightarrow> ('v, 't) uvm_db" where
  "uvm_register_rsrc_callback c s = s\<lparr>uvm_rsrc_callback_vec := uvm_rsrc_callback_vec s @ [c]\<rparr>"

definition uvm_rsrc_callback ::
  "rsrc_action \<Rightarrow> string \<Rightarrow> string \<Rightarrow> addr \<Rightarrow> ('v, 't) uvm_db \<Rightarrow> ('v, 't) uvm_db" where
  "uvm_rsrc_callback act scope nm p s =
     emit (map (\<lambda>c. Rsrc_Callback c act scope nm p) (uvm_rsrc_callback_vec s)) s"

section \<open>The resource database\<close>

definition db_get_by_name ::
  "('v, 't) uvm_env \<Rightarrow> 't \<Rightarrow> string \<Rightarrow> string \<Rightarrow> ('v, 't) uvm_db \<Rightarrow> addr res" where
  "db_get_by_name env ty scope nm s = get_by_name env scope nm (Type_Resource_Ptr ty) s"

definition db_set_default ::
  "('v, 't) uvm_env \<Rightarrow> 't \<Rightarrow> string \<Rightarrow> string \<Rightarrow> ('v, 't) uvm_db \<Rightarrow> (addr \<times> ('v, 't) uvm_db) res" where
  "db_set_default env ty scope nm s =
     (let (p, s) = new_rsrc (uvm_resource env ty nm scope) s in
      bind_res (rsrc_pool_set p False s) (\<lambda>s. Inr (p, uvm_rsrc_callback UVM_RESOURCE_SET_DEFAULT scope nm p s)))"

definition db_set ::
  "('v, 't) uvm_env \<Rightarrow> 't \<Rightarrow> string \<Rightarrow> string \<Rightarrow> 'v \<Rightarrow> ('v, 't) uvm_db \<Rightarrow> ('v, 't) uvm_db res" where
  "db_set env ty scope nm v s =
     (let (p, s) = new_rsrc (uvm_resource env ty nm scope) s in
      bind_res (write_at p v s) (\<lambda>s.
      bind_res (rsrc_pool_set p False s) (\<lambda>s. Inr (uvm_rsrc_callback UVM_RESOURCE_SET scope nm p s))))"

definition db_set_override ::
  "('v, 't) uvm_env \<Rightarrow> 't \<Rightarrow> string \<Rightarrow> string \<Rightarrow> 'v \<Rightarrow> ('v, 't) uvm_db \<Rightarrow> ('v, 't) uvm_db res" where
  "db_set_override env ty scope nm v s =
     (let (p, s) = new_rsrc (uvm_resource env ty nm scope) s in
      bind_res (write_at p v s) (\<lambda>s.
      bind_res (rsrc_pool_set_override p s) (\<lambda>s. Inr (uvm_rsrc_callback UVM_RESOURCE_SET_OVERRIDE scope nm p s))))"

definition read_by_name ::
  "('v, 't) uvm_env \<Rightarrow> 't \<Rightarrow> string \<Rightarrow> string \<Rightarrow> ('v, 't) uvm_db \<Rightarrow> 'v option res" where
  "read_by_name env ty scope nm s =
     bind_res (db_get_by_name env ty scope nm s) (\<lambda>p.
       if p \<noteq> null then bind_res (deref (heap s) p) (\<lambda>r. Inr (Some (m_value r))) else Inr None)"

definition write_by_name ::
  "('v, 't) uvm_env \<Rightarrow> 't \<Rightarrow> string \<Rightarrow> string \<Rightarrow> 'v \<Rightarrow> ('v, 't) uvm_db \<Rightarrow> (bool \<times> ('v, 't) uvm_db) res" where
  "write_by_name env ty scope nm v s =
     bind_res (db_get_by_name env ty scope nm s) (\<lambda>p.
     bind_res (if p \<noteq> null then write_at p v s else Inr s) (\<lambda>s.
       Inr (p \<noteq> null, uvm_rsrc_callback UVM_RESOURCE_WRITE_BY_NAME scope nm p s)))"

definition db_exists :: "('v, 't) uvm_env \<Rightarrow> 't \<Rightarrow> string \<Rightarrow> string \<Rightarrow> ('v, 't) uvm_db \<Rightarrow> bool res" where
  "db_exists env ty scope nm s = bind_res (db_get_by_name env ty scope nm s) (\<lambda>p. Inr (p \<noteq> null))"

section \<open>The configuration database\<close>

text \<open>The scope of a request. The context of a null component is empty here and \<open>*\<close> in \<open>set\<close>.\<close>

definition get_scope :: "string \<Rightarrow> string \<Rightarrow> string" where
  "get_scope cntxt inst = (if inst \<noteq> [] then cntxt @ ''.'' @ inst else cntxt)"

definition config_get ::
  "('v, 't) uvm_env \<Rightarrow> 't \<Rightarrow> string \<Rightarrow> string \<Rightarrow> string \<Rightarrow> ('v, 't) uvm_db \<Rightarrow> 'v option res" where
  "config_get env ty cntxt inst field s =
     bind_res (lookup_regex env (get_scope cntxt inst) field (Type_Value ty) s) (\<lambda>q.
     bind_res (get_highest_precedence q s) (\<lambda>p.
       if p = null then Inr None
       else bind_res (deref (heap s) p) (\<lambda>r. Inr (if value_type r = ty then Some (m_value r) else None))))"

definition config_get_comp ::
  "('v, 't) uvm_env \<Rightarrow> 't \<Rightarrow> string option \<Rightarrow> string \<Rightarrow> string \<Rightarrow> ('v, 't) uvm_db \<Rightarrow> 'v option res" where
  "config_get_comp env ty cntxt inst field s =
     config_get env ty (case cntxt of None \<Rightarrow> [] | Some c \<Rightarrow> c) inst field s"

definition set_scope_of :: "string \<Rightarrow> string \<Rightarrow> string" where
  "set_scope_of cntxt inst = (if inst \<noteq> [] then cntxt @ ''.'' @ inst else if cntxt = [] then ''.*'' else cntxt)"

definition get_depth :: "string \<Rightarrow> nat" where
  "get_depth cntxt = length (filter (\<lambda>c. c = CHR ''.'') cntxt)"

text \<open>The first resource of type \<open>T\<close> that was made for the key, or null.\<close>

fun find_typed :: "(addr \<rightharpoonup> ('v, 't) rsrc) \<Rightarrow> 't \<Rightarrow> addr list \<Rightarrow> addr res" where
  "find_typed h ty [] = Inr null"
| "find_typed h ty (p # ps) =
     bind_res (deref h p) (\<lambda>r. if value_type r = ty then Inr p else find_typed h ty ps)"

definition rsrc_key_of :: "string \<Rightarrow> string \<Rightarrow> string" where
  "rsrc_key_of inst field = inst @ ''.'' @ field"

definition rsrc_map :: "string \<Rightarrow> ('v, 't) uvm_db \<Rightarrow> (string \<times> addr) list" where
  "rsrc_map cntxt s = (case map_of (m_rsrc_cntxt_map s) cntxt of None \<Rightarrow> [] | Some m \<Rightarrow> m)"

definition set_precedence_at :: "addr \<Rightarrow> 32 word \<Rightarrow> ('v, 't) uvm_db \<Rightarrow> ('v, 't) uvm_db res" where
  "set_precedence_at p n s =
     bind_res (deref (heap s) p) (\<lambda>r. Inr (s\<lparr>heap := (heap s)(p \<mapsto> set_precedence n r)\<rparr>))"

definition find_or_make ::
  "('v, 't) uvm_env \<Rightarrow> 't \<Rightarrow> string \<Rightarrow> string \<Rightarrow> string \<Rightarrow> ('v, 't) uvm_db \<Rightarrow> (addr \<times> ('v, 't) uvm_db) res" where
  "find_or_make env ty cntxt inst field s =
     (let m = rsrc_map cntxt s; key = rsrc_key_of inst field in
      bind_res (find_typed (heap s) ty (map snd (filter (\<lambda>e. fst e = key) m))) (\<lambda>p.
        let (p, m, s) =
          (if p = null then
             let (p, s) = new_rsrc (uvm_resource env ty field (set_scope_of cntxt inst)) s in (p, m @ [(key, p)], s)
           else (p, m, s))
        in Inr (p, s\<lparr>m_rsrc_cntxt_map := map_put cntxt m (m_rsrc_cntxt_map s)\<rparr>)))"

definition config_store ::
  "('v, 't) uvm_env \<Rightarrow> 't \<Rightarrow> string \<Rightarrow> string \<Rightarrow> string \<Rightarrow> 'v \<Rightarrow> ('v, 't) uvm_db \<Rightarrow> (addr \<times> ('v, 't) uvm_db) res" where
  "config_store env ty cntxt inst field v s =
     bind_res (find_or_make env ty cntxt inst field s) (\<lambda>(p, s).
     bind_res (set_precedence_at p
        (if curr_phase s = Some ''build'' then m_default_precedence - of_nat (get_depth cntxt)
         else m_default_precedence) s) (\<lambda>s.
     bind_res (write_at p v s) (\<lambda>s.
     bind_res (rsrc_pool_set_override p s) (\<lambda>s. Inr (p, s)))))"

definition config_set ::
  "('v, 't) uvm_env \<Rightarrow> 't \<Rightarrow> string \<Rightarrow> string \<Rightarrow> string \<Rightarrow> 'v \<Rightarrow> ('v, 't) uvm_db \<Rightarrow> ('v, 't) uvm_db res" where
  "config_set env ty cntxt inst field v s =
     bind_res (config_store env ty cntxt inst field v s) (\<lambda>(p, s). uvm_config_callback cntxt inst field p s)"

definition config_set_comp ::
  "('v, 't) uvm_env \<Rightarrow> 't \<Rightarrow> string option \<Rightarrow> string \<Rightarrow> string \<Rightarrow> 'v \<Rightarrow> ('v, 't) uvm_db \<Rightarrow> ('v, 't) uvm_db res" where
  "config_set_comp env ty cntxt inst field v s =
     config_set env ty (case cntxt of None \<Rightarrow> ''*'' | Some c \<Rightarrow> c) inst field v s"

definition config_exists ::
  "('v, 't) uvm_env \<Rightarrow> 't \<Rightarrow> string option \<Rightarrow> string \<Rightarrow> string \<Rightarrow> ('v, 't) uvm_db \<Rightarrow> bool res" where
  "config_exists env ty cntxt inst field s =
     db_exists env ty (get_scope (case cntxt of None \<Rightarrow> [] | Some c \<Rightarrow> c) inst) field s"

end
