(* ===== verification/Uvm_Database.thy ===== *)
theory Uvm_Database
  imports Uvm_Resource Cpp_Streams
begin

text \<open>
  What the configuration database promises. \<open>glob_matches\<close> is the meaning of a glob, \<open>boost_ok\<close> says that
  the regular expressions made of globs have it. The specification keeps, for every field, the settings
  made so far, and answers a request with the first of those that have the highest precedence; the
  relation \<open>db_rel\<close> ties it to the heap, the pool and the maps of the code.
\<close>

section \<open>Globs\<close>

definition is_sep :: "char \<Rightarrow> bool" where
  "is_sep c \<longleftrightarrow> c = CHR ''.'' \<or> c = CHR ''/''"

definition is_blank :: "char \<Rightarrow> bool" where
  "is_blank c \<longleftrightarrow> c = CHR '' '' \<or> c = CHR 0x09"

text \<open>\<open>*\<close> is any text, a blank any white space; \<open>?\<close> stands for a separator, and so do \<open>.\<close> and \<open>/\<close>.\<close>

fun glob_matches :: "string \<Rightarrow> string \<Rightarrow> bool" where
  "glob_matches [] s = (s = [])"
| "glob_matches (c # g) s =
     (if c = CHR ''*'' then \<exists>k\<in>{..length s}. glob_matches g (drop k s)
      else if is_blank c then \<exists>k\<in>{..length s}. list_all is_space (take k s) \<and> glob_matches g (drop k s)
      else if c = CHR ''?'' \<or> is_sep c then s \<noteq> [] \<and> is_sep (hd s) \<and> glob_matches g (tl s)
      else s \<noteq> [] \<and> hd s = c \<and> glob_matches g (tl s))"

definition plain_glob :: "string \<Rightarrow> bool" where
  "plain_glob g \<longleftrightarrow> g \<noteq> [] \<and> CHR ''|'' \<notin> set g \<and> \<not> (hd g = CHR ''/'' \<and> last g = CHR ''/'')"

definition boost_ok :: "('v, 't) uvm_env \<Rightarrow> bool" where
  "boost_ok env \<longleftrightarrow> (\<forall>g. plain_glob g \<longrightarrow> regex env (uvm_glob_to_regex g) = Some (glob_matches g))"

text \<open>A name without characters that mean something in a glob.\<close>

definition plain_char :: "char \<Rightarrow> bool" where
  "plain_char c \<longleftrightarrow> c \<noteq> CHR ''*'' \<and> c \<noteq> CHR ''?'' \<and> \<not> is_sep c \<and> \<not> is_blank c \<and> c \<noteq> CHR ''|''"

definition plain_name :: "string \<Rightarrow> bool" where
  "plain_name f \<longleftrightarrow> f \<noteq> [] \<and> list_all plain_char f"

lemma glob_matches_plain: "list_all plain_char f \<Longrightarrow> glob_matches f s \<longleftrightarrow> s = f"
proof (induction f arbitrary: s)
  case (Cons c f)
  then show ?case by (cases s) (auto simp: plain_char_def)
qed simp

lemma plain_name_glob: "plain_name f \<Longrightarrow> plain_glob f"
  by (cases f) (auto simp: plain_name_def plain_glob_def plain_char_def list_all_iff is_sep_def)

lemma regex_plain_name: "boost_ok env \<Longrightarrow> plain_name f \<Longrightarrow> regex env (uvm_glob_to_regex f) = Some (\<lambda>s. s = f)"
  using plain_name_glob [of f] by (auto simp: boost_ok_def plain_name_def glob_matches_plain fun_eq_iff)

lemma plain_name_no_dot: "plain_name f \<Longrightarrow> CHR ''.'' \<notin> set f"
  by (auto simp: plain_name_def plain_char_def list_all_iff is_sep_def)

text \<open>The key of a setting determines the instance and the field when the field has no dot.\<close>

lemma rsrc_key_inj:
  assumes "rsrc_key_of i f = rsrc_key_of i' f'" and "CHR ''.'' \<notin> set f" and "CHR ''.'' \<notin> set f'"
  shows "i = i' \<and> f = f'"
proof -
  have "takeWhile (\<lambda>c. c \<noteq> CHR ''.'') (rev (j @ CHR ''.'' # g)) = rev g" if "CHR ''.'' \<notin> set g" for j g
    using that by (simp, subst takeWhile_append2) auto
  then have "rev f = rev f'" using assms unfolding rsrc_key_of_def by (metis append_Cons append_Nil)
  then show ?thesis using assms(1) by (simp add: rsrc_key_of_def)
qed

section \<open>The specification\<close>

text \<open>\<open>st_key\<close> is the context and the instance of a setting of the configuration database.\<close>

record ('v, 't) setting =
  st_key :: "(string \<times> string) option"
  st_scope :: string
  st_type :: 't
  st_prec :: "32 word"
  st_value :: 'v

fun first_max :: "('v, 't) setting list \<Rightarrow> ('v, 't) setting option" where
  "first_max [] = None"
| "first_max (x # xs) =
     (case first_max xs of None \<Rightarrow> Some x | Some y \<Rightarrow> if st_prec x < st_prec y then Some y else Some x)"

definition visible :: "'t \<Rightarrow> string \<Rightarrow> ('v, 't) setting \<Rightarrow> bool" where
  "visible ty scope x \<longleftrightarrow> glob_matches (st_scope x) scope \<and> st_type x = ty"

definition spec_get :: "'t \<Rightarrow> string \<Rightarrow> ('v, 't) setting list \<Rightarrow> 'v option" where
  "spec_get ty scope xs = map_option st_value (first_max (filter (visible ty scope) xs))"

datatype ('v, 't) db_call =
    Config_Set 't string string string 'v
  | Resource_Set 't string string 'v
  | Resource_Set_Default 't string string
  | Resource_Set_Override 't string string 'v
  | Enter_Phase "string option"

fun do_call :: "('v, 't) uvm_env \<Rightarrow> ('v, 't) db_call \<Rightarrow> ('v, 't) uvm_db \<Rightarrow> ('v, 't) uvm_db res" where
  "do_call env (Config_Set ty c i f v) s = config_set env ty c i f v s"
| "do_call env (Resource_Set ty scope nm v) s = db_set env ty scope nm v s"
| "do_call env (Resource_Set_Default ty scope nm) s = bind_res (db_set_default env ty scope nm s) (\<lambda>(_, s). Inr s)"
| "do_call env (Resource_Set_Override ty scope nm v) s = db_set_override env ty scope nm v s"
| "do_call env (Enter_Phase ph) s = Inr (s\<lparr>curr_phase := ph\<rparr>)"

text \<open>The state of the specification: the current phase and the settings of every field, the newest first.\<close>

type_synonym ('v, 't) spec_db = "string option \<times> (string \<Rightarrow> ('v, 't) setting list)"

definition spec_prec :: "string option \<Rightarrow> string \<Rightarrow> 32 word" where
  "spec_prec ph c = (if ph = Some ''build'' then 1000 - of_nat (get_depth c) else 1000)"

fun spec_call :: "('v, 't) uvm_env \<Rightarrow> ('v, 't) db_call \<Rightarrow> ('v, 't) spec_db \<Rightarrow> ('v, 't) spec_db" where
  "spec_call env (Config_Set ty c i f v) (ph, A) =
     (ph, A(f := \<lparr>st_key = Some (c, i), st_scope = set_scope_of c i, st_type = ty, st_prec = spec_prec ph c, st_value = v\<rparr> #
        filter (\<lambda>x. \<not> (st_key x = Some (c, i) \<and> st_type x = ty)) (A f)))"
| "spec_call env (Resource_Set ty scope nm v) (ph, A) =
     (ph, A(nm := A nm @ [\<lparr>st_key = None, st_scope = scope, st_type = ty, st_prec = 1000, st_value = v\<rparr>]))"
| "spec_call env (Resource_Set_Default ty scope nm) (ph, A) =
     (ph, A(nm := A nm @ [\<lparr>st_key = None, st_scope = scope, st_type = ty, st_prec = 1000, st_value = initial env ty\<rparr>]))"
| "spec_call env (Resource_Set_Override ty scope nm v) (ph, A) =
     (ph, A(nm := \<lparr>st_key = None, st_scope = scope, st_type = ty, st_prec = 1000, st_value = v\<rparr> # A nm))"
| "spec_call env (Enter_Phase ph') (ph, A) = (ph', A)"

fun call_ok :: "('v, 't) db_call \<Rightarrow> bool" where
  "call_ok (Config_Set ty c i f v) = (plain_name f \<and> plain_glob (set_scope_of c i))"
| "call_ok (Resource_Set ty scope nm v) = plain_glob scope"
| "call_ok (Resource_Set_Default ty scope nm) = plain_glob scope"
| "call_ok (Resource_Set_Override ty scope nm v) = plain_glob scope"
| "call_ok (Enter_Phase ph) = True"

definition spec_run :: "('v, 't) uvm_env \<Rightarrow> ('v, 't) db_call list \<Rightarrow> ('v, 't) spec_db" where
  "spec_run env calls = foldl (\<lambda>st c. spec_call env c st) (None, \<lambda>_. []) calls"

definition db_run :: "('v, 't) uvm_env \<Rightarrow> ('v, 't) db_call list \<Rightarrow> ('v, 't) uvm_db \<Rightarrow> ('v, 't) uvm_db res" where
  "db_run env calls s = fold_res (do_call env) calls s"

definition new_db :: "nat list \<Rightarrow> ('v, 't) uvm_db" where
  "new_db cs = \<lparr>heap = (\<lambda>_. None), next_addr = 1, m_resource_q_map = [], m_rsrc_cntxt_map = [],
     uvm_config_callback_vec = Cb_Live cs, uvm_rsrc_callback_vec = [], curr_phase = None, events = []\<rparr>"

section \<open>The relation\<close>

definition queue :: "('v, 't) uvm_db \<Rightarrow> string \<Rightarrow> addr list" where
  "queue s nm = (case map_of (m_resource_q_map s) nm of Some (Some q) \<Rightarrow> q | _ \<Rightarrow> [])"

definition setting_rel :: "('v, 't) uvm_db \<Rightarrow> string \<Rightarrow> addr \<Rightarrow> ('v, 't) setting \<Rightarrow> bool" where
  "setting_rel s nm p x \<longleftrightarrow> (\<exists>r. heap s p = Some r \<and> m_name r = nm \<and> \<not> m_read_only r \<and>
     m_scope r = uvm_glob_to_regex (st_scope x) \<and> plain_glob (st_scope x) \<and> m_precedence r = st_prec x \<and>
     value_type r = st_type x \<and> m_value r = st_value x) \<and>
     (\<forall>c i. st_key x = Some (c, i) \<longleftrightarrow> (rsrc_key_of i nm, p) \<in> set (rsrc_map c s) \<and> CHR ''.'' \<notin> set nm) \<and>
     (\<forall>c i. st_key x = Some (c, i) \<longrightarrow> st_scope x = set_scope_of c i)"

definition cntxt_ok :: "('v, 't) uvm_db \<Rightarrow> bool" where
  "cntxt_ok s \<longleftrightarrow>
     (\<forall>c key p. (key, p) \<in> set (rsrc_map c s) \<longrightarrow>
        (\<exists>r i. heap s p = Some r \<and> key = rsrc_key_of i (m_name r) \<and> CHR ''.'' \<notin> set (m_name r) \<and> p \<in> set (queue s (m_name r)))) \<and>
     (\<forall>c key p p' r r'. (key, p) \<in> set (rsrc_map c s) \<longrightarrow> (key, p') \<in> set (rsrc_map c s) \<longrightarrow>
        heap s p = Some r \<longrightarrow> heap s p' = Some r' \<longrightarrow> value_type r = value_type r' \<longrightarrow> p = p')"

definition db_rel :: "('v, 't) uvm_db \<Rightarrow> ('v, 't) spec_db \<Rightarrow> bool" where
  "db_rel s A \<longleftrightarrow> 0 < next_addr s \<and> (\<forall>p r. heap s p = Some r \<longrightarrow> 0 < p \<and> p < next_addr s) \<and>
     map_ok (m_resource_q_map s) \<and> None \<notin> snd ` set (m_resource_q_map s) \<and>
     (\<forall>nm. distinct (queue s nm) \<and> list_all2 (setting_rel s nm) (queue s nm) (snd A nm)) \<and>
     cntxt_ok s \<and> curr_phase s = fst A"


lemma queue_new_db [simp]: "queue (new_db cs) nm = []" "rsrc_map c (new_db cs) = []"
  by (simp_all add: queue_def new_db_def rsrc_map_def)

lemma new_db_rel: "db_rel (new_db cs) (None, \<lambda>_. [])"
  by (simp add: db_rel_def cntxt_ok_def) (simp add: new_db_def)

section \<open>Requests\<close>

lemma filter_key:
  assumes "map_ok m"
  shows "filter (\<lambda>e. fst e = k) m = (case map_of m k of None \<Rightarrow> [] | Some v \<Rightarrow> [(k, v)])"
proof -
  have "distinct (map fst m)" by (rule map_ok_distinct [OF assms])
  then show ?thesis
  proof (induction m)
    case (Cons e m)
    have "filter (\<lambda>e'. fst e' = fst e) m = []" using Cons.prems by (auto simp: filter_empty_conv rev_image_eqI)
    then show ?case using Cons by (cases e) auto
  qed simp
qed

lemma rel_queue:
  assumes "db_rel s A"
  shows "distinct (queue s nm)" and "list_all2 (setting_rel s nm) (queue s nm) (snd A nm)"
  using assms by (auto simp: db_rel_def)

lemma map_of_queue:
  assumes "db_rel s A"
  shows "map_of (m_resource_q_map s) nm = None \<and> queue s nm = [] \<or> map_of (m_resource_q_map s) nm = Some (Some (queue s nm))"
proof -
  have "map_of (m_resource_q_map s) nm \<noteq> Some None"
    using assms map_of_SomeD [of "m_resource_q_map s" nm None] unfolding db_rel_def by (metis image_eqI snd_conv)
  then show ?thesis by (auto simp: queue_def split: option.splits)
qed

lemma lookup_regex_queue:
  assumes "db_rel s A" and "boost_ok env" and "plain_name f"
  shows "lookup_regex env scope f ty s =
    filter_res (\<lambda>p. bind_res (deref (heap s) p) (\<lambda>r. bind_res (match_scope env r scope) (\<lambda>b.
      Inr (b \<and> Type_Value (value_type r) = ty)))) (queue s f)"
proof -
  have "map_ok (m_resource_q_map s)" using assms(1) by (simp add: db_rel_def)
  then show ?thesis
    using map_of_queue [OF assms(1), of f]
    by (auto simp: lookup_regex_def regex_plain_name [OF assms(2,3)] filter_key queue_at_def)
qed

lemma filter_res_rel:
  assumes "list_all2 R ps xs" and "\<And>p x. R p x \<Longrightarrow> P p = Inr (Q x)"
  shows "\<exists>qs. filter_res P ps = Inr qs \<and> list_all2 R qs (filter Q xs)"
  using assms(1)
proof (induction rule: list_all2_induct)
  case (Cons p ps x xs)
  then show ?case using assms(2) [OF Cons.hyps(1)] by auto
qed simp

lemma highest_from_rel:
  assumes "list_all2 R ps xs" and "R b y" and "\<And>p x. R p x \<Longrightarrow> \<exists>r. deref h p = Inr r \<and> m_precedence r = st_prec x"
  shows "\<exists>p x. highest_from h ps b (st_prec y) = Inr p \<and> first_max (y # xs) = Some x \<and> R p x"
  using assms(1,2)
proof (induction arbitrary: b y rule: list_all2_induct)
  case (Cons p ps x xs)
  obtain r where r: "deref h p = Inr r" "m_precedence r = st_prec x" using assms(3) [OF Cons.hyps(1)] by blast
  show ?case
  proof (cases "st_prec y < st_prec x")
    case True
    then have "first_max (y # x # xs) = first_max (x # xs)"
      by (auto split: option.splits if_splits)
    then show ?thesis using True r Cons.IH [OF Cons.hyps(1)] by simp
  next
    case False
    then have "first_max (y # x # xs) = first_max (y # xs)"
      by (auto split: option.splits)
    then show ?thesis using False r Cons.IH [OF Cons.prems] by simp
  qed
qed simp

lemma rel_deref:
  assumes "db_rel s A" and "setting_rel s nm p x"
  obtains r where "deref (heap s) p = Inr r" and "heap s p = Some r" and "p \<noteq> null" and "m_precedence r = st_prec x"
    and "value_type r = st_type x" and "m_value r = st_value x" and "m_scope r = uvm_glob_to_regex (st_scope x)"
    and "plain_glob (st_scope x)" and "m_name r = nm" and "\<not> m_read_only r"
proof -
  obtain r where r: "heap s p = Some r" "m_precedence r = st_prec x" "value_type r = st_type x" "m_value r = st_value x"
    "m_scope r = uvm_glob_to_regex (st_scope x)" "plain_glob (st_scope x)" "m_name r = nm" "\<not> m_read_only r"
    using assms(2) by (auto simp: setting_rel_def)
  moreover have "p \<noteq> 0" using assms(1) r(1) by (auto simp: db_rel_def)
  ultimately show thesis using that by simp
qed

lemma first_max_in: "first_max xs = Some x \<Longrightarrow> x \<in> set xs"
  by (induction xs) (auto split: option.splits if_splits)

lemma config_get_rel:
  assumes rel: "db_rel s A" and "boost_ok env" and "plain_name f"
  shows "config_get env ty c i f s = Inr (spec_get ty (get_scope c i) (snd A f))"
proof -
  let ?Q = "visible ty (get_scope c i)"
  let ?P = "\<lambda>p. bind_res (deref (heap s) p) (\<lambda>r. bind_res (match_scope env r (get_scope c i)) (\<lambda>b.
      Inr (b \<and> Type_Value (value_type r) = Type_Value ty)))"
  have P: "?P p = Inr (?Q x)" if x: "setting_rel s f p x" for p x
  proof -
    obtain r where r: "deref (heap s) p = Inr r" "value_type r = st_type x" "m_scope r = uvm_glob_to_regex (st_scope x)"
      "plain_glob (st_scope x)"
      using rel_deref [OF rel x] by metis
    then show ?thesis using assms(2) by (auto simp: match_scope_def boost_ok_def visible_def)
  qed
  obtain qs where qs: "filter_res ?P (queue s f) = Inr qs" "list_all2 (setting_rel s f) qs (filter ?Q (snd A f))"
    using filter_res_rel [where R = "setting_rel s f" and P = ?P and Q = ?Q, OF rel_queue(2) [OF rel] P] by auto
  have look: "lookup_regex env (get_scope c i) f (Type_Value ty) s = Inr qs"
    using lookup_regex_queue [OF assms] qs(1) by simp
  have d: "\<exists>r. deref (heap s) p = Inr r \<and> m_precedence r = st_prec x" if "setting_rel s f p x" for p x
    using rel_deref [OF rel that] by metis
  show ?thesis
  proof (cases "filter ?Q (snd A f)")
    case Nil
    then show ?thesis using qs(2) look by (simp add: config_get_def get_highest_precedence_def spec_get_def)
  next
    case (Cons y ys)
    then obtain b ps where b: "qs = b # ps" "setting_rel s f b y" "list_all2 (setting_rel s f) ps ys"
      using qs(2) by (auto simp: list_all2_Cons2)
    obtain p x where px: "highest_from (heap s) ps b (st_prec y) = Inr p" "first_max (y # ys) = Some x" "setting_rel s f p x"
      using highest_from_rel [OF b(3,2) d] by blast
    obtain r where r: "deref (heap s) p = Inr r" "p \<noteq> null" "value_type r = st_type x" "m_value r = st_value x"
      using rel_deref [OF rel px(3)] by metis
    have "get_highest_precedence qs s = Inr p"
      using b(1) px(1) d [OF b(2)] by (auto simp: get_highest_precedence_def)
    moreover have "x \<in> set (y # ys)" by (rule first_max_in [OF px(2)])
    then have "x \<in> set (filter ?Q (snd A f))" using Cons by simp
    then have "st_type x = ty" by (simp add: visible_def)
    ultimately show ?thesis using look r px(2) Cons by (simp add: config_get_def spec_get_def)
  qed
qed


section \<open>Changes\<close>

lemma setting_rel_frame:
  assumes "setting_rel s nm p x" and "heap s' p = heap s p"
    and "\<And>c key. (key, p) \<in> set (rsrc_map c s') \<longleftrightarrow> (key, p) \<in> set (rsrc_map c s)"
  shows "setting_rel s' nm p x"
  using assms unfolding setting_rel_def by simp

lemma queue_in_heap:
  assumes "db_rel s A" and "p \<in> set (queue s nm)"
  obtains r where "heap s p = Some r" and "m_name r = nm"
proof -
  obtain x where "setting_rel s nm p x"
    using rel_queue(2) [OF assms(1), of nm] assms(2) by (metis in_set_conv_nth list_all2_conv_all_nth)
  then show thesis using that by (auto simp: setting_rel_def)
qed

text \<open>A call writes one resource, its queue, and its entry in the map of a context.\<close>

lemma rel_update:
  assumes rel: "db_rel s (ph, A)"
    and heap: "heap s' = (heap s)(p \<mapsto> r)" "next_addr s \<le> next_addr s'" "0 < p" "p < next_addr s'" "m_name r = f"
    and pool: "m_resource_q_map s' = map_put f (Some q) (m_resource_q_map s)" "curr_phase s' = ph"
    and maps: "\<And>c key p'. p' \<noteq> p \<Longrightarrow> (key, p') \<in> set (rsrc_map c s') \<longleftrightarrow> (key, p') \<in> set (rsrc_map c s)"
    and q: "distinct q" "set q = insert p (set (queue s f))" "\<And>nm. nm \<noteq> f \<Longrightarrow> p \<notin> set (queue s nm)"
    and xs: "list_all2 (setting_rel s' f) q xs"
    and own: "\<And>c key. (key, p) \<in> set (rsrc_map c s') \<Longrightarrow> \<exists>i. key = rsrc_key_of i f \<and> CHR ''.'' \<notin> set f"
    and uniq: "\<And>c key p' r'. (key, p) \<in> set (rsrc_map c s') \<Longrightarrow> (key, p') \<in> set (rsrc_map c s) \<Longrightarrow>
      heap s p' = Some r' \<Longrightarrow> value_type r = value_type r' \<Longrightarrow> p' = p"
  shows "db_rel s' (ph, A(f := xs))"
proof -
  have queue: "queue s' nm = (if nm = f then q else queue s nm)" for nm
    by (simp add: queue_def pool(1) map_of_map_put)
  have other: "list_all2 (setting_rel s' nm) (queue s nm) (A nm)" if nm: "nm \<noteq> f" for nm
  proof (rule list.rel_mono_strong [OF rel_queue(2) [OF rel, of nm, simplified]])
    fix p' x assume p': "p' \<in> set (queue s nm)" and "setting_rel s nm p' x"
    then have "p' \<noteq> p" using q(3) [OF nm] by blast
    then show "setting_rel s' nm p' x"
      using setting_rel_frame [OF \<open>setting_rel s nm p' x\<close>, of s'] maps by (simp add: heap(1))
  qed
  have heap_s: "0 < p' \<and> p' < next_addr s" if "heap s p' = Some r'" for p' r' using rel that by (auto simp: db_rel_def)
  have cs: "cntxt_ok s" using rel by (simp add: db_rel_def)
  have "cntxt_ok s'"
    unfolding cntxt_ok_def
  proof (intro conjI allI impI)
    fix c key p' assume k: "(key, p') \<in> set (rsrc_map c s')"
    show "\<exists>r i. heap s' p' = Some r \<and> key = rsrc_key_of i (m_name r) \<and> CHR ''.'' \<notin> set (m_name r) \<and>
      p' \<in> set (queue s' (m_name r))"
    proof (cases "p' = p")
      case True
      then show ?thesis using own [of key c] k heap(5) q(2) by (auto simp: heap(1) queue)
    next
      case False
      then have "(key, p') \<in> set (rsrc_map c s)" using maps k by blast
      then obtain r' i where "heap s p' = Some r'" "key = rsrc_key_of i (m_name r')" "CHR ''.'' \<notin> set (m_name r')"
        "p' \<in> set (queue s (m_name r'))"
        using cs unfolding cntxt_ok_def by blast
      then show ?thesis using False q(2) by (auto simp: heap(1) queue)
    qed
  next
    fix c key p1 p2 r1 r2
    assume k: "(key, p1) \<in> set (rsrc_map c s')" "(key, p2) \<in> set (rsrc_map c s')"
      and h: "heap s' p1 = Some r1" "heap s' p2 = Some r2" and t: "value_type r1 = value_type r2"
    show "p1 = p2"
    proof (cases "p1 = p \<or> p2 = p")
      case True
      then show ?thesis
        using k h t uniq [of key c] maps by (metis fun_upd_apply heap(1) option.inject)
    next
      case False
      then show ?thesis using k h t maps cs unfolding cntxt_ok_def by (metis fun_upd_apply heap(1))
    qed
  qed
  moreover have "map_ok (m_resource_q_map s')" using rel pool(1) by (simp add: db_rel_def map_ok_put)
  moreover have "None \<notin> snd ` set (m_resource_q_map s')"
    using rel pool(1) set_map_put_subset [of f "Some q" "m_resource_q_map s"] by (force simp: db_rel_def)
  moreover have "0 < p' \<and> p' < next_addr s'" if "heap s' p' = Some r'" for p' r'
    using that heap heap_s [of p' r'] by (auto split: if_splits)
  moreover have "distinct (queue s' nm) \<and> list_all2 (setting_rel s' nm) (queue s' nm) ((A(f := xs)) nm)" for nm
    using q(1) xs other rel_queue(1) [OF rel] by (simp add: queue)
  ultimately show ?thesis using heap(3,4) pool(2) unfolding db_rel_def by simp
qed


text \<open>What the steps of a call do when they go through a live pointer.\<close>

lemma write_at_live:
  assumes "heap s p = Some r" and "p \<noteq> null" and "\<not> m_read_only r"
  obtains es where "write_at p v s = Inr (s\<lparr>heap := (heap s)(p \<mapsto> r\<lparr>m_value := v\<rparr>), events := es\<rparr>)"
proof (cases "v = m_value r")
  case True
  then have "r\<lparr>m_value := v\<rparr> = r" by simp
  then show thesis using assms True that [of "events s"] by (simp add: write_at_def write_rsrc_def emit_def)
next
  case False
  then show thesis using assms that [of "events s @ [Modified p]"] by (simp add: write_at_def write_rsrc_def emit_def)
qed

lemma pool_set_live:
  assumes "heap s p = Some r" and "p \<noteq> null" and "map_of (m_resource_q_map s) (m_name r) \<noteq> Some None"
  shows "rsrc_pool_set p ov s = Inr (s\<lparr>m_resource_q_map := map_put (m_name r)
    (Some (if ov then p # remove1 p (queue s (m_name r)) else remove1 p (queue s (m_name r)) @ [p])) (m_resource_q_map s)\<rparr>)"
  using assms by (auto simp: rsrc_pool_set_def queue_at_def queue_def split: option.splits)

lemma rel_not_null: "db_rel s A \<Longrightarrow> map_of (m_resource_q_map s) nm \<noteq> Some None"
  using map_of_queue [of s A nm] by auto

lemma rsrc_map_update [simp]:
  "rsrc_map c (s\<lparr>heap := h\<rparr>) = rsrc_map c s" "rsrc_map c (s\<lparr>next_addr := a\<rparr>) = rsrc_map c s"
  "rsrc_map c (s\<lparr>m_resource_q_map := m\<rparr>) = rsrc_map c s" "rsrc_map c (s\<lparr>events := es\<rparr>) = rsrc_map c s"
  "rsrc_map c (s\<lparr>m_rsrc_cntxt_map := map_put c' es' (m_rsrc_cntxt_map s)\<rparr>) = (if c = c' then es' else rsrc_map c s)"
  by (simp_all add: rsrc_map_def map_of_map_put)

lemma queue_update [simp]:
  "queue (s\<lparr>heap := h\<rparr>) = queue s" "queue (s\<lparr>next_addr := a\<rparr>) = queue s"
  "queue (s\<lparr>events := es\<rparr>) = queue s" "queue (s\<lparr>m_rsrc_cntxt_map := cm\<rparr>) = queue s"
  by (simp_all add: queue_def fun_eq_iff)

lemma db_rel_events: "db_rel (s\<lparr>events := es\<rparr>) A = db_rel s A"
proof -
  have "setting_rel (s\<lparr>events := es\<rparr>) = setting_rel s" by (simp add: fun_eq_iff setting_rel_def)
  then show ?thesis by (simp add: db_rel_def cntxt_ok_def)
qed

lemma fresh_addr:
  assumes "db_rel s A"
  shows "next_addr s \<noteq> 0" and "heap s (next_addr s) = None" and "next_addr s \<notin> set (queue s nm)"
    and "(key, next_addr s) \<notin> set (rsrc_map c s)"
proof -
  show "next_addr s \<noteq> 0" and h: "heap s (next_addr s) = None"
    using assms by (auto simp: db_rel_def dest: spec [of _ "next_addr s"])
  show "next_addr s \<notin> set (queue s nm)" using queue_in_heap [OF assms, of "next_addr s" nm] h by auto
  show "(key, next_addr s) \<notin> set (rsrc_map c s)" using assms h unfolding db_rel_def cntxt_ok_def by fastforce
qed

text \<open>A resource that is made and filed under its name, at the front or at the back.\<close>

lemma new_resource_rel:
  fixes env :: "('v, 't) uvm_env" and v :: 'v and ty :: 't and nm :: string and ov :: bool
  assumes rel: "db_rel s (ph, A)" and g: "plain_glob scope"
  defines "p \<equiv> next_addr s"
  defines "s' \<equiv> s\<lparr>heap := (heap s)(p \<mapsto> uvm_resource env ty nm scope\<lparr>m_value := v\<rparr>), next_addr := Suc p,
      m_resource_q_map := map_put nm (Some (if ov then p # queue s nm else queue s nm @ [p])) (m_resource_q_map s)\<rparr>"
    and "x \<equiv> \<lparr>st_key = None, st_scope = scope, st_type = ty, st_prec = 1000, st_value = v\<rparr>"
  shows "db_rel s' (ph, A(nm := (if ov then x # A nm else A nm @ [x])))"
proof -
  note fr = fresh_addr [OF rel, folded p_def]
  have maps: "rsrc_map c s' = rsrc_map c s" for c by (simp add: s'_def rsrc_map_def)
  have x: "setting_rel s' nm p x"
    using g fr(4) by (auto simp: setting_rel_def s'_def x_def uvm_resource_def set_scope_def m_default_precedence_def rsrc_map_def)
  have old: "list_all2 (setting_rel s' nm) (queue s nm) (A nm)"
  proof (rule list.rel_mono_strong [OF rel_queue(2) [OF rel, of nm, simplified]])
    fix p' y assume p': "p' \<in> set (queue s nm)" and y: "setting_rel s nm p' y"
    then have "p' \<noteq> p" using fr(3) by blast
    then show "setting_rel s' nm p' y" using setting_rel_frame [OF y, of s'] maps by (simp add: s'_def)
  qed
  show ?thesis
  proof (rule rel_update [OF rel, of s' p "uvm_resource env ty nm scope\<lparr>m_value := v\<rparr>" nm
        "if ov then p # queue s nm else queue s nm @ [p]"])
    show "list_all2 (setting_rel s' nm) (if ov then p # queue s nm else queue s nm @ [p]) (if ov then x # A nm else A nm @ [x])"
      using x old by (simp add: list_all2_appendI)
    show "distinct (if ov then p # queue s nm else queue s nm @ [p])" using fr(3) rel_queue(1) [OF rel] by simp
  qed (use fr rel in \<open>auto simp: maps s'_def p_def uvm_resource_def set_scope_def db_rel_def\<close>)
qed

lemma remove1_fresh: "db_rel s A \<Longrightarrow> remove1 (next_addr s) (queue s nm) = queue s nm"
  using fresh_addr(3) [of s A nm] by (simp add: remove1_idem)

lemma db_set_rel:
  assumes rel: "db_rel s (ph, A)" and g: "plain_glob scope"
  shows "\<exists>s'. db_set env ty scope nm v s = Inr s' \<and> db_rel s' (spec_call env (Resource_Set ty scope nm v) (ph, A)) \<and>
      uvm_config_callback_vec s' = uvm_config_callback_vec s"
    and "\<exists>s'. db_set_override env ty scope nm v s = Inr s' \<and>
      db_rel s' (spec_call env (Resource_Set_Override ty scope nm v) (ph, A)) \<and>
      uvm_config_callback_vec s' = uvm_config_callback_vec s"
    and "\<exists>s' p. db_set_default env ty scope nm s = Inr (p, s') \<and>
      db_rel s' (spec_call env (Resource_Set_Default ty scope nm) (ph, A)) \<and>
      uvm_config_callback_vec s' = uvm_config_callback_vec s"
proof -
  let ?p = "next_addr s" let ?r = "uvm_resource env ty nm scope"
  note fr = fresh_addr [OF rel]
  have nm: "m_name ?r = nm" "\<not> m_read_only ?r" "m_value ?r = initial env ty" by (simp_all add: uvm_resource_def set_scope_def)
  let ?s = "s\<lparr>heap := (heap s)(?p \<mapsto> ?r), next_addr := Suc ?p\<rparr>"
  let ?s' = "\<lambda>v ov. s\<lparr>heap := (heap s)(?p \<mapsto> ?r\<lparr>m_value := v\<rparr>), next_addr := Suc ?p,
      m_resource_q_map := map_put nm (Some (if ov then ?p # queue s nm else queue s nm @ [?p])) (m_resource_q_map s)\<rparr>"
  have step: "\<exists>es. bind_res (write_at ?p v ?s) (rsrc_pool_set ?p ov) = Inr (?s' v ov\<lparr>events := es\<rparr>)" for ov
  proof -
    obtain es where w: "write_at ?p v ?s = Inr (?s\<lparr>heap := (heap ?s)(?p \<mapsto> ?r\<lparr>m_value := v\<rparr>), events := es\<rparr>)"
      by (rule write_at_live [of ?s ?p ?r v]) (use fr(1) nm in auto)
    have "rsrc_pool_set ?p ov (?s\<lparr>heap := (heap ?s)(?p \<mapsto> ?r\<lparr>m_value := v\<rparr>), events := es\<rparr>) = Inr (?s' v ov\<lparr>events := es\<rparr>)"
      by (subst pool_set_live [where r = "?r\<lparr>m_value := v\<rparr>"])
        (use fr(1) nm rel_not_null [OF rel] remove1_fresh [OF rel] in \<open>auto simp: queue_def\<close>)
    then show ?thesis unfolding w bind_res.simps by blast
  qed
  show "\<exists>s'. db_set env ty scope nm v s = Inr s' \<and> db_rel s' (spec_call env (Resource_Set ty scope nm v) (ph, A)) \<and>
      uvm_config_callback_vec s' = uvm_config_callback_vec s"
    using step [of False] new_resource_rel [OF rel g, where env = env and ty = ty and nm = nm and v = v and ov = False]
    by (auto simp: db_set_def new_rsrc_def uvm_rsrc_callback_def emit_def db_rel_events bind_res_assoc [symmetric])
  show "\<exists>s'. db_set_override env ty scope nm v s = Inr s' \<and>
      db_rel s' (spec_call env (Resource_Set_Override ty scope nm v) (ph, A)) \<and>
      uvm_config_callback_vec s' = uvm_config_callback_vec s"
    using step [of True] new_resource_rel [OF rel g, where env = env and ty = ty and nm = nm and v = v and ov = True]
    by (auto simp: db_set_override_def rsrc_pool_set_override_def new_rsrc_def uvm_rsrc_callback_def emit_def db_rel_events
        bind_res_assoc [symmetric])
  have id: "?r\<lparr>m_value := initial env ty\<rparr> = ?r" using nm(3) by (metis rsrc.surjective rsrc.update_convs(5))
  have "rsrc_pool_set ?p False ?s = Inr (s\<lparr>heap := (heap s)(?p \<mapsto> ?r), next_addr := Suc ?p,
      m_resource_q_map := map_put nm (Some (queue s nm @ [?p])) (m_resource_q_map s)\<rparr>)"
    by (subst pool_set_live [where r = ?r])
      (use fr(1) nm rel_not_null [OF rel] remove1_fresh [OF rel] in \<open>auto simp: queue_def\<close>)
  then have "rsrc_pool_set ?p False ?s = Inr (?s' (initial env ty) False)" by (simp only: id if_False)
  then show "\<exists>s' p. db_set_default env ty scope nm s = Inr (p, s') \<and>
      db_rel s' (spec_call env (Resource_Set_Default ty scope nm) (ph, A)) \<and>
      uvm_config_callback_vec s' = uvm_config_callback_vec s"
    using new_resource_rel [OF rel g, where env = env and ty = ty and nm = nm and v = "initial env ty" and ov = False]
    by (auto simp: db_set_default_def new_rsrc_def uvm_rsrc_callback_def emit_def db_rel_events)
qed


text \<open>The resource of a key: the one the database made for it, or a new one.\<close>

lemma find_typed_first:
  assumes "\<And>p. p \<in> set ps \<Longrightarrow> \<exists>r. deref h p = Inr r \<and> h p = Some r"
  shows "(\<exists>p r. find_typed h ty ps = Inr p \<and> p \<in> set ps \<and> h p = Some r \<and> value_type r = ty) \<or>
    find_typed h ty ps = Inr null \<and> (\<forall>p\<in>set ps. \<forall>r. h p = Some r \<longrightarrow> value_type r \<noteq> ty)"
  using assms
proof (induction ps)
  case (Cons p ps)
  obtain r where r: "deref h p = Inr r" "h p = Some r" using Cons.prems by auto
  show ?case
  proof (cases "value_type r = ty")
    case False
    have "\<And>p. p \<in> set ps \<Longrightarrow> \<exists>r. deref h p = Inr r \<and> h p = Some r" using Cons.prems by auto
    from Cons.IH [OF this] show ?thesis using r False by auto
  qed (use r in auto)
qed simp

lemma rel_key_iff:
  assumes rel: "db_rel s A" and f: "CHR ''.'' \<notin> set f" and x: "setting_rel s f p x"
  shows "st_key x = Some (c, i) \<longleftrightarrow> p \<in> snd ` {e \<in> set (rsrc_map c s). fst e = rsrc_key_of i f}"
  using x f by (force simp: setting_rel_def)

lemma find_or_make_rel:
  assumes rel: "db_rel s (ph, A)" and f: "plain_name f" and g: "plain_glob (set_scope_of c i)"
  obtains p s1 r where "find_or_make env ty c i f s = Inr (p, s1)"
    and "heap s1 = (heap s)(p \<mapsto> r)" and "next_addr s \<le> next_addr s1" and "0 < p" and "p < next_addr s1"
    and "m_name r = f" and "\<not> m_read_only r" and "m_scope r = uvm_glob_to_regex (set_scope_of c i)" and "value_type r = ty"
    and "m_resource_q_map s1 = m_resource_q_map s" and "curr_phase s1 = ph"
    and "uvm_config_callback_vec s1 = uvm_config_callback_vec s"
    and "\<And>c' key p'. p' \<noteq> p \<Longrightarrow> (key, p') \<in> set (rsrc_map c' s1) \<longleftrightarrow> (key, p') \<in> set (rsrc_map c' s)"
    and "\<And>c' key. (key, p) \<in> set (rsrc_map c' s1) \<longleftrightarrow> c' = c \<and> key = rsrc_key_of i f"
    and "\<And>p' r'. (rsrc_key_of i f, p') \<in> set (rsrc_map c s) \<Longrightarrow> heap s p' = Some r' \<Longrightarrow> value_type r' = ty \<Longrightarrow> p' = p"
    and "\<And>nm. nm \<noteq> f \<Longrightarrow> p \<notin> set (queue s nm)"
    and "\<And>x. p \<in> set (queue s f) \<Longrightarrow> setting_rel s f p x \<Longrightarrow> st_key x = Some (c, i) \<and> st_type x = ty"
proof -
  let ?key = "rsrc_key_of i f"
  let ?ps = "map snd (filter (\<lambda>e. fst e = ?key) (rsrc_map c s))"
  have dot: "CHR ''.'' \<notin> set f" by (rule plain_name_no_dot [OF f])
  have cs: "cntxt_ok s" using rel by (simp add: db_rel_def)
  have ph: "curr_phase s = ph" using rel by (simp add: db_rel_def)
  have mem: "p \<in> set ?ps \<longleftrightarrow> (?key, p) \<in> set (rsrc_map c s)" for p by force
  have own: "\<exists>r i'. heap s p = Some r \<and> key = rsrc_key_of i' (m_name r) \<and> CHR ''.'' \<notin> set (m_name r) \<and> p \<in> set (queue s (m_name r))"
    if "(key, p) \<in> set (rsrc_map c' s)" for key p c'
    using cs that unfolding cntxt_ok_def by blast
  have "\<exists>r. deref (heap s) p = Inr r \<and> heap s p = Some r" if "p \<in> set ?ps" for p
  proof -
    note p = that [unfolded mem]
    obtain r where r: "heap s p = Some r" using own [OF p] by blast
    then have "0 < p" using rel by (auto simp: db_rel_def)
    then show ?thesis using r by simp
  qed
  from find_typed_first [where ps = ?ps and h = "heap s" and ty = ty, OF this] show thesis
  proof
    assume "\<exists>p r. find_typed (heap s) ty ?ps = Inr p \<and> p \<in> set ?ps \<and> heap s p = Some r \<and> value_type r = ty"
    then obtain p r where p: "find_typed (heap s) ty ?ps = Inr p" "(?key, p) \<in> set (rsrc_map c s)" "heap s p = Some r"
      "value_type r = ty"
      unfolding mem by blast
    obtain i' where "?key = rsrc_key_of i' (m_name r)" "CHR ''.'' \<notin> set (m_name r)" and q: "p \<in> set (queue s (m_name r))"
      using own [OF p(2)] p(3) by auto
    then have nm: "m_name r = f" using rsrc_key_inj dot by metis
    obtain x where x: "setting_rel s f p x"
      using rel_queue(2) [OF rel, of f] q nm by (metis in_set_conv_nth list_all2_conv_all_nth)
    have key: "st_key x = Some (c, i)" using x p(2) dot by (simp add: setting_rel_def)
    have pos: "0 < p" "p < next_addr s" using rel p(3) by (auto simp: db_rel_def)
    let ?s1 = "s\<lparr>m_rsrc_cntxt_map := map_put c (rsrc_map c s) (m_rsrc_cntxt_map s)\<rparr>"
    have eq: "find_or_make env ty c i f s = Inr (p, ?s1)"
      using p(1) pos(1) by (simp add: find_or_make_def)
    have all: "(key, p) \<in> set (rsrc_map c' s) \<longleftrightarrow> c' = c \<and> key = ?key" for key c'
    proof
      assume k: "(key, p) \<in> set (rsrc_map c' s)"
      then obtain j where j: "key = rsrc_key_of j f" using own [OF k] p(3) nm by auto
      then have "st_key x = Some (c', j)" using x k dot by (simp add: setting_rel_def)
      then show "c' = c \<and> key = ?key" using key j by simp
    qed (use p(2) in simp)
    show thesis
    proof (rule that [OF eq, of r])
      show "m_scope r = uvm_glob_to_regex (set_scope_of c i)" "\<not> m_read_only r"
        using x key p(3) by (auto simp: setting_rel_def)
      show "p' = p" if "(?key, p') \<in> set (rsrc_map c s)" "heap s p' = Some r'" "value_type r' = ty" for p' r'
        using cs that p(2-4) unfolding cntxt_ok_def by metis
      show "p \<notin> set (queue s nm')" if "nm' \<noteq> f" for nm'
        using queue_in_heap [OF rel, of p nm'] p(3) nm that by auto
      show "st_key x = Some (c, i) \<and> st_type x = ty" if "p \<in> set (queue s f)" "setting_rel s f p x" for x
        using that(2) p(2-4) dot by (auto simp: setting_rel_def)
    qed (use p pos nm all ph in \<open>auto split: if_splits\<close>)
  next
    assume "find_typed (heap s) ty ?ps = Inr null \<and> (\<forall>p\<in>set ?ps. \<forall>r. heap s p = Some r \<longrightarrow> value_type r \<noteq> ty)"
    then have n: "find_typed (heap s) ty ?ps = Inr null"
      and none: "\<And>p r. (?key, p) \<in> set (rsrc_map c s) \<Longrightarrow> heap s p = Some r \<Longrightarrow> value_type r \<noteq> ty"
      unfolding mem Ball_def by blast+
    let ?p = "next_addr s" let ?r = "uvm_resource env ty f (set_scope_of c i)"
    note fr = fresh_addr [OF rel]
    let ?s1 = "s\<lparr>heap := (heap s)(?p \<mapsto> ?r), next_addr := Suc ?p,
      m_rsrc_cntxt_map := map_put c (rsrc_map c s @ [(?key, ?p)]) (m_rsrc_cntxt_map s)\<rparr>"
    have maps: "rsrc_map c' ?s1 = (if c' = c then rsrc_map c s @ [(?key, ?p)] else rsrc_map c' s)" for c'
      by (simp add: rsrc_map_def map_of_map_put)
    have eq: "find_or_make env ty c i f s = Inr (?p, ?s1)"
      using n by (simp add: find_or_make_def new_rsrc_def)
    show thesis
      by (rule that [OF eq, of ?r])
        (use fr none ph maps in \<open>auto simp: uvm_resource_def set_scope_def split: if_splits\<close>)
  qed
qed


lemma list_all2_filter:
  assumes "list_all2 R ps xs" and "\<And>p x. p \<in> set ps \<Longrightarrow> R p x \<Longrightarrow> P p \<longleftrightarrow> Q x"
  shows "list_all2 R (filter P ps) (filter Q xs)"
  using assms by (induction rule: list_all2_induct) auto

lemma config_store_rel:
  assumes rel: "db_rel s (ph, A)" and f: "plain_name f" and g: "plain_glob (set_scope_of c i)"
  shows "\<exists>p s'. config_store env ty c i f v s = Inr (p, s') \<and> db_rel s' (spec_call env (Config_Set ty c i f v) (ph, A)) \<and>
    uvm_config_callback_vec s' = uvm_config_callback_vec s"
proof -
  obtain p s1 r where make: "find_or_make env ty c i f s = Inr (p, s1)"
    and h1: "heap s1 = (heap s)(p \<mapsto> r)" "next_addr s \<le> next_addr s1" "0 < p" "p < next_addr s1"
    and r: "m_name r = f" "\<not> m_read_only r" "m_scope r = uvm_glob_to_regex (set_scope_of c i)" "value_type r = ty"
    and s1: "m_resource_q_map s1 = m_resource_q_map s" "curr_phase s1 = ph"
      "uvm_config_callback_vec s1 = uvm_config_callback_vec s"
    and maps: "\<And>c' key p'. p' \<noteq> p \<Longrightarrow> (key, p') \<in> set (rsrc_map c' s1) \<longleftrightarrow> (key, p') \<in> set (rsrc_map c' s)"
      "\<And>c' key. (key, p) \<in> set (rsrc_map c' s1) \<longleftrightarrow> c' = c \<and> key = rsrc_key_of i f"
    and only: "\<And>p' r'. (rsrc_key_of i f, p') \<in> set (rsrc_map c s) \<Longrightarrow> heap s p' = Some r' \<Longrightarrow> value_type r' = ty \<Longrightarrow> p' = p"
    and q: "\<And>nm. nm \<noteq> f \<Longrightarrow> p \<notin> set (queue s nm)"
    and old: "\<And>x. p \<in> set (queue s f) \<Longrightarrow> setting_rel s f p x \<Longrightarrow> st_key x = Some (c, i) \<and> st_type x = ty"
    by (rule find_or_make_rel [OF rel f g, of env ty]) (rule that; assumption)
  define n where "n = (if ph = Some ''build'' then m_default_precedence - of_nat (get_depth c) else m_default_precedence)"
  let ?r = "set_precedence n r\<lparr>m_value := v\<rparr>"
  let ?s2 = "s1\<lparr>heap := (heap s1)(p \<mapsto> set_precedence n r)\<rparr>"
  have prec: "set_precedence_at p n s1 = Inr ?s2" using h1 by (simp add: set_precedence_at_def)
  obtain es where w: "write_at p v ?s2 = Inr (?s2\<lparr>heap := (heap ?s2)(p \<mapsto> ?r), events := es\<rparr>)"
    by (rule write_at_live [of ?s2 p "set_precedence n r" v]) (use h1(3) r(2) in \<open>auto simp: set_precedence_def\<close>)
  let ?s3 = "?s2\<lparr>heap := (heap ?s2)(p \<mapsto> ?r), events := es\<rparr>"
  let ?q = "p # remove1 p (queue s f)"
  let ?s4 = "?s3\<lparr>m_resource_q_map := map_put f (Some ?q) (m_resource_q_map s)\<rparr>"
  have qs: "queue s1 = queue s" by (simp add: queue_def s1(1) fun_eq_iff)
  have pool: "rsrc_pool_set_override p ?s3 = Inr ?s4"
    unfolding rsrc_pool_set_override_def
    by (subst pool_set_live [where r = ?r])
      (use h1(3) r(1) rel_not_null [OF rel, of f] qs s1(1) in \<open>auto simp: set_precedence_def\<close>)
  have set: "config_store env ty c i f v s = Inr (p, ?s4)"
    using make prec w pool s1 by (simp add: config_store_def n_def [symmetric])
  let ?x = "\<lparr>st_key = Some (c, i), st_scope = set_scope_of c i, st_type = ty, st_prec = spec_prec ph c, st_value = v\<rparr>"
  let ?Q = "\<lambda>x. \<not> (st_key x = Some (c, i) \<and> st_type x = ty)"
  have dot: "CHR ''.'' \<notin> set f" by (rule plain_name_no_dot [OF f])
  have m4: "rsrc_map c' ?s4 = rsrc_map c' s1" for c' by (simp add: rsrc_map_def)
  have heap4: "heap ?s4 = (heap s)(p \<mapsto> ?r)" by (simp add: h1(1))
  have key_inj: "rsrc_key_of i' f = rsrc_key_of i f \<longleftrightarrow> i' = i" for i' using rsrc_key_inj dot by blast
  have new: "setting_rel ?s4 f p ?x"
    unfolding setting_rel_def m4 heap4
    using r g maps(2) dot key_inj
    by (auto simp: set_precedence_def spec_prec_def m_default_precedence_def n_def)
  have mark: "p' \<noteq> p \<longleftrightarrow> ?Q x" if p': "p' \<in> set (queue s f)" and x: "setting_rel s f p' x" for p' x
  proof
    assume "p' \<noteq> p"
    obtain r' where r': "heap s p' = Some r'" "value_type r' = st_type x" using rel_deref [OF rel x] by metis
    show "?Q x"
    proof
      assume "st_key x = Some (c, i) \<and> st_type x = ty"
      then have "(rsrc_key_of i f, p') \<in> set (rsrc_map c s)" "value_type r' = ty"
        using x r'(2) by (auto simp: setting_rel_def)
      then show False using only r'(1) \<open>p' \<noteq> p\<close> by blast
    qed
  next
    assume "?Q x"
    then show "p' \<noteq> p" using old p' x by blast
  qed
  have rest: "list_all2 (setting_rel ?s4 f) (remove1 p (queue s f)) (filter ?Q (A f))"
  proof (rule list.rel_mono_strong)
    show "list_all2 (setting_rel s f) (remove1 p (queue s f)) (filter ?Q (A f))"
    proof -
      have "list_all2 (setting_rel s f) (filter (\<lambda>p'. p' \<noteq> p) (queue s f)) (filter ?Q (A f))"
        by (rule list_all2_filter [OF rel_queue(2) [OF rel, of f, simplified]]) (rule mark)
      then show ?thesis
        using rel_queue(1) [OF rel, of f]
        by (simp add: distinct_remove1_removeAll removeAll_filter_not_eq eq_commute [of p])
    qed
    fix p' x assume p': "p' \<in> set (remove1 p (queue s f))" and x: "setting_rel s f p' x"
    then have "p' \<noteq> p" using rel_queue(1) [OF rel, of f] by auto
    show "setting_rel ?s4 f p' x"
    proof (rule setting_rel_frame [OF x])
      show "heap ?s4 p' = heap s p'" unfolding heap4 using \<open>p' \<noteq> p\<close> by simp
      show "(key, p') \<in> set (rsrc_map c' ?s4) \<longleftrightarrow> (key, p') \<in> set (rsrc_map c' s)" for c' key
        unfolding m4 by (rule maps(1) [OF \<open>p' \<noteq> p\<close>])
    qed
  qed
  have "db_rel ?s4 (ph, A(f := ?x # filter ?Q (A f)))"
  proof (rule rel_update [OF rel heap4])
    show "list_all2 (setting_rel ?s4 f) ?q (?x # filter ?Q (A f))" using new rest by simp
    show "p' = p" if "(key, p) \<in> set (rsrc_map c' ?s4)" "(key, p') \<in> set (rsrc_map c' s)" "heap s p' = Some r'"
      "value_type ?r = value_type r'" for c' key p' r'
      using that only [of p' r'] maps(2) m4 r(4) by (simp add: set_precedence_def)
    show "distinct ?q" using rel_queue(1) [OF rel, of f] by simp
    show "set ?q = insert p (set (queue s f))" using rel_queue(1) [OF rel, of f] by auto
  qed (use h1 r s1 q maps dot m4 in \<open>auto simp: set_precedence_def\<close>)
  then show ?thesis using set s1(3) by simp
qed

lemma config_set_rel:
  assumes "db_rel s (ph, A)" and "plain_name f" and "plain_glob (set_scope_of c i)"
    and cb: "uvm_config_callback_vec s = Cb_Live cs"
  shows "\<exists>s'. config_set env ty c i f v s = Inr s' \<and> db_rel s' (spec_call env (Config_Set ty c i f v) (ph, A)) \<and>
    uvm_config_callback_vec s' = Cb_Live cs"
proof -
  obtain p s1 where "config_store env ty c i f v s = Inr (p, s1)"
    "db_rel s1 (spec_call env (Config_Set ty c i f v) (ph, A))" "uvm_config_callback_vec s1 = Cb_Live cs"
    using config_store_rel [OF assms(1-3)] cb by metis
  then show ?thesis by (simp add: config_set_def uvm_config_callback_def emit_def db_rel_events)
qed

text \<open>The calls, one by one and in sequence.\<close>

lemma do_call_rel:
  assumes "db_rel s A" and "call_ok call" and "uvm_config_callback_vec s = Cb_Live cs"
  shows "\<exists>s'. do_call env call s = Inr s' \<and> db_rel s' (spec_call env call A) \<and> uvm_config_callback_vec s' = Cb_Live cs"
proof -
  obtain ph B where A: "A = (ph, B)" by (cases A)
  show ?thesis
  proof (cases call)
    case (Config_Set ty c i f v)
    then show ?thesis using config_set_rel [of s ph B f c i cs] assms A by simp
  next
    case (Resource_Set_Default ty scope nm)
    then show ?thesis using db_set_rel(3) [of s ph B scope env ty nm] assms A by auto
  next
    case (Enter_Phase ph')
    have "db_rel (s\<lparr>curr_phase := ph'\<rparr>) (ph', B)"
    proof -
      have "queue (s\<lparr>curr_phase := ph'\<rparr>) = queue s" "rsrc_map c (s\<lparr>curr_phase := ph'\<rparr>) = rsrc_map c s" for c
        by (simp_all add: queue_def rsrc_map_def fun_eq_iff)
      moreover from this have "setting_rel (s\<lparr>curr_phase := ph'\<rparr>) = setting_rel s"
        by (simp add: fun_eq_iff setting_rel_def)
      ultimately show ?thesis using assms(1) A by (simp add: db_rel_def cntxt_ok_def)
    qed
    then show ?thesis using Enter_Phase assms(3) A by simp
  qed (use db_set_rel(1,2) [of s ph B] assms A in auto)
qed

lemma db_run_rel:
  assumes "\<forall>call\<in>set calls. call_ok call"
  shows "\<exists>s. db_run env calls (new_db cs) = Inr s \<and> db_rel s (spec_run env calls) \<and> uvm_config_callback_vec s = Cb_Live cs"
proof -
  have "\<exists>s'. fold_res (do_call env) calls s = Inr s' \<and> db_rel s' (foldl (\<lambda>st c. spec_call env c st) A calls) \<and>
    uvm_config_callback_vec s' = Cb_Live cs" if "db_rel s A" "uvm_config_callback_vec s = Cb_Live cs" for s A
    using assms that
  proof (induction calls arbitrary: s A)
    case (Cons call calls)
    obtain s' where s': "do_call env call s = Inr s'" "db_rel s' (spec_call env call A)" "uvm_config_callback_vec s' = Cb_Live cs"
      using do_call_rel [OF Cons.prems(2) _ Cons.prems(3), of call env] Cons.prems(1) by auto
    show ?case using Cons.IH [OF _ s'(2,3)] Cons.prems(1) s'(1) by simp
  qed simp
  from this [OF new_db_rel] show ?thesis unfolding db_run_def spec_run_def by (simp add: new_db_def)
qed

lemma db_run_get:
  assumes "boost_ok env" and "\<forall>call\<in>set calls. call_ok call" and "plain_name f"
  shows "\<exists>s. db_run env calls (new_db cs) = Inr s \<and>
    (\<forall>ty c i. config_get env ty c i f s = Inr (spec_get ty (get_scope c i) (snd (spec_run env calls) f)))"
  using db_run_rel [OF assms(2)] config_get_rel [OF _ assms(1,3)] by metis

end
