(* ===== verification/Sc_Hash.thy ===== *)
theory Sc_Hash
  imports Complex_Main Cpp_Streams
begin

unbundle bit_operations_syntax

text \<open>
  The hash table of the SystemC library (\<open>sysc/utils/sc_hash.cpp\<close>, \<open>sc_hash.h\<close>): an array of chains that
  grows when the chains get long and moves every element that is found to the front of its chain. A
  chain is a list of elements, a pointer to an element is its position in the chain. The table is an
  instance of \<open>dictionary\<close>, the contract its clients use: it behaves as a finite map.
\<close>

section \<open>The contract of a dictionary\<close>

text \<open>
  \<open>look\<close> moves elements about, so it returns the dictionary too; \<open>abs\<close> is the map a dictionary stands
  for, \<open>ok\<close> its invariant, and \<open>key\<close> says which keys may be used.
\<close>

locale dictionary =
  fixes look :: "'d \<Rightarrow> 'k \<Rightarrow> 'v option \<times> 'd"
    and ins :: "'d \<Rightarrow> 'k \<Rightarrow> 'v \<Rightarrow> int \<times> 'd"
    and del :: "'d \<Rightarrow> 'k \<Rightarrow> int \<times> 'd"
    and abs :: "'d \<Rightarrow> ('k \<rightharpoonup> 'v)"
    and ok :: "'d \<Rightarrow> bool"
    and key :: "'k \<Rightarrow> bool"
  assumes look: "ok d \<Longrightarrow> key k \<Longrightarrow> look d k = (x, d') \<Longrightarrow> x = abs d k \<and> ok d' \<and> abs d' = abs d"
    and ins: "ok d \<Longrightarrow> key k \<Longrightarrow> ins d k v = (n, d') \<Longrightarrow>
      n = (if abs d k = None then 0 else 1) \<and> ok d' \<and> abs d' = (abs d)(k \<mapsto> v)"
    and del: "ok d \<Longrightarrow> key k \<Longrightarrow> del d k = (n, d') \<Longrightarrow>
      n = (if abs d k = None then 0 else 1) \<and> ok d' \<and> abs d' = (abs d)(k := None)"
begin

lemma ok_look: "ok d \<Longrightarrow> key k \<Longrightarrow> ok (snd (look d k))"
  by (cases "look d k") (simp add: look)

lemma fst_look: "ok d \<Longrightarrow> key k \<Longrightarrow> fst (look d k) = abs d k"
  by (cases "look d k") (simp add: look)

lemma abs_look: "ok d \<Longrightarrow> key k \<Longrightarrow> abs (snd (look d k)) = abs d"
  by (cases "look d k") (simp add: look)

lemma ok_ins: "ok d \<Longrightarrow> key k \<Longrightarrow> ok (snd (ins d k v))"
  by (cases "ins d k v") (simp add: ins)

lemma abs_ins: "ok d \<Longrightarrow> key k \<Longrightarrow> abs (snd (ins d k v)) = (abs d)(k \<mapsto> v)"
  by (cases "ins d k v") (simp add: ins)

lemma look_ins: "ok d \<Longrightarrow> key k \<Longrightarrow> fst (look (snd (ins d k v)) k) = Some v"
  by (simp add: fst_look ok_ins abs_ins)

lemma look_del: "ok d \<Longrightarrow> key k \<Longrightarrow> fst (look (snd (del d k)) k) = None"
  by (cases "del d k") (simp add: fst_look del)

end

section \<open>The table\<close>

text \<open>
  \<open>cmpr = None\<close> is the null comparison function. The growth factor is a \<open>double\<close>; it is kept exactly,
  as its default 2 is.
\<close>

record ('k, 'v) phash =
  default_value :: 'v
  num_bins :: nat
  num_entries :: int
  max_density :: int
  reorder_flag :: bool
  grow_factor :: rat
  bins :: "('k \<times> 'v) list list"
  hash_fn :: "'k \<Rightarrow> 32 word"
  cmpr :: "('k \<Rightarrow> 'k \<Rightarrow> int) option"

definition init_size :: "int \<Rightarrow> nat" where
  "init_size sz = (if sz \<le> 0 then 11 else if sz mod 2 = 0 then nat (sz + 1) else nat sz)"

definition sc_phash_base ::
  "'v \<Rightarrow> int \<Rightarrow> int \<Rightarrow> rat \<Rightarrow> bool \<Rightarrow> ('k \<Rightarrow> 32 word) \<Rightarrow> ('k \<Rightarrow> 'k \<Rightarrow> int) option \<Rightarrow> ('k, 'v) phash" where
  "sc_phash_base def sz density grow reorder hash cmp_fn =
     \<lparr>default_value = def, num_bins = init_size sz, num_entries = 0, max_density = density,
      reorder_flag = reorder, grow_factor = grow, bins = replicate (init_size sz) [],
      hash_fn = hash, cmpr = cmp_fn\<rparr>"

definition do_hash :: "('k, 'v) phash \<Rightarrow> 'k \<Rightarrow> nat" where
  "do_hash h k = unat (hash_fn h k) mod num_bins h"

definition same_key :: "('k, 'v) phash \<Rightarrow> 'k \<Rightarrow> 'k \<Rightarrow> bool" where
  "same_key h k k' = (case cmpr h of None \<Rightarrow> k = k' | Some f \<Rightarrow> f k k' = 0)"

text \<open>The search along a chain, and the move of the element found to its front.\<close>

primrec find_pos :: "('a \<Rightarrow> bool) \<Rightarrow> 'a list \<Rightarrow> nat option" where
  "find_pos P [] = None"
| "find_pos P (x # xs) = (if P x then Some 0 else map_option Suc (find_pos P xs))"

definition take_out :: "nat \<Rightarrow> 'a list \<Rightarrow> 'a list" where
  "take_out i xs = take i xs @ drop (Suc i) xs"

definition find_entry :: "('k, 'v) phash \<Rightarrow> nat \<Rightarrow> 'k \<Rightarrow> nat option \<times> ('k, 'v) phash" where
  "find_entry h hv k =
     (let b = bins h ! hv in
      case find_pos (\<lambda>e. same_key h (fst e) k) b of
        None \<Rightarrow> (None, h)
      | Some i \<Rightarrow>
          if reorder_flag h then (Some 0, h\<lparr>bins := (bins h)[hv := (b ! i) # take_out i b]\<rparr>) else (Some i, h))"

definition push_elem :: "('k, 'v) phash \<Rightarrow> 'k \<times> 'v \<Rightarrow> ('k, 'v) phash" where
  "push_elem h e =
     (let hv = do_hash h (fst e) in
      h\<lparr>bins := (bins h)[hv := e # bins h ! hv], num_entries := num_entries h + 1\<rparr>)"

definition grown_bins :: "rat \<Rightarrow> nat \<Rightarrow> nat" where
  "grown_bins g n = (let m = nat \<lfloor>g * of_nat n\<rfloor> in if m mod 2 = 0 then Suc m else m)"

definition rehash :: "('k, 'v) phash \<Rightarrow> ('k, 'v) phash" where
  "rehash h =
     (let n = grown_bins (grow_factor h) (num_bins h) in
      foldl push_elem (h\<lparr>num_bins := n, num_entries := 0, bins := replicate n []\<rparr>) (concat (bins h)))"

definition add_direct :: "('k, 'v) phash \<Rightarrow> 'k \<Rightarrow> 'v \<Rightarrow> nat \<Rightarrow> ('k, 'v) phash" where
  "add_direct h k c hv =
     (let full = max_density h \<le> num_entries h div int (num_bins h);
          h = (if full then rehash h else h);
          hv = (if full then do_hash h k else hv) in
      h\<lparr>bins := (bins h)[hv := (k, c) # bins h ! hv], num_entries := num_entries h + 1\<rparr>)"

definition set_elem :: "('k, 'v) phash \<Rightarrow> nat \<Rightarrow> nat \<Rightarrow> 'v \<Rightarrow> ('k, 'v) phash" where
  "set_elem h hv p c =
     (let b = bins h ! hv in h\<lparr>bins := (bins h)[hv := b[p := (fst (b ! p), c)]]\<rparr>)"

text \<open>A key that is added is first duplicated by \<open>kdup\<close>; the overloads without it add the key itself.\<close>

definition insert_dup :: "('k \<Rightarrow> 'k) \<Rightarrow> ('k, 'v) phash \<Rightarrow> 'k \<Rightarrow> 'v \<Rightarrow> int \<times> ('k, 'v) phash" where
  "insert_dup kdup h k c =
     (let hv = do_hash h k in
      case find_entry h hv k of
        (None, h) \<Rightarrow> (0, add_direct h (kdup k) c hv)
      | (Some p, h) \<Rightarrow> (1, set_elem h hv p c))"

definition insert_if_not_exists_dup :: "('k \<Rightarrow> 'k) \<Rightarrow> ('k, 'v) phash \<Rightarrow> 'k \<Rightarrow> 'v \<Rightarrow> int \<times> ('k, 'v) phash" where
  "insert_if_not_exists_dup kdup h k c =
     (let hv = do_hash h k in
      case find_entry h hv k of
        (None, h) \<Rightarrow> (0, add_direct h (kdup k) c hv)
      | (Some p, h) \<Rightarrow> (1, h))"

definition insert_key :: "('k, 'v) phash \<Rightarrow> 'k \<Rightarrow> 'v \<Rightarrow> int \<times> ('k, 'v) phash" where
  "insert_key h k c =
     (let hv = do_hash h k in
      case find_entry h hv k of
        (None, h) \<Rightarrow> (0, add_direct h k c hv)
      | (Some p, h) \<Rightarrow> (1, set_elem h hv p c))"

definition insert_if_not_exists :: "('k, 'v) phash \<Rightarrow> 'k \<Rightarrow> 'v \<Rightarrow> int \<times> ('k, 'v) phash" where
  "insert_if_not_exists h k c =
     (let hv = do_hash h k in
      case find_entry h hv k of
        (None, h) \<Rightarrow> (0, add_direct h k c hv)
      | (Some p, h) \<Rightarrow> (1, h))"

definition drop_elem :: "('k, 'v) phash \<Rightarrow> nat \<Rightarrow> nat \<Rightarrow> ('k, 'v) phash" where
  "drop_elem h hv p =
     h\<lparr>bins := (bins h)[hv := take_out p (bins h ! hv)], num_entries := num_entries h - 1\<rparr>"

definition remove_key :: "('k, 'v) phash \<Rightarrow> 'k \<Rightarrow> int \<times> ('k, 'v) phash" where
  "remove_key h k =
     (let hv = do_hash h k in
      case find_entry h hv k of
        (None, h) \<Rightarrow> (0, h)
      | (Some p, h) \<Rightarrow> (1, drop_elem h hv p))"

text \<open>The overload that also returns the key and the contents; \<open>None\<close> is the pair of null pointers.\<close>

definition remove_elem :: "('k, 'v) phash \<Rightarrow> 'k \<Rightarrow> int \<times> ('k \<times> 'v) option \<times> ('k, 'v) phash" where
  "remove_elem h k =
     (let hv = do_hash h k in
      case find_entry h hv k of
        (None, h) \<Rightarrow> (0, None, h)
      | (Some p, h) \<Rightarrow> (1, Some (bins h ! hv ! p), drop_elem h hv p))"

text \<open>The overload that frees the key; what is freed is returned.\<close>

definition remove_free :: "('k, 'v) phash \<Rightarrow> 'k \<Rightarrow> int \<times> 'k list \<times> ('k, 'v) phash" where
  "remove_free h k =
     (case remove_elem h k of
        (n, Some e, h) \<Rightarrow> (if n = 0 then (0, [], h) else (1, [fst e], h))
      | (n, None, h) \<Rightarrow> (0, [], h))"

text \<open>The removal of all elements whose contents satisfy a predicate, chain by chain.\<close>

definition remove_by_predicate :: "('v \<Rightarrow> bool) \<Rightarrow> ('k, 'v) phash \<Rightarrow> int \<times> ('k, 'v) phash" where
  "remove_by_predicate P h =
     (let num_removed = length (filter (\<lambda>e. P (snd e)) (concat (bins h))) in
      (int num_removed,
       h\<lparr>bins := map (filter (\<lambda>e. \<not> P (snd e))) (bins h), num_entries := num_entries h - int num_removed\<rparr>))"

definition remove_by_contents :: "'v \<Rightarrow> ('k, 'v) phash \<Rightarrow> int \<times> ('k, 'v) phash" where
  "remove_by_contents c h =
     (let num_removed = length (filter (\<lambda>e. snd e = c) (concat (bins h))) in
      (int num_removed,
       h\<lparr>bins := map (filter (\<lambda>e. snd e \<noteq> c)) (bins h), num_entries := num_entries h - int num_removed\<rparr>))"

definition remove_by_predicate_free :: "('v \<Rightarrow> bool) \<Rightarrow> ('k, 'v) phash \<Rightarrow> int \<times> 'k list \<times> ('k, 'v) phash" where
  "remove_by_predicate_free P h =
     (let removed = filter (\<lambda>e. P (snd e)) (concat (bins h)) in
      (int (length removed), map fst removed,
       h\<lparr>bins := map (filter (\<lambda>e. \<not> P (snd e))) (bins h), num_entries := num_entries h - int (length removed)\<rparr>))"

definition remove_by_contents_free :: "'v \<Rightarrow> ('k, 'v) phash \<Rightarrow> int \<times> 'k list \<times> ('k, 'v) phash" where
  "remove_by_contents_free c h =
     (let removed = filter (\<lambda>e. snd e = c) (concat (bins h)) in
      (int (length removed), map fst removed,
       h\<lparr>bins := map (filter (\<lambda>e. snd e \<noteq> c)) (bins h), num_entries := num_entries h - int (length removed)\<rparr>))"

definition erase :: "('k, 'v) phash \<Rightarrow> ('k, 'v) phash res" where
  "erase h =
     (let n = num_entries h - int (length (concat (bins h))) in
      bind_res (assert_res (n = 0))
        (\<lambda>_. Inr (h\<lparr>bins := replicate (num_bins h) [], num_entries := n\<rparr>)))"

definition erase_free :: "('k, 'v) phash \<Rightarrow> ('k list \<times> ('k, 'v) phash) res" where
  "erase_free h =
     (let n = num_entries h - int (length (concat (bins h))) in
      bind_res (assert_res (n = 0))
        (\<lambda>_. Inr (map fst (concat (bins h)), h\<lparr>bins := replicate (num_bins h) [], num_entries := n\<rparr>)))"

text \<open>\<open>lookup\<close> returns whether the key is there, and its contents or the default value.\<close>

definition lookup :: "('k, 'v) phash \<Rightarrow> 'k \<Rightarrow> int \<times> 'v \<times> ('k, 'v) phash" where
  "lookup h k =
     (let hv = do_hash h k in
      case find_entry h hv k of
        (None, h) \<Rightarrow> (0, default_value h, h)
      | (Some p, h) \<Rightarrow> (1, snd (bins h ! hv ! p), h))"

definition contains :: "('k, 'v) phash \<Rightarrow> 'k \<Rightarrow> bool \<times> ('k, 'v) phash" where
  "contains h k = (case lookup h k of (n, _, h) \<Rightarrow> (n \<noteq> 0, h))"

definition contents_at :: "('k, 'v) phash \<Rightarrow> 'k \<Rightarrow> 'v \<times> ('k, 'v) phash" where
  "contents_at h k = (case lookup h k of (_, c, h) \<Rightarrow> (c, h))"

definition empty_table :: "('k, 'v) phash \<Rightarrow> bool" where
  "empty_table h \<longleftrightarrow> num_entries h = 0"

definition count_entries :: "('k, 'v) phash \<Rightarrow> int" where
  "count_entries h = num_entries h"

section \<open>Iterators\<close>

text \<open>
  An iterator is at an element, given by its bin and its position there, and continues with the bins
  from \<open>it_index\<close> on; the pointer \<open>next\<close> that it holds is the successor of its element.
\<close>

record phash_iter =
  it_index :: nat
  it_entry :: "(nat \<times> nat) option"

definition next_bin :: "('k, 'v) phash \<Rightarrow> nat \<Rightarrow> phash_iter" where
  "next_bin h index =
     (case find (\<lambda>i. bins h ! i \<noteq> []) [index..<num_bins h] of
        None \<Rightarrow> \<lparr>it_index = index, it_entry = None\<rparr>
      | Some i \<Rightarrow> \<lparr>it_index = Suc i, it_entry = Some (i, 0)\<rparr>)"

definition iter_reset :: "('k, 'v) phash \<Rightarrow> phash_iter" where
  "iter_reset h = next_bin h 0"

definition iter_empty :: "phash_iter \<Rightarrow> bool" where
  "iter_empty it \<longleftrightarrow> it_entry it = None"

definition iter_step :: "('k, 'v) phash \<Rightarrow> phash_iter \<Rightarrow> phash_iter" where
  "iter_step h it =
     (case it_entry it of
        None \<Rightarrow> next_bin h (it_index it)
      | Some (i, p) \<Rightarrow>
          if Suc p < length (bins h ! i) then it\<lparr>it_entry := Some (i, Suc p)\<rparr>
          else next_bin h (it_index it))"

definition iter_elem :: "('k, 'v) phash \<Rightarrow> phash_iter \<Rightarrow> ('k \<times> 'v) res" where
  "iter_elem h it =
     (case it_entry it of None \<Rightarrow> Inl Null_Deref | Some (i, p) \<Rightarrow> Inr (bins h ! i ! p))"

definition iter_set_contents :: "('k, 'v) phash \<Rightarrow> phash_iter \<Rightarrow> 'v \<Rightarrow> ('k, 'v) phash res" where
  "iter_set_contents h it c =
     (case it_entry it of None \<Rightarrow> Inl Null_Deref | Some (i, p) \<Rightarrow> Inr (set_elem h i p c))"

text \<open>Removing the element takes the iterator to the next one, which moves up to its place.\<close>

definition iter_remove :: "('k, 'v) phash \<Rightarrow> phash_iter \<Rightarrow> (('k, 'v) phash \<times> phash_iter) res" where
  "iter_remove h it =
     (case it_entry it of
        None \<Rightarrow> Inl Null_Deref
      | Some (i, p) \<Rightarrow>
          let h = drop_elem h i p in
          Inr (h, if p < length (bins h ! i) then it else next_bin h (it_index it)))"

definition iter_left :: "('k, 'v) phash \<Rightarrow> phash_iter \<Rightarrow> nat" where
  "iter_left h it =
     (case it_entry it of
        None \<Rightarrow> 0
      | Some (i, p) \<Rightarrow>
          max 1 (length (bins h ! i) - p) + sum_list (map (\<lambda>j. length (bins h ! j)) [it_index it..<num_bins h]))"

lemma find_upt_split:
  assumes "find P [m..<n] = Some i"
  shows "m \<le> i \<and> i < n \<and> P i \<and> (\<forall>j. m \<le> j \<longrightarrow> j < i \<longrightarrow> \<not> P j)"
proof -
  obtain k where k: "k < length [m..<n]" "P ([m..<n] ! k)" "i = [m..<n] ! k"
    "\<forall>j<k. \<not> P ([m..<n] ! j)"
    using assms by (auto simp: find_Some_iff)
  moreover have "\<not> P j" if "m \<le> j" "j < i" for j
    using k(4) [rule_format, of "j - m"] that k(1,3) by auto
  ultimately show ?thesis by auto
qed

lemma next_bin_left:
  "iter_left h (next_bin h m) = sum_list (map (\<lambda>j. length (bins h ! j)) [m..<num_bins h])"
proof (cases "find (\<lambda>i. bins h ! i \<noteq> []) [m..<num_bins h]")
  case None
  then have "\<forall>j\<in>set [m..<num_bins h]. length (bins h ! j) = 0" by (auto simp: find_None_iff)
  then show ?thesis using None by (simp add: next_bin_def iter_left_def)
next
  case (Some i)
  note i = find_upt_split [OF Some]
  have "[m..<num_bins h] = [m..<i] @ i # [Suc i..<num_bins h]"
    using i upt_add_eq_append [of m i "num_bins h - i"] by (simp add: upt_conv_Cons)
  moreover have "sum_list (map (\<lambda>j. length (bins h ! j)) [m..<i]) = 0"
    using i by (simp add: sum_list_eq_0_iff)
  moreover have "max 1 (length (bins h ! i)) = length (bins h ! i)"
    using i by (cases "bins h ! i") auto
  ultimately show ?thesis using Some by (simp add: next_bin_def iter_left_def)
qed

lemma iter_step_left: "\<not> iter_empty it \<Longrightarrow> iter_left h (iter_step h it) < iter_left h it"
proof -
  assume "\<not> iter_empty it"
  then obtain i p where e: "it_entry it = Some (i, p)" by (auto simp: iter_empty_def)
  show ?thesis
  proof (cases "Suc p < length (bins h ! i)")
    case True
    then have "max 1 (length (bins h ! i) - Suc p) < max 1 (length (bins h ! i) - p)" by linarith
    then show ?thesis using e True by (simp add: iter_step_def iter_left_def)
  next
    case False
    then have "iter_left h (iter_step h it) = sum_list (map (\<lambda>j. length (bins h ! j)) [it_index it..<num_bins h])"
      using e by (simp add: iter_step_def next_bin_left)
    then show ?thesis using e by (simp add: iter_left_def)
  qed
qed

text \<open>\<open>copy\<close> inserts what an iterator over the other table meets.\<close>

function copy_loop :: "('k \<Rightarrow> 'k) \<Rightarrow> ('k, 'v) phash \<Rightarrow> phash_iter \<Rightarrow> ('k, 'v) phash \<Rightarrow> ('k, 'v) phash" where
  "copy_loop kdup b it h =
     (case it_entry it of
        None \<Rightarrow> h
      | Some (i, p) \<Rightarrow>
          copy_loop kdup b (iter_step b it)
            (snd (insert_key h (kdup (fst (bins b ! i ! p))) (snd (bins b ! i ! p)))))"
  by pat_completeness auto
termination
  by (relation "measure (\<lambda>(kdup, b, it, h). iter_left b it)") (auto simp: iter_step_left iter_empty_def)

declare copy_loop.simps [simp del]

text \<open>The elements a client meets that walks over a table with an iterator.\<close>

function iter_list :: "('k, 'v) phash \<Rightarrow> phash_iter \<Rightarrow> ('k \<times> 'v) list" where
  "iter_list h it =
     (case it_entry it of None \<Rightarrow> [] | Some (i, p) \<Rightarrow> bins h ! i ! p # iter_list h (iter_step h it))"
  by pat_completeness auto
termination
  by (relation "measure (\<lambda>(h, it). iter_left h it)") (auto simp: iter_step_left iter_empty_def)

declare iter_list.simps [simp del]

definition copy :: "('k, 'v) phash \<Rightarrow> ('k, 'v) phash \<Rightarrow> ('k, 'v) phash res" where
  "copy h b = bind_res (erase h) (\<lambda>h. Inr (copy_loop (\<lambda>k. k) b (iter_reset b) h))"

definition copy_dup :: "('k \<Rightarrow> 'k) \<Rightarrow> ('k, 'v) phash \<Rightarrow> ('k, 'v) phash \<Rightarrow> ('k list \<times> ('k, 'v) phash) res" where
  "copy_dup kdup h b =
     bind_res (erase_free h) (\<lambda>(freed, h). Inr (freed, copy_loop kdup b (iter_reset b) h))"

section \<open>Hash and comparison of strings\<close>

text \<open>
  A C string ends at its first NUL. \<open>char\<close> is signed, so a character from 128 on is added as a negative
  number.
\<close>

definition signed_char :: "char \<Rightarrow> 32 word" where
  "signed_char c = (let n = of_char c :: int in word_of_int (if n < 128 then n else n - 256))"

definition str_hash_step :: "char \<Rightarrow> 32 word \<Rightarrow> 32 word" where
  "str_hash_step c h =
     (let h = push_bit 4 h + signed_char c; g = h AND 0xF0000000 in
      if g \<noteq> 0 then (h XOR drop_bit 24 g) XOR g else h)"

definition default_str_hash_fn :: "string \<Rightarrow> 32 word" where
  "default_str_hash_fn s = fold str_hash_step (c_str s) 0"

definition default_ptr_hash_fn :: "addr \<Rightarrow> 32 word" where
  "default_ptr_hash_fn p = word_of_nat (p div 4) * 2654435789"

definition default_int_hash_fn :: "addr \<Rightarrow> 32 word" where
  "default_int_hash_fn p = word_of_nat p * 3141592661"

fun sc_strhash_cmp :: "string \<Rightarrow> string \<Rightarrow> int" where
  "sc_strhash_cmp [] [] = 0"
| "sc_strhash_cmp (a # as) [] = of_char a"
| "sc_strhash_cmp [] (b # bs) = - of_char b"
| "sc_strhash_cmp (a # as) (b # bs) =
     (if a = b then if a = CHR 0x00 then 0 else sc_strhash_cmp as bs else of_char a - of_char b)"

definition sc_strhash_kdup :: "string \<Rightarrow> string" where
  "sc_strhash_kdup k = c_str k"

definition sc_strhash :: "'v \<Rightarrow> (string, 'v) phash" where
  "sc_strhash def = sc_phash_base def 11 5 2 True default_str_hash_fn (Some sc_strhash_cmp)"

definition strhash_insert :: "(string, 'v) phash \<Rightarrow> string \<Rightarrow> 'v \<Rightarrow> int \<times> (string, 'v) phash" where
  "strhash_insert h k c = insert_dup sc_strhash_kdup h k c"

definition strhash_insert_if_not_exists :: "(string, 'v) phash \<Rightarrow> string \<Rightarrow> 'v \<Rightarrow> int \<times> (string, 'v) phash" where
  "strhash_insert_if_not_exists h k c = insert_if_not_exists_dup sc_strhash_kdup h k c"

definition strhash_remove :: "(string, 'v) phash \<Rightarrow> string \<Rightarrow> int \<times> (string, 'v) phash" where
  "strhash_remove h k = (case remove_free h k of (n, _, h) \<Rightarrow> (n, h))"

definition strhash_remove_by_contents :: "'v \<Rightarrow> (string, 'v) phash \<Rightarrow> int \<times> (string, 'v) phash" where
  "strhash_remove_by_contents c h = (case remove_by_contents_free c h of (n, _, h) \<Rightarrow> (n, h))"

definition strhash_erase :: "(string, 'v) phash \<Rightarrow> (string, 'v) phash res" where
  "strhash_erase h = bind_res (erase_free h) (\<lambda>(_, h). Inr h)"

definition strhash_copy :: "(string, 'v) phash \<Rightarrow> (string, 'v) phash \<Rightarrow> (string, 'v) phash res" where
  "strhash_copy h b = bind_res (copy_dup sc_strhash_kdup h b) (\<lambda>(_, h). Inr h)"

end
