(* ===== verification/Sc_Hash_Map.thy ===== *)
theory Sc_Hash_Map
  imports Sc_Hash
begin

text \<open>
  The hash table as a map: the invariant \<open>phash_ok\<close> that every operation keeps, the map \<open>phash_map\<close> a
  table stands for, what each operation does to it, and the table of strings as an instance of
  \<open>dictionary\<close>.
\<close>

section \<open>Chains\<close>

lemma find_pos_None_iff: "find_pos P xs = None \<longleftrightarrow> (\<forall>x\<in>set xs. \<not> P x)"
  by (induction xs) auto

lemma find_pos_SomeD: "find_pos P xs = Some i \<Longrightarrow> i < length xs \<and> P (xs ! i)"
  by (induction xs arbitrary: i) (auto split: if_splits)

lemma length_take_out: "i < length xs \<Longrightarrow> Suc (length (take_out i xs)) = length xs"
  by (simp add: take_out_def)

lemma set_take_out_subset: "set (take_out i xs) \<subseteq> set xs"
  by (auto simp: take_out_def dest: in_set_takeD in_set_dropD)

lemma split_at: "i < length xs \<Longrightarrow> xs = take i xs @ xs ! i # drop (Suc i) xs"
  by (simp add: id_take_nth_drop)

lemma set_to_front: "i < length xs \<Longrightarrow> set (xs ! i # take_out i xs) = set xs"
  using arg_cong [OF split_at [of i xs], of set] by (auto simp: take_out_def)

lemma map_of_append_del:
  "distinct (map fst (xs @ (k, c) # ys)) \<Longrightarrow> map_of (xs @ ys) = (map_of (xs @ (k, c) # ys))(k := None)"
proof (induction xs)
  case Nil
  then show ?case by (auto simp: fun_eq_iff map_of_eq_None_iff)
next
  case (Cons x xs)
  then show ?case by (cases x) (auto simp: fun_eq_iff)
qed

lemma map_of_take_out:
  assumes "distinct (map fst xs)" and "i < length xs"
  shows "map_of (take_out i xs) = (map_of xs)(fst (xs ! i) := None)" and "distinct (map fst (take_out i xs))"
proof -
  obtain k c where e: "xs ! i = (k, c)" by (cases "xs ! i")
  have xs: "xs = take i xs @ (k, c) # drop (Suc i) xs"
    using split_at [OF assms(2)] e by simp
  have d: "distinct (map fst (take i xs @ (k, c) # drop (Suc i) xs))"
    using assms(1) xs by simp
  then show "distinct (map fst (take_out i xs))" by (auto simp: take_out_def)
  have "map_of (take i xs @ drop (Suc i) xs) = (map_of (take i xs @ (k, c) # drop (Suc i) xs))(k := None)"
    using d by (rule map_of_append_del)
  then show "map_of (take_out i xs) = (map_of xs)(fst (xs ! i) := None)"
    using xs e by (simp add: take_out_def)
qed

lemma map_of_to_front:
  assumes "distinct (map fst xs)" and "i < length xs"
  shows "map_of (xs ! i # take_out i xs) = map_of xs" and "distinct (map fst (xs ! i # take_out i xs))"
proof -
  have "map_of xs (fst (xs ! i)) = Some (snd (xs ! i))"
    using assms by (simp add: map_of_is_SomeI)
  then show "map_of (xs ! i # take_out i xs) = map_of xs"
    using map_of_take_out(1) [OF assms] by (cases "xs ! i") (auto simp: fun_eq_iff)
  have "fst (xs ! i) \<notin> set (map fst (take_out i xs))"
    using map_of_take_out(1) [OF assms] by (auto simp: map_of_eq_None_iff [symmetric])
  then show "distinct (map fst (xs ! i # take_out i xs))"
    using map_of_take_out(2) [OF assms] by simp
qed

lemma map_of_set_elem:
  assumes "distinct (map fst xs)" and "i < length xs"
  shows "map_of (xs[i := (fst (xs ! i), c)]) = (map_of xs)(fst (xs ! i) \<mapsto> c)"
    and "map fst (xs[i := (fst (xs ! i), c)]) = map fst xs"
proof -
  show 2: "map fst (xs[i := (fst (xs ! i), c)]) = map fst xs"
    using assms(2) by (simp add: map_update list_update_same_conv)
  obtain k c' where e: "xs ! i = (k, c')" by (cases "xs ! i")
  have d: "distinct (map fst (xs[i := (k, c)]))" using 2 assms(1) e by simp
  have "map_of (xs[i := (k, c)]) k = Some c"
    using d assms(2) by (simp add: map_of_is_SomeI set_update_memI)
  moreover have "map_of (xs[i := (k, c)]) k' = map_of xs k'" if "k' \<noteq> k" for k'
  proof -
    have "(k', x) \<in> set (xs[i := (k, c)]) \<longleftrightarrow> (k', x) \<in> set xs" for x
      using that e assms(2) by (auto simp: in_set_conv_nth nth_list_update) (metis fst_conv)
    then have "map_of (xs[i := (k, c)]) k' = Some x \<longleftrightarrow> map_of xs k' = Some x" for x
      using d assms(1) by (simp add: map_of_eq_Some_iff)
    then show ?thesis by (metis option.exhaust)
  qed
  ultimately show "map_of (xs[i := (fst (xs ! i), c)]) = (map_of xs)(fst (xs ! i) \<mapsto> c)"
    using e by (auto simp: fun_eq_iff)
qed

lemma map_of_filter_contents:
  "distinct (map fst xs) \<Longrightarrow>
   map_of (filter (\<lambda>e. P (snd e)) xs) k = (case map_of xs k of None \<Rightarrow> None | Some c \<Rightarrow> if P c then Some c else None)"
  by (induction xs) (auto simp: map_of_eq_None_iff rev_image_eqI split: option.splits)

section \<open>The invariant and the map\<close>

text \<open>
  \<open>K\<close> are the keys that may be used: on them the comparison function decides equality. Every element is
  in the bin of its key, a key is there once, and the elements are counted.
\<close>

definition cmpr_ok :: "'k set \<Rightarrow> ('k \<Rightarrow> 'k \<Rightarrow> int) option \<Rightarrow> bool" where
  "cmpr_ok K f = (case f of None \<Rightarrow> True | Some f \<Rightarrow> \<forall>a\<in>K. \<forall>b\<in>K. (f a b = 0) = (a = b))"

definition bin_ok :: "'k set \<Rightarrow> ('k, 'v) phash \<Rightarrow> nat \<Rightarrow> ('k \<times> 'v) list \<Rightarrow> bool" where
  "bin_ok K h i b \<longleftrightarrow> distinct (map fst b) \<and> (\<forall>e\<in>set b. fst e \<in> K \<and> do_hash h (fst e) = i)"

definition phash_ok :: "'k set \<Rightarrow> ('k, 'v) phash \<Rightarrow> bool" where
  "phash_ok K h \<longleftrightarrow> 0 < num_bins h \<and> length (bins h) = num_bins h \<and> cmpr_ok K (cmpr h) \<and>
     num_entries h = int (length (concat (bins h))) \<and> (\<forall>i<num_bins h. bin_ok K h i (bins h ! i))"

definition phash_map :: "('k, 'v) phash \<Rightarrow> ('k \<rightharpoonup> 'v)" where
  "phash_map h k = map_of (bins h ! do_hash h k) k"

lemma do_hash_less: "phash_ok K h \<Longrightarrow> do_hash h k < num_bins h"
  by (simp add: phash_ok_def do_hash_def)

lemma phash_binD: "phash_ok K h \<Longrightarrow> i < num_bins h \<Longrightarrow> bin_ok K h i (bins h ! i)"
  by (simp add: phash_ok_def)

lemma do_hash_update [simp]:
  "do_hash (h\<lparr>bins := bs\<rparr>) = do_hash h" "do_hash (h\<lparr>num_entries := n\<rparr>) = do_hash h"
  by (simp_all add: do_hash_def fun_eq_iff)

lemma bin_ok_update [simp]:
  "bin_ok K (h\<lparr>bins := bs\<rparr>) = bin_ok K h" "bin_ok K (h\<lparr>num_entries := n\<rparr>) = bin_ok K h"
  by (simp_all add: bin_ok_def fun_eq_iff)

lemma length_concat_update:
  "i < length bs \<Longrightarrow>
   int (length (concat (bs[i := b]))) = int (length (concat bs)) + int (length b) - int (length (bs ! i))"
  by (induction bs arbitrary: i) (auto simp: nth_Cons split: nat.splits)

text \<open>An operation writes one bin; everything about the table follows from what it writes.\<close>

lemma write_bin:
  assumes "phash_ok K h" and "i < num_bins h" and "bin_ok K h i b"
    and "h' = h\<lparr>bins := (bins h)[i := b], num_entries := num_entries h + int (length b) - int (length (bins h ! i))\<rparr>"
  shows "phash_ok K h'"
    and "phash_map h' = (\<lambda>k. if do_hash h k = i then map_of b k else phash_map h k)"
  using assms
  by (auto simp: phash_ok_def nth_list_update length_concat_update phash_map_def fun_eq_iff)

lemma same_key_iff: "phash_ok K h \<Longrightarrow> a \<in> K \<Longrightarrow> b \<in> K \<Longrightarrow> same_key h a b \<longleftrightarrow> a = b"
  by (auto simp: same_key_def phash_ok_def cmpr_ok_def split: option.splits)

lemma find_pos_key:
  assumes "phash_ok K h" and "k \<in> K"
  shows "find_pos (\<lambda>e. same_key h (fst e) k) (bins h ! do_hash h k) =
    find_pos (\<lambda>e. fst e = k) (bins h ! do_hash h k)"
proof -
  have "find_pos (\<lambda>e. same_key h (fst e) k) xs = find_pos (\<lambda>e. fst e = k) xs" if "fst ` set xs \<subseteq> K" for xs
    using that by (induction xs) (auto simp: same_key_iff [OF assms(1) _ assms(2)])
  moreover have "fst ` set (bins h ! do_hash h k) \<subseteq> K"
    using phash_binD [OF assms(1) do_hash_less [OF assms(1)]] by (auto simp: bin_ok_def)
  ultimately show ?thesis by blast
qed

text \<open>What a search finds, and that the table means the same after it.\<close>

lemma find_entry_None:
  assumes "phash_ok K h" and "k \<in> K" and "phash_map h k = None"
  shows "find_entry h (do_hash h k) k = (None, h)"
proof -
  have "find_pos (\<lambda>e. fst e = k) (bins h ! do_hash h k) = None"
    using assms(3) by (auto simp: find_pos_None_iff phash_map_def map_of_eq_None_iff)
  then show ?thesis using assms by (simp add: find_entry_def find_pos_key)
qed

lemma find_entry_Some:
  assumes "phash_ok K h" and "k \<in> K" and "phash_map h k = Some c"
  obtains h' p where "find_entry h (do_hash h k) k = (Some p, h')" and "phash_ok K h'"
    and "phash_map h' = phash_map h" and "do_hash h' = do_hash h" and "num_bins h' = num_bins h"
    and "p < length (bins h' ! do_hash h k)" and "bins h' ! do_hash h k ! p = (k, c)"
    and "default_value h' = default_value h" and "max_density h' = max_density h" and "grow_factor h' = grow_factor h"
    and "num_entries h' = num_entries h"
proof -
  let ?hv = "do_hash h k" let ?b = "bins h ! do_hash h k"
  note hv = do_hash_less [OF assms(1), of k]
  note b = phash_binD [OF assms(1) hv]
  have "map_of ?b k = Some c" using assms(3) by (simp add: phash_map_def)
  then have kc: "(k, c) \<in> set ?b" by (rule map_of_SomeD)
  then have "find_pos (\<lambda>e. fst e = k) ?b \<noteq> None"
    unfolding find_pos_None_iff by force
  then obtain i where i: "find_pos (\<lambda>e. fst e = k) ?b = Some i" by blast
  then have il: "i < length ?b" and ik: "fst (?b ! i) = k" using find_pos_SomeD by fastforce+
  have "distinct (map fst ?b)" using b by (simp add: bin_ok_def)
  then have "map_of ?b k = Some (snd (?b ! i))"
    using il ik by (metis map_of_is_SomeI nth_mem prod.collapse)
  then have e: "?b ! i = (k, c)" using ik \<open>map_of ?b k = Some c\<close> by (metis option.inject prod.collapse)
  show thesis
  proof (cases "reorder_flag h")
    case False
    show thesis
      by (rule that [of i h]) (use False assms i il e in \<open>simp_all add: find_entry_def find_pos_key\<close>)
  next
    case True
    let ?b' = "?b ! i # take_out i ?b"
    have ok: "bin_ok K h ?hv ?b'"
      using b map_of_to_front [OF _ il] set_to_front [OF il] unfolding bin_ok_def by blast
    have l: "length ?b' = length ?b" using length_take_out [OF il] by simp
    have upd: "h\<lparr>bins := (bins h)[?hv := ?b']\<rparr> = h\<lparr>bins := (bins h)[?hv := ?b'],
        num_entries := num_entries h + int (length ?b') - int (length ?b)\<rparr>"
      unfolding l by simp
    note w = write_bin [OF assms(1) hv ok upd]
    have m: "map_of ?b' = map_of ?b" using map_of_to_front(1) [OF _ il] b by (simp add: bin_ok_def)
    show thesis
    proof (rule that [of 0 "h\<lparr>bins := (bins h)[?hv := ?b']\<rparr>"])
      show "phash_map (h\<lparr>bins := (bins h)[?hv := ?b']\<rparr>) = phash_map h"
        unfolding w(2) m by (auto simp: phash_map_def fun_eq_iff)
      show "phash_ok K (h\<lparr>bins := (bins h)[?hv := ?b']\<rparr>)" by (rule w(1))
    qed (use True i e hv find_pos_key [OF assms(1,2)] assms(1) in \<open>simp_all add: find_entry_def phash_ok_def\<close>)
  qed
qed


section \<open>Growing\<close>

lemma map_of_concat_unique:
  "i < length bs \<Longrightarrow> (\<And>j. j < length bs \<Longrightarrow> j \<noteq> i \<Longrightarrow> k \<notin> fst ` set (bs ! j)) \<Longrightarrow>
   map_of (concat bs) k = map_of (bs ! i) k"
proof (induction bs arbitrary: i)
  case (Cons b bs)
  show ?case
  proof (cases i)
    case 0
    have "k \<notin> fst ` set (bs ! j)" if "j < length bs" for j
      using Cons.prems(2) [of "Suc j"] that 0 by simp
    then have "k \<notin> fst ` set b'" if "b' \<in> set bs" for b' using that by (metis in_set_conv_nth)
    then have "map_of (concat bs) k = None" by (force simp: map_of_eq_None_iff)
    then show ?thesis using 0 by (simp add: map_add_def split: option.splits)
  next
    case (Suc i')
    have "map_of b k = None" using Cons.prems(2) [of 0] Suc by (simp add: map_of_eq_None_iff)
    moreover have "map_of (concat bs) k = map_of (bs ! i') k"
      by (rule Cons.IH) (use Cons.prems(1) Suc in simp, use Cons.prems(2) [of "Suc _"] Suc in simp)
    ultimately show ?thesis using Suc by (simp add: map_add_def split: option.splits)
  qed
qed simp

lemma distinct_concat_bins:
  "(\<And>i. i < length bs \<Longrightarrow> distinct (map fst (bs ! i)) \<and> (\<forall>e\<in>set (bs ! i). f (fst e) = n + i)) \<Longrightarrow>
   distinct (map fst (concat bs))"
proof (induction bs arbitrary: n)
  case (Cons b bs)
  have "distinct (map fst (concat bs))"
    by (rule Cons.IH [of "Suc n"]) (use Cons.prems [of "Suc _"] in simp)
  moreover have "distinct (map fst b)" using Cons.prems [of 0] by simp
  moreover have "fst e \<noteq> fst e'" if e: "e \<in> set b" and e': "e' \<in> set (concat bs)" for e e'
  proof -
    obtain b' where b': "b' \<in> set bs" "e' \<in> set b'" using e' by auto
    obtain j where "j < length bs" "bs ! j = b'" using b'(1) unfolding in_set_conv_nth by blast
    then have "f (fst e') = n + Suc j" using Cons.prems [of "Suc j"] b'(2) by simp
    moreover have "f (fst e) = n" using Cons.prems [of 0] e by simp
    ultimately show ?thesis by auto
  qed
  then have "fst ` set b \<inter> fst ` set (concat bs) = {}" by blast
  ultimately show ?case by (simp del: set_concat)
qed simp

lemma phash_concat:
  assumes "phash_ok K h"
  shows "distinct (map fst (concat (bins h)))" and "map_of (concat (bins h)) = phash_map h"
    and "fst ` set (concat (bins h)) \<subseteq> K"
proof -
  have len: "length (bins h) = num_bins h" using assms by (simp add: phash_ok_def)
  note b = phash_binD [OF assms, unfolded bin_ok_def]
  show "distinct (map fst (concat (bins h)))"
    by (rule distinct_concat_bins [of _ "do_hash h" 0]) (use b len in auto)
  show "map_of (concat (bins h)) = phash_map h"
  proof
    fix k
    have "k \<notin> fst ` set (bins h ! j)" if "j < length (bins h)" "j \<noteq> do_hash h k" for j
      using b [of j] that len by auto
    then show "map_of (concat (bins h)) k = phash_map h k"
      unfolding phash_map_def by (intro map_of_concat_unique) (use do_hash_less [OF assms, of k] len in auto)
  qed
  have "fst e \<in> K" if "e \<in> set b'" "b' \<in> set (bins h)" for e b'
    using b that len by (metis in_set_conv_nth)
  then show "fst ` set (concat (bins h)) \<subseteq> K" by auto
qed

lemma dom_phash_map: "phash_ok K h \<Longrightarrow> dom (phash_map h) \<subseteq> K"
  using phash_concat(3) [of K h] by (metis dom_map_of_conv_image_fst phash_concat(2))

lemma count_phash_map:
  assumes "phash_ok K h"
  shows "num_entries h = int (card (dom (phash_map h)))"
proof -
  note c = phash_concat [OF assms]
  have "card (dom (phash_map h)) = length (concat (bins h))"
    using c(1) unfolding c(2) [symmetric] dom_map_of_conv_image_fst
    by (metis distinct_card length_map list.set_map)
  then show ?thesis using assms by (simp add: phash_ok_def)
qed

text \<open>Adding an element whose key is new.\<close>

lemma cons_bin:
  assumes "phash_ok K h" and "k \<in> K" and "phash_map h k = None"
    and "h' = h\<lparr>bins := (bins h)[do_hash h k := (k, c) # bins h ! do_hash h k], num_entries := num_entries h + 1\<rparr>"
  shows "phash_ok K h'" and "phash_map h' = (phash_map h)(k \<mapsto> c)"
proof -
  note hv = do_hash_less [OF assms(1), of k]
  note b = phash_binD [OF assms(1) hv]
  have "bin_ok K h (do_hash h k) ((k, c) # bins h ! do_hash h k)"
    using b assms(2,3) by (auto simp: bin_ok_def phash_map_def map_of_eq_None_iff)
  note w = write_bin [OF assms(1) hv this, of h']
  show "phash_ok K h'" by (rule w(1)) (simp add: assms(4))
  have "phash_map h' = (\<lambda>k'. if do_hash h k' = do_hash h k then map_of ((k, c) # bins h ! do_hash h k) k' else phash_map h k')"
    by (rule w(2)) (simp add: assms(4))
  then show "phash_map h' = (phash_map h)(k \<mapsto> c)"
    by (auto simp: fun_eq_iff phash_map_def)
qed

lemma push_all:
  assumes "phash_ok K h" and "fst ` set es \<subseteq> K" and "distinct (map fst es)"
    and "\<And>e. e \<in> set es \<Longrightarrow> phash_map h (fst e) = None"
  shows "phash_ok K (foldl push_elem h es) \<and> phash_map (foldl push_elem h es) = phash_map h ++ map_of es"
  using assms
proof (induction es arbitrary: h)
  case (Cons e es)
  obtain k c where e: "e = (k, c)" by (cases e)
  have k: "k \<in> K" "phash_map h k = None" using Cons.prems(2) Cons.prems(4) [of e] e by simp_all
  note p = cons_bin [OF Cons.prems(1) k, of "push_elem h e" c]
  have pe: "push_elem h e = h\<lparr>bins := (bins h)[do_hash h k := (k, c) # bins h ! do_hash h k], num_entries := num_entries h + 1\<rparr>"
    by (simp add: e push_elem_def Let_def)
  have "phash_ok K (foldl push_elem (push_elem h e) es) \<and>
      phash_map (foldl push_elem (push_elem h e) es) = phash_map (push_elem h e) ++ map_of es"
    by (rule Cons.IH) (use Cons.prems p [OF pe] e in \<open>auto simp: rev_image_eqI\<close>)
  moreover have "map_of es k = None" using Cons.prems(3) e by (simp add: map_of_eq_None_iff)
  ultimately show ?case
    using p(2) [OF pe] e by (auto simp: fun_eq_iff map_add_def split: option.splits)
qed simp

lemma push_elem_more [simp]:
  "default_value (foldl push_elem h es) = default_value h" "max_density (foldl push_elem h es) = max_density h"
  "num_bins (foldl push_elem h es) = num_bins h" "grow_factor (foldl push_elem h es) = grow_factor h"
  "cmpr (foldl push_elem h es) = cmpr h" "hash_fn (foldl push_elem h es) = hash_fn h"
  by (induction es arbitrary: h) (simp_all add: push_elem_def Let_def)

lemma empty_bins_ok:
  assumes "0 < num_bins h" and "cmpr_ok K (cmpr h)" and "bins h = replicate (num_bins h) []" and "num_entries h = 0"
  shows "phash_ok K h" and "phash_map h = Map.empty"
  using assms by (auto simp: phash_ok_def bin_ok_def phash_map_def fun_eq_iff do_hash_def)

lemma odd_grown: "odd (grown_bins g n)"
  by (auto simp: grown_bins_def Let_def even_iff_mod_2_eq_zero)

lemma rehash_ok:
  assumes "phash_ok K h"
  shows "phash_ok K (rehash h)" and "phash_map (rehash h) = phash_map h"
proof -
  let ?n = "grown_bins (grow_factor h) (num_bins h)"
  let ?h = "h\<lparr>num_bins := ?n, num_entries := 0, bins := replicate ?n []\<rparr>"
  have "0 < ?n" using odd_grown [of "grow_factor h" "num_bins h"] by (cases ?n) auto
  moreover have "cmpr_ok K (cmpr h)" using assms by (simp add: phash_ok_def)
  ultimately have e: "phash_ok K ?h" "phash_map ?h = Map.empty"
    using empty_bins_ok [of ?h K] by simp_all
  note c = phash_concat [OF assms]
  have "phash_ok K (foldl push_elem ?h (concat (bins h))) \<and>
      phash_map (foldl push_elem ?h (concat (bins h))) = phash_map ?h ++ map_of (concat (bins h))"
    by (rule push_all [OF e(1) c(3,1)]) (simp add: e(2))
  then show "phash_ok K (rehash h)" "phash_map (rehash h) = phash_map h"
    by (simp_all add: rehash_def Let_def e(2) c(2))
qed

lemma add_direct_ok:
  assumes "phash_ok K h" and "k \<in> K" and "phash_map h k = None"
  shows "phash_ok K (add_direct h k c (do_hash h k))"
    and "phash_map (add_direct h k c (do_hash h k)) = (phash_map h)(k \<mapsto> c)"
proof -
  define g where "g = (if max_density h \<le> num_entries h div int (num_bins h) then rehash h else h)"
  have g: "phash_ok K g" "phash_map g = phash_map h" using assms(1) rehash_ok by (auto simp: g_def)
  have "add_direct h k c (do_hash h k) = g\<lparr>bins := (bins g)[do_hash g k := (k, c) # bins g ! do_hash g k], num_entries := num_entries g + 1\<rparr>"
    by (simp add: add_direct_def g_def Let_def)
  note cons_bin [OF g(1) assms(2) _ this]
  then show "phash_ok K (add_direct h k c (do_hash h k))"
    and "phash_map (add_direct h k c (do_hash h k)) = (phash_map h)(k \<mapsto> c)"
    using g(2) assms(3) by simp_all
qed


section \<open>What the operations do to the map\<close>

lemma set_elem_ok:
  assumes "phash_ok K h" and "p < length (bins h ! do_hash h k)" and "bins h ! do_hash h k ! p = (k, c')"
  shows "phash_ok K (set_elem h (do_hash h k) p c)" and "phash_map (set_elem h (do_hash h k) p c) = (phash_map h)(k \<mapsto> c)"
proof -
  let ?b = "bins h ! do_hash h k" let ?b' = "?b[p := (fst (?b ! p), c)]"
  note hv = do_hash_less [OF assms(1), of k]
  have b: "bin_ok K h (do_hash h k) ?b" by (rule phash_binD [OF assms(1) hv])
  note m = map_of_set_elem [OF _ assms(2), of c]
  have "fst ` set ?b' = fst ` set ?b" using m(2) b by (metis bin_ok_def list.set_map)
  then have "bin_ok K h (do_hash h k) ?b'"
    using b m(2) unfolding bin_ok_def by (metis (no_types, lifting) image_iff)
  note w = write_bin [OF assms(1) hv this, of "set_elem h (do_hash h k) p c"]
  have s: "set_elem h (do_hash h k) p c = h\<lparr>bins := (bins h)[do_hash h k := ?b'],
      num_entries := num_entries h + int (length ?b') - int (length ?b)\<rparr>"
    by (simp add: set_elem_def Let_def)
  show "phash_ok K (set_elem h (do_hash h k) p c)" by (rule w(1) [OF s])
  show "phash_map (set_elem h (do_hash h k) p c) = (phash_map h)(k \<mapsto> c)"
    unfolding w(2) [OF s] using m(1) b assms(3) by (auto simp: bin_ok_def fun_eq_iff phash_map_def)
qed

lemma drop_elem_ok:
  assumes "phash_ok K h" and "p < length (bins h ! do_hash h k)" and "bins h ! do_hash h k ! p = (k, c')"
  shows "phash_ok K (drop_elem h (do_hash h k) p)" and "phash_map (drop_elem h (do_hash h k) p) = (phash_map h)(k := None)"
proof -
  let ?b = "bins h ! do_hash h k" let ?b' = "take_out p ?b"
  note hv = do_hash_less [OF assms(1), of k]
  have b: "bin_ok K h (do_hash h k) ?b" by (rule phash_binD [OF assms(1) hv])
  then have d: "distinct (map fst ?b)" by (simp add: bin_ok_def)
  note m = map_of_take_out [OF d assms(2)]
  have "bin_ok K h (do_hash h k) ?b'"
    using b m(2) set_take_out_subset [of p ?b] unfolding bin_ok_def by blast
  note w = write_bin [OF assms(1) hv this, of "drop_elem h (do_hash h k) p"]
  have "int (length ?b') = int (length ?b) - 1" using length_take_out [OF assms(2)] by simp
  then have s: "drop_elem h (do_hash h k) p = h\<lparr>bins := (bins h)[do_hash h k := ?b'],
      num_entries := num_entries h + int (length ?b') - int (length ?b)\<rparr>"
    by (simp add: drop_elem_def)
  show "phash_ok K (drop_elem h (do_hash h k) p)" by (rule w(1) [OF s])
  show "phash_map (drop_elem h (do_hash h k) p) = (phash_map h)(k := None)"
    unfolding w(2) [OF s] using m(1) assms(3) by (auto simp: fun_eq_iff phash_map_def)
qed

text \<open>A search followed by what is done with its result.\<close>

lemma set_elem_at:
  assumes "phash_ok K h" and "do_hash h k = hv" and "p < length (bins h ! hv)" and "bins h ! hv ! p = (k, c')"
  shows "phash_ok K (set_elem h hv p c)" and "phash_map (set_elem h hv p c) = (phash_map h)(k \<mapsto> c)"
  using set_elem_ok [OF assms(1), of p k c' c] assms by simp_all

lemma drop_elem_at:
  assumes "phash_ok K h" and "do_hash h k = hv" and "p < length (bins h ! hv)" and "bins h ! hv ! p = (k, c')"
  shows "phash_ok K (drop_elem h hv p)" and "phash_map (drop_elem h hv p) = (phash_map h)(k := None)"
  using drop_elem_ok [OF assms(1), of p k c'] assms by simp_all

lemma found_cases:
  assumes "phash_ok K h" and "k \<in> K"
  obtains (none) "phash_map h k = None" and "find_entry h (do_hash h k) k = (None, h)"
  | (some) c h' p where "phash_map h k = Some c" and "find_entry h (do_hash h k) k = (Some p, h')"
      and "phash_ok K h'" and "phash_map h' = phash_map h" and "bins h' ! do_hash h k ! p = (k, c)"
      and "do_hash h' k = do_hash h k" and "p < length (bins h' ! do_hash h k)" and "default_value h' = default_value h"
      and "grow_factor h' = grow_factor h" and "max_density h' = max_density h" and "num_bins h' = num_bins h"
      and "num_entries h' = num_entries h"
proof (cases "phash_map h k")
  case None
  then show thesis using find_entry_None [OF assms] none by blast
next
  case (Some c)
  then show thesis using find_entry_Some [OF assms Some] some by metis
qed

lemma insert_dup_ok:
  assumes "phash_ok K h" and "k \<in> K" and "kdup k = k" and "insert_dup kdup h k c = (n, h')"
  shows "n = (if phash_map h k = None then 0 else 1) \<and> phash_ok K h' \<and> phash_map h' = (phash_map h)(k \<mapsto> c)"
proof (cases rule: found_cases [OF assms(1,2)])
  case 1
  then show ?thesis using assms by (auto simp: insert_dup_def add_direct_ok)
next
  case (2 c' g p)
  then have "n = 1" and "h' = set_elem g (do_hash h k) p c"
    using assms(4) by (auto simp: insert_dup_def)
  then show ?thesis using 2 set_elem_at [OF 2(3,6,7,5), of c] by simp
qed

lemma insert_if_not_exists_dup_ok:
  assumes "phash_ok K h" and "k \<in> K" and "kdup k = k" and "insert_if_not_exists_dup kdup h k c = (n, h')"
  shows "n = (if phash_map h k = None then 0 else 1) \<and> phash_ok K h' \<and>
    phash_map h' = (if phash_map h k = None then (phash_map h)(k \<mapsto> c) else phash_map h)"
proof (cases rule: found_cases [OF assms(1,2)])
  case 1
  then show ?thesis using assms by (auto simp: insert_if_not_exists_dup_def add_direct_ok)
next
  case (2 c' g p)
  then show ?thesis using assms(4) by (auto simp: insert_if_not_exists_dup_def)
qed

lemma insert_key_eq: "insert_key = insert_dup (\<lambda>k. k)"
  by (simp add: fun_eq_iff insert_key_def insert_dup_def)

lemma insert_if_not_exists_eq: "insert_if_not_exists = insert_if_not_exists_dup (\<lambda>k. k)"
  by (simp add: fun_eq_iff insert_if_not_exists_def insert_if_not_exists_dup_def)

lemma remove_elem_ok:
  assumes "phash_ok K h" and "k \<in> K" and "remove_elem h k = (n, e, h')"
  shows "n = (if phash_map h k = None then 0 else 1) \<and> e = map_option (Pair k) (phash_map h k) \<and>
    phash_ok K h' \<and> phash_map h' = (phash_map h)(k := None)"
proof (cases rule: found_cases [OF assms(1,2)])
  case 1
  then show ?thesis using assms by (auto simp: remove_elem_def)
next
  case (2 c g p)
  then have "n = 1" and "e = Some (k, c)" and "h' = drop_elem g (do_hash h k) p"
    using assms(3) by (auto simp: remove_elem_def)
  then show ?thesis using 2 drop_elem_at [OF 2(3,6,7,5)] by simp
qed

lemma remove_key_eq: "remove_key h k = (case remove_elem h k of (n, _, h) \<Rightarrow> (n, h))"
  by (simp add: remove_key_def remove_elem_def Let_def split: option.splits prod.splits)

lemma remove_free_ok:
  assumes "phash_ok K h" and "k \<in> K" and "remove_free h k = (n, ks, h')"
  shows "n = (if phash_map h k = None then 0 else 1) \<and> ks = (if phash_map h k = None then [] else [k]) \<and>
    phash_ok K h' \<and> phash_map h' = (phash_map h)(k := None)"
proof -
  obtain m e g where r: "remove_elem h k = (m, e, g)" by (cases "remove_elem h k")
  then show ?thesis using remove_elem_ok [OF assms(1,2) r] assms(3)
    by (cases "phash_map h k") (auto simp: remove_free_def)
qed

lemma lookup_ok:
  assumes "phash_ok K h" and "k \<in> K" and "lookup h k = (n, c, h')"
  shows "n = (if phash_map h k = None then 0 else 1) \<and> c = (case phash_map h k of None \<Rightarrow> default_value h | Some c \<Rightarrow> c) \<and>
    phash_ok K h' \<and> phash_map h' = phash_map h \<and> default_value h' = default_value h"
proof (cases rule: found_cases [OF assms(1,2)])
  case 1
  then show ?thesis using assms by (auto simp: lookup_def)
next
  case (2 c' g p)
  then show ?thesis using assms(3) by (auto simp: lookup_def)
qed

lemma remove_by_predicate_ok:
  assumes "phash_ok K h" and "remove_by_predicate P h = (n, h')"
  shows "phash_ok K h'" and "phash_map h' = (\<lambda>k. case phash_map h k of None \<Rightarrow> None | Some c \<Rightarrow> if P c then None else Some c)"
    and "n = int (card {k \<in> dom (phash_map h). P (the (phash_map h k))})"
proof -
  let ?f = "filter (\<lambda>e. \<not> P (snd e))" let ?g = "filter (\<lambda>e. P (snd e))"
  have h': "h' = h\<lparr>bins := map ?f (bins h), num_entries := num_entries h - int (length (?g (concat (bins h))))\<rparr>"
    and n: "n = int (length (?g (concat (bins h))))"
    using assms(2) by (auto simp: remove_by_predicate_def Let_def)
  have len: "length (bins h) = num_bins h" and pos: "0 < num_bins h" using assms(1) by (auto simp: phash_ok_def)
  note b = phash_binD [OF assms(1)]
  have "bin_ok K h i (?f (bins h ! i))" if "i < num_bins h" for i
    using b [OF that] by (auto simp: bin_ok_def distinct_map_filter)
  moreover have "length (concat (map ?f bs)) + length (?g (concat bs)) = length (concat bs)" for bs :: "('a \<times> 'b) list list"
    by (induction bs) (auto, metis (no_types) add.assoc add.left_commute sum_length_filter_compl)
  note l = this [of "bins h"]
  ultimately show "phash_ok K h'" using assms(1) l len by (simp add: h' phash_ok_def)
  show "phash_map h' = (\<lambda>k. case phash_map h k of None \<Rightarrow> None | Some c \<Rightarrow> if P c then None else Some c)"
  proof
    fix k
    have d: "distinct (map fst (bins h ! do_hash h k))"
      using b [OF do_hash_less [OF assms(1)], of k] by (simp add: bin_ok_def)
    show "phash_map h' k = (case phash_map h k of None \<Rightarrow> None | Some c \<Rightarrow> if P c then None else Some c)"
      using map_of_filter_contents [OF d, of "\<lambda>c. \<not> P c" k] do_hash_less [OF assms(1), of k] len
      by (auto simp: h' phash_map_def split: option.splits if_splits)
  qed
  note c = phash_concat [OF assms(1)]
  have "{k \<in> dom (phash_map h). P (the (phash_map h k))} = set (map fst (?g (concat (bins h))))"
    using c(1) unfolding c(2) [symmetric] by (force simp del: set_concat simp: map_of_eq_Some_iff)
  moreover have "distinct (map fst (?g (concat (bins h))))" using c(1) by (simp add: distinct_map_filter)
  ultimately show "n = int (card {k \<in> dom (phash_map h). P (the (phash_map h k))})"
    by (metis distinct_card length_map n)
qed

lemma remove_by_contents_eq: "remove_by_contents c = remove_by_predicate (\<lambda>c'. c' = c)"
  by (simp add: fun_eq_iff remove_by_contents_def remove_by_predicate_def)

lemma erase_ok:
  assumes "phash_ok K h"
  obtains h' where "erase h = Inr h'" and "erase_free h = Inr (map fst (concat (bins h)), h')"
    and "phash_ok K h'" and "phash_map h' = Map.empty" and "default_value h' = default_value h"
    and "num_bins h' = num_bins h" and "max_density h' = max_density h" and "grow_factor h' = grow_factor h"
proof -
  let ?h = "h\<lparr>bins := replicate (num_bins h) [], num_entries := 0\<rparr>"
  have "num_entries h = int (length (concat (bins h)))" and "0 < num_bins h" and "cmpr_ok K (cmpr h)"
    using assms by (auto simp: phash_ok_def)
  then show thesis
    using that [of ?h] empty_bins_ok [of ?h K] by (simp add: erase_def erase_free_def Let_def)
qed


section \<open>Iteration and copying\<close>

definition iter_ok :: "('k, 'v) phash \<Rightarrow> phash_iter \<Rightarrow> bool" where
  "iter_ok h it \<longleftrightarrow> (\<forall>i p. it_entry it = Some (i, p) \<longrightarrow> i < num_bins h \<and> p < length (bins h ! i) \<and> it_index it = Suc i)"

definition iter_rest :: "('k, 'v) phash \<Rightarrow> phash_iter \<Rightarrow> ('k \<times> 'v) list" where
  "iter_rest h it =
     (case it_entry it of None \<Rightarrow> [] | Some (i, p) \<Rightarrow> drop p (bins h ! i) @ concat (drop (Suc i) (bins h)))"

lemma next_bin_rest:
  assumes "length (bins h) = num_bins h"
  shows "iter_rest h (next_bin h m) = concat (drop m (bins h))" and "iter_ok h (next_bin h m)"
proof -
  show "iter_ok h (next_bin h m)"
    by (auto simp: next_bin_def iter_ok_def split: option.splits dest: find_upt_split)
  show "iter_rest h (next_bin h m) = concat (drop m (bins h))"
  proof (cases "find (\<lambda>i. bins h ! i \<noteq> []) [m..<num_bins h]")
    case None
    then have "\<forall>b\<in>set (drop m (bins h)). b = []"
      using assms by (auto simp: find_None_iff in_set_conv_nth)
    then show ?thesis using None by (simp add: next_bin_def iter_rest_def)
  next
    case (Some i)
    note i = find_upt_split [OF Some]
    have il: "i < length (bins h)" "m \<le> i" using i assms by auto
    then have d: "drop m (bins h) = take (i - m) (drop m (bins h)) @ bins h ! i # drop (Suc i) (bins h)"
      using id_take_nth_drop [of "i - m" "drop m (bins h)"] by simp
    have "\<forall>b\<in>set (take (i - m) (drop m (bins h))). b = []"
      using i il by (auto simp: in_set_conv_nth)
    then have "concat (take (i - m) (drop m (bins h))) = []" by simp
    then have "concat (drop m (bins h)) = bins h ! i @ concat (drop (Suc i) (bins h))"
      by (metis append_Nil concat.simps(2) concat_append d)
    then show ?thesis using Some by (simp add: next_bin_def iter_rest_def)
  qed
qed

lemma iter_step_rest:
  assumes "length (bins h) = num_bins h" and "iter_ok h it" and "it_entry it = Some (i, p)"
  shows "iter_rest h it = bins h ! i ! p # iter_rest h (iter_step h it)" and "iter_ok h (iter_step h it)"
proof -
  have ip: "p < length (bins h ! i)" "it_index it = Suc i" "i < num_bins h" using assms by (auto simp: iter_ok_def)
  show "iter_ok h (iter_step h it)"
    using assms ip next_bin_rest(2) [OF assms(1)] by (auto simp: iter_step_def iter_ok_def)
  show "iter_rest h it = bins h ! i ! p # iter_rest h (iter_step h it)"
    using ip assms(3) next_bin_rest(1) [OF assms(1), of "Suc i"]
    by (auto simp: iter_step_def iter_rest_def Cons_nth_drop_Suc [symmetric])
qed

lemma iter_reset_rest:
  "length (bins h) = num_bins h \<Longrightarrow> iter_rest h (iter_reset h) = concat (bins h) \<and> iter_ok h (iter_reset h)"
  by (simp add: iter_reset_def next_bin_rest)

lemma copy_loop_foldl:
  assumes "length (bins b) = num_bins b" and "iter_ok b it"
  shows "copy_loop kdup b it h = foldl (\<lambda>h (k, c). snd (insert_key h (kdup k) c)) h (iter_rest b it)"
  using assms
proof (induction kdup b it h rule: copy_loop.induct)
  case (1 kdup b it h)
  show ?case
  proof (cases "it_entry it")
    case None
    then show ?thesis by (simp add: copy_loop.simps iter_rest_def)
  next
    case (Some e)
    then obtain i p where e: "it_entry it = Some (i, p)" by (cases e) auto
    note s = iter_step_rest [OF 1(2,3) e]
    show ?thesis using 1(1) [OF e refl 1(2) s(2)] e
      by (simp add: copy_loop.simps [of kdup b it] s(1) case_prod_beta)
  qed
qed

lemma iter_list_rest:
  assumes "length (bins h) = num_bins h" and "iter_ok h it"
  shows "iter_list h it = iter_rest h it"
  using assms
proof (induction h it rule: iter_list.induct)
  case (1 h it)
  show ?case
  proof (cases "it_entry it")
    case None
    then show ?thesis by (simp add: iter_list.simps iter_rest_def)
  next
    case (Some e)
    then obtain i p where e: "it_entry it = Some (i, p)" by (cases e) auto
    note s = iter_step_rest [OF 1(2,3) e]
    show ?thesis using 1(1) [OF e refl 1(2) s(2)] e by (simp add: iter_list.simps [of h it] s(1))
  qed
qed

text \<open>A walk over a table meets every element of its map once.\<close>

lemma iter_list_map:
  assumes "phash_ok K h"
  shows "map_of (iter_list h (iter_reset h)) = phash_map h" and "distinct (map fst (iter_list h (iter_reset h)))"
proof -
  have len: "length (bins h) = num_bins h" using assms by (simp add: phash_ok_def)
  then have "iter_list h (iter_reset h) = concat (bins h)"
    using iter_list_rest [OF len] iter_reset_rest [OF len] by simp
  then show "map_of (iter_list h (iter_reset h)) = phash_map h" "distinct (map fst (iter_list h (iter_reset h)))"
    using phash_concat [OF assms] by simp_all
qed

lemma insert_all_ok:
  assumes "phash_ok K h" and "fst ` set es \<subseteq> K" and "\<And>k. k \<in> K \<Longrightarrow> kdup k = k"
  defines "h' \<equiv> foldl (\<lambda>h (k, c). snd (insert_key h (kdup k) c)) h es"
  shows "phash_ok K h' \<and> phash_map h' = phash_map h ++ map_of (rev es)"
  unfolding h'_def using assms(1,2)
proof (induction es arbitrary: h)
  case (Cons e es)
  obtain k c where e: "e = (k, c)" by (cases e)
  obtain n g where i: "insert_key h (kdup k) c = (n, g)" by (cases "insert_key h (kdup k) c")
  have "k \<in> K" "kdup k = k" using Cons.prems(2) e assms(3) by auto
  then have g: "phash_ok K g \<and> phash_map g = (phash_map h)(k \<mapsto> c)"
    using insert_dup_ok [OF Cons.prems(1), of k "\<lambda>k. k" c n g] i by (simp add: insert_key_eq)
  have "phash_ok K (foldl (\<lambda>h (k, c). snd (insert_key h (kdup k) c)) g es) \<and>
    phash_map (foldl (\<lambda>h (k, c). snd (insert_key h (kdup k) c)) g es) = phash_map g ++ map_of (rev es)"
    by (rule Cons.IH) (use g Cons.prems(2) in auto)
  then show ?case using e i g by (simp add: map_add_upd_left)
qed simp

text \<open>A copy holds what the other table holds, and nothing it held before.\<close>

lemma copy_dup_ok:
  assumes "phash_ok K h" and "phash_ok K b" and "\<And>k. k \<in> K \<Longrightarrow> kdup k = k"
  obtains h' where "copy_dup kdup h b = Inr (map fst (concat (bins h)), h')" and "phash_ok K h'"
    and "phash_map h' = phash_map b"
proof -
  obtain g where g: "erase_free h = Inr (map fst (concat (bins h)), g)" "phash_ok K g" "phash_map g = Map.empty"
    using erase_ok [OF assms(1)] by metis
  have len: "length (bins b) = num_bins b" using assms(2) by (simp add: phash_ok_def)
  note c = phash_concat [OF assms(2)]
  have "copy_loop kdup b (iter_reset b) g = foldl (\<lambda>h (k, c). snd (insert_key h (kdup k) c)) g (concat (bins b))"
    using copy_loop_foldl [OF len] iter_reset_rest [OF len] by metis
  moreover have "map_of (rev (concat (bins b))) = map_of (concat (bins b))"
    using c(1) by (metis distinct_rev map_of_inject_set rev_map set_rev)
  ultimately have "phash_ok K (copy_loop kdup b (iter_reset b) g)"
    and "phash_map (copy_loop kdup b (iter_reset b) g) = phash_map b"
    using insert_all_ok [OF g(2) c(3) assms(3)] g(3) c(2) by simp_all
  then show thesis using that g(1) by (simp add: copy_dup_def)
qed

section \<open>The table of strings\<close>

definition nul_free :: "string set" where
  "nul_free = {s. CHR 0x00 \<notin> set s}"

lemma c_str_id [simp]: "s \<in> nul_free \<Longrightarrow> c_str s = s"
  by (induction s) (auto simp: c_str_def nul_free_def)

lemma c_str_in [simp]: "c_str s \<in> nul_free"
  by (auto simp: c_str_def nul_free_def dest: set_takeWhileD)

lemma of_char_int_0_iff: "(of_char c :: int) = 0 \<longleftrightarrow> c = CHR 0x00"
  using of_char_eq_iff [where 'a = int, of c "CHR 0x00"] by simp

lemma strhash_cmp_0: "a \<in> nul_free \<Longrightarrow> b \<in> nul_free \<Longrightarrow> sc_strhash_cmp a b = 0 \<longleftrightarrow> a = b"
  by (induction a b rule: sc_strhash_cmp.induct) (auto simp: nul_free_def of_char_int_0_iff)

lemma strhash_ok: "phash_ok nul_free (sc_strhash d)" and strhash_map: "phash_map (sc_strhash d) = Map.empty"
  and strhash_default: "default_value (sc_strhash d) = d"
proof -
  have "cmpr_ok nul_free (cmpr (sc_strhash d))"
    by (simp add: sc_strhash_def sc_phash_base_def cmpr_ok_def strhash_cmp_0)
  then show "phash_ok nul_free (sc_strhash d)" "phash_map (sc_strhash d) = Map.empty"
    using empty_bins_ok [of "sc_strhash d" nul_free] by (simp_all add: sc_strhash_def sc_phash_base_def init_size_def)
  show "default_value (sc_strhash d) = d" by (simp add: sc_strhash_def sc_phash_base_def)
qed


text \<open>\<open>operator[]\<close> as a search: what it returns unless that is the default value.\<close>

definition strhash_find :: "(string, 'v) phash \<Rightarrow> string \<Rightarrow> 'v option \<times> (string, 'v) phash" where
  "strhash_find h k = (case lookup h k of (n, c, h) \<Rightarrow> (if n = 0 then None else Some c, h))"

interpretation strhash: dictionary strhash_find strhash_insert strhash_remove phash_map "phash_ok nul_free"
  "\<lambda>k. k \<in> nul_free"
proof unfold_locales
  fix d d' :: "(string, 'v) phash" and k n x v
  assume d: "phash_ok nul_free d" and k: "k \<in> nul_free"
  show "x = phash_map d k \<and> phash_ok nul_free d' \<and> phash_map d' = phash_map d" if "strhash_find d k = (x, d')"
  proof -
    obtain m c g where l: "lookup d k = (m, c, g)" by (cases "lookup d k")
    then show ?thesis using that lookup_ok [OF d k l] by (auto simp: strhash_find_def split: option.splits)
  qed
  show "n = (if phash_map d k = None then 0 else 1) \<and> phash_ok nul_free d' \<and> phash_map d' = (phash_map d)(k \<mapsto> v)"
    if "strhash_insert d k v = (n, d')"
    using insert_dup_ok [OF d k _ that [unfolded strhash_insert_def]] k by (simp add: sc_strhash_kdup_def)
  show "n = (if phash_map d k = None then 0 else 1) \<and> phash_ok nul_free d' \<and> phash_map d' = (phash_map d)(k := None)"
    if "strhash_remove d k = (n, d')"
  proof -
    obtain m ks g where r: "remove_free d k = (m, ks, g)" by (cases "remove_free d k")
    then show ?thesis using that remove_free_ok [OF d k r] by (simp add: strhash_remove_def)
  qed
qed

lemma contents_at_ok:
  assumes "phash_ok nul_free h" and "k \<in> nul_free" and "contents_at h k = (c, h')"
  shows "c = (case phash_map h k of None \<Rightarrow> default_value h | Some c \<Rightarrow> c)" and "phash_ok nul_free h'"
    and "phash_map h' = phash_map h" and "default_value h' = default_value h"
proof -
  obtain n c' g where l: "lookup h k = (n, c', g)" by (cases "lookup h k")
  show "c = (case phash_map h k of None \<Rightarrow> default_value h | Some c \<Rightarrow> c)" "phash_ok nul_free h'"
    "phash_map h' = phash_map h" "default_value h' = default_value h"
    using lookup_ok [OF assms(1,2) l] assms(3) l by (auto simp: contents_at_def)
qed

lemma strhash_remove_by_contents_eq [simp]: "strhash_remove_by_contents c h = remove_by_contents c h"
  by (simp add: strhash_remove_by_contents_def remove_by_contents_free_def remove_by_contents_def Let_def)

text \<open>The calls of a client, and the same calls of a finite map.\<close>

datatype 'v hash_op =
    Insert string 'v
  | Insert_New string 'v
  | Remove string
  | Remove_Contents 'v
  | Lookup string
  | Count
  | Erase
  | Copy_Back

fun hash_do :: "'v hash_op \<Rightarrow> (string, 'v) phash \<Rightarrow> ((int \<times> 'v) \<times> (string, 'v) phash) res" where
  "hash_do (Insert k c) h = (case strhash_insert h k c of (n, h) \<Rightarrow> Inr ((n, c), h))"
| "hash_do (Insert_New k c) h = (case strhash_insert_if_not_exists h k c of (n, h) \<Rightarrow> Inr ((n, c), h))"
| "hash_do (Remove k) h = (case strhash_remove h k of (n, h) \<Rightarrow> Inr ((n, default_value h), h))"
| "hash_do (Remove_Contents c) h = (case strhash_remove_by_contents c h of (n, h) \<Rightarrow> Inr ((n, c), h))"
| "hash_do (Lookup k) h = (case lookup h k of (n, c, h) \<Rightarrow> Inr ((n, c), h))"
| "hash_do Count h = Inr ((count_entries h, default_value h), h)"
| "hash_do Erase h = bind_res (strhash_erase h) (\<lambda>h. Inr ((0, default_value h), h))"
| "hash_do Copy_Back h =
     bind_res (strhash_copy (sc_strhash (default_value h)) h) (\<lambda>h. Inr ((0, default_value h), h))"

fun map_do :: "'v \<Rightarrow> 'v hash_op \<Rightarrow> (string \<rightharpoonup> 'v) \<Rightarrow> (int \<times> 'v) \<times> (string \<rightharpoonup> 'v)" where
  "map_do d (Insert k c) m = ((if m k = None then 0 else 1, c), m(k \<mapsto> c))"
| "map_do d (Insert_New k c) m = ((if m k = None then 0 else 1, c), if m k = None then m(k \<mapsto> c) else m)"
| "map_do d (Remove k) m = ((if m k = None then 0 else 1, d), m(k := None))"
| "map_do d (Remove_Contents c) m =
     ((int (card {k. m k = Some c}), c), \<lambda>k. if m k = Some c then None else m k)"
| "map_do d (Lookup k) m = (case m k of None \<Rightarrow> (0, d) | Some c \<Rightarrow> (1, c), m)"
| "map_do d Count m = ((int (card (dom m)), d), m)"
| "map_do d Erase m = ((0, d), Map.empty)"
| "map_do d Copy_Back m = ((0, d), m)"

fun op_key_ok :: "'v hash_op \<Rightarrow> bool" where
  "op_key_ok (Insert k c) = (k \<in> nul_free)"
| "op_key_ok (Insert_New k c) = (k \<in> nul_free)"
| "op_key_ok (Remove k) = (k \<in> nul_free)"
| "op_key_ok (Lookup k) = (k \<in> nul_free)"
| "op_key_ok _ = True"

fun hash_run :: "'v hash_op list \<Rightarrow> (string, 'v) phash \<Rightarrow> ((int \<times> 'v) list \<times> (string, 'v) phash) res" where
  "hash_run [] h = Inr ([], h)"
| "hash_run (op # ops) h =
     bind_res (hash_do op h) (\<lambda>(x, h). bind_res (hash_run ops h) (\<lambda>(xs, h). Inr (x # xs, h)))"

fun map_run :: "'v \<Rightarrow> 'v hash_op list \<Rightarrow> (string \<rightharpoonup> 'v) \<Rightarrow> (int \<times> 'v) list \<times> (string \<rightharpoonup> 'v)" where
  "map_run d [] m = ([], m)"
| "map_run d (op # ops) m =
     (let (x, m) = map_do d op m; (xs, m) = map_run d ops m in (x # xs, m))"


section \<open>Refinement\<close>

text \<open>The default value and the parameters of growth never change.\<close>

definition phash_params :: "('k, 'v) phash \<Rightarrow> 'v \<times> int \<times> rat" where
  "phash_params h = (default_value h, max_density h, grow_factor h)"

lemma params_update [simp]:
  "phash_params (h\<lparr>bins := bs\<rparr>) = phash_params h" "phash_params (h\<lparr>num_entries := n\<rparr>) = phash_params h"
  "phash_params (h\<lparr>num_bins := m\<rparr>) = phash_params h"
  by (simp_all add: phash_params_def)

lemma params_ops [simp]:
  "phash_params (snd (find_entry h hv k)) = phash_params h"
  "phash_params (rehash h) = phash_params h"
  "phash_params (add_direct h k c hv) = phash_params h"
  "phash_params (set_elem h hv p c) = phash_params h"
  "phash_params (drop_elem h hv p) = phash_params h"
proof -
  show "phash_params (snd (find_entry h hv k)) = phash_params h"
    by (simp add: find_entry_def Let_def split: option.split)
  show r: "phash_params (rehash h) = phash_params h"
    by (simp add: rehash_def Let_def phash_params_def)
  show "phash_params (add_direct h k c hv) = phash_params h" by (simp add: add_direct_def Let_def r)
qed (simp_all add: set_elem_def drop_elem_def Let_def)

lemma params_found: "find_entry h hv k = (x, h') \<Longrightarrow> phash_params h' = phash_params h"
  using params_ops(1) [of h hv k] by simp

lemma params_calls:
  "insert_dup kdup h k c = (n, h') \<Longrightarrow> phash_params h' = phash_params h"
  "insert_if_not_exists_dup kdup h k c = (n, h') \<Longrightarrow> phash_params h' = phash_params h"
  "remove_elem h k = (n, e, h') \<Longrightarrow> phash_params h' = phash_params h"
  "lookup h k = (n, c, h') \<Longrightarrow> phash_params h' = phash_params h"
  by (auto simp: insert_dup_def insert_if_not_exists_dup_def remove_elem_def lookup_def Let_def params_found
      split: prod.splits option.splits)

lemma default_params: "default_value h = fst (phash_params h)"
  by (simp add: phash_params_def)

lemma remove_free_params: "remove_free h k = (n, ks, h') \<Longrightarrow> phash_params h' = phash_params h"
  by (auto simp: remove_free_def params_calls(3) split: prod.splits option.splits if_splits)

lemma copy_loop_params:
  "phash_params (foldl (\<lambda>h (k, c). snd (insert_key h (kdup k) c)) h es) = phash_params h"
proof (induction es arbitrary: h)
  case (Cons e es)
  then show ?case
    by (cases "insert_key h (kdup (fst e)) (snd e)")
      (simp add: case_prod_beta insert_key_eq params_calls(1))
qed simp

lemma strhash_copy_ok:
  assumes "phash_ok nul_free h" and "phash_ok nul_free b"
  obtains h' where "strhash_copy h b = Inr h'" and "phash_ok nul_free h'" and "phash_map h' = phash_map b"
    and "phash_params h' = phash_params h"
proof -
  obtain g where g: "erase_free h = Inr (map fst (concat (bins h)), g)" "phash_params g = phash_params h"
    using erase_ok [OF assms(1)] by (metis phash_params_def)
  obtain h' where h': "copy_dup sc_strhash_kdup h b = Inr (map fst (concat (bins h)), h')" "phash_ok nul_free h'"
    "phash_map h' = phash_map b"
    by (rule copy_dup_ok [OF assms, of sc_strhash_kdup]) (simp_all add: sc_strhash_kdup_def)
  have len: "length (bins b) = num_bins b" using assms(2) by (simp add: phash_ok_def)
  have "h' = foldl (\<lambda>h (k, c). snd (insert_key h (sc_strhash_kdup k) c)) g (iter_rest b (iter_reset b))"
    using h'(1) g(1) copy_loop_foldl [OF len, of "iter_reset b" sc_strhash_kdup g] iter_reset_rest [OF len]
    by (simp add: copy_dup_def)
  then have "phash_params h' = phash_params h" using g(2) by (simp add: copy_loop_params)
  then show thesis using that h' by (simp add: strhash_copy_def)
qed

lemma hash_do_refines:
  assumes "phash_ok nul_free h" and "op_key_ok op" and "default_value h = d" and "phash_params h = phash_params (sc_strhash d)"
  shows "\<exists>h'. hash_do op h = Inr (fst (map_do d op (phash_map h)), h') \<and> phash_ok nul_free h' \<and>
    phash_map h' = snd (map_do d op (phash_map h)) \<and> phash_params h' = phash_params h"
proof (cases op)
  case (Insert k c)
  obtain n g where i: "insert_dup sc_strhash_kdup h k c = (n, g)" by (cases "insert_dup sc_strhash_kdup h k c")
  show ?thesis
    using insert_dup_ok [OF assms(1) _ _ i] params_calls(1) [OF i] i Insert assms(2)
    by (simp add: strhash_insert_def sc_strhash_kdup_def)
next
  case (Insert_New k c)
  obtain n g where i: "insert_if_not_exists_dup sc_strhash_kdup h k c = (n, g)"
    by (cases "insert_if_not_exists_dup sc_strhash_kdup h k c")
  show ?thesis
    using insert_if_not_exists_dup_ok [OF assms(1) _ _ i] params_calls(2) [OF i] i Insert_New assms(2)
    by (simp add: strhash_insert_if_not_exists_def sc_strhash_kdup_def)
next
  case (Remove k)
  obtain n ks g where r: "remove_free h k = (n, ks, g)" by (cases "remove_free h k")
  show ?thesis
    using remove_free_ok [OF assms(1) _ r] remove_free_params [OF r] r Remove assms
    by (auto simp: strhash_remove_def default_params)
next
  case (Remove_Contents c)
  obtain n g where r: "remove_by_predicate (\<lambda>c'. c' = c) h = (n, g)" by (cases "remove_by_predicate (\<lambda>c'. c' = c) h")
  have "{k \<in> dom (phash_map h). the (phash_map h k) = c} = {k. phash_map h k = Some c}" by auto
  moreover have "phash_params g = phash_params h"
    using r by (auto simp: remove_by_predicate_def Let_def)
  ultimately show ?thesis
    using remove_by_predicate_ok [OF assms(1) r] r Remove_Contents
    by (auto simp: remove_by_contents_eq fun_eq_iff split: option.splits)
next
  case (Lookup k)
  obtain n c g where l: "lookup h k = (n, c, g)" by (cases "lookup h k")
  show ?thesis
    using lookup_ok [OF assms(1) _ l] params_calls(4) [OF l] l Lookup assms by (auto split: option.splits)
next
  case Count
  then show ?thesis using assms count_phash_map [OF assms(1)] by (simp add: count_entries_def)
next
  case Erase
  obtain g where g: "erase_free h = Inr (map fst (concat (bins h)), g)" "phash_ok nul_free g" "phash_map g = Map.empty"
    "phash_params g = phash_params h"
    using erase_ok [OF assms(1)] by (metis phash_params_def)
  then show ?thesis using Erase assms by (simp add: strhash_erase_def default_params)
next
  case Copy_Back
  obtain g where g: "strhash_copy (sc_strhash d) h = Inr g" "phash_ok nul_free g" "phash_map g = phash_map h"
    "phash_params g = phash_params (sc_strhash d)"
    by (rule strhash_copy_ok [OF strhash_ok assms(1)])
  then show ?thesis using Copy_Back assms by (simp add: default_params strhash_default)
qed

text \<open>
  The load: while the table grows by a factor of at least two, its elements are at most \<open>max_density\<close>
  times its bins.
\<close>

definition load_ok :: "('k, 'v) phash \<Rightarrow> bool" where
  "load_ok h \<longleftrightarrow> num_entries h \<le> max_density h * int (num_bins h)"

definition grows :: "('k, 'v) phash \<Rightarrow> bool" where
  "grows h \<longleftrightarrow> 1 \<le> max_density h \<and> 2 \<le> grow_factor h"

lemma grown_more: "2 \<le> g \<Longrightarrow> 2 * n < grown_bins g n"
proof -
  assume "2 \<le> g"
  then have "of_int (int (2 * n)) \<le> g * rat_of_nat n" by (simp add: mult_right_mono)
  then have "int (2 * n) \<le> \<lfloor>g * rat_of_nat n\<rfloor>" by (simp only: le_floor_iff)
  moreover define m where "m = nat \<lfloor>g * rat_of_nat n\<rfloor>"
  ultimately have "2 * n \<le> m" by linarith
  then show ?thesis unfolding grown_bins_def Let_def m_def [symmetric] by presburger
qed

lemma num_bins_rehash: "num_bins (rehash h) = grown_bins (grow_factor h) (num_bins h)"
  by (simp add: rehash_def Let_def)

lemma num_entries_rehash: "phash_ok K h \<Longrightarrow> num_entries (rehash h) = num_entries h"
  using count_phash_map [OF rehash_ok(1)] count_phash_map by (metis rehash_ok(2))

lemma max_density_rehash: "max_density (rehash h) = max_density h"
  by (simp add: rehash_def Let_def)

lemma load_add_direct:
  assumes "phash_ok K h" and "load_ok h" and "grows h"
  shows "load_ok (add_direct h k c hv)"
proof (cases "max_density h \<le> num_entries h div int (num_bins h)")
  case False
  moreover have "0 < int (num_bins h)" using assms(1) by (simp add: phash_ok_def)
  ultimately have "num_entries h < max_density h * int (num_bins h)"
    by (metis linorder_not_le mult.commute pos_imp_zdiv_pos_iff zdiv_mono1 nonzero_mult_div_cancel_left not_less_iff_gr_or_eq)
  then show ?thesis using False by (simp add: add_direct_def load_ok_def)
next
  case True
  let ?m = "int (num_bins h)" let ?m' = "int (num_bins (rehash h))"
  have "?m + 1 \<le> ?m'" using grown_more [of "grow_factor h" "num_bins h"] assms(3)
    by (simp add: num_bins_rehash grows_def)
  then have "max_density h * (?m + 1) \<le> max_density h * ?m'"
    using assms(3) by (intro mult_left_mono) (simp_all add: grows_def)
  moreover have "num_entries h + 1 \<le> max_density h * (?m + 1)"
    using assms(2,3) by (simp add: load_ok_def grows_def distrib_left)
  ultimately have "num_entries h + 1 \<le> max_density h * ?m'" by linarith
  then show ?thesis using True num_entries_rehash [OF assms(1)]
    by (simp add: add_direct_def load_ok_def Let_def max_density_rehash)
qed


lemma load_find_entry:
  "phash_ok K h \<Longrightarrow> k \<in> K \<Longrightarrow> find_entry h (do_hash h k) k = (x, h') \<Longrightarrow> load_ok h' = load_ok h"
  by (cases rule: found_cases [of K h k]) (auto simp: load_ok_def)

lemma grows_params: "grows h = (1 \<le> fst (snd (phash_params h)) \<and> 2 \<le> snd (snd (phash_params h)))"
  by (simp add: grows_def phash_params_def)

lemma load_set_elem [simp]: "load_ok (set_elem h hv p c) = load_ok h"
  by (simp add: load_ok_def set_elem_def Let_def)

lemma load_drop_elem: "load_ok h \<Longrightarrow> load_ok (drop_elem h hv p)"
  by (simp add: load_ok_def drop_elem_def)

lemma load_insert_dup:
  assumes "phash_ok K h" and "k \<in> K" and "load_ok h" and "grows h" and "insert_dup kdup h k c = (n, h')"
  shows "load_ok h'"
proof (cases rule: found_cases [OF assms(1,2)])
  case 1
  then show ?thesis using assms(5) load_add_direct [OF assms(1,3,4)] by (auto simp: insert_dup_def)
next
  case (2 c' g p)
  then show ?thesis using assms(3,5) load_find_entry [OF assms(1,2) 2(2)] by (auto simp: insert_dup_def)
qed

lemma load_insert_new:
  assumes "phash_ok K h" and "k \<in> K" and "load_ok h" and "grows h" and "insert_if_not_exists_dup kdup h k c = (n, h')"
  shows "load_ok h'"
proof (cases rule: found_cases [OF assms(1,2)])
  case 1
  then show ?thesis using assms(5) load_add_direct [OF assms(1,3,4)] by (auto simp: insert_if_not_exists_dup_def)
next
  case (2 c' g p)
  then show ?thesis using assms(3,5) load_find_entry [OF assms(1,2) 2(2)] by (auto simp: insert_if_not_exists_dup_def)
qed

lemma load_remove_elem:
  assumes "phash_ok K h" and "k \<in> K" and "load_ok h" and "remove_elem h k = (n, e, h')"
  shows "load_ok h'"
proof (cases rule: found_cases [OF assms(1,2)])
  case 1
  then show ?thesis using assms(3,4) by (auto simp: remove_elem_def)
next
  case (2 c g p)
  then have "load_ok g" using assms(3) load_find_entry [OF assms(1,2) 2(2)] by simp
  then have "load_ok (drop_elem g (do_hash h k) p)" by (rule load_drop_elem)
  then show ?thesis using 2 assms(4) by (auto simp: remove_elem_def)
qed

lemma load_lookup:
  assumes "phash_ok K h" and "k \<in> K" and "load_ok h" and "lookup h k = (n, c, h')"
  shows "load_ok h'"
proof (cases rule: found_cases [OF assms(1,2)])
  case 1
  then show ?thesis using assms(3,4) by (auto simp: lookup_def)
next
  case (2 c g p)
  then have "load_ok g" using assms(3) load_find_entry [OF assms(1,2) 2(2)] by simp
  then show ?thesis using 2 assms(4) by (auto simp: lookup_def)
qed

lemma load_copy_loop:
  assumes "phash_ok K h" and "fst ` set es \<subseteq> K" and "\<And>k. k \<in> K \<Longrightarrow> kdup k = k" and "load_ok h" and "grows h"
  shows "load_ok (foldl (\<lambda>h (k, c). snd (insert_key h (kdup k) c)) h es)"
  using assms(1,2,4,5)
proof (induction es arbitrary: h)
  case (Cons e es)
  obtain k c where e: "e = (k, c)" by (cases e)
  obtain n g where i: "insert_dup (\<lambda>k. k) h k c = (n, g)" by (cases "insert_dup (\<lambda>k. k) h k c")
  have k: "k \<in> K" "kdup k = k" using Cons.prems(2) e assms(3) by auto
  have "phash_ok K g" "load_ok g" "grows g"
    using insert_dup_ok [OF Cons.prems(1) k(1) refl i] load_insert_dup [OF Cons.prems(1) k(1) Cons.prems(3,4) i]
      params_calls(1) [OF i] Cons.prems(4) by (simp_all add: grows_params)
  then have "load_ok (foldl (\<lambda>h (k, c). snd (insert_key h (kdup k) c)) g es)"
    by (intro Cons.IH) (use Cons.prems(2) in auto)
  then show ?case using e i k(2) by (simp add: insert_key_eq)
qed simp

lemma strhash_grows: "phash_params h = phash_params (sc_strhash d) \<Longrightarrow> grows h"
  by (simp add: grows_params) (simp add: phash_params_def sc_strhash_def sc_phash_base_def)

lemma load_strhash: "load_ok (sc_strhash d)"
  by (simp add: load_ok_def sc_strhash_def sc_phash_base_def)

lemma load_strhash_copy:
  assumes "phash_ok nul_free b" and "strhash_copy (sc_strhash d) b = Inr h'"
  shows "load_ok h'"
proof -
  obtain g where g: "erase_free (sc_strhash d) = Inr (map fst (concat (bins (sc_strhash d))), g)" "phash_ok nul_free g"
    "phash_params g = phash_params (sc_strhash d)" "phash_map g = Map.empty"
    using erase_ok [OF strhash_ok, of d] by (metis phash_params_def)
  have len: "length (bins b) = num_bins b" using assms(1) by (simp add: phash_ok_def)
  have "num_entries g = 0" using count_phash_map [OF g(2)] g(4) by simp
  then have "load_ok g"
    using strhash_grows [OF g(3)] by (simp add: load_ok_def grows_def)
  then have "load_ok (foldl (\<lambda>h (k, c). snd (insert_key h (sc_strhash_kdup k) c)) g (concat (bins b)))"
    by (intro load_copy_loop [OF g(2) phash_concat(3) [OF assms(1)]])
      (simp_all add: sc_strhash_kdup_def strhash_grows [OF g(3)])
  then show ?thesis
    using assms(2) g(1) copy_loop_foldl [OF len, of "iter_reset b" sc_strhash_kdup g] iter_reset_rest [OF len]
    by (simp add: strhash_copy_def copy_dup_def)
qed

lemma load_hash_do:
  assumes "phash_ok nul_free h" and "op_key_ok op" and "phash_params h = phash_params (sc_strhash d)" and "load_ok h"
    and "hash_do op h = Inr (x, h')"
  shows "load_ok h'"
proof (cases op)
  case (Insert k c)
  then show ?thesis
    using assms load_insert_dup [OF assms(1) _ assms(4) strhash_grows [OF assms(3)]]
    by (auto simp: strhash_insert_def split: prod.splits)
next
  case (Insert_New k c)
  then show ?thesis
    using assms load_insert_new [OF assms(1) _ assms(4) strhash_grows [OF assms(3)]]
    by (auto simp: strhash_insert_if_not_exists_def split: prod.splits)
next
  case (Remove k)
  then show ?thesis
    using assms load_remove_elem [OF assms(1) _ assms(4)]
    by (auto simp: strhash_remove_def remove_free_def split: prod.splits option.splits if_splits)
next
  case (Remove_Contents c)
  then show ?thesis using assms(4,5) by (auto simp: remove_by_contents_def Let_def load_ok_def)
next
  case (Lookup k)
  then show ?thesis using assms load_lookup [OF assms(1) _ assms(4)] by (auto split: prod.splits)
next
  case Count
  then show ?thesis using assms by simp
next
  case Erase
  obtain g where g: "erase_free h = Inr (map fst (concat (bins h)), g)" "phash_ok nul_free g" "phash_map g = Map.empty"
    "max_density g = max_density h"
    using erase_ok [OF assms(1)] by metis
  then have "h' = g" using assms(5) Erase by (simp add: strhash_erase_def)
  moreover have "num_entries g = 0" using count_phash_map [OF g(2)] g(3) by simp
  moreover have "1 \<le> max_density g" using strhash_grows [OF assms(3)] g(4) by (simp add: grows_def)
  ultimately show ?thesis by (simp add: load_ok_def)
next
  case Copy_Back
  then show ?thesis using assms load_strhash_copy [OF assms(1)] by (auto simp: bind_res_Inr_iff)
qed

text \<open>Any sequence of calls.\<close>

lemma hash_run_refines:
  assumes "\<forall>op\<in>set ops. op_key_ok op" and "phash_ok nul_free h" and "phash_params h = phash_params (sc_strhash d)"
    and "load_ok h"
  shows "\<exists>h'. hash_run ops h = Inr (fst (map_run d ops (phash_map h)), h') \<and> phash_ok nul_free h' \<and>
    phash_map h' = snd (map_run d ops (phash_map h)) \<and> load_ok h' \<and> phash_params h' = phash_params (sc_strhash d)"
  using assms
proof (induction ops arbitrary: h)
  case (Cons op ops)
  have d: "default_value h = d" using Cons.prems(3) strhash_default [of d] by (simp add: default_params)
  obtain g where g: "hash_do op h = Inr (fst (map_do d op (phash_map h)), g)" "phash_ok nul_free g"
    "phash_map g = snd (map_do d op (phash_map h))" "phash_params g = phash_params h"
    using hash_do_refines [OF Cons.prems(2) _ d Cons.prems(3), of op] Cons.prems(1) by auto
  have "load_ok g" using load_hash_do [OF Cons.prems(2) _ Cons.prems(3,4) g(1)] Cons.prems(1) by simp
  then obtain h' where "hash_run ops g = Inr (fst (map_run d ops (phash_map g)), h')" "phash_ok nul_free h'"
    "phash_map h' = snd (map_run d ops (phash_map g))" "load_ok h'" "phash_params h' = phash_params (sc_strhash d)"
    using Cons.IH [of g] Cons.prems g by auto
  then show ?case using g by (simp add: case_prod_beta)
qed simp

end
