(* ===== verification/Uvm_Factory.thy ===== *)
theory Uvm_Factory
  imports Uvm_Database Sc_Hash_Map
begin

text \<open>
  The object factory of the UVM class library for SystemC (\<open>frameworks/uvm/sc/base/uvm_factory.cpp\<close>): a
  table of creators by type name, a table of type overrides, and the instance overrides, which are
  strings in the configuration database. The tables are the hash tables of \<open>Sc_Hash\<close>.
\<close>

section \<open>The state\<close>

text \<open>The types and values that the class library puts into the database.\<close>

datatype cfg_type = T_string | T_object | T_bits

datatype cfg_value = Str string | Obj addr | Bits "bool list"

type_synonym cfg_env = "(cfg_value, cfg_type) uvm_env"

type_synonym cfg_db = "(cfg_value, cfg_type) uvm_db"

text \<open>
  A creator is a class that the user derives from \<open>uvm_object_creator\<close>, from \<open>uvm_component_creator\<close>, or
  from \<open>uvm_creator\<close> itself; its method \<open>create\<close> is not modelled, a creation is its call.
\<close>

datatype creator = Object_Creator nat | Component_Creator nat | Other_Creator nat

definition as_object_creator :: "creator \<Rightarrow> nat option" where
  "as_object_creator c = (case c of Object_Creator n \<Rightarrow> Some n | _ \<Rightarrow> None)"

definition as_component_creator :: "creator \<Rightarrow> nat option" where
  "as_component_creator c = (case c of Component_Creator n \<Rightarrow> Some n | _ \<Rightarrow> None)"

datatype factory_report =
  UVM_CREATOR_NOT_FOUND | UVM_CREATOR_NOT_OBJECT | UVM_CREATOR_NOT_COMP | UVM_OVERRIDE_EXISTS

record factory_rep =
  creator_map :: "(string, creator option) phash"
  type_overrides :: "(string, string option) phash"

record factory =
  m_rep :: "factory_rep option"
  fac_db :: cfg_db
  warnings :: "(factory_report \<times> string) list"

definition uvm_factory_rep :: factory_rep where
  "uvm_factory_rep = \<lparr>creator_map = sc_strhash None, type_overrides = sc_strhash None\<rparr>"

definition INST_OVERRIDE_CNTXT :: string where
  "INST_OVERRIDE_CNTXT = ''uvm_factory_inst_override''"

text \<open>The static members of \<open>uvm_factory\<close> make the representation when they are first called.\<close>

definition rep :: "factory \<Rightarrow> factory_rep" where
  "rep s = (case m_rep s of None \<Rightarrow> uvm_factory_rep | Some r \<Rightarrow> r)"

definition set_rep :: "factory_rep \<Rightarrow> factory \<Rightarrow> factory" where
  "set_rep r s = s\<lparr>m_rep := Some r\<rparr>"

text \<open>\<open>sprintf\<close> into an array of 1024 characters.\<close>

definition sprintf_1024 :: "string \<Rightarrow> string \<Rightarrow> string res" where
  "sprintf_1024 text type_name =
     (if 1024 \<le> length text + length (c_str type_name) then Inl Bad_Index else Inr (text @ c_str type_name))"

definition warn :: "factory_report \<Rightarrow> string \<Rightarrow> factory \<Rightarrow> factory res" where
  "warn r type_name s =
     bind_res (sprintf_1024 '' Type = '' type_name) (\<lambda>msg. Inr (s\<lparr>warnings := warnings s @ [(r, msg)]\<rparr>))"

text \<open>The functions of \<open>uvm_globals.cpp\<close> that set a value from no component.\<close>

definition uvm_set_config_string :: "cfg_env \<Rightarrow> string \<Rightarrow> string \<Rightarrow> string \<Rightarrow> cfg_db \<Rightarrow> cfg_db res" where
  "uvm_set_config_string env instname field val s = config_set_comp env T_string None instname field (Str val) s"

definition uvm_set_config_object :: "cfg_env \<Rightarrow> string \<Rightarrow> string \<Rightarrow> addr \<Rightarrow> bool \<Rightarrow> cfg_db \<Rightarrow> cfg_db res" where
  "uvm_set_config_object env instname field val clone s = config_set_comp env T_object None instname field (Obj val) s"

section \<open>Registration and lookup\<close>

definition register_class_creator :: "string \<Rightarrow> creator \<Rightarrow> factory \<Rightarrow> int \<times> factory" where
  "register_class_creator type_name c s =
     (let r = rep s; h = snd (strhash_insert (creator_map r) (c_str type_name) (Some c)) in
      (1, set_rep (r\<lparr>creator_map := h\<rparr>) s))"

definition find_creator :: "string \<Rightarrow> factory \<Rightarrow> creator option \<times> factory" where
  "find_creator type_name s =
     (let r = rep s; (c, h) = contents_at (creator_map r) (c_str type_name) in
      (c, set_rep (r\<lparr>creator_map := h\<rparr>) s))"

definition get_type_override :: "string \<Rightarrow> factory \<Rightarrow> string \<times> factory" where
  "get_type_override type_name s =
     (let r = rep s; (t, h) = contents_at (type_overrides r) (c_str type_name) in
      (case t of None \<Rightarrow> [] | Some t \<Rightarrow> t, set_rep (r\<lparr>type_overrides := h\<rparr>) s))"

definition get_inst_override :: "cfg_env \<Rightarrow> string \<Rightarrow> string \<Rightarrow> factory \<Rightarrow> (string \<times> factory) res" where
  "get_inst_override env type_name inst_path s =
     bind_res (config_get env T_string INST_OVERRIDE_CNTXT inst_path type_name (fac_db s)) (\<lambda>v.
       Inr (case v of Some (Str t) \<Rightarrow> t | _ \<Rightarrow> [], set_rep (rep s) s))"

definition get_override :: "cfg_env \<Rightarrow> string \<Rightarrow> string \<Rightarrow> factory \<Rightarrow> (string \<times> factory) res" where
  "get_override env type_name inst_path s =
     bind_res (get_inst_override env type_name inst_path s) (\<lambda>(typ, s).
       if typ \<noteq> [] then Inr (typ, s)
       else let (typ, s) = get_type_override type_name s in
         Inr (if typ \<noteq> [] then typ else type_name, s))"

definition is_class_registered :: "string \<Rightarrow> factory \<Rightarrow> bool \<times> factory" where
  "is_class_registered type_name s = (let (c, s) = find_creator type_name s in (c \<noteq> None, s))"

definition is_component_registered :: "string \<Rightarrow> factory \<Rightarrow> bool \<times> factory" where
  "is_component_registered type_name s =
     (let (c, s) = find_creator type_name s in
      (case c of None \<Rightarrow> False | Some c \<Rightarrow> as_component_creator c \<noteq> None, s))"

definition is_uvm_object_registered :: "string \<Rightarrow> factory \<Rightarrow> bool \<times> factory" where
  "is_uvm_object_registered type_name s =
     (let (c, s) = find_creator type_name s in
      (case c of None \<Rightarrow> False | Some c \<Rightarrow> as_object_creator c \<noteq> None, s))"

section \<open>Creation\<close>

text \<open>A creation returns the creator and the name it was called with; \<open>None\<close> is a null pointer.\<close>

definition create_uvm_object ::
  "cfg_env \<Rightarrow> string \<Rightarrow> string \<Rightarrow> string \<Rightarrow> bool \<Rightarrow> factory \<Rightarrow> ((nat \<times> string) option \<times> factory) res" where
  "create_uvm_object env type_name inst_path nm no_overrides s =
     bind_res
       (if no_overrides then Inr (type_name, set_rep (rep s) s)
        else get_override env type_name (if nm \<noteq> [] then inst_path @ ''.'' @ nm else inst_path) s) (\<lambda>(typ, s).
       let (c, s) = find_creator typ s in
       case c of
         None \<Rightarrow> bind_res (warn UVM_CREATOR_NOT_FOUND typ s) (\<lambda>s. Inr (None, s))
       | Some c \<Rightarrow>
           (case as_object_creator c of
              None \<Rightarrow> bind_res (warn UVM_CREATOR_NOT_OBJECT typ s) (\<lambda>s. Inr (None, s))
            | Some n \<Rightarrow> Inr (Some (n, nm), s)))"

definition create_component ::
  "cfg_env \<Rightarrow> string \<Rightarrow> string \<Rightarrow> string \<Rightarrow> factory \<Rightarrow> ((nat \<times> string) option \<times> factory) res" where
  "create_component env type_name inst_path nm s =
     bind_res (get_override env type_name (inst_path @ ''.'' @ nm) s) (\<lambda>(typ, s).
       let (c, s) = find_creator typ s in
       case c of
         None \<Rightarrow> bind_res (warn UVM_CREATOR_NOT_FOUND typ s) (\<lambda>s. Inr (None, s))
       | Some c \<Rightarrow>
           (case as_component_creator c of
              None \<Rightarrow> bind_res (warn UVM_CREATOR_NOT_COMP typ s) (\<lambda>s. Inr (None, s))
            | Some n \<Rightarrow> Inr (Some (n, nm), s)))"

definition create_registered_class :: "string \<Rightarrow> factory \<Rightarrow> ((creator \<times> string) option \<times> factory) res" where
  "create_registered_class type_name s =
     (let (c, s) = find_creator type_name s in
      case c of
        None \<Rightarrow> bind_res (warn UVM_CREATOR_NOT_FOUND type_name s) (\<lambda>s. Inr (None, s))
      | Some c \<Rightarrow> Inr (Some (c, type_name), s))"

section \<open>Overrides\<close>

text \<open>An \<open>SC_REPORT_ERROR\<close> throws: the report is the result, and nothing has changed by then.\<close>

definition set_type_override ::
  "string \<Rightarrow> string \<Rightarrow> bool \<Rightarrow> factory \<Rightarrow> (factory_report option \<times> factory) res" where
  "set_type_override original replacement replace s =
     (let (c, s) = find_creator replacement s in
      if c = None then
        bind_res (sprintf_1024 '' Problem with replacement type in set_type_override. Type = '' replacement)
          (\<lambda>_. Inr (Some UVM_CREATOR_NOT_FOUND, s))
      else
        let (t, s) =
          (if replace then (None, s)
           else let (t, h) = contents_at (type_overrides (rep s)) (c_str original) in
             (t, set_rep ((rep s)\<lparr>type_overrides := h\<rparr>) s))
        in if t \<noteq> None then bind_res (sprintf_1024 '' Type = '' original) (\<lambda>_. Inr (Some UVM_OVERRIDE_EXISTS, s))
           else
             let h = snd (strhash_insert (type_overrides (rep s)) (c_str original) (Some replacement)) in
             Inr (None, set_rep ((rep s)\<lparr>type_overrides := h\<rparr>) s))"

definition set_inst_override ::
  "cfg_env \<Rightarrow> string \<Rightarrow> string \<Rightarrow> string \<Rightarrow> factory \<Rightarrow> (factory_report option \<times> factory) res" where
  "set_inst_override env inst_path original replacement s =
     (let (c, s) = find_creator replacement s in
      if c = None then
        bind_res (sprintf_1024 '' Problem with replacement type in set_inst_override. Type = '' replacement)
          (\<lambda>_. Inr (Some UVM_CREATOR_NOT_FOUND, s))
      else
        bind_res (config_set env T_string INST_OVERRIDE_CNTXT inst_path original (Str replacement) (fac_db s))
          (\<lambda>db. Inr (None, s\<lparr>fac_db := db\<rparr>)))"

text \<open>The methods of a component, whose name is part of the path.\<close>

definition prepend_name :: "string \<Rightarrow> string \<Rightarrow> string" where
  "prepend_name n s = (if s \<noteq> [] then n @ ''.'' @ s else n)"

definition component_create_object ::
  "cfg_env \<Rightarrow> string \<Rightarrow> string \<Rightarrow> string \<Rightarrow> factory \<Rightarrow> ((nat \<times> string) option \<times> factory) res" where
  "component_create_object env owner type_name leaf s = create_uvm_object env type_name owner leaf False s"

definition component_create_component ::
  "cfg_env \<Rightarrow> string \<Rightarrow> string \<Rightarrow> string \<Rightarrow> factory \<Rightarrow> ((nat \<times> string) option \<times> factory) res" where
  "component_create_component env owner type_name leaf s = create_component env type_name owner leaf s"

definition component_set_type_override ::
  "string \<Rightarrow> string \<Rightarrow> bool \<Rightarrow> factory \<Rightarrow> (factory_report option \<times> factory) res" where
  "component_set_type_override original replacement replace s = set_type_override original replacement replace s"

definition component_set_inst_override ::
  "cfg_env \<Rightarrow> string \<Rightarrow> string \<Rightarrow> string \<Rightarrow> string \<Rightarrow> factory \<Rightarrow> (factory_report option \<times> factory) res" where
  "component_set_inst_override env owner inst_path original replacement s =
     set_inst_override env (prepend_name owner inst_path) original replacement s"

section \<open>Printing\<close>

text \<open>The lines printed to \<open>cerr\<close>.\<close>

definition print_registered_types :: "factory \<Rightarrow> string list" where
  "print_registered_types s =
     ''UVM_FACTORY REGISTERED TYPES:'' #
     map fst (iter_list (creator_map (rep s)) (iter_reset (creator_map (rep s)))) @ [[], []]"

definition print_type_overrides :: "factory \<Rightarrow> string list" where
  "print_type_overrides s =
     ''UVM_FACTORY REGISTERED TYPES:'' #
     map (\<lambda>(k, c). k @ '' --> '' @ (case c of None \<Rightarrow> [] | Some t \<Rightarrow> t))
       (iter_list (type_overrides (rep s)) (iter_reset (type_overrides (rep s)))) @ [[], []]"

definition print_all_overrides :: "factory \<Rightarrow> string list" where
  "print_all_overrides s = print_registered_types s @ print_type_overrides s"

end
