(* ===== verification/Uvm_Factory_Spec.thy ===== *)
theory Uvm_Factory_Spec
  imports Uvm_Factory
begin

text \<open>
  What the factory promises: the specification keeps two maps and the settings of the instance
  overrides, and \<open>fac_rel\<close> ties them to the hash tables and the configuration database. The lemmas on
  the tables are those of the locale \<open>dictionary\<close>, those on the database the relation \<open>db_rel\<close>.
\<close>

section \<open>The specification\<close>

text \<open>A type name: plain, and short enough for the messages.\<close>

definition type_name_ok :: "string \<Rightarrow> bool" where
  "type_name_ok nm \<longleftrightarrow> plain_name nm \<and> nm \<in> nul_free \<and> length nm \<le> 900"

datatype factory_call =
    Register string creator
  | Type_Override string string bool
  | Inst_Override string string string
  | Create_Object string string string bool
  | Create_Component string string string
  | Is_Registered string
  | Set_Phase "string option"

datatype factory_result =
    Made "(nat \<times> string) option"
  | Overridden "factory_report option"
  | Answer bool
  | Done

fun factory_do :: "cfg_env \<Rightarrow> factory_call \<Rightarrow> factory \<Rightarrow> (factory_result \<times> factory) res" where
  "factory_do env (Register nm c) s = Inr (Done, snd (register_class_creator nm c s))"
| "factory_do env (Type_Override t t' replace) s =
     bind_res (set_type_override t t' replace s) (\<lambda>(x, s). Inr (Overridden x, s))"
| "factory_do env (Inst_Override path t t') s =
     bind_res (set_inst_override env path t t' s) (\<lambda>(x, s). Inr (Overridden x, s))"
| "factory_do env (Create_Object t path nm no_overrides) s =
     bind_res (create_uvm_object env t path nm no_overrides s) (\<lambda>(x, s). Inr (Made x, s))"
| "factory_do env (Create_Component t path nm) s =
     bind_res (create_component env t path nm s) (\<lambda>(x, s). Inr (Made x, s))"
| "factory_do env (Is_Registered t) s = (let (b, s) = is_class_registered t s in Inr (Answer b, s))"
| "factory_do env (Set_Phase ph) s = Inr (Done, s\<lparr>fac_db := (fac_db s)\<lparr>curr_phase := ph\<rparr>\<rparr>)"

record factory_spec =
  sp_creators :: "string \<rightharpoonup> creator"
  sp_types :: "string \<rightharpoonup> string"
  sp_db :: "(cfg_value, cfg_type) spec_db"

text \<open>The type that is created for a requested one: an override is not overridden again.\<close>

definition inst_overrides :: "factory_spec \<Rightarrow> string \<Rightarrow> string \<Rightarrow> string option" where
  "inst_overrides S t path =
     (case spec_get T_string (get_scope INST_OVERRIDE_CNTXT path) (snd (sp_db S) t) of Some (Str t') \<Rightarrow> Some t' | _ \<Rightarrow> None)"

definition created_type :: "factory_spec \<Rightarrow> string \<Rightarrow> string \<Rightarrow> string" where
  "created_type S t path =
     (case inst_overrides S t path of Some t' \<Rightarrow> t'
      | None \<Rightarrow> (case sp_types S t of Some t' \<Rightarrow> t' | None \<Rightarrow> t))"

definition made :: "(creator \<Rightarrow> nat option) \<Rightarrow> factory_spec \<Rightarrow> string \<Rightarrow> string \<Rightarrow> (nat \<times> string) option" where
  "made as S t nm = (case sp_creators S t of None \<Rightarrow> None | Some c \<Rightarrow> map_option (\<lambda>n. (n, nm)) (as c))"

fun spec_do :: "cfg_env \<Rightarrow> factory_call \<Rightarrow> factory_spec \<Rightarrow> factory_result \<times> factory_spec" where
  "spec_do env (Register nm c) S = (Done, S\<lparr>sp_creators := (sp_creators S)(nm \<mapsto> c)\<rparr>)"
| "spec_do env (Type_Override t t' replace) S =
     (if sp_creators S t' = None then (Overridden (Some UVM_CREATOR_NOT_FOUND), S)
      else if \<not> replace \<and> sp_types S t \<noteq> None then (Overridden (Some UVM_OVERRIDE_EXISTS), S)
      else (Overridden None, S\<lparr>sp_types := (sp_types S)(t \<mapsto> t')\<rparr>))"
| "spec_do env (Inst_Override path t t') S =
     (if sp_creators S t' = None then (Overridden (Some UVM_CREATOR_NOT_FOUND), S)
      else (Overridden None,
        S\<lparr>sp_db := spec_call env (Config_Set T_string INST_OVERRIDE_CNTXT path t (Str t')) (sp_db S)\<rparr>))"
| "spec_do env (Create_Object t path nm no_overrides) S =
     (Made (made as_object_creator S
        (if no_overrides then t else created_type S t (if nm \<noteq> [] then path @ ''.'' @ nm else path)) nm), S)"
| "spec_do env (Create_Component t path nm) S =
     (Made (made as_component_creator S (created_type S t (path @ ''.'' @ nm)) nm), S)"
| "spec_do env (Is_Registered t) S = (Answer (sp_creators S t \<noteq> None), S)"
| "spec_do env (Set_Phase ph) S = (Done, S\<lparr>sp_db := spec_call env (Enter_Phase ph) (sp_db S)\<rparr>)"

fun factory_call_ok :: "factory_call \<Rightarrow> bool" where
  "factory_call_ok (Register nm c) = type_name_ok nm"
| "factory_call_ok (Type_Override t t' replace) = (type_name_ok t \<and> type_name_ok t')"
| "factory_call_ok (Inst_Override path t t') =
     (type_name_ok t \<and> type_name_ok t' \<and> plain_glob (set_scope_of INST_OVERRIDE_CNTXT path))"
| "factory_call_ok (Create_Object t path nm no_overrides) = type_name_ok t"
| "factory_call_ok (Create_Component t path nm) = type_name_ok t"
| "factory_call_ok (Is_Registered t) = type_name_ok t"
| "factory_call_ok (Set_Phase ph) = True"

fun factory_run :: "cfg_env \<Rightarrow> factory_call list \<Rightarrow> factory \<Rightarrow> (factory_result list \<times> factory) res" where
  "factory_run env [] s = Inr ([], s)"
| "factory_run env (call # calls) s =
     bind_res (factory_do env call s) (\<lambda>(x, s). bind_res (factory_run env calls s) (\<lambda>(xs, s). Inr (x # xs, s)))"

fun factory_spec_run :: "cfg_env \<Rightarrow> factory_call list \<Rightarrow> factory_spec \<Rightarrow> factory_result list \<times> factory_spec" where
  "factory_spec_run env [] S = ([], S)"
| "factory_spec_run env (call # calls) S =
     (let (x, S) = spec_do env call S; (xs, S) = factory_spec_run env calls S in (x # xs, S))"

definition new_factory :: "nat list \<Rightarrow> factory" where
  "new_factory cs = \<lparr>m_rep = None, fac_db = new_db cs, warnings = []\<rparr>"

definition new_factory_spec :: factory_spec where
  "new_factory_spec = \<lparr>sp_creators = (\<lambda>_. None), sp_types = (\<lambda>_. None), sp_db = (None, \<lambda>_. [])\<rparr>"

section \<open>The relation\<close>

definition table_map :: "(string, 'v option) phash \<Rightarrow> (string \<rightharpoonup> 'v)" where
  "table_map h k = (case phash_map h k of None \<Rightarrow> None | Some c \<Rightarrow> c)"

definition table_ok :: "(string, 'v option) phash \<Rightarrow> bool" where
  "table_ok h \<longleftrightarrow> phash_ok nul_free h \<and> default_value h = None"

definition names_ok :: "factory_spec \<Rightarrow> bool" where
  "names_ok S \<longleftrightarrow> (\<forall>t t'. sp_types S t = Some t' \<longrightarrow> type_name_ok t') \<and>
     (\<forall>f. \<forall>x\<in>set (snd (sp_db S) f). \<exists>t. st_value x = Str t \<and> type_name_ok t)"

definition fac_rel :: "factory \<Rightarrow> factory_spec \<Rightarrow> bool" where
  "fac_rel s S \<longleftrightarrow> table_ok (creator_map (rep s)) \<and> table_ok (type_overrides (rep s)) \<and>
     table_map (creator_map (rep s)) = sp_creators S \<and> table_map (type_overrides (rep s)) = sp_types S \<and>
     db_rel (fac_db s) (sp_db S) \<and> (\<exists>cs. uvm_config_callback_vec (fac_db s) = Cb_Live cs) \<and> names_ok S"

lemma rep_set_rep [simp]: "rep (set_rep r s) = r" "fac_db (set_rep r s) = fac_db s"
  by (simp_all add: rep_def set_rep_def)

lemma rep_update [simp]: "rep (s\<lparr>fac_db := d\<rparr>) = rep s" "rep (s\<lparr>warnings := w\<rparr>) = rep s"
  by (simp_all add: rep_def)

lemma table_lookup:
  assumes "table_ok h" and "k \<in> nul_free" and "contents_at h k = (c, h')"
  shows "c = table_map h k" and "table_ok h'" and "table_map h' = table_map h"
  using contents_at_ok [OF _ assms(2,3)] assms(1)
  by (auto simp: table_ok_def table_map_def fun_eq_iff split: option.splits)

lemma table_insert:
  assumes "table_ok h" and "k \<in> nul_free"
  shows "table_ok (snd (strhash_insert h k (Some c)))"
    and "table_map (snd (strhash_insert h k (Some c))) = (table_map h)(k \<mapsto> c)"
proof -
  have "phash_params (snd (strhash_insert h k (Some c))) = phash_params h"
    using params_calls(1) by (metis prod.collapse strhash_insert_def)
  then show "table_ok (snd (strhash_insert h k (Some c)))"
    using assms strhash.ok_ins [of h k] by (simp add: table_ok_def default_params)
  show "table_map (snd (strhash_insert h k (Some c))) = (table_map h)(k \<mapsto> c)"
    using assms strhash.abs_ins [of h k "Some c"] by (auto simp: table_ok_def table_map_def fun_eq_iff)
qed

lemma type_name_c_str: "type_name_ok t \<Longrightarrow> c_str t = t \<and> t \<in> nul_free"
  by (simp add: type_name_ok_def)

lemma new_factory_rel: "fac_rel (new_factory cs) new_factory_spec"
  using new_db_rel [of cs]
  by (simp add: strhash_ok strhash_default fac_rel_def new_factory_def new_factory_spec_def rep_def uvm_factory_rep_def table_ok_def table_map_def
      strhash_map names_ok_def fun_eq_iff) (simp add: new_db_def)

lemma find_creator_rel:
  assumes "fac_rel s S" and "type_name_ok t"
  obtains s' where "find_creator t s = (sp_creators S t, s')" and "fac_rel s' S" and "fac_db s' = fac_db s"
proof -
  obtain c h where ch: "contents_at (creator_map (rep s)) t = (c, h)" by (cases "contents_at (creator_map (rep s)) t")
  note t = type_name_c_str [OF assms(2)]
  have "table_ok (creator_map (rep s))" using assms(1) by (simp add: fac_rel_def)
  note l = table_lookup [OF this _ ch]
  show thesis
    by (rule that [of "set_rep ((rep s)\<lparr>creator_map := h\<rparr>) s"])
      (use ch t l assms(1) in \<open>simp_all add: find_creator_def fac_rel_def\<close>)
qed

lemma get_override_rel:
  assumes rel: "fac_rel s S" and t: "type_name_ok t" and boost: "boost_ok env"
  obtains s' where "get_override env t path s = Inr (created_type S t path, s')" and "fac_rel s' S"
    and "type_name_ok (created_type S t path)"
proof -
  let ?o = "spec_get T_string (get_scope INST_OVERRIDE_CNTXT path) (snd (sp_db S) t)"
  have db: "db_rel (fac_db s) (sp_db S)" using rel by (simp add: fac_rel_def)
  have get: "config_get env T_string INST_OVERRIDE_CNTXT path t (fac_db s) = Inr ?o"
    using config_get_rel [OF db boost] t by (simp add: type_name_ok_def)
  have names: "names_ok S" using rel by (simp add: fac_rel_def)
  let ?s = "set_rep (rep s) s"
  have rel': "fac_rel ?s S" using rel by (simp add: fac_rel_def)
  show thesis
  proof (cases ?o)
    case (Some v)
    then obtain x where x: "x \<in> set (snd (sp_db S) t)" "st_value x = v"
      using first_max_in by (fastforce simp: spec_get_def)
    moreover have "\<exists>t'. st_value x = Str t' \<and> type_name_ok t'" using names x(1) by (simp add: names_ok_def)
    ultimately obtain t' where t': "v = Str t'" "type_name_ok t'" by auto
    then have ne: "t' \<noteq> []" by (auto simp: type_name_ok_def plain_name_def)
    have ct: "created_type S t path = t'" using Some t' by (simp add: created_type_def inst_overrides_def)
    show thesis
      by (rule that [of ?s]) (use get Some t' ne rel' ct in \<open>simp_all add: get_override_def get_inst_override_def\<close>)
  next
    case None
    obtain c h where ch: "contents_at (type_overrides (rep s)) t = (c, h)"
      by (cases "contents_at (type_overrides (rep s)) t")
    have "table_ok (type_overrides (rep s))" using rel by (simp add: fac_rel_def)
    note l = table_lookup [OF this _ ch]
    have c: "c = sp_types S t" using l(1) rel type_name_c_str [OF t] by (simp add: fac_rel_def)
    have ct: "created_type S t path = (case c of None \<Rightarrow> t | Some t' \<Rightarrow> t')"
      using None c by (simp add: created_type_def inst_overrides_def split: option.split)
    have ok: "type_name_ok (created_type S t path)" using ct c names t by (auto simp: names_ok_def split: option.splits)
    have ne: "t' \<noteq> []" if "c = Some t'" for t'
      using that ct ok by (auto simp: type_name_ok_def plain_name_def)
    show thesis
      by (rule that [of "set_rep ((rep s)\<lparr>type_overrides := h\<rparr>) ?s"])
        (use get None ch l type_name_c_str [OF t] rel ct ne ok in
          \<open>auto simp: get_override_def get_inst_override_def get_type_override_def fac_rel_def Let_def split: option.splits\<close>)
  qed
qed

lemma warn_rel:
  assumes "fac_rel s S" and "type_name_ok t"
  obtains s' where "warn r t s = Inr s'" and "fac_rel s' S"
proof -
  have "\<not> 1024 \<le> length '' Type = '' + length (c_str t)"
    using assms(2) type_name_c_str [OF assms(2)] by (simp add: type_name_ok_def)
  then show thesis
    by (intro that [of "s\<lparr>warnings := warnings s @ [(r, '' Type = '' @ c_str t)]\<rparr>"])
      (use assms(1) in \<open>simp_all add: warn_def sprintf_1024_def fac_rel_def\<close>)
qed

text \<open>A creation, once the type is known.\<close>

lemma finish_creation:
  assumes rel: "fac_rel s S" and t: "type_name_ok t"
  shows "\<exists>s'. (let (c, s) = find_creator t s in
       case c of
         None \<Rightarrow> bind_res (warn r t s) (\<lambda>s. Inr (None, s))
       | Some c \<Rightarrow>
           (case sel c of
              None \<Rightarrow> bind_res (warn r' t s) (\<lambda>s. Inr (None, s))
            | Some n \<Rightarrow> Inr (Some (n, nm), s))) = Inr (made sel S t nm, s') \<and> fac_rel s' S"
proof -
  obtain s1 where s1: "find_creator t s = (sp_creators S t, s1)" "fac_rel s1 S"
    using find_creator_rel [OF rel t] by metis
  obtain s2 s3 where "warn r t s1 = Inr s2" "fac_rel s2 S" "warn r' t s1 = Inr s3" "fac_rel s3 S"
    using warn_rel [OF s1(2) t] by metis
  then show ?thesis using s1 by (auto simp: made_def split: option.splits)
qed

lemma factory_do_rel:
  assumes rel: "fac_rel s S" and ok: "factory_call_ok call" and boost: "boost_ok env"
  shows "\<exists>s'. factory_do env call s = Inr (fst (spec_do env call S), s') \<and> fac_rel s' (snd (spec_do env call S))"
proof (cases call)
  case (Register t c)
  then have t: "c_str t = t" "t \<in> nul_free" using ok type_name_c_str by auto
  have "table_ok (creator_map (rep s))" using rel by (simp add: fac_rel_def)
  note i = table_insert [OF this t(2), of c]
  show ?thesis using Register t i rel by (simp add: register_class_creator_def fac_rel_def names_ok_def Let_def)
next
  case (Type_Override t t' replace)
  then have t: "type_name_ok t" "type_name_ok t'" using ok by auto
  note c = type_name_c_str [OF t(1)]
  obtain s1 where s1: "find_creator t' s = (sp_creators S t', s1)" "fac_rel s1 S"
    using find_creator_rel [OF rel t(2)] by metis
  have tab: "table_ok (type_overrides (rep s1))" using s1(2) by (simp add: fac_rel_def)
  obtain x h where xh: "contents_at (type_overrides (rep s1)) t = (x, h)"
    by (cases "contents_at (type_overrides (rep s1)) t")
  note l = table_lookup [OF tab conjunct2 [OF c] xh]
  let ?s2 = "set_rep ((rep s1)\<lparr>type_overrides := h\<rparr>) s1"
  have s2: "fac_rel ?s2 S" "x = sp_types S t" using s1(2) l by (simp_all add: fac_rel_def)
  have ins: "fac_rel (set_rep ((rep s3)\<lparr>type_overrides := snd (strhash_insert (type_overrides (rep s3)) t (Some t'))\<rparr>) s3)
      (S\<lparr>sp_types := (sp_types S)(t \<mapsto> t')\<rparr>)" if "fac_rel s3 S" for s3
  proof -
    have "table_ok (type_overrides (rep s3))" using that by (simp add: fac_rel_def)
    note i = table_insert [OF this conjunct2 [OF c], of t']
    show ?thesis using i that t(2) by (auto simp: fac_rel_def names_ok_def)
  qed
  have len: "length (c_str t') \<le> 900" "length (c_str t) \<le> 900"
    using t type_name_c_str by (auto simp: type_name_ok_def)
  show ?thesis
    using Type_Override s1 s2 ins [OF s1(2)] ins [OF s2(1)] c xh len
    by (auto simp: set_type_override_def sprintf_1024_def Let_def split: option.splits)
next
  case (Inst_Override path t t')
  then have t: "type_name_ok t" "type_name_ok t'" and g: "plain_glob (set_scope_of INST_OVERRIDE_CNTXT path)" using ok by auto
  obtain s1 where s1: "find_creator t' s = (sp_creators S t', s1)" "fac_rel s1 S"
    using find_creator_rel [OF rel t(2)] by metis
  obtain cs where cs: "uvm_config_callback_vec (fac_db s1) = Cb_Live cs" using s1(2) by (auto simp: fac_rel_def)
  obtain ph A where A: "sp_db S = (ph, A)" by (cases "sp_db S")
  have "db_rel (fac_db s1) (ph, A)" using s1(2) A by (simp add: fac_rel_def)
  from config_set_rel [OF this _ g cs, of t env T_string "Str t'"] t(1) obtain d where
    d: "config_set env T_string INST_OVERRIDE_CNTXT path t (Str t') (fac_db s1) = Inr d"
      "db_rel d (spec_call env (Config_Set T_string INST_OVERRIDE_CNTXT path t (Str t')) (sp_db S))"
      "uvm_config_callback_vec d = Cb_Live cs"
    using A by (auto simp: type_name_ok_def)
  let ?S = "S\<lparr>sp_db := spec_call env (Config_Set T_string INST_OVERRIDE_CNTXT path t (Str t')) (sp_db S)\<rparr>"
  have "names_ok S" using s1(2) by (simp add: fac_rel_def)
  then have "names_ok ?S" using t(2) A by (auto simp: names_ok_def)
  then have "fac_rel (s1\<lparr>fac_db := d\<rparr>) ?S" using s1(2) d by (simp add: fac_rel_def)
  moreover have "length (c_str t') \<le> 900" using t type_name_c_str by (auto simp: type_name_ok_def)
  ultimately show ?thesis
    using Inst_Override s1 d(1) by (auto simp: set_inst_override_def sprintf_1024_def)
next
  case (Create_Object t path nm no)
  then have t: "type_name_ok t" using ok by simp
  define p where "p = (if nm \<noteq> [] then path @ ''.'' @ nm else path)"
  obtain s1 where s1: "get_override env t p s = Inr (created_type S t p, s1)" "fac_rel s1 S"
    "type_name_ok (created_type S t p)"
    using get_override_rel [OF rel t boost] by metis
  have s2: "fac_rel (set_rep (rep s) s) S" using rel by (simp add: fac_rel_def)
  show ?thesis
  proof (cases no)
    case True
    then show ?thesis
      using Create_Object finish_creation [OF s2 t, where r = UVM_CREATOR_NOT_FOUND and sel = as_object_creator
          and r' = UVM_CREATOR_NOT_OBJECT and nm = nm]
      by (auto simp: create_uvm_object_def Let_def)
  next
    case False
    then show ?thesis
      using Create_Object s1 finish_creation [OF s1(2,3), where r = UVM_CREATOR_NOT_FOUND and sel = as_object_creator
          and r' = UVM_CREATOR_NOT_OBJECT and nm = nm]
      by (auto simp: create_uvm_object_def Let_def simp flip: p_def)
  qed
next
  case (Create_Component t path nm)
  then have t: "type_name_ok t" using ok by simp
  define p where "p = path @ CHR ''.'' # nm"
  obtain s1 where s1: "get_override env t p s = Inr (created_type S t p, s1)" "fac_rel s1 S"
    "type_name_ok (created_type S t p)"
    using get_override_rel [OF rel t boost] by metis
  show ?thesis
    using Create_Component s1 finish_creation [OF s1(2,3), where r = UVM_CREATOR_NOT_FOUND and sel = as_component_creator
          and r' = UVM_CREATOR_NOT_COMP and nm = nm]
    by (auto simp: create_component_def Let_def simp flip: p_def)
next
  case (Is_Registered t)
  then have "type_name_ok t" using ok by simp
  then obtain s1 where "find_creator t s = (sp_creators S t, s1)" "fac_rel s1 S"
    using find_creator_rel [OF rel] by metis
  then show ?thesis using Is_Registered by (simp add: is_class_registered_def)
next
  case (Set_Phase ph)
  obtain s1 where "do_call env (Enter_Phase ph) (fac_db s) = Inr s1" "db_rel s1 (spec_call env (Enter_Phase ph) (sp_db S))"
    "uvm_config_callback_vec s1 = uvm_config_callback_vec (fac_db s)"
    using do_call_rel [of "fac_db s" "sp_db S" "Enter_Phase ph" _ env] rel by (force simp: fac_rel_def)
  moreover have "names_ok (S\<lparr>sp_db := spec_call env (Enter_Phase ph) (sp_db S)\<rparr>)"
    using rel by (cases "sp_db S") (auto simp: fac_rel_def names_ok_def)
  ultimately show ?thesis using Set_Phase rel by (auto simp: fac_rel_def)
qed

lemma factory_run_rel:
  assumes "fac_rel s S" and "\<forall>call\<in>set calls. factory_call_ok call" and "boost_ok env"
  shows "\<exists>s'. factory_run env calls s = Inr (fst (factory_spec_run env calls S), s') \<and>
    fac_rel s' (snd (factory_spec_run env calls S))"
  using assms
proof (induction calls arbitrary: s S)
  case (Cons call calls)
  obtain s1 where s1: "factory_do env call s = Inr (fst (spec_do env call S), s1)" "fac_rel s1 (snd (spec_do env call S))"
    using factory_do_rel [OF Cons.prems(1) _ Cons.prems(3), of call] Cons.prems(2) by auto
  show ?case using Cons.IH [OF s1(2)] Cons.prems s1(1) by (auto simp: case_prod_beta)
qed simp

lemma new_factory_run:
  assumes "boost_ok env" and "\<forall>call\<in>set calls. factory_call_ok call"
  shows "\<exists>s. factory_run env calls (new_factory cs) = Inr (fst (factory_spec_run env calls new_factory_spec), s)"
  using factory_run_rel [OF new_factory_rel assms(2,1)] by metis

end
