(* ===== verification/Uvm_Properties.thy ===== *)
theory Uvm_Properties
  imports Uvm_Factory_Spec
begin

text \<open>
  The properties of the class library for SystemC: the hash table is a finite map, the configuration
  database answers with the setting that has the highest precedence, and the factory creates the type
  that the overrides say.
\<close>

section \<open>A regular expression matcher for the witnesses\<close>

text \<open>The expressions that \<open>uvm_glob_to_regex\<close> makes, as a list of atoms.\<close>

datatype atom = Any_Text | Blanks | Separator | Literal char

fun parse_re :: "string \<Rightarrow> atom list" where
  "parse_re [] = []"
| "parse_re (c # s) =
     (if c = CHR ''['' then Separator # parse_re (drop 3 s)
      else if c = CHR ''.'' then Any_Text # parse_re (drop 1 s)
      else if c = CHR 0x5C then
        (case s of [] \<Rightarrow> [] | d # s \<Rightarrow>
           if d = CHR ''s'' then Blanks # parse_re (drop 1 s) else Literal d # parse_re s)
      else Literal c # parse_re s)"

fun re_match :: "atom list \<Rightarrow> string \<Rightarrow> bool" where
  "re_match [] s = (s = [])"
| "re_match (Any_Text # r) s = (\<exists>k\<in>{..length s}. re_match r (drop k s))"
| "re_match (Blanks # r) s = (\<exists>k\<in>{..length s}. list_all is_space (take k s) \<and> re_match r (drop k s))"
| "re_match (Separator # r) s = (s \<noteq> [] \<and> is_sep (hd s) \<and> re_match r (tl s))"
| "re_match (Literal c # r) s = (s \<noteq> [] \<and> hd s = c \<and> re_match r (tl s))"

definition atom_of :: "char \<Rightarrow> atom" where
  "atom_of c =
     (if c = CHR ''*'' then Any_Text else if is_blank c then Blanks
      else if c = CHR ''?'' \<or> is_sep c then Separator else Literal c)"

lemma parse_glob_char: "parse_re (glob_char c @ s) = atom_of c # parse_re s"
  by (auto simp: glob_char_def atom_of_def is_blank_def is_sep_def)

lemma parse_glob: "parse_re (concat (map glob_char g)) = map atom_of g"
  by (induction g) (simp_all add: parse_glob_char)

lemma re_match_glob: "re_match (map atom_of g) s = glob_matches g s"
  by (induction g arbitrary: s) (simp_all add: atom_of_def)

definition globs_env :: cfg_env where
  "globs_env = \<lparr>regex = (\<lambda>r. Some (re_match (parse_re r))), initial = (\<lambda>_. Bits [])\<rparr>"

lemma globs_env_ok: "boost_ok globs_env"
proof -
  have "re_match (parse_re (uvm_glob_to_regex g)) s = glob_matches g s" if "plain_glob g" for g s
  proof -
    have "uvm_glob_to_regex g = concat (map glob_char g)"
      using that by (auto simp: plain_glob_def uvm_glob_to_regex_def)
    then show ?thesis by (simp add: parse_glob re_match_glob)
  qed
  then show ?thesis by (simp add: boost_ok_def globs_env_def fun_eq_iff)
qed

section \<open>The hash table\<close>

text \<open>
  C12. A hash table of strings is a finite map: whatever calls are made, with keys without a NUL, the results
  (0 or 1 for an insertion, a removal or a lookup, the contents found, the number of entries and of removed
  entries) are those of a map from strings, where a missing key has the default value and
  \<open>insert_if_not_exists\<close> keeps the old contents. A bin has at most five entries on average.
\<close>

theorem hash_table_is_map:
  assumes "\<forall>op\<in>set ops. op_key_ok op"
  shows "\<exists>h. hash_run ops (sc_strhash d) = Inr (fst (map_run d ops Map.empty), h) \<and>
    phash_map h = snd (map_run d ops Map.empty) \<and> num_entries h \<le> 5 * int (num_bins h)"
proof -
  have "phash_map (sc_strhash d) = Map.empty" by (simp add: strhash_map fun_eq_iff)
  then obtain h where h: "hash_run ops (sc_strhash d) = Inr (fst (map_run d ops Map.empty), h)"
    "phash_map h = snd (map_run d ops Map.empty)" "load_ok h" "phash_params h = phash_params (sc_strhash d)"
    using hash_run_refines [OF assms strhash_ok refl load_strhash, of d] by auto
  have "max_density h = 5" using h(4) by (simp add: phash_params_def sc_strhash_def sc_phash_base_def)
  then show ?thesis using h by (auto simp: load_ok_def)
qed

lemma hash_table_is_map_witness:
  "\<exists>h. hash_run [Insert ''addr'' 4, Insert ''data'' 5, Insert_New ''addr'' 6, Remove ''data'', Lookup ''addr'', Count]
      (sc_strhash (0 :: nat)) = Inr ([(0, 4), (0, 5), (1, 6), (1, 0), (1, 4), (1, 0)], h) \<and>
    phash_map h = [''addr'' \<mapsto> 4] \<and> num_entries h \<le> 5 * int (num_bins h)"
  using hash_table_is_map [of "[Insert ''addr'' 4, Insert ''data'' 5, Insert_New ''addr'' 6, Remove ''data'',
    Lookup ''addr'', Count]" "0 :: nat"]
  by (simp add: nul_free_def fun_upd_twist)

section \<open>The configuration database\<close>





















text \<open>The database of a program that has registered no callback.\<close>

definition initial_db :: "('v, 't) uvm_db" where
  "initial_db = (new_db [])\<lparr>uvm_config_callback_vec := Cb_Null\<rparr>"

lemma db_rel_callbacks: "db_rel (s\<lparr>uvm_config_callback_vec := x\<rparr>) A = db_rel s A"
proof -
  let ?s = "s\<lparr>uvm_config_callback_vec := x\<rparr>"
  have "queue ?s = queue s" "rsrc_map c ?s = rsrc_map c s" for c by (simp_all add: queue_def rsrc_map_def fun_eq_iff)
  moreover from this have "setting_rel ?s = setting_rel s" by (simp add: fun_eq_iff setting_rel_def)
  ultimately show ?thesis by (simp add: db_rel_def cntxt_ok_def)
qed

lemma config_set_no_callbacks:
  assumes rel: "db_rel s A" and "plain_name f" and "plain_glob (set_scope_of c i)"
  shows "uvm_config_callback_vec s = Cb_Null \<Longrightarrow> config_set env ty c i f v s = Inl Null_Deref"
    and "uvm_config_callback_vec s = Cb_Deleted \<Longrightarrow> config_set env ty c i f v s = Inl Dangling_Ptr"
proof -
  obtain ph B where "A = (ph, B)" by (cases A)
  then obtain p s1 where "config_store env ty c i f v s = Inr (p, s1)"
    "uvm_config_callback_vec s1 = uvm_config_callback_vec s"
    using config_store_rel [OF _ assms(2,3)] rel by metis
  then show "uvm_config_callback_vec s = Cb_Null \<Longrightarrow> config_set env ty c i f v s = Inl Null_Deref"
    "uvm_config_callback_vec s = Cb_Deleted \<Longrightarrow> config_set env ty c i f v s = Inl Dangling_Ptr"
    by (simp_all add: config_set_def uvm_config_callback_def)
qed

text \<open>
  C21. \<open>uvm_config_db::set\<close> works only while a callback is registered: before the first registration it
  dereferences a null pointer, and after the last component has unregistered, whatever was set in between,
  it reads the vector that \<open>uvm_unregister_config_callback\<close> has deleted; so does a new registration.
\<close>

theorem set_needs_callback:
  assumes "\<forall>call\<in>set calls. call_ok call" and "plain_name f" and "plain_glob (set_scope_of c i)"
  shows "config_set env ty c i f v initial_db = Inl Null_Deref \<and>
    uvm_register_config_callback n initial_db = Inr (new_db [n]) \<and>
    (\<exists>s s'. db_run env calls (new_db [n]) = Inr s \<and> uvm_unregister_config_callback n s = Inr s' \<and>
      config_set env ty c i f v s' = Inl Dangling_Ptr \<and> uvm_register_config_callback m s' = Inl Dangling_Ptr)"
proof -
  have "config_set env ty c i f v initial_db = Inl Null_Deref"
    by (rule config_set_no_callbacks(1) [OF _ assms(2,3), where A = "(None, \<lambda>_. [])"])
      (simp_all add: initial_db_def db_rel_callbacks new_db_rel)
  moreover have "uvm_register_config_callback n initial_db = Inr (new_db [n])"
    by (simp add: uvm_register_config_callback_def initial_db_def new_db_def)
  moreover obtain s where s: "db_run env calls (new_db [n]) = Inr s" "db_rel s (spec_run env calls)"
    "uvm_config_callback_vec s = Cb_Live [n]"
    using db_run_rel [OF assms(1)] by metis
  let ?s = "s\<lparr>uvm_config_callback_vec := Cb_Deleted\<rparr>"
  have "uvm_unregister_config_callback n s = Inr ?s" "uvm_register_config_callback m ?s = Inl Dangling_Ptr"
    using s(3) by (simp_all add: uvm_unregister_config_callback_def uvm_register_config_callback_def)
  moreover have "config_set env ty c i f v ?s = Inl Dangling_Ptr"
    by (rule config_set_no_callbacks(2) [OF _ assms(2,3), where A = "spec_run env calls"]) (simp_all add: db_rel_callbacks s(2))
  ultimately show ?thesis using s(1) by metis
qed

lemma set_needs_callback_witness:
  "config_set globs_env T_string ''top'' ''env'' ''mode'' (Str ''fast'') initial_db = Inl Null_Deref \<and>
    uvm_register_config_callback 1 initial_db = Inr (new_db [1] :: cfg_db) \<and>
    (\<exists>s s'. db_run globs_env [Config_Set T_string ''top'' ''*'' ''mode'' (Str ''slow'')] (new_db [1]) = Inr s \<and>
      uvm_unregister_config_callback 1 s = Inr s' \<and>
      config_set globs_env T_string ''top'' ''env'' ''mode'' (Str ''fast'') s' = Inl Dangling_Ptr \<and>
      uvm_register_config_callback 2 s' = Inl Dangling_Ptr)"
proof (rule set_needs_callback)
  show "\<forall>call\<in>set [Config_Set T_string ''top'' ''*'' ''mode'' (Str ''slow'') :: (cfg_value, cfg_type) db_call].
    call_ok call" by code_simp
  show "plain_name ''mode''" "plain_glob (set_scope_of ''top'' ''env'')" by code_simp+
qed

section \<open>The factory\<close>

text \<open>
  C9. The factory behaves as two finite maps and the settings of the configuration database: in any
  sequence of registrations, overrides, creations, queries and changes of the phase, with type names that
  are plain and of at most 900 characters, every call returns and gives what the specification says. The
  type created is that of the instance override with the highest precedence whose scope covers the path, else
  that of the type override, else the type asked for; an unregistered type and one of the other kind give
  a null pointer. An override to an unregistered type and one that must not replace another throw, and
  change nothing.
\<close>

theorem factory_refines:
  assumes "boost_ok env" and "\<forall>call\<in>set calls. factory_call_ok call"
  shows "\<exists>s. factory_run env calls (new_factory cs) = Inr (fst (factory_spec_run env calls new_factory_spec), s)"
  by (rule new_factory_run [OF assms])

lemma factory_refines_witness:
  "\<exists>s. factory_run globs_env [Register ''a'' (Component_Creator 1), Register ''b'' (Object_Creator 2),
      Type_Override ''a'' ''c'' True, Type_Override ''a'' ''b'' True, Create_Component ''a'' ''top'' ''x'',
      Create_Object ''a'' ''top'' ''x'' False, Create_Component ''b'' ''top'' ''y'', Is_Registered ''c''] (new_factory []) =
    Inr ([Done, Done, Overridden (Some UVM_CREATOR_NOT_FOUND), Overridden None, Made None, Made (Some (2, ''x'')),
      Made None, Answer False], s)"
proof -
  let ?calls = "[Register ''a'' (Component_Creator 1), Register ''b'' (Object_Creator 2),
    Type_Override ''a'' ''c'' True, Type_Override ''a'' ''b'' True, Create_Component ''a'' ''top'' ''x'',
    Create_Object ''a'' ''top'' ''x'' False, Create_Component ''b'' ''top'' ''y'', Is_Registered ''c'']"
  have "\<forall>call\<in>set ?calls. factory_call_ok call"
    by (simp add: type_name_ok_def plain_name_def plain_char_def nul_free_def is_sep_def is_blank_def)
  from factory_refines [OF globs_env_ok this, of "[]"] show ?thesis
    by (simp add: new_factory_spec_def made_def created_type_def inst_overrides_def spec_get_def
      as_object_creator_def as_component_creator_def)
qed

fun inst_override_of :: "factory_call \<Rightarrow> string option" where
  "inst_override_of (Inst_Override path t t') = Some t"
| "inst_override_of _ = None"

lemma factory_spec_run_append:
  "factory_spec_run env (calls @ calls') S =
     (let (xs, S) = factory_spec_run env calls S; (ys, S) = factory_spec_run env calls' S in (xs @ ys, S))"
  by (induction calls arbitrary: S) (simp_all add: case_prod_beta)

lemma spec_do_frame: "inst_override_of call \<noteq> Some t \<Longrightarrow> snd (sp_db (snd (spec_do env call S))) t = snd (sp_db S) t"
  by (cases call; cases "sp_db S") auto

lemma factory_spec_run_frame:
  assumes "\<forall>call\<in>set calls. inst_override_of call \<noteq> Some t"
  shows "snd (sp_db (snd (factory_spec_run env calls S))) t = snd (sp_db S) t"
  using assms by (induction calls arbitrary: S) (simp_all add: case_prod_beta spec_do_frame)

text \<open>
  C18. An instance override goes before a type override, and neither is followed further: after any
  calls without an instance override of \<open>t\<close>, a type override of \<open>t\<close> by \<open>t1\<close> and an instance override of it by
  \<open>t2\<close> make \<open>create_component\<close> call the creator of \<open>t2\<close> where the instance path covers the component and that
  of \<open>t1\<close> elsewhere, also when \<open>t1\<close> and \<open>t2\<close> are overridden themselves.
\<close>

theorem instance_override_first:
  assumes "boost_ok env" and "\<forall>call\<in>set calls. factory_call_ok call \<and> inst_override_of call \<noteq> Some t"
    and "type_name_ok t" and "type_name_ok t1" and "type_name_ok t2" and "t1 \<noteq> t2"
    and "plain_glob (set_scope_of INST_OVERRIDE_CNTXT inst)"
  shows "\<exists>xs s. factory_run env (calls @ [Register t1 c1, Register t2 c2, Type_Override t t1 True, Inst_Override inst t t2,
      Create_Component t path nm]) (new_factory cs) = Inr (xs, s) \<and>
    last xs = Made (map_option (\<lambda>n. (n, nm)) (as_component_creator
      (if glob_matches (set_scope_of INST_OVERRIDE_CNTXT inst) (get_scope INST_OVERRIDE_CNTXT (path @ ''.'' @ nm))
       then c2 else c1)))"
proof -
  let ?calls = "calls @ [Register t1 c1, Register t2 c2, Type_Override t t1 True, Inst_Override inst t t2,
    Create_Component t path nm]"
  have ok: "\<forall>call\<in>set ?calls. factory_call_ok call" using assms(2-7) by auto
  obtain xs S where S: "factory_spec_run env calls new_factory_spec = (xs, S)" by (cases "factory_spec_run env calls new_factory_spec")
  obtain ph A where A: "sp_db S = (ph, A)" by (cases "sp_db S")
  have "A t = []"
    using factory_spec_run_frame [of calls t env new_factory_spec] assms(2) S A by (simp add: new_factory_spec_def)
  then have "last (fst (factory_spec_run env ?calls new_factory_spec)) = Made (map_option (\<lambda>n. (n, nm)) (as_component_creator
      (if glob_matches (set_scope_of INST_OVERRIDE_CNTXT inst) (get_scope INST_OVERRIDE_CNTXT (path @ ''.'' @ nm))
       then c2 else c1)))"
    using assms(6) S A
    by (simp add: factory_spec_run_append made_def created_type_def inst_overrides_def spec_get_def visible_def)
  then show ?thesis using new_factory_run [OF assms(1) ok] by metis
qed

lemma instance_override_first_witness:
  "\<exists>xs s. factory_run globs_env ([Register ''a'' (Component_Creator 3), Type_Override ''b'' ''a'' True] @
      [Register ''b'' (Component_Creator 1), Register ''c'' (Component_Creator 2), Type_Override ''a'' ''b'' True,
       Inst_Override ''top.x'' ''a'' ''c'', Create_Component ''a'' ''top'' ''x'']) (new_factory []) = Inr (xs, s) \<and>
    last xs = Made (Some (2, ''x''))"
proof -
  let ?calls = "[Register ''a'' (Component_Creator 3), Type_Override ''b'' ''a'' True]"
  have names: "type_name_ok ''a''" "type_name_ok ''b''" "type_name_ok ''c''"
    by (simp_all add: type_name_ok_def plain_name_def plain_char_def nul_free_def is_sep_def is_blank_def)
  then have "\<forall>call\<in>set ?calls. factory_call_ok call \<and> inst_override_of call \<noteq> Some ''a''" by simp
  note * = instance_override_first [OF globs_env_ok this names, where inst = "''top.x''" and path = "''top''" and nm = "''x''"
      and ?c1.0 = "Component_Creator 1" and ?c2.0 = "Component_Creator 2" and cs = "[]"]
  have "plain_glob (set_scope_of INST_OVERRIDE_CNTXT ''top.x'')"
    "glob_matches (set_scope_of INST_OVERRIDE_CNTXT ''top.x'') (get_scope INST_OVERRIDE_CNTXT (''top'' @ ''.'' @ ''x''))"
    by code_simp+
  with * show ?thesis by (simp add: as_component_creator_def del: factory_run.simps)
qed

end
