(* ===== verification/Spec2Isabelle.thy ===== *)
theory Spec2Isabelle
  imports Sqlite_Properties Stl_Properties Bp_Properties Sc_Properties Uvm_Properties
begin

text \<open>
  A model of the C++ parts of the verification environment \<open>smtdv\<close> and the properties that
  make them correct.

  \<^bold>\<open>The parts of the program.\<close> A simulation talks to two shared libraries through DPI calls.
  \<open>dpi/sqlite3\<close> collects the fields of a record in a table (\<open>SMTDV_Table\<close>), sends them to an
  SQLite database as \<open>CREATE TABLE\<close> and \<open>INSERT\<close> commands, and copies the rows of a query into
  a pool of rows of columns (\<open>SMTDV_Pool\<close>, \<open>SMTDV_Row\<close>, \<open>SMTDV_Column\<close>) that the simulation
  walks by index. \<open>dpi/stl\<close> parses a trace file of bus transfers into a mailbox
  (\<open>SMTDV_MailBox\<close>) of transfers (\<open>SMTDV_Transfer\<close>) that the simulation reads one by one and
  whose fields it gets and sets as text.

  The environment runs on the UVM-ML backplane, \<open>kernel/UVM_ML-1.5.1/ml/backplane\<close>. Adapters of
  verification frameworks (SystemVerilog, SystemC, e) register with it a table of functions, and
  call the functions of the table it gives to them: they name root components, connect ports,
  translate type names, send transactions, notify phases, events and barriers, and execute
  commands. The backplane keeps the frameworks, connections, types and tops and calls the
  adapters back. The adapters are parameters of the model: a framework's table of functions on a
  state of type \<open>'w\<close> that the backplane only passes on.

  What the backplane carries are streams of words. The adapter of SystemC makes them with its packer
  (\<open>adapters/uvm_sc/common/uvm_ml_packer.cpp\<close>): a value is packed into the words of a packed object,
  which are copied to the stream, and the other side copies the stream into a packed object and
  unpacks it.

  The components of a SystemC framework are built with the class library \<open>frameworks/uvm/sc\<close>. Its
  configuration database (\<open>uvm_config_db\<close>, over \<open>uvm_resource_pool\<close>) holds named values that are visible
  where their scope, a glob, matches. Its factory (\<open>uvm_factory\<close>) creates objects and components by type
  name and lets a test replace one type by another, everywhere or below a path; it keeps its creators and
  type overrides in the hash tables of the SystemC library (\<open>sc_strhash\<close>) and its instance overrides in the
  configuration database.

  \<^bold>\<open>The theories.\<close>
  \<open>Smtdv_Prelude\<close>: failures as values (\<open>cpp_error\<close>, \<open>res\<close>), pointers, and \<open>std::map\<close> as an
  ordered association list behind the interface \<open>ordered_store\<close>.
  \<open>Cpp_Streams\<close>: the part of \<open>std::stringstream\<close> the code uses and \<open>dpi_smtdv_util.h\<close>.
  \<open>Sqlite_Table\<close>: \<open>dpi_smtdv_table.cpp\<close>, with the abstract table (a map from field names to a
  type and a value) and the commands it should build.
  \<open>Sqlite_Pool\<close>: \<open>dpi_smtdv_pool.cpp\<close> over an explicit heap, with the ownership invariant.
  \<open>Sqlite_Db\<close>: \<open>dpi_smtdv_sqlite3.cpp\<close>; the functions of \<open>sqlite3\<close> are the fields of the
  parameter \<open>sqlite3_api\<close>, about which nothing is assumed.
  \<open>Sqlite_Lib\<close>: \<open>dpi_smtdv_lib.cpp\<close>, the calls as a step relation, reachable states and their
  invariant, and the walk over a pool as an instance of \<open>indexed_reader\<close>.
  \<open>Sqlite_Properties\<close>: the properties of that library.
  \<open>Stl_Transfer\<close>: \<open>dpi_smtdv_transfer.cpp\<close> and the accessors of \<open>dpi_smtdv_wrapper.cpp\<close>.
  \<open>Stl_Lexer\<close> and \<open>Stl_Parser\<close>: the rules of \<open>dpi_smtdv_parser.l\<close> and the grammar and actions
  of \<open>dpi_smtdv_parser.y\<close>. The tables flex and bison generate from them are not modelled
  separately.
  \<open>Stl_Trace\<close>: how a trace is written and what its lines mean, and the lemmas that relate the
  scanner, the grammar and the actions to it.
  \<open>Stl_Lib\<close>: the calls as a step relation with its invariant, and the mailbox as an instance of
  \<open>cursor_box\<close>.
  \<open>Stl_Properties\<close>: the properties of that library.

  \<open>Bp_Names\<close>: paths, tokens and arguments (\<open>bp_utils.cpp\<close> and the parsing in
  \<open>bp_base_interconnect.cpp\<close>).
  \<open>Bp_State\<close>: the static members of \<open>BpInterconnect\<close> as one record, \<open>bp_state\<close>, and the tables of
  adapter functions (\<open>bp_required.h\<close>).
  \<open>Bp_View\<close>: what a call leaves alone, as locales (\<open>call_view\<close>, \<open>phase_view\<close>, ...) that say which
  parts of the state an operation of each kind may write.
  \<open>Bp_Registry\<close>: framework proxies, their registration and the broadcasts to the others
  (\<open>bp_framework_proxy.cpp\<close>, \<open>bp_base_interconnect.cpp\<close>).
  \<open>Bp_Types\<close>: type ids (\<open>bp_type_map.cpp\<close>). \<open>Bp_Connect\<close>: connections and routes
  (\<open>bp_connection.cpp\<close>, \<open>bp_hierarchy.cpp\<close>, \<open>bp_query_interconnect.cpp\<close>).
  \<open>Bp_Transport\<close>: the TLM calls (\<open>bp_transaction_interconnect.cpp\<close>).
  \<open>Bp_Stop\<close>, \<open>Bp_Phase\<close>, \<open>Bp_Schedule\<close>: stop requests, phase notifications, and the common phase
  service with its machine \<open>service_step\<close> (\<open>uvm_ml_phase_service.cpp\<close>,
  \<open>common_services_framework.cpp\<close>).
  \<open>Bp_Tops\<close>: command line arguments, tops, elaboration and reset (\<open>bp_top_descriptor.cpp\<close>).
  \<open>Bp_Tree\<close> and \<open>Bp_Command\<close>: the debug commands and the parsing of their options
  (\<open>bp_debug.cpp\<close>, \<open>bp_command_options.cpp\<close>).
  \<open>Bp_Provided\<close>: the functions given to the adapters (\<open>bp_provided.cpp\<close>).
  \<open>Bp_Calls\<close>: a call of that table as a datatype, \<open>bp_do\<close>, and the states that successful calls
  lead to, \<open>bp_reach\<close>.
  \<open>Bp_Invariant\<close>, \<open>Bp_Reach\<close>, \<open>Bp_Reachable\<close>: the invariants of those states; each is a predicate
  on a view of the state, and the locale \<open>kept_invariant\<close> is interpreted for each.
  \<open>Bp_Demo\<close>: two small adapters and a session, the instance of the witnesses.
  \<open>Bp_Properties\<close>: the properties of the backplane.

  \<open>Sc_Bytes\<close>: memory as cells that may never have been written, words as bytes, and patterns of cells
  that a reader looks at.
  \<open>Sc_Monad\<close>: operations that change the packer and may throw, and the contract \<open>packing\<close> of a packer:
  a state holds the cells that were packed and not yet unpacked.
  \<open>Sc_Nbits\<close>: \<open>sc_signed\<close> and \<open>sc_unsigned\<close> of the SystemC library, a sign and digits of 30 bits, and
  their exchange with words of 32 bits (\<open>sc_nbcommon.inc\<close>, \<open>sc_nbutils.h\<close>).
  \<open>Sc_Packer\<close>: the buffer of the packer (\<open>packer\<close>), one operation per type, \<open>pack_value\<close> and
  \<open>unpack_value\<close> over all of them, packed objects and streams (\<open>uvm_ml_adapter.cpp\<close>,
  \<open>uvm_ml_packer.h\<close>).
  \<open>Sc_Packing\<close> and \<open>Sc_Unpacking\<close>: growth and contents of the buffer, the packer as an instance of
  \<open>packing\<close>, and the lemmas on the operations of the scalars, strings and vectors.
  \<open>Sc_Codec\<close>: the cells of a value, \<open>encode\<close>, which values are given back, \<open>fits\<close>, and the two lemmas
  that every value is packed as its cells and unpacked from them.
  \<open>Sc_Transport\<close>: packed objects and streams that carry the cells of a value, and reads that fail.
  \<open>Sc_Properties\<close>: the properties of the packer.

  \<open>Sc_Hash\<close>: the hash table \<open>sc_hash.cpp\<close> and \<open>sc_hash.h\<close>, with its iterators and the table of strings, and
  the contract \<open>dictionary\<close>. \<open>Sc_Hash_Map\<close>: the invariant of a table, the map it stands for, the table as an
  instance of \<open>dictionary\<close>, and sequences of calls.
  \<open>Uvm_Resource\<close>: resources, the pool, the resource and the configuration database and their callbacks
  (\<open>uvm_resource_base.cpp\<close>, \<open>uvm_resource_t.h\<close>, \<open>uvm_resource_pool.cpp\<close>, \<open>uvm_resource_db.h\<close>,
  \<open>uvm_config_db.h\<close>, \<open>uvm_globals.cpp\<close>) as one record, \<open>uvm_db\<close>. \<open>Uvm_Database\<close>: what a glob means, the
  specification, a list of settings for each field, and the relation \<open>db_rel\<close> that every call keeps.
  \<open>Uvm_Factory\<close>: \<open>uvm_factory.cpp\<close> and the methods of \<open>uvm_component.cpp\<close> that call it.
  \<open>Uvm_Factory_Spec\<close>: the specification of the factory, two maps and the settings, and its relation to the
  code.
  \<open>Uvm_Properties\<close>: the properties of these parts.

  \<^bold>\<open>Modelling choices.\<close> A failure of an operation is a value: \<open>exit\<close>, a failed \<open>assert\<close>, or the
  kind of undefined behaviour the code would run into. Objects reached through pointers live in
  explicit heaps. A C++ loop is a structural recursion or a recursion with a proved measure, but
  for the walk of the command \<open>print_tree\<close>, whose depth depends on what the adapters answer: it
  takes fuel, out of fuel is \<open>None\<close>, and fuel above the depth plus the level of the root is enough
  for every depth but \<open>all\<close> (and for \<open>all\<close> when the components form trees of at most that depth).
  Unpacking takes fuel too, for the loop over a string and the nesting of objects: as much as the
  value has cells is enough. 64-bit and 32-bit integers are words; an overflow of \<open>int\<close> is a
  failure. Console output is a list of lines in the state of the library that prints; the backplane's
  messages are recorded by level, text and arguments and not formatted. A report that SystemC throws
  is a value of \<open>sc_report\<close>, and the state the packer has then is kept. The regular expressions of Boost are
  a parameter, \<open>regex\<close>; the properties assume of it that the expressions made from globs mean what the
  globs mean (\<open>boost_ok\<close>), and the matcher of the witnesses, \<open>globs_env\<close>, is proved to do so. The chains of a
  hash table are lists, an element of a chain is its position.

  \<^bold>\<open>Not modelled.\<close> The C library: \<open>sqlite3\<close> and \<open>getopt_long_only\<close> are parameters; \<open>dlsym\<close>, the
  loading of libraries and the formatting of messages are left out. The tables \<open>lex.yy.c\<close> and
  \<open>dpi_smtdv_parser.tab.c\<close> are generated. \<open>dpi/sc_sv\<close> holds drafts that do not compile. Of the vendored
  SystemC library only the hash table and the representations of the data types that the packer reads and
  writes are modelled; its simulation kernel, and Boost and SVUnit under \<open>kernel\<close>, are third-party code. The rest
  of the SystemC adapter connects processes and ports of that kernel to the backplane's table, and the
  phases, schedules, barriers, events and command line of the class library run on processes of the kernel. The
  packer's branches for other byte orders and simulators are left out, and so is its base class
  \<open>uvm_packer\<close>, whose packer the adapter never hands out. The libraries under \<open>lib\<close>, the tests and the
  designs are SystemVerilog and Verilog.
\<close>

end
